(* ===== verification/Prelude.thy ===== *)
theory Prelude
  imports Main "HOL-Library.AList"
begin

section \<open>Prelude: effects, dictionaries and shared lemmas\<close>

text \<open>
  This theory holds what every component of the model shares.

  \<^item> A Python method that reads and writes the fields of an object and may raise is a value of
    the type \<open>prog\<close>: a function from the state to a result and the state left behind.  The state
    is returned on the error branch too, because a Python method that raises keeps every
    assignment made before the \<open>raise\<close>.
  \<^item> A Python \<open>dict\<close> keeps insertion order and its keys are unique: it is an association list
    with distinct keys, written by \<^const>\<open>AList.update\<close> (in place, or appended at the end) and
    \<^const>\<open>AList.delete\<close>, and read by \<^const>\<open>map_of\<close>.
  \<^item> The Hoare-style judgement \<open>hoare\<close> states what a program guarantees on its normal and on its
    exceptional outcome; its rules are collected in \<open>hoare_intros\<close> and the frame facts of the
    components in \<open>frame_simps\<close>.
\<close>

named_theorems hoare_intros \<open>introduction rules for the judgement hoare\<close>
named_theorems frame_simps \<open>which operation leaves which part of a state unchanged\<close>
named_theorems prog_simps \<open>how the program combinators run\<close>

subsection \<open>Programs with state and exceptions\<close>

type_synonym ('s, 'e, 'a) prog = "'s \<Rightarrow> ('e + 'a) \<times> 's"

definition ret :: "'a \<Rightarrow> ('s, 'e, 'a) prog" where
  "ret x = (\<lambda>s. (Inr x, s))"

definition raise :: "'e \<Rightarrow> ('s, 'e, 'a) prog" where
  "raise e = (\<lambda>s. (Inl e, s))"

definition bindM :: "('s, 'e, 'a) prog \<Rightarrow> ('a \<Rightarrow> ('s, 'e, 'b) prog) \<Rightarrow> ('s, 'e, 'b) prog" where
  "bindM m f = (\<lambda>s. case m s of (Inl e, s') \<Rightarrow> (Inl e, s') | (Inr x, s') \<Rightarrow> f x s')"

definition thenM :: "('s, 'e, 'a) prog \<Rightarrow> ('s, 'e, 'b) prog \<Rightarrow> ('s, 'e, 'b) prog" where
  "thenM m n = bindM m (\<lambda>_. n)"

text \<open>\<open>catchM m h\<close> is \<open>try: m except: h\<close>; \<open>finallyM m f\<close> is \<open>try: m finally: f\<close>, where an
  exception of \<open>f\<close> replaces the outcome of \<open>m\<close>.\<close>

definition catchM :: "('s, 'e, 'a) prog \<Rightarrow> ('e \<Rightarrow> ('s, 'e, 'a) prog) \<Rightarrow> ('s, 'e, 'a) prog" where
  "catchM m h = (\<lambda>s. case m s of (Inl e, s') \<Rightarrow> h e s' | (Inr x, s') \<Rightarrow> (Inr x, s'))"

definition finallyM :: "('s, 'e, 'a) prog \<Rightarrow> ('s, 'e, unit) prog \<Rightarrow> ('s, 'e, 'a) prog" where
  "finallyM m f = (\<lambda>s. case m s of (r, s') \<Rightarrow>
     (case f s' of (Inl e, s'') \<Rightarrow> (Inl e, s'') | (Inr _, s'') \<Rightarrow> (r, s'')))"

definition getsM :: "('s \<Rightarrow> 'a) \<Rightarrow> ('s, 'e, 'a) prog" where
  "getsM f = (\<lambda>s. (Inr (f s), s))"

definition modifyM :: "('s \<Rightarrow> 's) \<Rightarrow> ('s, 'e, unit) prog" where
  "modifyM f = (\<lambda>s. (Inr (), f s))"

definition whenM :: "bool \<Rightarrow> ('s, 'e, unit) prog \<Rightarrow> ('s, 'e, unit) prog" where
  "whenM b m = (if b then m else ret ())"

definition liftE :: "'e + 'a \<Rightarrow> ('s, 'e, 'a) prog" where
  "liftE r = (\<lambda>s. (r, s))"

text \<open>A method of one component, run inside a larger state that owns the component.\<close>

definition zoomM :: "('s \<Rightarrow> 'c) \<Rightarrow> ('c \<Rightarrow> 's \<Rightarrow> 's) \<Rightarrow> ('c, 'e, 'a) prog \<Rightarrow> ('s, 'e, 'a) prog" where
  "zoomM g p m = (\<lambda>s. case m (g s) of (r, c) \<Rightarrow> (r, p c s))"

fun forM :: "('a \<Rightarrow> ('s, 'e, unit) prog) \<Rightarrow> 'a list \<Rightarrow> ('s, 'e, unit) prog" where
  "forM f [] = ret ()"
| "forM f (x # xs) = thenM (f x) (forM f xs)"

fun mapM :: "('a \<Rightarrow> ('s, 'e, 'b) prog) \<Rightarrow> 'a list \<Rightarrow> ('s, 'e, 'b list) prog" where
  "mapM f [] = ret []"
| "mapM f (x # xs) = bindM (f x) (\<lambda>y. bindM (mapM f xs) (\<lambda>ys. ret (y # ys)))"

abbreviation result_of :: "('e + 'a) \<times> 's \<Rightarrow> 'e + 'a" where
  "result_of \<equiv> fst"

abbreviation state_of :: "('e + 'a) \<times> 's \<Rightarrow> 's" where
  "state_of \<equiv> snd"

lemmas prog_defs = ret_def raise_def bindM_def thenM_def catchM_def finallyM_def getsM_def
  modifyM_def whenM_def liftE_def zoomM_def

lemma run_ret [prog_simps]: "ret x s = (Inr x, s)"
  and run_raise [prog_simps]: "raise e s = (Inl e, s)"
  and run_gets [prog_simps]: "getsM f s = (Inr (f s), s)"
  and run_modify [prog_simps]: "modifyM g s = (Inr (), g s)"
  and run_liftE [prog_simps]: "liftE r s = (r, s)"
  by (simp_all add: prog_defs)

lemma run_bind_Inr [prog_simps]: "m s = (Inr x, s') \<Longrightarrow> bindM m f s = f x s'"
  and run_bind_Inl [prog_simps]: "m s = (Inl e, s') \<Longrightarrow> bindM m f s = (Inl e, s')"
  and run_then_Inr [prog_simps]: "m s = (Inr x, s') \<Longrightarrow> thenM m n s = n s'"
  and run_then_Inl [prog_simps]: "m s = (Inl e, s') \<Longrightarrow> thenM m n s = (Inl e, s')"
  and run_catch_Inr [prog_simps]: "m s = (Inr x, s') \<Longrightarrow> catchM m h s = (Inr x, s')"
  and run_catch_Inl [prog_simps]: "m s = (Inl e, s') \<Longrightarrow> catchM m h s = h e s'"
  and run_finally_Inr [prog_simps]:
    "m s = (r, s') \<Longrightarrow> fin s' = (Inr u, s'') \<Longrightarrow> finallyM m fin s = (r, s'')"
  and run_zoom [prog_simps]: "m' (g s) = (r', c) \<Longrightarrow> zoomM g p m' s = (r', p c s)"
  by (simp_all add: prog_defs)

subsection \<open>What a program guarantees\<close>

text \<open>
  \<open>hoare P m Q E\<close>: from a state satisfying \<open>P\<close> the program either returns \<open>x\<close> in a state with
  \<open>Q x\<close> or raises \<open>e\<close> in a state with \<open>E e\<close>.  Every program of the model is a total function, so the
  judgement is about an outcome that exists.
\<close>

definition hoare ::
  "('s \<Rightarrow> bool) \<Rightarrow> ('s, 'e, 'a) prog \<Rightarrow> ('a \<Rightarrow> 's \<Rightarrow> bool) \<Rightarrow> ('e \<Rightarrow> 's \<Rightarrow> bool) \<Rightarrow> bool" where
  "hoare P m Q E \<longleftrightarrow>
     (\<forall>s. P s \<longrightarrow> (case m s of (Inr x, s') \<Rightarrow> Q x s' | (Inl e, s') \<Rightarrow> E e s'))"

abbreviation preserves :: "('s \<Rightarrow> bool) \<Rightarrow> ('s, 'e, 'a) prog \<Rightarrow> bool" where
  "preserves I m \<equiv> hoare I m (\<lambda>_. I) (\<lambda>_. I)"

lemma hoareI:
  assumes "\<And>s x s'. P s \<Longrightarrow> m s = (Inr x, s') \<Longrightarrow> Q x s'"
    and "\<And>s e s'. P s \<Longrightarrow> m s = (Inl e, s') \<Longrightarrow> E e s'"
  shows "hoare P m Q E"
  using assms by (fastforce simp: hoare_def split: prod.splits sum.splits)

lemma hoareD_Inr: "hoare P m Q E \<Longrightarrow> P s \<Longrightarrow> m s = (Inr x, s') \<Longrightarrow> Q x s'"
  by (fastforce simp: hoare_def)

lemma hoareD_Inl: "hoare P m Q E \<Longrightarrow> P s \<Longrightarrow> m s = (Inl e, s') \<Longrightarrow> E e s'"
  by (fastforce simp: hoare_def)

lemma preserves_iff: "preserves I m \<longleftrightarrow> (\<forall>s. I s \<longrightarrow> I (snd (m s)))"
  by (simp add: hoare_def split: prod.splits sum.splits) (metis Inl_Inr_False old.sum.exhaust snd_conv surj_pair)

lemma preserves_state: "preserves I m \<Longrightarrow> I s \<Longrightarrow> I (snd (m s))"
  by (simp add: preserves_iff)

lemma preservesI: "(\<And>s. I s \<Longrightarrow> I (snd (m s))) \<Longrightarrow> preserves I m"
  by (simp add: preserves_iff)

lemma hoare_pre: "hoare P m Q E \<Longrightarrow> (\<And>s. P' s \<Longrightarrow> P s) \<Longrightarrow> hoare P' m Q E"
  by (fastforce simp: hoare_def)

lemma hoare_post:
  "hoare P m Q E \<Longrightarrow> (\<And>x s. Q x s \<Longrightarrow> Q' x s) \<Longrightarrow> (\<And>e s. E e s \<Longrightarrow> E' e s) \<Longrightarrow> hoare P m Q' E'"
  by (fastforce simp: hoare_def split: prod.splits sum.splits)

lemma hoare_ret [hoare_intros]: "(\<And>s. P s \<Longrightarrow> Q x s) \<Longrightarrow> hoare P (ret x) Q E"
  by (simp add: hoare_def ret_def)

lemma hoare_raise [hoare_intros]: "(\<And>s. P s \<Longrightarrow> E e s) \<Longrightarrow> hoare P (raise e) Q E"
  by (simp add: hoare_def raise_def)

lemma hoare_bind: "hoare P m R E \<Longrightarrow> (\<And>x. hoare (R x) (f x) Q E) \<Longrightarrow> hoare P (bindM m f) Q E"
  by (fastforce simp: hoare_def bindM_def split: prod.splits sum.splits)

lemma hoare_then: "hoare P m (\<lambda>_. R) E \<Longrightarrow> hoare R n Q E \<Longrightarrow> hoare P (thenM m n) Q E"
  by (simp add: thenM_def hoare_bind)

lemma hoare_catch: "hoare P m Q F \<Longrightarrow> (\<And>e. hoare (F e) (h e) Q E) \<Longrightarrow> hoare P (catchM m h) Q E"
  by (fastforce simp: hoare_def catchM_def split: prod.splits sum.splits)

lemma hoare_gets [hoare_intros]: "(\<And>s. P s \<Longrightarrow> Q (f s) s) \<Longrightarrow> hoare P (getsM f) Q E"
  by (simp add: hoare_def getsM_def)

lemma hoare_modify [hoare_intros]: "(\<And>s. P s \<Longrightarrow> Q () (f s)) \<Longrightarrow> hoare P (modifyM f) Q E"
  by (simp add: hoare_def modifyM_def)

lemma hoare_liftE [hoare_intros]:
  "(\<And>s x. P s \<Longrightarrow> r = Inr x \<Longrightarrow> Q x s) \<Longrightarrow> (\<And>s e. P s \<Longrightarrow> r = Inl e \<Longrightarrow> E e s) \<Longrightarrow>
   hoare P (liftE r) Q E"
  by (cases r) (simp_all add: hoare_def liftE_def)

lemma hoare_if:
  "(b \<Longrightarrow> hoare P m Q E) \<Longrightarrow> (\<not> b \<Longrightarrow> hoare P n Q E) \<Longrightarrow> hoare P (if b then m else n) Q E"
  by simp

lemma preserves_ret [hoare_intros]: "preserves I (ret x)"
  and preserves_raise [hoare_intros]: "preserves I (raise e)"
  and preserves_gets [hoare_intros]: "preserves I (getsM f)"
  and preserves_liftE [hoare_intros]: "preserves I (liftE r)"
  by (simp_all add: hoare_def prog_defs split: sum.splits)

lemma preserves_bind [hoare_intros]:
  "preserves I m \<Longrightarrow> (\<And>x. preserves I (f x)) \<Longrightarrow> preserves I (bindM m f)"
  by (rule hoare_bind)

text \<open>The continuation of a pure check may use that the check succeeded.\<close>

lemma preserves_bind_liftE:
  "(\<And>x. r = Inr x \<Longrightarrow> preserves I (f x)) \<Longrightarrow> preserves I (bindM (liftE r) f)"
  by (cases r) (simp_all add: preserves_iff prog_defs)

lemma preserves_then [hoare_intros]: "preserves I m \<Longrightarrow> preserves I n \<Longrightarrow> preserves I (thenM m n)"
  by (rule hoare_then)

lemma preserves_catch [hoare_intros]:
  "preserves I m \<Longrightarrow> (\<And>e. preserves I (h e)) \<Longrightarrow> preserves I (catchM m h)"
  by (rule hoare_catch)

lemma preserves_finally [hoare_intros]:
  "preserves I m \<Longrightarrow> preserves I f \<Longrightarrow> preserves I (finallyM m f)"
  by (auto simp: preserves_iff finallyM_def split: prod.splits sum.splits)

lemma preserves_when [hoare_intros]: "(b \<Longrightarrow> preserves I m) \<Longrightarrow> preserves I (whenM b m)"
  by (simp add: whenM_def preserves_ret)

lemma preserves_forM [hoare_intros]:
  "(\<And>x. x \<in> set xs \<Longrightarrow> preserves I (f x)) \<Longrightarrow> preserves I (forM f xs)"
  by (induction xs) (auto intro: preserves_ret preserves_then)

lemma mapM_length: "mapM f xs s = (Inr ys, s') \<Longrightarrow> length ys = length xs"
  by (induction xs arbitrary: s ys) (auto simp: bindM_def ret_def split: prod.splits sum.splits)

lemma preserves_mapM [hoare_intros]:
  "(\<And>x. x \<in> set xs \<Longrightarrow> preserves I (f x)) \<Longrightarrow> preserves I (mapM f xs)"
  by (induction xs) (auto intro!: preserves_ret preserves_bind)

lemma preserves_zoom:
  assumes "preserves J m" and "\<And>s. I s \<Longrightarrow> J (g s)" and "\<And>s c. I s \<Longrightarrow> J c \<Longrightarrow> I (p c s)"
  shows "preserves I (zoomM g p m)"
  using assms by (auto simp: preserves_iff zoomM_def split: prod.splits) (metis snd_conv)

lemma preserves_zoom_frame:
  assumes "\<And>s c. I s \<Longrightarrow> I (p c s)"
  shows "preserves I (zoomM g p m)"
  using assms by (auto simp: preserves_iff zoomM_def split: prod.splits)

subsection \<open>Dictionaries\<close>

type_synonym ('k, 'v) pydict = "('k \<times> 'v) list"

abbreviation dict_ok :: "('k, 'v) pydict \<Rightarrow> bool" where
  "dict_ok d \<equiv> distinct (map fst d)"

abbreviation dict_values :: "('k, 'v) pydict \<Rightarrow> 'v list" where
  "dict_values d \<equiv> map snd d"

lemma dict_ok_update [simp, intro]: "dict_ok d \<Longrightarrow> dict_ok (AList.update k v d)"
  by (rule AList.distinct_update)

lemma dict_ok_delete [simp, intro]: "dict_ok d \<Longrightarrow> dict_ok (AList.delete k d)"
  by (rule AList.distinct_delete)

lemma dict_update_new: "map_of d k = None \<Longrightarrow> AList.update k v d = d @ [(k, v)]"
  by (induction d) (auto split: if_splits)

lemma dict_values_iff: "dict_ok d \<Longrightarrow> v \<in> set (dict_values d) \<longleftrightarrow> (\<exists>k. map_of d k = Some v)"
  by force

lemma map_of_update_same [simp]: "map_of (AList.update k v d) k = Some v"
  and map_of_update_other [simp]: "k' \<noteq> k \<Longrightarrow> map_of (AList.update k v d) k' = map_of d k'"
  by (simp_all add: AList.update_conv')

lemma map_of_delete_same [simp]: "map_of (AList.delete k d) k = None"
  by (simp add: AList.delete_conv')

lemma length_update_new: "map_of d k = None \<Longrightarrow> length (AList.update k v d) = Suc (length d)"
  by (simp add: dict_update_new)

lemma length_update_old: "map_of d k = Some w \<Longrightarrow> length (AList.update k v d) = length d"
  by (induction d) (auto split: if_splits)

lemma update_id: "map_of d k = Some v \<Longrightarrow> AList.update k v d = d"
  by (rule AList.update_triv)

lemma set_update_dict:
  "dict_ok d \<Longrightarrow> set (AList.update k v d) = insert (k, v) {p \<in> set d. fst p \<noteq> k}"
  by (induction d) (auto simp: rev_image_eqI)

lemma set_delete_dict: "set (AList.delete k d) = {p \<in> set d. fst p \<noteq> k}"
  by (auto simp: AList.delete_eq)

lemma dict_split:
  assumes "map_of d k = Some v"
  obtains a b where "d = a @ (k, v) # b" and "map_of a k = None"
    and "\<And>w. AList.update k w d = a @ (k, w) # b"
proof -
  have "\<exists>a b. d = a @ (k, v) # b \<and> map_of a k = None \<and> (\<forall>w. AList.update k w d = a @ (k, w) # b)"
    using assms
  proof (induction d)
    case (Cons p d)
    show ?case
    proof (cases "fst p = k")
      case True
      with Cons.prems show ?thesis by (intro exI [of _ "[]"] exI [of _ d]) (cases p, auto)
    next
      case False
      with Cons obtain a b where "d = a @ (k, v) # b" "map_of a k = None"
        "\<forall>w. AList.update k w d = a @ (k, w) # b" by (cases p) auto
      with False show ?thesis by (intro exI [of _ "p # a"] exI [of _ b]) (cases p, auto)
    qed
  qed simp
  with that show ?thesis by blast
qed

lemma map_of_delete_other [simp]: "k' \<noteq> k \<Longrightarrow> map_of (AList.delete k d) k' = map_of d k'"
  by (simp add: AList.delete_conv')

lemma map_of_update_fun: "map_of (AList.update k v d) = (map_of d)(k \<mapsto> v)"
  by (rule AList.update_conv')

lemma map_of_delete_fun: "map_of (AList.delete k d) = (map_of d)(k := None)"
  by (rule AList.delete_conv')

subsection \<open>Python slices and stable sorting\<close>

text \<open>\<open>xs[offset : offset + limit]\<close> for non-negative bounds.\<close>

definition py_slice :: "nat \<Rightarrow> nat \<Rightarrow> 'a list \<Rightarrow> 'a list" where
  "py_slice off lim xs = take lim (drop off xs)"

text \<open>
  \<open>list.sort(key=f, reverse=True)\<close>: descending in the key and stable, so elements with equal
  keys keep their order.  Negating an integer key turns the descending order into the ascending
  one of \<^const>\<open>sort_key\<close>, which is stable.
\<close>

definition sort_desc :: "('a \<Rightarrow> int) \<Rightarrow> 'a list \<Rightarrow> 'a list" where
  "sort_desc f xs = sort_key (\<lambda>x. - f x) xs"

lemma sort_desc_set [simp]: "set (sort_desc f xs) = set xs"
  by (simp add: sort_desc_def)

lemma sort_desc_length [simp]: "length (sort_desc f xs) = length xs"
  by (simp add: sort_desc_def)

lemma sort_desc_distinct [simp]: "distinct (sort_desc f xs) = distinct xs"
  by (simp add: sort_desc_def)

lemma sort_desc_sorted: "sorted_wrt (\<lambda>x y. f y \<le> f x) (sort_desc f xs)"
proof -
  have "sorted (map (\<lambda>x. - f x) (sort_desc f xs))"
    by (simp add: sort_desc_def)
  then show ?thesis
    by (simp add: sorted_map)
qed

lemma py_slice_set: "set (py_slice off lim xs) \<subseteq> set xs"
  by (auto simp: py_slice_def dest: in_set_takeD in_set_dropD)

lemma py_slice_length: "length (py_slice off lim xs) = min lim (length xs - off)"
  by (simp add: py_slice_def)

lemma py_slice_sorted: "sorted_wrt R xs \<Longrightarrow> sorted_wrt R (py_slice off lim xs)"
  by (simp add: py_slice_def)

text \<open>Python's \<open>max(xs, key=f, default=None)\<close>: the first element with the greatest key.\<close>

fun py_max :: "('a \<Rightarrow> int) \<Rightarrow> 'a list \<Rightarrow> 'a option" where
  "py_max f [] = None"
| "py_max f (x # xs) = (case py_max f xs of None \<Rightarrow> Some x
     | Some y \<Rightarrow> if f x \<ge> f y then Some x else Some y)"

lemma py_max_None [simp]: "py_max f xs = None \<longleftrightarrow> xs = []"
  by (cases xs) (auto split: option.splits)

lemma py_max_Some: "py_max f xs = Some m \<Longrightarrow> m \<in> set xs \<and> (\<forall>x \<in> set xs. f x \<le> f m)"
  by (induction xs arbitrary: m) (fastforce split: option.splits if_splits)+

text \<open>Python's \<open>min(xs, key=f)\<close> on a non-empty list: the first element with the least key.\<close>

fun py_min :: "('a \<Rightarrow> 'b :: linorder) \<Rightarrow> 'a list \<Rightarrow> 'a option" where
  "py_min f [] = None"
| "py_min f (x # xs) = (case py_min f xs of None \<Rightarrow> Some x
     | Some y \<Rightarrow> if f x \<le> f y then Some x else Some y)"

lemma py_min_None [simp]: "py_min f xs = None \<longleftrightarrow> xs = []"
  by (cases xs) (auto split: option.splits)

lemma py_min_Some: "py_min f xs = Some m \<Longrightarrow> m \<in> set xs \<and> (\<forall>x \<in> set xs. f m \<le> f x)"
  by (induction xs arbitrary: m) (fastforce split: option.splits if_splits)+

lemma distinct_map_remove1: "distinct (map f xs) \<Longrightarrow> distinct (map f (remove1 x xs))"
  by (auto simp: distinct_map intro: inj_on_diff)

lemma find_NoneD: "List.find P xs = None \<Longrightarrow> x \<in> set xs \<Longrightarrow> \<not> P x"
  by (auto simp: find_None_iff)

lemma find_SomeD: "List.find P xs = Some x \<Longrightarrow> x \<in> set xs \<and> P x"
  by (auto simp: find_Some_iff)

subsection \<open>Results in sequence\<close>

definition bindE :: "'e + 'a \<Rightarrow> ('a \<Rightarrow> 'e + 'b) \<Rightarrow> 'e + 'b" where
  "bindE r f = (case r of Inl e \<Rightarrow> Inl e | Inr x \<Rightarrow> f x)"

lemma bindE_simps [simp]: "bindE (Inl e) f = Inl e" "bindE (Inr x) f = f x"
  by (simp_all add: bindE_def)

lemma bindE_Inr: "bindE r f = Inr y \<longleftrightarrow> (\<exists>x. r = Inr x \<and> f x = Inr y)"
  by (auto simp: bindE_def split: sum.splits)

subsection \<open>A list of results\<close>

text \<open>What a comprehension or a loop yields whose body may raise: every value, or the first error.\<close>

fun collect :: "('e + 'a) list \<Rightarrow> 'e + 'a list" where
  "collect [] = Inr []"
| "collect (Inl e # _) = Inl e"
| "collect (Inr x # xs) = (case collect xs of Inl e \<Rightarrow> Inl e | Inr ys \<Rightarrow> Inr (x # ys))"

lemma collect_all [simp]: "collect (map Inr ys) = Inr ys"
  by (induction ys) auto

lemma collect_InrD: "collect rs = Inr ys \<Longrightarrow> rs = map Inr ys"
proof (induction rs arbitrary: ys)
  case (Cons r rs)
  then show ?case by (cases r) (auto split: sum.splits)
qed simp

lemma collect_Inr: "collect rs = Inr ys \<longleftrightarrow> rs = map Inr ys"
  using collect_InrD by auto


end
