(* ===== verification/Domain.thy ===== *)
theory Domain
  imports Python_Values
begin

section \<open>The domain layer\<close>

text \<open>
  The value objects of \<^verbatim>\<open>src/universal_runtime/domain\<close>: error codes, typed identifiers, the
  execution identity, run and thread entities with their state machine, requests, commands and
  receipts, events, assistants and adapter capabilities, and the record types of the ports.
  A frozen dataclass is a \<^theory_text>\<open>record\<close>, a \<open>StrEnum\<close> is a \<^theory_text>\<open>datatype\<close> with its text.
  The defensive \<open>deepcopy\<close> calls of the dataclasses disappear: values of the model are not shared.
\<close>

subsection \<open>Errors (domain/errors.py, adapters/langgraph/errors.py)\<close>

datatype error_code =
    ADAPTER_NOT_SUPPORTED | CAPABILITY_NOT_SUPPORTED | THREAD_BUSY | RUN_NOT_FOUND
  | INVALID_EXECUTION_INPUT | EXECUTION_CANCELLED | EXECUTION_TIMEOUT
  | INFRASTRUCTURE_UNAVAILABLE | FRAMEWORK_EXECUTION_FAILED | MIGRATION_LOCKED
  | RESOURCE_NOT_FOUND | QUEUE_CLOSED | STREAM_NOT_FOUND | STREAM_CURSOR_INVALID
  | STREAM_CURSOR_EXPIRED | STREAM_BACKPRESSURE | EVENT_SEQUENCE_CONFLICT
  | EVENT_SERIALIZATION_FAILED | PROJECTION_FAILED | ARTIFACT_TOO_LARGE | ARTIFACT_STORE_FAILED
  | CUSTOM_HTTP_UNAVAILABLE | CUSTOM_HTTP_TIMEOUT | CUSTOM_HTTP_ENTRYPOINT_INVALID
  | CUSTOM_HTTP_DISCOVERY_AMBIGUOUS | CUSTOM_HTTP_STARTUP_FAILED
  | CUSTOM_HTTP_RESPONSE_TOO_LARGE | ASGI_ADAPTER_NOT_INSTALLED | ASGI_SYNTAX_ERROR
  | APPLICATION_MIGRATION_FAILED

fun error_code_str :: "error_code \<Rightarrow> string" where
  "error_code_str ADAPTER_NOT_SUPPORTED = ''ADAPTER_NOT_SUPPORTED''"
| "error_code_str CAPABILITY_NOT_SUPPORTED = ''CAPABILITY_NOT_SUPPORTED''"
| "error_code_str THREAD_BUSY = ''THREAD_BUSY''"
| "error_code_str RUN_NOT_FOUND = ''RUN_NOT_FOUND''"
| "error_code_str INVALID_EXECUTION_INPUT = ''INVALID_EXECUTION_INPUT''"
| "error_code_str EXECUTION_CANCELLED = ''EXECUTION_CANCELLED''"
| "error_code_str EXECUTION_TIMEOUT = ''EXECUTION_TIMEOUT''"
| "error_code_str INFRASTRUCTURE_UNAVAILABLE = ''INFRASTRUCTURE_UNAVAILABLE''"
| "error_code_str FRAMEWORK_EXECUTION_FAILED = ''FRAMEWORK_EXECUTION_FAILED''"
| "error_code_str MIGRATION_LOCKED = ''MIGRATION_LOCKED''"
| "error_code_str RESOURCE_NOT_FOUND = ''RESOURCE_NOT_FOUND''"
| "error_code_str QUEUE_CLOSED = ''QUEUE_CLOSED''"
| "error_code_str STREAM_NOT_FOUND = ''STREAM_NOT_FOUND''"
| "error_code_str STREAM_CURSOR_INVALID = ''STREAM_CURSOR_INVALID''"
| "error_code_str STREAM_CURSOR_EXPIRED = ''STREAM_CURSOR_EXPIRED''"
| "error_code_str STREAM_BACKPRESSURE = ''STREAM_BACKPRESSURE''"
| "error_code_str EVENT_SEQUENCE_CONFLICT = ''EVENT_SEQUENCE_CONFLICT''"
| "error_code_str EVENT_SERIALIZATION_FAILED = ''EVENT_SERIALIZATION_FAILED''"
| "error_code_str PROJECTION_FAILED = ''PROJECTION_FAILED''"
| "error_code_str ARTIFACT_TOO_LARGE = ''ARTIFACT_TOO_LARGE''"
| "error_code_str ARTIFACT_STORE_FAILED = ''ARTIFACT_STORE_FAILED''"
| "error_code_str CUSTOM_HTTP_UNAVAILABLE = ''CUSTOM_HTTP_UNAVAILABLE''"
| "error_code_str CUSTOM_HTTP_TIMEOUT = ''CUSTOM_HTTP_TIMEOUT''"
| "error_code_str CUSTOM_HTTP_ENTRYPOINT_INVALID = ''CUSTOM_HTTP_ENTRYPOINT_INVALID''"
| "error_code_str CUSTOM_HTTP_DISCOVERY_AMBIGUOUS = ''CUSTOM_HTTP_DISCOVERY_AMBIGUOUS''"
| "error_code_str CUSTOM_HTTP_STARTUP_FAILED = ''CUSTOM_HTTP_STARTUP_FAILED''"
| "error_code_str CUSTOM_HTTP_RESPONSE_TOO_LARGE = ''CUSTOM_HTTP_RESPONSE_TOO_LARGE''"
| "error_code_str ASGI_ADAPTER_NOT_INSTALLED = ''ASGI_ADAPTER_NOT_INSTALLED''"
| "error_code_str ASGI_SYNTAX_ERROR = ''ASGI_SYNTAX_ERROR''"
| "error_code_str APPLICATION_MIGRATION_FAILED = ''APPLICATION_MIGRATION_FAILED''"

datatype langgraph_error_code =
    LG_CAPABILITY_NOT_SUPPORTED | LG_INVALID_GRAPH | LG_INVALID_PERSISTENCE | LG_LOAD_FAILED

text \<open>
  Everything the sources raise.  \<open>RuntimeFailureError\<close> carries code, message, the retryable flag and
  the details; \<open>CancelledError\<close> is the only one that is not an \<open>Exception\<close> (it derives from
  \<open>BaseException\<close>), so \<open>except Exception\<close> does not catch it.  \<open>FrameworkError\<close> stands for whatever
  an application graph or a client library raises, with its text.
\<close>

datatype exc =
    RuntimeFailureError error_code string bool obj
  | LangGraphAdapterError langgraph_error_code string
  | ValueError string
  | TypeError string
  | KeyError string
  | IndexError string
  | AttributeError string
  | RuntimeError string
  | TimeoutError string
  | FrameworkError string
  | CancelledError

definition runtime_failure :: "error_code \<Rightarrow> string \<Rightarrow> exc" where
  "runtime_failure code message = RuntimeFailureError code message False []"

definition is_exception :: "exc \<Rightarrow> bool" where
  "is_exception e \<longleftrightarrow> e \<noteq> CancelledError"

text \<open>\<open>str(exc)\<close>.\<close>

fun exc_str :: "exc \<Rightarrow> string" where
  "exc_str (RuntimeFailureError c m _ _) = error_code_str c @ '': '' @ m"
| "exc_str (LangGraphAdapterError _ m) = m"
| "exc_str (ValueError m) = m"
| "exc_str (TypeError m) = m"
| "exc_str (KeyError m) = repr_str m"
| "exc_str (IndexError m) = m"
| "exc_str (AttributeError m) = m"
| "exc_str (RuntimeError m) = m"
| "exc_str (TimeoutError m) = m"
| "exc_str (FrameworkError m) = m"
| "exc_str CancelledError = ''''"

lemma runtime_failure_inj [simp]:
  "runtime_failure c m = runtime_failure c' m' \<longleftrightarrow> c = c' \<and> m = m'"
  by (simp add: runtime_failure_def)

lemma runtime_failure_is_exception [simp]: "is_exception (runtime_failure c m)"
  by (simp add: runtime_failure_def is_exception_def)

lemma runtime_failure_neq [simp]:
  "runtime_failure c m \<noteq> ValueError x" "ValueError x \<noteq> runtime_failure c m"
  "runtime_failure c m \<noteq> CancelledError" "CancelledError \<noteq> runtime_failure c m"
  by (simp_all add: runtime_failure_def)

subsection \<open>Identifiers (domain/identity)\<close>

datatype typed_id =
    WorkspaceId string | ProjectId string | ApplicationId string | RevisionId string
  | DeploymentId string | AssistantId string | ThreadId string | RunId string
  | AttemptId string | EventId string | WorkerId string | CommandId string | LeaseId string
  | ConfigRevisionId string

fun id_value :: "typed_id \<Rightarrow> string" where
  "id_value (WorkspaceId v) = v"
| "id_value (ProjectId v) = v"
| "id_value (ApplicationId v) = v"
| "id_value (RevisionId v) = v"
| "id_value (DeploymentId v) = v"
| "id_value (AssistantId v) = v"
| "id_value (ThreadId v) = v"
| "id_value (RunId v) = v"
| "id_value (AttemptId v) = v"
| "id_value (EventId v) = v"
| "id_value (WorkerId v) = v"
| "id_value (CommandId v) = v"
| "id_value (LeaseId v) = v"
| "id_value (ConfigRevisionId v) = v"

text \<open>\<open>cls.parse(value)\<close>: the class is the constructor; \<open>__post_init__\<close> refuses the empty text.\<close>

definition parse_id :: "(string \<Rightarrow> typed_id) \<Rightarrow> string \<Rightarrow> exc + typed_id" where
  "parse_id cls value =
     (if value = [] then Inl (ValueError ''identifier must not be empty'') else Inr (cls value))"

text \<open>\<open>TypedId.__eq__\<close>: another identifier must have the same class and value; any other object is
  compared with the value itself.\<close>

datatype py_object = ObjId typed_id | ObjJson json

fun typed_id_eq :: "typed_id \<Rightarrow> py_object \<Rightarrow> bool" where
  "typed_id_eq a (ObjId b) = (a = b)"
| "typed_id_eq a (ObjJson v) = (JStr (id_value a) = v)"

text \<open>
  \<open>_generate_uuid7\<close>: 48 bits of millisecond time stamp, the version 7, 12 random bits, the variant 2
  and 62 random bits, printed as a UUID.
\<close>

unbundle bit_operations_syntax

definition uuid7_value :: "nat \<Rightarrow> nat \<Rightarrow> nat \<Rightarrow> nat" where
  "uuid7_value time_ms random_a random_b =
     push_bit 80 (time_ms AND (2 ^ 48 - 1)) OR push_bit 76 7 OR push_bit 64 random_a
       OR push_bit 62 2 OR random_b"

fun hex_digits :: "nat \<Rightarrow> nat \<Rightarrow> string" where
  "hex_digits 0 v = []"
| "hex_digits (Suc n) v = hex_digits n (v div 16) @ [hex_digit (v mod 16)]"

definition uuid_str :: "nat \<Rightarrow> string" where
  "uuid_str v = (let h = hex_digits 32 v in
     take 8 h @ ''-'' @ take 4 (drop 8 h) @ ''-'' @ take 4 (drop 12 h) @ ''-''
       @ take 4 (drop 16 h) @ ''-'' @ drop 20 h)"

definition generate_uuid7 :: "nat \<Rightarrow> nat \<Rightarrow> nat \<Rightarrow> string" where
  "generate_uuid7 time_ms random_a random_b = uuid_str (uuid7_value time_ms random_a random_b)"

record ApplicationScope =
  workspace_id :: typed_id
  project_id :: typed_id
  application_id :: typed_id
  revision_id :: typed_id
  deployment_id :: typed_id

record ExecutionIdentity =
  scope :: ApplicationScope
  assistant_id :: typed_id
  run_id :: typed_id
  attempt_id :: typed_id
  thread_id :: "typed_id option"

datatype scope_arg = ScopeObject ApplicationScope | ScopeWorkspace typed_id | ScopeMissing

definition missing_id :: "typed_id option \<Rightarrow> bool" where
  "missing_id v = (case v of None \<Rightarrow> True | Some i \<Rightarrow> id_value i = [])"

definition resolve_scope ::
  "scope_arg \<Rightarrow> typed_id option \<Rightarrow> typed_id option \<Rightarrow> typed_id option \<Rightarrow> typed_id option
   \<Rightarrow> typed_id option \<Rightarrow> exc + ApplicationScope" where
  "resolve_scope sc ws pr ap rv dp =
     (case sc of
        ScopeObject s \<Rightarrow> Inr s
      | _ \<Rightarrow>
        (let resolved = (case sc of ScopeWorkspace w \<Rightarrow> Some w | _ \<Rightarrow> ws)
         in if list_ex missing_id [resolved, pr, ap, rv, dp]
            then Inl (ValueError ''complete application scope is required'')
            else Inr \<lparr> workspace_id = the resolved, project_id = the pr, application_id = the ap,
                       revision_id = the rv, deployment_id = the dp \<rparr>))"

definition make_identity ::
  "scope_arg \<Rightarrow> typed_id option \<Rightarrow> typed_id option \<Rightarrow> typed_id option \<Rightarrow> typed_id option
   \<Rightarrow> typed_id option \<Rightarrow> typed_id option \<Rightarrow> typed_id option \<Rightarrow> typed_id option \<Rightarrow> typed_id option
   \<Rightarrow> exc + ExecutionIdentity" where
  "make_identity sc asst rn att thr ws pr ap rv dp =
     (case resolve_scope sc ws pr ap rv dp of
        Inl e \<Rightarrow> Inl e
      | Inr s \<Rightarrow>
        (if asst = None \<or> rn = None \<or> att = None
         then Inl (ValueError ''execution identity requires assistant, run and attempt IDs'')
         else Inr \<lparr> scope = s, assistant_id = the asst, run_id = the rn, attempt_id = the att,
                    thread_id = thr \<rparr>))"

abbreviation run_key :: "ExecutionIdentity \<Rightarrow> string" where
  "run_key i \<equiv> id_value (run_id i)"

definition thread_key :: "ExecutionIdentity \<Rightarrow> string option" where
  "thread_key i = map_option id_value (thread_id i)"

text \<open>An identifier of its class that is not empty, as every constructor of the sources makes it.\<close>

definition classed :: "(string \<Rightarrow> typed_id) \<Rightarrow> typed_id \<Rightarrow> bool" where
  "classed cls i \<longleftrightarrow> id_value i \<noteq> [] \<and> i = cls (id_value i)"

definition identity_wf :: "ExecutionIdentity \<Rightarrow> bool" where
  "identity_wf i \<longleftrightarrow> classed WorkspaceId (workspace_id (scope i)) \<and> classed ProjectId (project_id (scope i))
     \<and> classed ApplicationId (application_id (scope i)) \<and> classed RevisionId (revision_id (scope i))
     \<and> classed DeploymentId (deployment_id (scope i)) \<and> classed AssistantId (assistant_id i)
     \<and> classed RunId (run_id i) \<and> classed AttemptId (attempt_id i)
     \<and> (case thread_id i of None \<Rightarrow> True | Some t \<Rightarrow> classed ThreadId t)"

subsection \<open>Statuses and priorities (domain/execution)\<close>

datatype run_status = PENDING | RUNNING | INTERRUPTED | SUCCESS | ERROR | TIMEOUT | CANCELLED

fun run_status_str :: "run_status \<Rightarrow> string" where
  "run_status_str PENDING = ''pending''"
| "run_status_str RUNNING = ''running''"
| "run_status_str INTERRUPTED = ''interrupted''"
| "run_status_str SUCCESS = ''success''"
| "run_status_str ERROR = ''error''"
| "run_status_str TIMEOUT = ''timeout''"
| "run_status_str CANCELLED = ''cancelled''"

definition run_statuses :: "run_status list" where
  "run_statuses = [PENDING, RUNNING, INTERRUPTED, SUCCESS, ERROR, TIMEOUT, CANCELLED]"

text \<open>\<open>RunStatus(text)\<close>.\<close>

definition run_status_of :: "string \<Rightarrow> exc + run_status" where
  "run_status_of t = (case List.find (\<lambda>s. run_status_str s = t) run_statuses of
     Some s \<Rightarrow> Inr s | None \<Rightarrow> Inl (ValueError (repr_str t @ '' is not a valid RunStatus'')))"

datatype thread_status = T_IDLE | T_BUSY | T_INTERRUPTED | T_ERROR

fun thread_status_str :: "thread_status \<Rightarrow> string" where
  "thread_status_str T_IDLE = ''idle''"
| "thread_status_str T_BUSY = ''busy''"
| "thread_status_str T_INTERRUPTED = ''interrupted''"
| "thread_status_str T_ERROR = ''error''"

definition thread_status_of :: "string \<Rightarrow> exc + thread_status" where
  "thread_status_of t =
     (case List.find (\<lambda>s. thread_status_str s = t) [T_IDLE, T_BUSY, T_INTERRUPTED, T_ERROR] of
        Some s \<Rightarrow> Inr s
      | None \<Rightarrow> Inl (ValueError (repr_str t @ '' is not a valid ThreadStatus'')))"

datatype queue_priority = BATCH | NORMAL | INTERACTIVE

fun priority_int :: "queue_priority \<Rightarrow> int" where
  "priority_int BATCH = 10"
| "priority_int NORMAL = 50"
| "priority_int INTERACTIVE = 100"

text \<open>\<open>QueuePriority(n)\<close>.\<close>

definition priority_of :: "int \<Rightarrow> exc + queue_priority" where
  "priority_of n = (case List.find (\<lambda>p. priority_int p = n) [BATCH, NORMAL, INTERACTIVE] of
     Some p \<Rightarrow> Inr p | None \<Rightarrow> Inl (ValueError (int_str n @ '' is not a valid QueuePriority'')))"

definition terminal_statuses :: "run_status list" where
  "terminal_statuses = [SUCCESS, ERROR, TIMEOUT, CANCELLED]"

definition active_statuses :: "run_status list" where
  "active_statuses = [PENDING, RUNNING, INTERRUPTED]"

abbreviation is_terminal :: "run_status \<Rightarrow> bool" where
  "is_terminal s \<equiv> s \<in> set terminal_statuses"

abbreviation is_active :: "run_status \<Rightarrow> bool" where
  "is_active s \<equiv> s \<in> set active_statuses"

lemma active_iff_not_terminal: "is_active s \<longleftrightarrow> \<not> is_terminal s"
  by (cases s) (simp_all add: active_statuses_def terminal_statuses_def)

subsection \<open>Threads and runs (domain/execution/entities.py, errors.py)\<close>

record RunError =
  err_code :: string
  err_message :: string
  err_retryable :: bool
  err_details :: obj

text \<open>
  \<open>_copy\<close>: objects are copied with their members; the elements of a list are copied where they are
  objects and kept otherwise.
\<close>

primrec copy_value :: "json \<Rightarrow> json" where
  "copy_value JNull = JNull"
| "copy_value (JBool b) = JBool b"
| "copy_value (JInt i) = JInt i"
| "copy_value (JFloat r t) = JFloat r t"
| "copy_value (JStr s) = JStr s"
| "copy_value (JArr xs) =
     JArr (map (\<lambda>(x, c). if is_obj x then c else x) (zip xs (map copy_value xs)))"
| "copy_value (JObj d) = JObj (map (map_prod id copy_value) d)"

definition make_run_error :: "string \<Rightarrow> string \<Rightarrow> bool \<Rightarrow> obj option \<Rightarrow> RunError" where
  "make_run_error code message retryable details =
     \<lparr> err_code = code, err_message = message, err_retryable = retryable,
       err_details = (case details of None \<Rightarrow> [] | Some d \<Rightarrow> map (map_prod id copy_value) d) \<rparr>"

lemma copy_value_id [simp]: "copy_value v = v"
proof (induction v)
  case (JArr xs)
  then show ?case by (induction xs) auto
next
  case (JObj d)
  have "map_prod id copy_value p = p" if "p \<in> set d" for p
    using JObj [OF that, of "snd p"] by (cases p) (simp add: snds.simps)
  then show ?case by (simp add: map_idI)
qed simp_all

record Thread =
  th_thread_id :: typed_id
  th_status :: thread_status
  th_metadata :: obj
  th_created_at :: "datetime option"
  th_updated_at :: "datetime option"

definition thread_transition :: "Thread \<Rightarrow> thread_status \<Rightarrow> datetime \<Rightarrow> Thread" where
  "thread_transition t st now =
     \<lparr> th_thread_id = th_thread_id t, th_status = st, th_metadata = th_metadata t,
       th_created_at = th_created_at t, th_updated_at = Some now \<rparr>"

definition mark_busy :: "Thread \<Rightarrow> datetime \<Rightarrow> Thread" where
  "mark_busy t now = thread_transition t T_BUSY now"

definition mark_idle :: "Thread \<Rightarrow> datetime \<Rightarrow> Thread" where
  "mark_idle t now = thread_transition t T_IDLE now"

definition mark_interrupted :: "Thread \<Rightarrow> datetime \<Rightarrow> Thread" where
  "mark_interrupted t now = thread_transition t T_INTERRUPTED now"

definition mark_error :: "Thread \<Rightarrow> datetime \<Rightarrow> Thread" where
  "mark_error t now = thread_transition t T_ERROR now"

record Run =
  rn_identity :: ExecutionIdentity
  rn_status :: run_status
  rn_metadata :: obj
  rn_created_at :: "datetime option"
  rn_updated_at :: "datetime option"
  rn_result :: json
  rn_error :: "RunError option"

abbreviation rn_key :: "Run \<Rightarrow> string" where
  "rn_key r \<equiv> run_key (rn_identity r)"

abbreviation rn_thread_key :: "Run \<Rightarrow> string option" where
  "rn_thread_key r \<equiv> thread_key (rn_identity r)"

definition run_change ::
  "Run \<Rightarrow> run_status \<Rightarrow> datetime \<Rightarrow> json \<Rightarrow> RunError option \<Rightarrow> exc + Run" where
  "run_change r st now res er =
     (if is_terminal (rn_status r) \<and> st \<noteq> rn_status r
      then Inl (ValueError (''terminal run cannot transition from ''
             @ run_status_str (rn_status r) @ '' to '' @ run_status_str st))
      else Inr \<lparr> rn_identity = rn_identity r, rn_status = st, rn_metadata = rn_metadata r,
                 rn_created_at = rn_created_at r, rn_updated_at = Some now, rn_result = res,
                 rn_error = er \<rparr>)"

definition mark_running :: "Run \<Rightarrow> datetime \<Rightarrow> exc + Run" where
  "mark_running r now = run_change r RUNNING now JNull None"

definition complete :: "Run \<Rightarrow> json \<Rightarrow> datetime \<Rightarrow> exc + Run" where
  "complete r res now = run_change r SUCCESS now res None"

definition fail :: "Run \<Rightarrow> RunError \<Rightarrow> datetime \<Rightarrow> exc + Run" where
  "fail r er now = run_change r ERROR now JNull (Some er)"

definition cancel :: "Run \<Rightarrow> datetime \<Rightarrow> exc + Run" where
  "cancel r now = (if rn_status r = CANCELLED then Inr r else run_change r CANCELLED now JNull None)"

subsection \<open>Requests, commands, receipts (domain/execution/requests.py)\<close>

record ExecutionRequest =
  rq_identity :: ExecutionIdentity
  rq_input :: json
  rq_command :: json
  rq_config :: obj
  rq_context :: obj
  rq_metadata :: obj
  rq_stream_modes :: "string list"
  rq_stream_subgraphs :: bool
  rq_priority :: queue_priority
  rq_timeout_seconds :: int

text \<open>\<open>ExecutionRequest(identity=i)\<close>: every other field at its default.\<close>

definition default_request :: "ExecutionIdentity \<Rightarrow> ExecutionRequest" where
  "default_request i =
     \<lparr> rq_identity = i, rq_input = JNull, rq_command = JNull, rq_config = [], rq_context = [],
       rq_metadata = [], rq_stream_modes = [''values''], rq_stream_subgraphs = False,
       rq_priority = INTERACTIVE, rq_timeout_seconds = 1800 \<rparr>"

record RunCommand =
  rc_command_id :: typed_id
  rc_identity :: ExecutionIdentity
  rc_request :: ExecutionRequest
  rc_priority :: queue_priority
  rc_available_at :: datetime
  rc_created_at :: datetime

record RunCommandReceipt =
  rp_command :: RunCommand
  rp_lease_id :: typed_id
  rp_delivery_count :: int
  rp_leased_at :: datetime
  rp_lease_expires_at :: datetime

abbreviation rp_identity :: "RunCommandReceipt \<Rightarrow> ExecutionIdentity" where
  "rp_identity r \<equiv> rc_identity (rp_command r)"

subsection \<open>Events (domain/events)\<close>

datatype runtime_event_type =
    RUN_QUEUED | RUN_STARTED | RUN_COMPLETED | RUN_CANCELLED | RUN_FAILED | RUN_TIMEOUT
  | RUN_INTERRUPTED | ATTEMPT_STARTED | ATTEMPT_HEARTBEAT | ATTEMPT_COMPLETED | ATTEMPT_FAILED
  | MESSAGE_STARTED | MESSAGE_DELTA | MESSAGE_COMPLETED | AGENT_STARTED | AGENT_COMPLETED
  | AGENT_FAILED | TOOL_STARTED | TOOL_PROGRESS | TOOL_COMPLETED | TOOL_FAILED | CUSTOM
  | STATE_VALUES | STATE_UPDATES | CHECKPOINT_CREATED | TASK_STARTED | TASK_COMPLETED
  | INTERRUPT_CREATED | INTERRUPT_RESOLVED

fun event_type_str :: "runtime_event_type \<Rightarrow> string" where
  "event_type_str RUN_QUEUED = ''run.queued''"
| "event_type_str RUN_STARTED = ''run.started''"
| "event_type_str RUN_COMPLETED = ''run.completed''"
| "event_type_str RUN_CANCELLED = ''run.cancelled''"
| "event_type_str RUN_FAILED = ''run.failed''"
| "event_type_str RUN_TIMEOUT = ''run.timeout''"
| "event_type_str RUN_INTERRUPTED = ''run.interrupted''"
| "event_type_str ATTEMPT_STARTED = ''attempt.started''"
| "event_type_str ATTEMPT_HEARTBEAT = ''attempt.heartbeat''"
| "event_type_str ATTEMPT_COMPLETED = ''attempt.completed''"
| "event_type_str ATTEMPT_FAILED = ''attempt.failed''"
| "event_type_str MESSAGE_STARTED = ''message.started''"
| "event_type_str MESSAGE_DELTA = ''message.delta''"
| "event_type_str MESSAGE_COMPLETED = ''message.completed''"
| "event_type_str AGENT_STARTED = ''agent.started''"
| "event_type_str AGENT_COMPLETED = ''agent.completed''"
| "event_type_str AGENT_FAILED = ''agent.failed''"
| "event_type_str TOOL_STARTED = ''tool.started''"
| "event_type_str TOOL_PROGRESS = ''tool.progress''"
| "event_type_str TOOL_COMPLETED = ''tool.completed''"
| "event_type_str TOOL_FAILED = ''tool.failed''"
| "event_type_str CUSTOM = ''custom''"
| "event_type_str STATE_VALUES = ''state.values''"
| "event_type_str STATE_UPDATES = ''state.updates''"
| "event_type_str CHECKPOINT_CREATED = ''checkpoint.created''"
| "event_type_str TASK_STARTED = ''task.started''"
| "event_type_str TASK_COMPLETED = ''task.completed''"
| "event_type_str INTERRUPT_CREATED = ''interrupt.created''"
| "event_type_str INTERRUPT_RESOLVED = ''interrupt.resolved''"

text \<open>
  \<open>type: RuntimeEventType | str\<close>.  A member of the enumeration and the plain text it stands for are
  equal and hash alike, so \<open>in\<close> on a set of members accepts both (\<open>ev_in\<close>), while \<open>is\<close> compares
  object identity and accepts the member only (\<open>ev_is\<close>).
\<close>

datatype event_type = Ev runtime_event_type | EvText string

fun ev_str :: "event_type \<Rightarrow> string" where
  "ev_str (Ev t) = event_type_str t"
| "ev_str (EvText s) = s"

definition ev_is :: "event_type \<Rightarrow> runtime_event_type \<Rightarrow> bool" where
  "ev_is e t \<longleftrightarrow> e = Ev t"

definition ev_in :: "event_type \<Rightarrow> runtime_event_type list \<Rightarrow> bool" where
  "ev_in e ts \<longleftrightarrow> ev_str e \<in> set (map event_type_str ts)"

definition event_types :: "runtime_event_type list" where
  "event_types = [RUN_QUEUED, RUN_STARTED, RUN_COMPLETED, RUN_CANCELLED, RUN_FAILED, RUN_TIMEOUT,
     RUN_INTERRUPTED, ATTEMPT_STARTED, ATTEMPT_HEARTBEAT, ATTEMPT_COMPLETED, ATTEMPT_FAILED,
     MESSAGE_STARTED, MESSAGE_DELTA, MESSAGE_COMPLETED, AGENT_STARTED, AGENT_COMPLETED,
     AGENT_FAILED, TOOL_STARTED, TOOL_PROGRESS, TOOL_COMPLETED, TOOL_FAILED, CUSTOM,
     STATE_VALUES, STATE_UPDATES, CHECKPOINT_CREATED, TASK_STARTED, TASK_COMPLETED,
     INTERRUPT_CREATED, INTERRUPT_RESOLVED]"

lemma event_types_all: "t \<in> set event_types"
  by (cases t) (simp_all add: event_types_def)

lemma event_type_strs_distinct: "distinct (map event_type_str event_types)"
  by code_simp

lemma event_type_str_inj: "event_type_str a = event_type_str b \<longleftrightarrow> a = b"
  using event_type_strs_distinct event_types_all [of a] event_types_all [of b]
  by (auto simp: distinct_map dest: inj_onD)

lemma ev_in_Ev [simp]: "ev_in (Ev t) ts \<longleftrightarrow> t \<in> set ts"
  by (auto simp: ev_in_def event_type_str_inj)

lemma ev_is_Ev [simp]: "ev_is (Ev t) u \<longleftrightarrow> t = u"
  by (simp add: ev_is_def)

lemma ev_is_in: "ev_is e t \<Longrightarrow> t \<in> set ts \<Longrightarrow> ev_in e ts"
  by (auto simp: ev_is_def)

record RuntimeEventDraft =
  dr_identity :: ExecutionIdentity
  dr_type :: event_type
  dr_namespace :: "string list"
  dr_data :: json
  dr_native :: obj

definition make_draft :: "ExecutionIdentity \<Rightarrow> runtime_event_type \<Rightarrow> json \<Rightarrow> RuntimeEventDraft" where
  "make_draft i t d = \<lparr> dr_identity = i, dr_type = Ev t, dr_namespace = [], dr_data = d, dr_native = [] \<rparr>"

record TraceContext =
  trace_id :: "string option"
  span_id :: "string option"

record RuntimeEvent =
  ev_event_id :: typed_id
  ev_sequence :: int
  ev_timestamp :: datetime
  ev_identity :: ExecutionIdentity
  ev_type :: event_type
  ev_namespace :: "string list"
  ev_data :: json
  ev_native :: obj
  ev_trace :: TraceContext
  ev_schema_version :: int

subsection \<open>Assistants, capabilities (domain/assistants, domain/capabilities)\<close>

text \<open>Name and description are texts or \<open>None\<close> by annotation; the constructor stores whatever it is given.\<close>

record Assistant =
  as_assistant_id :: typed_id
  as_graph_id :: string
  as_version :: int
  as_name :: json
  as_description :: json
  as_config :: obj
  as_context :: obj
  as_metadata :: obj
  as_created_at :: "datetime option"
  as_updated_at :: "datetime option"

datatype session_affinity = AFF_NONE | AFF_PREFERRED | AFF_REQUIRED

definition runtime_profiles :: "string list" where
  "runtime_profiles = [''langgraph'', ''langchain-agent'', ''deepagents'', ''agno'']"

definition stream_mode_names :: "string list" where
  "stream_mode_names = [''values'', ''updates'', ''messages'', ''messages-tuple'', ''custom'',
     ''events'', ''debug'', ''checkpoints'', ''tasks'']"

record IdentityCapabilities =
  accepts_thread_id :: bool
  accepts_run_id :: bool

record AdapterCapabilities =
  cap_streaming :: bool
  cap_cancellation :: bool
  cap_history :: bool
  cap_checkpoint :: bool
  cap_state_management :: bool
  cap_interrupt :: bool
  cap_resume :: bool
  cap_fork :: bool
  cap_custom_http :: bool
  cap_a2a :: bool
  cap_subagents :: bool

record AdapterManifest =
  mf_adapter_id :: string
  mf_adapter_version :: string
  mf_profiles :: "string set"
  mf_stream_modes :: "string set"
  mf_capabilities :: AdapterCapabilities
  mf_identity :: IdentityCapabilities
  mf_session_affinity :: session_affinity

definition supported_profiles :: "AdapterManifest \<Rightarrow> string list" where
  "supported_profiles m = sorted_list_of_set (mf_profiles m)"

definition supported_stream_modes :: "AdapterManifest \<Rightarrow> string list" where
  "supported_stream_modes m = sorted_list_of_set (mf_stream_modes m)"

subsection \<open>Port records (ports/configuration.py, outbox.py, projection.py)\<close>

record ConfigRevision =
  cr_application_id :: string
  cr_revision :: int
  cr_config :: obj
  cr_config_hash :: string
  cr_active :: bool
  cr_config_revision_id :: "typed_id option"

record OutboxMessage =
  ob_message_id :: typed_id
  ob_topic :: string
  ob_key :: string
  ob_payload :: obj
  ob_created_at :: datetime
  ob_published :: bool

record RunProjection =
  pj_run_id :: string
  pj_status :: string
  pj_sequence :: int
  pj_started_at :: "string option"
  pj_completed_at :: "string option"
  pj_result :: json
  pj_error :: "obj option"
  pj_metadata :: obj

subsection \<open>Laws of the domain values\<close>

lemmas thread_marks = mark_busy_def mark_idle_def mark_interrupted_def mark_error_def
  thread_transition_def

lemma thread_marks_frame [simp, frame_simps]:
  "th_thread_id (mark_busy t n) = th_thread_id t" "th_thread_id (mark_idle t n) = th_thread_id t"
  "th_thread_id (mark_interrupted t n) = th_thread_id t"
  "th_thread_id (mark_error t n) = th_thread_id t"
  "th_status (mark_busy t n) = T_BUSY" "th_status (mark_idle t n) = T_IDLE"
  "th_status (mark_interrupted t n) = T_INTERRUPTED" "th_status (mark_error t n) = T_ERROR"
  by (simp_all add: thread_marks)

lemma run_change_identity: "run_change r st now res er = Inr r' \<Longrightarrow> rn_identity r' = rn_identity r"
  by (auto simp: run_change_def split: if_splits)

lemma run_change_status: "run_change r st now res er = Inr r' \<Longrightarrow> rn_status r' = st"
  by (auto simp: run_change_def split: if_splits)

lemmas run_ops = mark_running_def complete_def fail_def cancel_def

lemma run_ops_identity:
  "mark_running r n = Inr r' \<Longrightarrow> rn_identity r' = rn_identity r"
  "complete r v n = Inr r' \<Longrightarrow> rn_identity r' = rn_identity r"
  "fail r er n = Inr r' \<Longrightarrow> rn_identity r' = rn_identity r"
  "cancel r n = Inr r' \<Longrightarrow> rn_identity r' = rn_identity r"
  by (auto simp: run_ops split: if_splits dest: run_change_identity)

lemma run_ops_status:
  "mark_running r n = Inr r' \<Longrightarrow> rn_status r' = RUNNING"
  "complete r v n = Inr r' \<Longrightarrow> rn_status r' = SUCCESS"
  "fail r er n = Inr r' \<Longrightarrow> rn_status r' = ERROR"
  "cancel r n = Inr r' \<Longrightarrow> rn_status r' = CANCELLED"
  by (auto simp: run_ops split: if_splits dest: run_change_status)

lemma run_status_roundtrip [simp]: "run_status_of (run_status_str s) = Inr s"
  by (cases s) (simp_all add: run_status_of_def run_statuses_def)

lemma thread_status_roundtrip [simp]: "thread_status_of (thread_status_str s) = Inr s"
  by (cases s) (simp_all add: thread_status_of_def)

lemma priority_roundtrip [simp]: "priority_of (priority_int p) = Inr p"
  by (cases p) (simp_all add: priority_of_def)

lemma priority_int_inj [simp]: "priority_int p = priority_int q \<longleftrightarrow> p = q"
  by (cases p; cases q) simp_all

lemma parse_id_Inr [simp]: "v \<noteq> [] \<Longrightarrow> parse_id cls v = Inr (cls v)"
  by (simp add: parse_id_def)

lemma parse_id_InrD: "parse_id cls v = Inr i \<Longrightarrow> v \<noteq> [] \<and> i = cls v"
  by (auto simp: parse_id_def split: if_splits)

end
