(* ===== verification/Memory_Repositories.thy ===== *)
theory Memory_Repositories
  imports Domain
begin

section \<open>The in-memory repositories\<close>

text \<open>
  \<^verbatim>\<open>adapters/memory/repositories.py\<close>, \<^verbatim>\<open>outbox.py\<close>, \<^verbatim>\<open>registry.py\<close> and \<^verbatim>\<open>projection.py\<close>.  Each class has one dictionary
  and a lock; no method suspends while it holds the lock, so a method is one atomic program over
  the dictionary.  The interface \<open>keyed_store\<close> collects the laws that the users of a repository rely
  on; it is interpreted on the three repositories.
\<close>

type_synonym assistant_repo = "(string, Assistant) pydict"
type_synonym thread_repo = "(string, Thread) pydict"
type_synonym run_repo = "(string, Run) pydict"
type_synonym outbox_repo = "(string, OutboxMessage) pydict"

subsection \<open>The contract of a keyed store\<close>

locale keyed_store =
  fixes get :: "string \<Rightarrow> ('s, exc, 'v) prog"
    and put :: "string \<Rightarrow> 'v \<Rightarrow> ('s, exc, 'v) prog"
    and del :: "string \<Rightarrow> ('s, exc, unit) prog"
    and absm :: "'s \<Rightarrow> string \<Rightarrow> 'v option"
    and missing :: "string \<Rightarrow> exc"
    and writable :: "string \<Rightarrow> 'v \<Rightarrow> bool"
  assumes get_spec: "get k s = (case absm s k of Some v \<Rightarrow> (Inr v, s) | None \<Rightarrow> (Inl (missing k), s))"
    and put_missing: "writable k v \<Longrightarrow> absm s k = None \<Longrightarrow> put k v s = (Inl (missing k), s)"
    and put_result: "writable k v \<Longrightarrow> absm s k \<noteq> None \<Longrightarrow> fst (put k v s) = Inr v"
    and put_absm: "writable k v \<Longrightarrow> absm s k \<noteq> None \<Longrightarrow> absm (snd (put k v s)) = (absm s)(k \<mapsto> v)"
    and del_missing: "absm s k = None \<Longrightarrow> del k s = (Inl (missing k), s)"
    and del_result: "absm s k \<noteq> None \<Longrightarrow> fst (del k s) = Inr ()"
    and del_absm: "absm s k \<noteq> None \<Longrightarrow> absm (snd (del k s)) = (absm s)(k := None)"
begin

lemma get_pure: "snd (get k s) = s"
  by (simp add: get_spec split: option.splits)

lemma get_Inr: "get k s = (Inr v, s') \<longleftrightarrow> absm s k = Some v \<and> s' = s"
  by (auto simp: get_spec split: option.splits)

lemma put_then_get:
  assumes "writable k v" and "absm s k \<noteq> None"
  shows "get k (snd (put k v s)) = (Inr v, snd (put k v s))"
  using assms by (simp add: get_spec put_absm)

lemma put_other_get:
  assumes "writable k v" and "j \<noteq> k"
  shows "fst (get j (snd (put k v s))) = fst (get j s)"
  using assms by (cases "absm s k") (auto simp: get_spec put_absm put_missing split: option.splits)

lemma put_put:
  assumes "writable k v" and "writable k w" and "absm s k \<noteq> None"
  shows "absm (snd (put k w (snd (put k v s)))) = absm (snd (put k w s))"
  using assms by (simp add: put_absm)

lemma del_then_get: "fst (get k (snd (del k s))) = Inl (missing k)"
  by (cases "absm s k") (simp_all add: get_spec del_absm del_missing)

lemma del_other_get: "j \<noteq> k \<Longrightarrow> fst (get j (snd (del k s))) = fst (get j s)"
  by (cases "absm s k") (auto simp: get_spec del_absm del_missing split: option.splits)

lemma del_twice: "fst (del k (snd (del k s))) = Inl (missing k)"
  by (cases "absm s k") (simp_all add: del_absm del_missing)

lemma put_dom: "writable k v \<Longrightarrow> dom (absm (snd (put k v s))) = dom (absm s)"
  by (cases "absm s k") (auto simp: put_absm put_missing)

end

text \<open>A store that also creates: a new key is bound to the new value, a known one is refused.\<close>

locale creating_store = keyed_store get put del absm missing writable
  for get :: "string \<Rightarrow> ('s, exc, 'v) prog" and put and del and absm and missing and writable +
  fixes create :: "'v \<Rightarrow> ('s, exc, 'v) prog"
    and keyf :: "'v \<Rightarrow> string"
    and duplicate :: exc
  assumes create_dup: "absm s (keyf v) \<noteq> None \<Longrightarrow> create v s = (Inl duplicate, s)"
    and create_ok: "create v s = (Inr w, s') \<Longrightarrow> w = v \<and> absm s' = (absm s)(keyf v \<mapsto> v)"
    and create_fail: "create v s = (Inl e, s') \<Longrightarrow> s' = s"
    and keyf_writable: "writable (keyf v) v"
begin

lemma create_then_get: "create v s = (Inr w, s') \<Longrightarrow> get (keyf v) s' = (Inr v, s')"
  using create_ok by (fastforce simp: get_spec)

lemma create_twice: "create v s = (Inr w, s') \<Longrightarrow> create v s' = (Inl duplicate, s')"
  by (rule create_dup) (simp add: create_ok)

lemma create_put:
  assumes "create v s = (Inr w, s')" and "keyf u = keyf v"
  shows "fst (put (keyf v) u s') = Inr u"
  using assms keyf_writable [of u] by (intro put_result) (auto simp: create_ok)

end

subsection \<open>InMemoryAssistantRepository\<close>

definition assistant_missing :: "string \<Rightarrow> exc" where
  "assistant_missing k = runtime_failure RESOURCE_NOT_FOUND (''assistant not found: '' @ k)"

definition assistants_create :: "Assistant \<Rightarrow> (assistant_repo, exc, Assistant) prog" where
  "assistants_create a = (\<lambda>d. let k = id_value (as_assistant_id a) in
     if map_of d k \<noteq> None
     then (Inl (runtime_failure INVALID_EXECUTION_INPUT ''assistant already exists''), d)
     else (Inr a, AList.update k a d))"

definition assistants_all :: "(assistant_repo, exc, Assistant list) prog" where
  "assistants_all = getsM dict_values"

definition assistants_get :: "string \<Rightarrow> (assistant_repo, exc, Assistant) prog" where
  "assistants_get k = (\<lambda>d. case map_of d k of Some a \<Rightarrow> (Inr a, d) | None \<Rightarrow> (Inl (assistant_missing k), d))"

definition assistants_update :: "string \<Rightarrow> Assistant \<Rightarrow> (assistant_repo, exc, Assistant) prog" where
  "assistants_update k a = (\<lambda>d. if map_of d k = None then (Inl (assistant_missing k), d)
     else (Inr a, AList.update k a d))"

definition assistants_delete :: "string \<Rightarrow> (assistant_repo, exc, unit) prog" where
  "assistants_delete k = (\<lambda>d. if map_of d k = None then (Inl (assistant_missing k), d)
     else (Inr (), AList.delete k d))"

definition assistants_versions :: "string \<Rightarrow> (assistant_repo, exc, Assistant list) prog" where
  "assistants_versions k = bindM (assistants_get k) (\<lambda>a. ret [a])"

definition assistants_set_latest :: "string \<Rightarrow> int \<Rightarrow> (assistant_repo, exc, Assistant) prog" where
  "assistants_set_latest k version =
     (if version \<noteq> 1
      then raise (runtime_failure RESOURCE_NOT_FOUND
             (''assistant version not found: '' @ k @ ''/'' @ int_str version))
      else assistants_get k)"

definition assistants_count :: "string option \<Rightarrow> (assistant_repo, exc, nat) prog" where
  "assistants_count graph_id = getsM (\<lambda>d.
     length (filter (\<lambda>a. graph_id = None \<or> Some (as_graph_id a) = graph_id) (dict_values d)))"

subsection \<open>InMemoryThreadRepository\<close>

definition thread_missing :: "string \<Rightarrow> exc" where
  "thread_missing k = runtime_failure RESOURCE_NOT_FOUND (''thread not found: '' @ k)"

abbreviation th_key :: "Thread \<Rightarrow> string" where
  "th_key t \<equiv> id_value (th_thread_id t)"

definition threads_create :: "Thread \<Rightarrow> (thread_repo, exc, Thread) prog" where
  "threads_create t = (\<lambda>d.
     if map_of d (th_key t) \<noteq> None
     then (Inl (runtime_failure INVALID_EXECUTION_INPUT ''thread already exists''), d)
     else (Inr t, AList.update (th_key t) t d))"

definition threads_get :: "string \<Rightarrow> (thread_repo, exc, Thread) prog" where
  "threads_get k = (\<lambda>d. case map_of d k of Some t \<Rightarrow> (Inr t, d) | None \<Rightarrow> (Inl (thread_missing k), d))"

definition threads_update :: "Thread \<Rightarrow> (thread_repo, exc, Thread) prog" where
  "threads_update t = (\<lambda>d. if map_of d (th_key t) = None then (Inl (thread_missing (th_key t)), d)
     else (Inr t, AList.update (th_key t) t d))"

definition threads_delete :: "string \<Rightarrow> (thread_repo, exc, unit) prog" where
  "threads_delete k = (\<lambda>d. if map_of d k = None then (Inl (thread_missing k), d)
     else (Inr (), AList.delete k d))"

definition created_or_min :: "datetime option \<Rightarrow> int" where
  "created_or_min c = (case c of None \<Rightarrow> datetime_min | Some x \<Rightarrow> x)"

definition metadata_matches :: "obj \<Rightarrow> obj \<Rightarrow> bool" where
  "metadata_matches wanted have = list_all (\<lambda>(k, v). py_eq (get_null have k) v) wanted"

definition threads_search ::
  "obj option \<Rightarrow> string option \<Rightarrow> nat \<Rightarrow> nat \<Rightarrow> (thread_repo, exc, Thread list) prog" where
  "threads_search metadata status limit off = getsM (\<lambda>d.
     let items = filter (\<lambda>t. (status = None \<or> Some (thread_status_str (th_status t)) = status)
           \<and> metadata_matches (case metadata of None \<Rightarrow> [] | Some m \<Rightarrow> m) (th_metadata t))
         (dict_values d)
     in py_slice off limit (sort_desc (\<lambda>t. created_or_min (th_created_at t)) items))"

definition threads_count :: "obj option \<Rightarrow> string option \<Rightarrow> (thread_repo, exc, nat) prog" where
  "threads_count metadata status =
     bindM (threads_search metadata status 100000 0) (\<lambda>ts. ret (length ts))"

subsection \<open>InMemoryRunRepository\<close>

definition run_missing :: "string \<Rightarrow> exc" where
  "run_missing k = runtime_failure RUN_NOT_FOUND (''run not found: '' @ k)"

definition runs_active :: "run_repo \<Rightarrow> string \<Rightarrow> Run option" where
  "runs_active d t = List.find (\<lambda>r. rn_thread_key r = Some t \<and> is_active (rn_status r)) (dict_values d)"

definition runs_create :: "Run \<Rightarrow> (run_repo, exc, Run) prog" where
  "runs_create r = (\<lambda>d.
     if map_of d (rn_key r) \<noteq> None
     then (Inl (runtime_failure INVALID_EXECUTION_INPUT ''run already exists''), d)
     else (case rn_thread_key r of
         Some t \<Rightarrow> if runs_active d t \<noteq> None
           then (Inl (runtime_failure THREAD_BUSY (''thread already has an active run: '' @ t)), d)
           else (Inr r, AList.update (rn_key r) r d)
       | None \<Rightarrow> (Inr r, AList.update (rn_key r) r d)))"

definition runs_get :: "string \<Rightarrow> (run_repo, exc, Run) prog" where
  "runs_get k = (\<lambda>d. case map_of d k of Some r \<Rightarrow> (Inr r, d) | None \<Rightarrow> (Inl (run_missing k), d))"

definition runs_update :: "Run \<Rightarrow> (run_repo, exc, Run) prog" where
  "runs_update r = (\<lambda>d. if map_of d (rn_key r) = None then (Inl (run_missing (rn_key r)), d)
     else (Inr r, AList.update (rn_key r) r d))"

definition runs_delete :: "string \<Rightarrow> (run_repo, exc, unit) prog" where
  "runs_delete k = (\<lambda>d. if map_of d k = None then (Inl (run_missing k), d)
     else (Inr (), AList.delete k d))"

definition runs_active_for_thread :: "string \<Rightarrow> (run_repo, exc, Run option) prog" where
  "runs_active_for_thread t = getsM (\<lambda>d. runs_active d t)"

definition runs_latest_for_thread :: "string \<Rightarrow> (run_repo, exc, Run option) prog" where
  "runs_latest_for_thread t = getsM (\<lambda>d.
     py_max (\<lambda>r. created_or_min (rn_created_at r))
       (filter (\<lambda>r. rn_thread_key r = Some t) (dict_values d)))"

definition runs_list_for_thread ::
  "string \<Rightarrow> nat \<Rightarrow> nat \<Rightarrow> string option \<Rightarrow> (run_repo, exc, Run list) prog" where
  "runs_list_for_thread t limit off status = getsM (\<lambda>d.
     py_slice off limit (sort_desc (\<lambda>r. created_or_min (rn_created_at r))
       (filter (\<lambda>r. rn_thread_key r = Some t
             \<and> (status = None \<or> Some (run_status_str (rn_status r)) = status)) (dict_values d))))"

subsection \<open>InMemoryOutboxRepository\<close>

definition outbox_append :: "OutboxMessage \<Rightarrow> (outbox_repo, exc, OutboxMessage) prog" where
  "outbox_append m = (\<lambda>d. let k = id_value (ob_message_id m) in
     if map_of d k \<noteq> None
     then (Inl (runtime_failure INVALID_EXECUTION_INPUT ''outbox message exists''), d)
     else (Inr m, AList.update k m d))"

definition outbox_pending :: "nat \<Rightarrow> (outbox_repo, exc, OutboxMessage list) prog" where
  "outbox_pending limit = getsM (\<lambda>d. take limit (filter (\<lambda>m. \<not> ob_published m) (dict_values d)))"

definition outbox_mark_published :: "typed_id \<Rightarrow> (outbox_repo, exc, unit) prog" where
  "outbox_mark_published i = (\<lambda>d. case map_of d (id_value i) of
       None \<Rightarrow> (Inl (runtime_failure RESOURCE_NOT_FOUND ''outbox message not found''), d)
     | Some m \<Rightarrow> (Inr (), AList.update (id_value i) (m \<lparr> ob_published := True \<rparr>) d))"

subsection \<open>InMemoryAdapterRegistry\<close>

text \<open>
  The adapter itself is opaque here (\<open>'a\<close>); the registry reads its identifier: the graph id of its
  descriptor where it has one, the manifest's adapter id otherwise.
\<close>

definition registry_id :: "string option \<Rightarrow> string \<Rightarrow> string" where
  "registry_id graph_id adapter_id = (case graph_id of Some g \<Rightarrow> g | None \<Rightarrow> adapter_id)"

definition registry_register ::
  "string option \<Rightarrow> string \<Rightarrow> 'a \<Rightarrow> ((string, 'a) pydict, exc, unit) prog" where
  "registry_register graph_id adapter_id a = (\<lambda>d. let k = registry_id graph_id adapter_id in
     if map_of d k \<noteq> None
     then (Inl (runtime_failure INVALID_EXECUTION_INPUT (''adapter already registered: '' @ k)), d)
     else (Inr (), AList.update k a d))"

definition registry_get :: "string \<Rightarrow> ((string, 'a) pydict, exc, 'a) prog" where
  "registry_get k = (\<lambda>d. case map_of d k of Some a \<Rightarrow> (Inr a, d)
     | None \<Rightarrow> (Inl (runtime_failure ADAPTER_NOT_SUPPORTED (''adapter not found: '' @ k)), d))"

definition registry_all :: "((string, 'a) pydict, exc, 'a list) prog" where
  "registry_all = getsM dict_values"

subsection \<open>Projection sinks\<close>

text \<open>A sink is a writer over some state; \<open>CompositeProjectionSink\<close> owns the states of its sinks and
  writes to them in order, an error of one stopping the rest.\<close>

type_synonym projections = "(string, RunProjection) pydict"

definition null_sink_write :: "RunProjection \<Rightarrow> ('s, exc, unit) prog" where
  "null_sink_write p = ret ()"

definition memory_sink_write :: "RunProjection \<Rightarrow> (projections, exc, unit) prog" where
  "memory_sink_write p = modifyM (AList.update (pj_run_id p) p)"

fun composite_sink_write ::
  "(RunProjection \<Rightarrow> ('s, exc, unit) prog) list \<Rightarrow> RunProjection \<Rightarrow> ('s list, exc, unit) prog" where
  "composite_sink_write [] p = ret ()"
| "composite_sink_write (w # ws) p = (\<lambda>ss. case ss of
       [] \<Rightarrow> (Inr (), [])
     | s # rest \<Rightarrow> (case w p s of
           (Inl e, s') \<Rightarrow> (Inl e, s' # rest)
         | (Inr _, s') \<Rightarrow> (case composite_sink_write ws p rest of (r, rest') \<Rightarrow> (r, s' # rest'))))"


subsection \<open>The repositories implement the contract\<close>

lemmas assistants_defs = assistants_create_def assistants_get_def assistants_update_def
  assistants_delete_def
lemmas threads_defs = threads_create_def threads_get_def threads_update_def threads_delete_def
lemmas runs_defs = runs_create_def runs_get_def runs_update_def runs_delete_def

interpretation assistants: creating_store assistants_get assistants_update assistants_delete map_of
    assistant_missing "\<lambda>_ _. True" assistants_create "\<lambda>a. id_value (as_assistant_id a)"
    "runtime_failure INVALID_EXECUTION_INPUT ''assistant already exists''"
  by unfold_locales
    (auto simp: assistants_defs Let_def map_of_update_fun map_of_delete_fun split: option.splits if_splits)

interpretation threads: creating_store threads_get "\<lambda>_. threads_update" threads_delete map_of
    thread_missing "\<lambda>k t. k = th_key t" threads_create th_key
    "runtime_failure INVALID_EXECUTION_INPUT ''thread already exists''"
  by unfold_locales
    (auto simp: threads_defs Let_def map_of_update_fun map_of_delete_fun split: option.splits if_splits)

interpretation runs: creating_store runs_get "\<lambda>_. runs_update" runs_delete map_of
    run_missing "\<lambda>k r. k = rn_key r" runs_create rn_key
    "runtime_failure INVALID_EXECUTION_INPUT ''run already exists''"
  by unfold_locales
    (auto simp: runs_defs Let_def map_of_update_fun map_of_delete_fun split: option.splits if_splits)

subsection \<open>Invariants of the stored dictionaries\<close>

definition keyed_by :: "('v \<Rightarrow> string) \<Rightarrow> (string, 'v) pydict \<Rightarrow> bool" where
  "keyed_by f d \<longleftrightarrow> dict_ok d \<and> list_all (\<lambda>(k, v). k = f v) d"

text \<open>At most one run of a thread is pending, running or interrupted.\<close>

definition holds_thread :: "Run \<Rightarrow> bool" where
  "holds_thread r \<longleftrightarrow> is_active (rn_status r) \<and> rn_thread_key r \<noteq> None"

definition live_threads :: "run_repo \<Rightarrow> string option list" where
  "live_threads d = map rn_thread_key (filter holds_thread (dict_values d))"

definition one_active :: "run_repo \<Rightarrow> bool" where
  "one_active d \<longleftrightarrow> distinct (live_threads d)"

abbreviation runs_inv :: "run_repo \<Rightarrow> bool" where
  "runs_inv d \<equiv> keyed_by rn_key d \<and> one_active d"

lemma keyed_byD: "keyed_by f d \<Longrightarrow> map_of d k = Some v \<Longrightarrow> k = f v"
  by (auto simp: keyed_by_def list_all_iff dest!: map_of_SomeD)

lemma keyed_by_values: "keyed_by f d \<Longrightarrow> v \<in> set (dict_values d) \<longleftrightarrow> map_of d (f v) = Some v"
  by (auto simp: keyed_by_def list_all_iff dest: map_of_SomeD) force+

lemma keyed_by_update: "keyed_by f d \<Longrightarrow> k = f v \<Longrightarrow> keyed_by f (AList.update k v d)"
  by (auto simp: keyed_by_def list_all_iff set_update_dict)

lemma keyed_by_delete: "keyed_by f d \<Longrightarrow> keyed_by f (AList.delete k d)"
  by (auto simp: keyed_by_def list_all_iff set_delete_dict)

lemma keyed_by_Nil [simp]: "keyed_by f []"
  by (simp add: keyed_by_def)

lemma live_threads_simps [simp]:
  "live_threads [] = []"
  "live_threads ((k, r) # d) = (if holds_thread r then rn_thread_key r # live_threads d else live_threads d)"
  "live_threads (d @ e) = live_threads d @ live_threads e"
  by (simp_all add: live_threads_def)

lemma live_threadsI:
  "map_of d k = Some r \<Longrightarrow> holds_thread r \<Longrightarrow> rn_thread_key r \<in> set (live_threads d)"
  by (induction d) (auto split: if_splits)

lemma live_threads_iff:
  "Some t \<in> set (live_threads d) \<longleftrightarrow>
   (\<exists>r \<in> set (dict_values d). is_active (rn_status r) \<and> rn_thread_key r = Some t)"
  by (induction d) (auto simp: holds_thread_def split: if_splits)

lemma runs_active_None: "runs_active d t = None \<longleftrightarrow> Some t \<notin> set (live_threads d)"
  unfolding live_threads_iff by (auto simp: runs_active_def find_None_iff)

lemma runs_active_SomeD:
  assumes "runs_active d t = Some r"
  shows "r \<in> set (dict_values d) \<and> rn_thread_key r = Some t \<and> is_active (rn_status r)"
  using find_SomeD [OF assms [unfolded runs_active_def]] by simp

lemma runs_create_keyed: "preserves (keyed_by rn_key) (runs_create r)"
  by (rule preservesI) (auto simp: runs_create_def keyed_by_update split: option.splits)

lemma runs_create_one_active: "preserves one_active (runs_create r)"
proof (rule preservesI)
  fix d assume d: "one_active d"
  have new: "one_active (AList.update (rn_key r) r d)"
    if "map_of d (rn_key r) = None" and "\<forall>t. rn_thread_key r = Some t \<longrightarrow> runs_active d t = None"
    using d that by (auto simp: dict_update_new one_active_def runs_active_None holds_thread_def)
  show "one_active (snd (runs_create r d))"
    using d new by (auto simp: runs_create_def split: option.splits)
qed

text \<open>An update keeps the invariant when the new value is terminal, or when the run it replaces was
  already the active one of the same thread.\<close>

lemma one_active_update:
  assumes "one_active d" and "map_of d k = Some old"
    and "is_active (rn_status r) \<Longrightarrow> is_active (rn_status old) \<and> rn_thread_key r = rn_thread_key old"
  shows "one_active (AList.update k r d)"
proof -
  obtain a b where ab: "d = a @ (k, old) # b" "\<And>w. AList.update k w d = a @ (k, w) # b"
    using dict_split [OF assms(2)] by metis
  have "holds_thread r \<Longrightarrow> holds_thread old \<and> rn_thread_key r = rn_thread_key old"
    using assms(3) by (simp add: holds_thread_def)
  with assms(1) show ?thesis
    unfolding ab(2) unfolding ab(1) one_active_def by (cases "holds_thread r") (auto split: if_splits)
qed

lemma runs_update_one_active:
  assumes "one_active d" and "map_of d (rn_key r) = Some old"
    and "is_active (rn_status r) \<Longrightarrow> is_active (rn_status old) \<and> rn_thread_key r = rn_thread_key old"
  shows "one_active (snd (runs_update r d))"
  using one_active_update [OF assms] assms(2) by (simp add: runs_update_def)

lemma live_threads_delete: "set (live_threads (AList.delete k d)) \<subseteq> set (live_threads d)"
proof (induction d)
  case (Cons p d)
  then show ?case by (cases p) (simp add: AList.delete_eq, blast)
qed simp

lemma one_active_delete: "one_active d \<Longrightarrow> one_active (AList.delete k d)"
proof (induction d)
  case (Cons p d)
  with live_threads_delete [of k d] show ?case
    by (cases p) (auto simp: one_active_def AList.delete_eq split: if_splits)
qed (simp add: one_active_def)

lemma one_activeD:
  assumes "one_active d" and "map_of d k = Some r" "map_of d k' = Some r'"
    and "holds_thread r" "holds_thread r'" and "rn_thread_key r = rn_thread_key r'"
  shows "k = k'"
proof (rule ccontr)
  assume "k \<noteq> k'"
  obtain a b where ab: "d = a @ (k, r) # b" using dict_split [OF assms(2)] by metis
  with \<open>k \<noteq> k'\<close> assms(3) have "map_of a k' = Some r' \<or> map_of b k' = Some r'"
    by (auto simp: map_add_Some_iff)
  then have "rn_thread_key r' \<in> set (live_threads a) \<union> set (live_threads b)"
    using assms(5) live_threadsI by auto
  with assms(1,4,6) ab show False by (auto simp: one_active_def)
qed

subsection \<open>Searches\<close>

text \<open>Paging a sorted selection: the pages put together are the whole selection, each page is newest
  first, and nothing but the selection is on a page.\<close>

lemma py_slice_pages: "py_slice off m xs @ py_slice (off + m) n xs = py_slice off (m + n) xs"
  by (simp add: py_slice_def take_add add.commute)

lemma threads_search_state [simp]: "snd (threads_search md st lmt off d) = d"
  by (simp add: threads_search_def getsM_def)

lemma runs_queries_state [simp]:
  "snd (runs_active_for_thread t d) = d" "snd (runs_latest_for_thread t d) = d"
  "snd (runs_list_for_thread t lmt off st d) = d"
  by (simp_all add: runs_active_for_thread_def runs_latest_for_thread_def runs_list_for_thread_def
      getsM_def)

lemma threads_search_pages:
  assumes "threads_search md st m off d = (Inr xs, d)"
    and "threads_search md st n (off + m) d = (Inr ys, d)"
  shows "threads_search md st (m + n) off d = (Inr (xs @ ys), d)"
  using assms by (auto simp: threads_search_def getsM_def Let_def py_slice_pages)

lemma threads_search_sound:
  assumes "threads_search md st lmt off d = (Inr ts, d')"
  shows "sorted_wrt (\<lambda>a b. created_or_min (th_created_at b) \<le> created_or_min (th_created_at a)) ts"
    and "length ts \<le> lmt"
    and "t \<in> set ts \<Longrightarrow> t \<in> set (dict_values d)"
    and "t \<in> set ts \<Longrightarrow> st = Some s \<Longrightarrow> thread_status_str (th_status t) = s"
    and "t \<in> set ts \<Longrightarrow> md = Some w \<Longrightarrow> metadata_matches w (th_metadata t)"
proof -
  from assms have ts: "ts = py_slice off lmt (sort_desc (\<lambda>t. created_or_min (th_created_at t))
      (filter (\<lambda>t. (st = None \<or> Some (thread_status_str (th_status t)) = st)
        \<and> metadata_matches (case md of None \<Rightarrow> [] | Some m \<Rightarrow> m) (th_metadata t)) (dict_values d)))"
    by (auto simp: threads_search_def getsM_def Let_def)
  show "sorted_wrt (\<lambda>a b. created_or_min (th_created_at b) \<le> created_or_min (th_created_at a)) ts"
    unfolding ts by (rule py_slice_sorted) (rule sort_desc_sorted)
  show "length ts \<le> lmt" unfolding ts by (simp add: py_slice_length)
  show "t \<in> set ts \<Longrightarrow> t \<in> set (dict_values d)"
    unfolding ts by (drule subsetD [OF py_slice_set]) simp
  show "t \<in> set ts \<Longrightarrow> st = Some s \<Longrightarrow> thread_status_str (th_status t) = s"
    unfolding ts by (drule subsetD [OF py_slice_set]) simp
  show "t \<in> set ts \<Longrightarrow> md = Some w \<Longrightarrow> metadata_matches w (th_metadata t)"
    unfolding ts by (drule subsetD [OF py_slice_set]) simp
qed

lemma runs_latest_newest:
  assumes "runs_latest_for_thread t d = (Inr (Some r), d')"
  shows "r \<in> set (dict_values d) \<and> rn_thread_key r = Some t \<and>
    (\<forall>r' \<in> set (dict_values d). rn_thread_key r' = Some t \<longrightarrow>
       created_or_min (rn_created_at r') \<le> created_or_min (rn_created_at r))"
proof -
  from assms have "py_max (\<lambda>r. created_or_min (rn_created_at r))
      (filter (\<lambda>r. rn_thread_key r = Some t) (dict_values d)) = Some r"
    by (auto simp: runs_latest_for_thread_def getsM_def)
  from py_max_Some [OF this] show ?thesis by simp
qed

subsection \<open>The outbox\<close>

lemma outbox_append_pending:
  assumes "outbox_append m d = (Inr x, d')" and "\<not> ob_published m"
  shows "filter (\<lambda>m. \<not> ob_published m) (dict_values d')
       = filter (\<lambda>m. \<not> ob_published m) (dict_values d) @ [m]"
  using assms by (auto simp: outbox_append_def Let_def dict_update_new split: if_splits)

lemma outbox_published_gone:
  assumes "keyed_by (\<lambda>m. id_value (ob_message_id m)) d" and "outbox_mark_published i d = (Inr (), d')"
    and "outbox_pending n d' = (Inr ms, d'')" and "m \<in> set ms"
  shows "id_value (ob_message_id m) \<noteq> id_value i"
proof
  assume eq: "id_value (ob_message_id m) = id_value i"
  from assms(2) obtain old where old: "map_of d (id_value i) = Some old"
    and d': "d' = AList.update (id_value i) (old \<lparr> ob_published := True \<rparr>) d"
    by (auto simp: outbox_mark_published_def split: option.splits)
  have k: "keyed_by (\<lambda>m. id_value (ob_message_id m)) d'"
    unfolding d' by (rule keyed_by_update [OF assms(1)]) (use keyed_byD [OF assms(1) old] in simp)
  from assms(3,4) have "m \<in> set (dict_values d')" "\<not> ob_published m"
    by (auto simp: outbox_pending_def getsM_def dest: in_set_takeD)
  with k eq have "map_of d' (id_value i) = Some m" by (simp only: keyed_by_values)
  with d' \<open>\<not> ob_published m\<close> show False by auto
qed

end
