(* ===== verification/Memory_Queue.thy ===== *)
theory Memory_Queue
  imports Domain "HOL-Library.Multiset" "HOL-Library.Product_Lexorder"
begin

section \<open>The in-memory run-command queue\<close>

text \<open>
  \<^verbatim>\<open>adapters/memory/queue.py\<close>.  The \<open>asyncio.PriorityQueue\<close> is the list of the queued commands; \<open>get\<close>
  removes the entry with the least pair of negated priority and sequence number.  The counter of
  unfinished tasks of \<open>asyncio.Queue\<close> is kept, because \<open>task_done\<close> raises when it is exhausted.  A
  receiver that has to wait (the queue is empty and open) is the value \<open>None\<close> with the state
  unchanged.  The interface \<open>command_queue\<close> says that no command is lost or duplicated.
\<close>

record QueuedCommand =
  qc_priority :: int
  qc_sequence :: int
  qc_command :: RunCommand
  qc_delivery_count :: int

record PriorityQueue =
  pq_queue :: "QueuedCommand list"
  pq_unfinished :: nat
  pq_sequence :: int
  pq_closed :: bool
  pq_leases :: "(string, QueuedCommand \<times> RunCommandReceipt) pydict"
  pq_lease_seconds :: int
  pq_max_retries :: int
  pq_dead_letters :: "RunCommand list"

definition new_queue :: "int \<Rightarrow> int \<Rightarrow> PriorityQueue" where
  "new_queue lease_seconds max_retries =
     \<lparr> pq_queue = [], pq_unfinished = 0, pq_sequence = 0, pq_closed = False, pq_leases = [],
       pq_lease_seconds = lease_seconds, pq_max_retries = max_retries, pq_dead_letters = [] \<rparr>"

subsection \<open>asyncio.PriorityQueue\<close>

abbreviation qc_rank :: "QueuedCommand \<Rightarrow> int \<times> int" where
  "qc_rank q \<equiv> (qc_priority q, qc_sequence q)"

definition pq_put :: "QueuedCommand \<Rightarrow> PriorityQueue \<Rightarrow> PriorityQueue" where
  "pq_put x q = q \<lparr> pq_queue := pq_queue q @ [x], pq_unfinished := Suc (pq_unfinished q) \<rparr>"

definition pq_task_done :: "(PriorityQueue, exc, unit) prog" where
  "pq_task_done = (\<lambda>q. case pq_unfinished q of
       0 \<Rightarrow> (Inl (ValueError ''task_done() called too many times''), q)
     | Suc n \<Rightarrow> (Inr (), q \<lparr> pq_unfinished := n \<rparr>))"

definition pq_enqueue :: "RunCommand \<Rightarrow> int \<Rightarrow> PriorityQueue \<Rightarrow> PriorityQueue" where
  "pq_enqueue c cnt q =
     (pq_put \<lparr> qc_priority = - priority_int (rc_priority c), qc_sequence = pq_sequence q,
               qc_command = c, qc_delivery_count = cnt \<rparr> q) \<lparr> pq_sequence := pq_sequence q + 1 \<rparr>"

subsection \<open>Operations\<close>

definition queue_publish :: "RunCommand \<Rightarrow> (PriorityQueue, exc, unit) prog" where
  "queue_publish c = (\<lambda>q.
     if pq_closed q then (Inl (runtime_failure QUEUE_CLOSED ''run command queue is closed''), q)
     else (Inr (), pq_enqueue c 0 q))"

text \<open>\<open>publish\<close> also takes a bare request and wraps it into a command.\<close>

definition queue_publish_request ::
  "datetime \<Rightarrow> string \<Rightarrow> ExecutionRequest \<Rightarrow> (PriorityQueue, exc, unit) prog" where
  "queue_publish_request now new_id r =
     queue_publish \<lparr> rc_command_id = CommandId new_id, rc_identity = rq_identity r, rc_request = r,
       rc_priority = rq_priority r, rc_available_at = now, rc_created_at = now \<rparr>"

definition queue_receive ::
  "datetime \<Rightarrow> string \<Rightarrow> (PriorityQueue, exc, RunCommandReceipt option) prog" where
  "queue_receive now new_id = (\<lambda>q.
     if pq_closed q \<and> pq_queue q = []
     then (Inl (runtime_failure QUEUE_CLOSED ''run command queue is closed''), q)
     else (case py_min qc_rank (pq_queue q) of
         None \<Rightarrow> (Inr None, q)
       | Some item \<Rightarrow>
         (let receipt = \<lparr> rp_command = qc_command item, rp_lease_id = LeaseId new_id,
                rp_delivery_count = qc_delivery_count item + 1, rp_leased_at = now,
                rp_lease_expires_at = now + seconds (pq_lease_seconds q) \<rparr>
          in (Inr (Some receipt),
              q \<lparr> pq_queue := remove1 item (pq_queue q),
                  pq_leases := AList.update new_id (item, receipt) (pq_leases q) \<rparr>))))"

definition queue_acknowledge :: "RunCommandReceipt \<Rightarrow> (PriorityQueue, exc, unit) prog" where
  "queue_acknowledge receipt = (\<lambda>q. let k = id_value (rp_lease_id receipt) in
     (case map_of (pq_leases q) k of
        None \<Rightarrow> (Inl (runtime_failure INVALID_EXECUTION_INPUT ''receipt is not active''), q)
      | Some _ \<Rightarrow> pq_task_done (q \<lparr> pq_leases := AList.delete k (pq_leases q) \<rparr>)))"

definition queue_reject :: "RunCommandReceipt \<Rightarrow> bool \<Rightarrow> (PriorityQueue, exc, unit) prog" where
  "queue_reject receipt retryable = (\<lambda>q. let k = id_value (rp_lease_id receipt) in
     (case map_of (pq_leases q) k of
        None \<Rightarrow> (Inl (runtime_failure INVALID_EXECUTION_INPUT ''receipt is not active''), q)
      | Some (item, _) \<Rightarrow>
        thenM pq_task_done
          (modifyM (\<lambda>q. if retryable \<and> rp_delivery_count receipt \<le> pq_max_retries q
             then pq_enqueue (qc_command item) (rp_delivery_count receipt) q
             else q \<lparr> pq_dead_letters := pq_dead_letters q @ [qc_command item] \<rparr>))
          (q \<lparr> pq_leases := AList.delete k (pq_leases q) \<rparr>)))"

definition queue_close :: "(PriorityQueue, exc, unit) prog" where
  "queue_close = modifyM (\<lambda>q. q \<lparr> pq_closed := True \<rparr>)"

definition queue_pending :: "PriorityQueue \<Rightarrow> nat" where
  "queue_pending q = length (pq_queue q)"

subsection \<open>The contract of a run-command queue\<close>

text \<open>
  \<open>held\<close> are the commands the queue still owes to a consumer, \<open>dead\<close> the ones it gave up.  A consumer
  acknowledges or rejects receipts that are \<open>active\<close>, exactly as it got them; a receipt whose lease
  is \<open>unknown\<close> (settled before, or never given out) is refused; lease identifiers are \<open>fresh\<close>.
\<close>

datatype queue_op =
    Publish RunCommand
  | Receive datetime string
  | Acknowledge RunCommandReceipt
  | Reject RunCommandReceipt bool

locale command_queue =
  fixes publish :: "RunCommand \<Rightarrow> ('s, exc, unit) prog"
    and receive :: "datetime \<Rightarrow> string \<Rightarrow> ('s, exc, RunCommandReceipt option) prog"
    and ack :: "RunCommandReceipt \<Rightarrow> ('s, exc, unit) prog"
    and reject :: "RunCommandReceipt \<Rightarrow> bool \<Rightarrow> ('s, exc, unit) prog"
    and held :: "'s \<Rightarrow> RunCommand multiset"
    and dead :: "'s \<Rightarrow> RunCommand multiset"
    and inv :: "'s \<Rightarrow> bool"
    and active :: "'s \<Rightarrow> RunCommandReceipt \<Rightarrow> bool"
    and unknown :: "'s \<Rightarrow> RunCommandReceipt \<Rightarrow> bool"
    and fresh :: "'s \<Rightarrow> string \<Rightarrow> bool"
  assumes publish_spec: "inv s \<Longrightarrow> publish c s = (Inr u, s') \<Longrightarrow>
      inv s' \<and> held s' = add_mset c (held s) \<and> dead s' = dead s"
    and publish_error: "publish c s = (Inl e, s') \<Longrightarrow> s' = s"
    and receive_spec: "inv s \<Longrightarrow> fresh s i \<Longrightarrow> receive now i s = (Inr (Some r), s') \<Longrightarrow>
      inv s' \<and> held s' = held s \<and> dead s' = dead s \<and> active s' r \<and> rp_command r \<in># held s"
    and receive_none: "receive now i s = (Inr None, s') \<Longrightarrow> s' = s"
    and receive_error: "receive now i s = (Inl e, s') \<Longrightarrow> s' = s"
    and ack_spec: "inv s \<Longrightarrow> active s r \<Longrightarrow> \<exists>s'. ack r s = (Inr (), s') \<and> inv s'
      \<and> add_mset (rp_command r) (held s') = held s \<and> dead s' = dead s \<and> unknown s' r"
    and ack_inactive: "unknown s r \<Longrightarrow> \<exists>e. ack r s = (Inl e, s)"
    and reject_spec: "inv s \<Longrightarrow> active s r \<Longrightarrow> \<exists>s'. reject r b s = (Inr (), s') \<and> inv s'
      \<and> held s' + dead s' = held s + dead s \<and> dead s \<subseteq># dead s' \<and> unknown s' r"
    and reject_inactive: "unknown s r \<Longrightarrow> \<exists>e. reject r b s = (Inl e, s)"
begin

fun run_op :: "queue_op \<Rightarrow> 's \<Rightarrow> 's" where
  "run_op (Publish c) s = snd (publish c s)"
| "run_op (Receive now i) s = snd (receive now i s)"
| "run_op (Acknowledge r) s = snd (ack r s)"
| "run_op (Reject r b) s = snd (reject r b s)"

text \<open>The commands that enter and that leave with an operation.\<close>

fun entered :: "queue_op \<Rightarrow> 's \<Rightarrow> RunCommand multiset" where
  "entered (Publish c) s = (case fst (publish c s) of Inr _ \<Rightarrow> {#c#} | Inl _ \<Rightarrow> {#})"
| "entered _ s = {#}"

fun finished :: "queue_op \<Rightarrow> 's \<Rightarrow> RunCommand multiset" where
  "finished (Acknowledge r) s = (if active s r then {#rp_command r#} else {#})"
| "finished _ s = {#}"

fun op_ok :: "queue_op \<Rightarrow> 's \<Rightarrow> bool" where
  "op_ok (Receive now i) s = fresh s i"
| "op_ok (Acknowledge r) s = (active s r \<or> unknown s r)"
| "op_ok (Reject r b) s = (active s r \<or> unknown s r)"
| "op_ok _ s = True"

fun run_ops :: "queue_op list \<Rightarrow> 's \<Rightarrow> 's" where
  "run_ops [] s = s"
| "run_ops (x # xs) s = run_ops xs (run_op x s)"

fun all_entered :: "queue_op list \<Rightarrow> 's \<Rightarrow> RunCommand multiset" where
  "all_entered [] s = {#}"
| "all_entered (x # xs) s = entered x s + all_entered xs (run_op x s)"

fun all_finished :: "queue_op list \<Rightarrow> 's \<Rightarrow> RunCommand multiset" where
  "all_finished [] s = {#}"
| "all_finished (x # xs) s = finished x s + all_finished xs (run_op x s)"

fun ops_ok :: "queue_op list \<Rightarrow> 's \<Rightarrow> bool" where
  "ops_ok [] s = True"
| "ops_ok (x # xs) s = (op_ok x s \<and> ops_ok xs (run_op x s))"

lemma op_conserves:
  assumes "inv s" and "op_ok x s"
  shows "inv (run_op x s) \<and> held (run_op x s) + dead (run_op x s) + finished x s
       = held s + dead s + entered x s"
proof (cases x)
  case (Publish c)
  obtain r s' where rs: "publish c s = (r, s')" by fastforce
  then show ?thesis
    using Publish assms publish_spec publish_error by (cases r) fastforce+
next
  case (Receive now i)
  obtain r s' where rs: "receive now i s = (r, s')" by fastforce
  show ?thesis
  proof (cases r)
    case (Inl e)
    with rs have "s' = s" using receive_error by blast
    with Receive rs assms show ?thesis by simp
  next
    case (Inr o')
    with Receive rs assms show ?thesis
      using receive_none receive_spec by (cases o') fastforce+
  qed
next
  case (Acknowledge r)
  show ?thesis
  proof (cases "active s r")
    case True
    from ack_spec [OF assms(1) True] obtain s' where "ack r s = (Inr (), s')" "inv s'"
      "add_mset (rp_command r) (held s') = held s" "dead s' = dead s" by blast
    with True Acknowledge show ?thesis by (simp flip: \<open>_ = held s\<close>)
  next
    case False
    with Acknowledge assms(2) have "unknown s r" by simp
    then show ?thesis using ack_inactive [of s r] Acknowledge False assms by fastforce
  qed
next
  case (Reject r b)
  show ?thesis
  proof (cases "active s r")
    case True
    with reject_spec [OF assms(1) True, of b] Reject show ?thesis by fastforce
  next
    case False
    with Reject assms(2) have "unknown s r" by simp
    then show ?thesis using reject_inactive [of s r b] Reject assms by fastforce
  qed
qed

lemma ops_conserve:
  assumes "inv s" and "ops_ok xs s"
  shows "inv (run_ops xs s) \<and>
    held (run_ops xs s) + dead (run_ops xs s) + all_finished xs s
      = held s + dead s + all_entered xs s"
  using assms
proof (induction xs arbitrary: s)
  case (Cons x xs)
  then have "inv (run_op x s)" and one: "held (run_op x s) + dead (run_op x s) + finished x s
      = held s + dead s + entered x s"
    using op_conserves by auto
  with Cons have "inv (run_ops (x # xs) s)" and
    "held (run_ops (x # xs) s) + dead (run_ops (x # xs) s) + all_finished xs (run_op x s)
      = held (run_op x s) + dead (run_op x s) + all_entered xs (run_op x s)" by auto
  with one show ?case by (simp add: ac_simps)
qed simp

end

subsection \<open>The invariant of the queue\<close>

definition item_ok :: "int \<Rightarrow> QueuedCommand \<Rightarrow> bool" where
  "item_ok m x \<longleftrightarrow> qc_priority x = - priority_int (rc_priority (qc_command x))
     \<and> 0 \<le> qc_delivery_count x \<and> qc_delivery_count x \<le> max 0 m"

definition lease_ok :: "int \<Rightarrow> string \<times> QueuedCommand \<times> RunCommandReceipt \<Rightarrow> bool" where
  "lease_ok m l = (case l of (k, x, r) \<Rightarrow> item_ok m x \<and> id_value (rp_lease_id r) = k
     \<and> rp_command r = qc_command x \<and> rp_delivery_count r = qc_delivery_count x + 1)"

definition queue_inv :: "PriorityQueue \<Rightarrow> bool" where
  "queue_inv q \<longleftrightarrow> dict_ok (pq_leases q) \<and> list_all (lease_ok (pq_max_retries q)) (pq_leases q)
     \<and> list_all (item_ok (pq_max_retries q)) (pq_queue q)
     \<and> distinct (map qc_sequence (pq_queue q))
     \<and> list_all (\<lambda>x. qc_sequence x < pq_sequence q) (pq_queue q)
     \<and> pq_unfinished q = length (pq_queue q) + length (pq_leases q)"

definition queue_held :: "PriorityQueue \<Rightarrow> RunCommand multiset" where
  "queue_held q = mset (map qc_command (pq_queue q))
     + mset (map (\<lambda>l. qc_command (fst (snd l))) (pq_leases q))"

definition queue_active :: "PriorityQueue \<Rightarrow> RunCommandReceipt \<Rightarrow> bool" where
  "queue_active q r \<longleftrightarrow>
     map_option snd (map_of (pq_leases q) (id_value (rp_lease_id r))) = Some r"

definition queue_unknown :: "PriorityQueue \<Rightarrow> RunCommandReceipt \<Rightarrow> bool" where
  "queue_unknown q r \<longleftrightarrow> map_of (pq_leases q) (id_value (rp_lease_id r)) = None"

lemmas queue_ops = queue_publish_def queue_receive_def queue_acknowledge_def queue_reject_def
lemmas queue_views = queue_held_def queue_active_def queue_unknown_def

lemma new_queue_inv: "queue_inv (new_queue l m)"
  by (simp add: queue_inv_def new_queue_def)

lemma queue_inv_enqueue:
  assumes "queue_inv q" and "0 \<le> n" and "n \<le> max 0 (pq_max_retries q)"
  shows "queue_inv (pq_enqueue c n q)"
  using assms by (auto simp: queue_inv_def pq_enqueue_def pq_put_def item_ok_def list_all_iff)

lemma queue_held_enqueue: "queue_held (pq_enqueue c n q) = add_mset c (queue_held q)"
  by (simp add: queue_held_def pq_enqueue_def pq_put_def)

lemma pq_enqueue_frame [simp]:
  "pq_leases (pq_enqueue c n q) = pq_leases q" "pq_dead_letters (pq_enqueue c n q) = pq_dead_letters q"
  "pq_max_retries (pq_enqueue c n q) = pq_max_retries q" "pq_closed (pq_enqueue c n q) = pq_closed q"
  by (simp_all add: pq_enqueue_def pq_put_def)

lemma queue_inv_lease:
  assumes "queue_inv q" and "x \<in> set (pq_queue q)" and "map_of (pq_leases q) k = None"
    and "lease_ok (pq_max_retries q) (k, x, r)"
  shows "queue_inv (q \<lparr> pq_queue := remove1 x (pq_queue q), pq_leases := AList.update k (x, r) (pq_leases q) \<rparr>)"
proof -
  have "length (pq_queue q) = Suc (length (remove1 x (pq_queue q)))"
    using assms(2) length_pos_if_in_set [OF assms(2)] by (simp add: length_remove1)
  moreover have "distinct (map qc_sequence (remove1 x ys))" if "distinct (map qc_sequence ys)" for ys
    using that by (rule distinct_map_remove1)
  moreover have "y \<in> set (pq_queue q)" if "y \<in> set (remove1 x (pq_queue q))" for y
    using that by (meson notin_set_remove1)
  ultimately show ?thesis
    using assms by (auto simp: queue_inv_def length_update_new list_all_iff dict_update_new)
qed

lemma mset_map_delete:
  assumes "dict_ok d" and "map_of d k = Some v"
  shows "mset (map f d) = add_mset (f (k, v)) (mset (map f (AList.delete k d)))"
    and "length d = Suc (length (AList.delete k d))"
proof -
  obtain a b where d: "d = a @ (k, v) # b" using dict_split [OF assms(2)] by metis
  have "AList.delete k d = a @ b"
    using assms(1) unfolding d by (induction a) auto
  then show "mset (map f d) = add_mset (f (k, v)) (mset (map f (AList.delete k d)))"
    and "length d = Suc (length (AList.delete k d))"
    by (simp_all add: d)
qed

text \<open>What settling a lease leaves behind, before the requeue or the dead letter of a rejection.\<close>

definition settled :: "string \<Rightarrow> PriorityQueue \<Rightarrow> PriorityQueue" where
  "settled k q = q \<lparr> pq_leases := AList.delete k (pq_leases q), pq_unfinished := pq_unfinished q - 1 \<rparr>"

lemma settled_frame [simp]:
  "pq_queue (settled k q) = pq_queue q" "pq_max_retries (settled k q) = pq_max_retries q"
  "pq_dead_letters (settled k q) = pq_dead_letters q" "pq_closed (settled k q) = pq_closed q"
  "pq_leases (settled k q) = AList.delete k (pq_leases q)"
  by (simp_all add: settled_def)

lemma task_done_settled:
  assumes "queue_inv q" and "map_of (pq_leases q) k = Some l"
  shows "pq_task_done (q \<lparr> pq_leases := AList.delete k (pq_leases q) \<rparr>) = (Inr (), settled k q)"
proof -
  from assms(2) have "pq_leases q \<noteq> []" by auto
  with assms(1) obtain n where "pq_unfinished q = Suc n"
    by (cases "pq_unfinished q") (auto simp: queue_inv_def)
  then show ?thesis by (simp add: pq_task_done_def settled_def)
qed

lemma settled_inv:
  assumes "queue_inv q" and "map_of (pq_leases q) k = Some l"
  shows "queue_inv (settled k q)"
  using assms mset_map_delete(2) [of "pq_leases q" k l]
  by (auto simp: queue_inv_def settled_def list_all_iff set_delete_dict)

lemma settled_held:
  assumes "queue_inv q" and "map_of (pq_leases q) k = Some l"
  shows "queue_held q = add_mset (qc_command (fst l)) (queue_held (settled k q))"
  using assms mset_map_delete(1) [of "pq_leases q" k l "\<lambda>l. qc_command (fst (snd l))"]
  by (simp add: queue_inv_def queue_held_def)

lemma queue_inv_leaseD:
  assumes "queue_inv q" and "map_of (pq_leases q) k = Some l"
  shows "lease_ok (pq_max_retries q) (k, l)"
  using assms by (auto simp: queue_inv_def list_all_iff dest: map_of_SomeD)

lemma queue_acknowledge_run:
  assumes "queue_inv q" and "map_of (pq_leases q) (id_value (rp_lease_id r)) = Some l"
  shows "queue_acknowledge r q = (Inr (), settled (id_value (rp_lease_id r)) q)"
  using assms by (simp add: queue_acknowledge_def task_done_settled)

lemma queue_reject_run:
  assumes "queue_inv q" and "map_of (pq_leases q) (id_value (rp_lease_id r)) = Some (x, r')"
  shows "queue_reject r b q = (Inr (),
    (let q' = settled (id_value (rp_lease_id r)) q in
     if b \<and> rp_delivery_count r \<le> pq_max_retries q
     then pq_enqueue (qc_command x) (rp_delivery_count r) q'
     else q' \<lparr> pq_dead_letters := pq_dead_letters q @ [qc_command x] \<rparr>))"
  using assms by (simp add: queue_reject_def task_done_settled thenM_def bindM_def modifyM_def Let_def)

lemma queue_receive_Some:
  assumes "queue_receive now i q = (Inr (Some r), q')"
  obtains x where "py_min qc_rank (pq_queue q) = Some x" and "rp_command r = qc_command x"
    and "rp_lease_id r = LeaseId i" and "rp_delivery_count r = qc_delivery_count x + 1"
    and "q' = q \<lparr> pq_queue := remove1 x (pq_queue q), pq_leases := AList.update i (x, r) (pq_leases q) \<rparr>"
  using assms by (auto simp: queue_receive_def Let_def split: if_splits option.splits)

lemma queue_receive_spec:
  assumes "queue_inv q" and "map_of (pq_leases q) i = None"
    and "queue_receive now i q = (Inr (Some r), q')"
  shows "queue_inv q' \<and> queue_held q' = queue_held q \<and> pq_dead_letters q' = pq_dead_letters q
    \<and> queue_active q' r \<and> rp_command r \<in># queue_held q"
proof -
  obtain x where x: "py_min qc_rank (pq_queue q) = Some x" "rp_command r = qc_command x"
      "rp_lease_id r = LeaseId i" "rp_delivery_count r = qc_delivery_count x + 1"
    and q': "q' = q \<lparr> pq_queue := remove1 x (pq_queue q), pq_leases := AList.update i (x, r) (pq_leases q) \<rparr>"
    using assms(3) by (rule queue_receive_Some)
  from x(1) have xin: "x \<in> set (pq_queue q)" using py_min_Some by fastforce
  with assms(1) have "item_ok (pq_max_retries q) x" by (auto simp: queue_inv_def list_all_iff)
  with x have "lease_ok (pq_max_retries q) (i, x, r)" by (simp add: lease_ok_def)
  then have "queue_inv q'" unfolding q' using assms(1,2) xin by (intro queue_inv_lease)
  moreover have "queue_held q' = queue_held q"
    using xin unfolding q' by (simp add: queue_held_def dict_update_new [OF assms(2)] image_mset_Diff)
  ultimately show ?thesis using x xin unfolding q' by (auto simp: queue_views)
qed

interpretation memory_queue: command_queue queue_publish queue_receive queue_acknowledge queue_reject
    queue_held "\<lambda>q. mset (pq_dead_letters q)" queue_inv queue_active queue_unknown
    "\<lambda>q i. map_of (pq_leases q) i = None"
proof (unfold_locales, goal_cases)
  case (1 s c u s')
  then show ?case
    by (auto simp: queue_publish_def queue_held_enqueue intro: queue_inv_enqueue split: if_splits)
next
  case (3 s i now r s')
  from queue_receive_spec [OF this] show ?case by simp
next
  case (6 s r)
  then obtain l where l: "map_of (pq_leases s) (id_value (rp_lease_id r)) = Some l" "snd l = r"
    by (auto simp: queue_active_def)
  moreover from queue_inv_leaseD [OF 6(1) l(1)] l(2) have "qc_command (fst l) = rp_command r"
    by (auto simp: lease_ok_def)
  ultimately show ?case
    using queue_acknowledge_run [OF 6(1) l(1)] settled_held [OF 6(1) l(1)] settled_inv [OF 6(1) l(1)]
    by (simp add: queue_unknown_def)
next
  case (8 s r b)
  then obtain x where l: "map_of (pq_leases s) (id_value (rp_lease_id r)) = Some (x, r)"
    by (auto simp: queue_active_def)
  from queue_inv_leaseD [OF 8(1) l]
  have "rp_delivery_count r = qc_delivery_count x + 1" "0 \<le> qc_delivery_count x"
    by (simp_all add: lease_ok_def item_ok_def)
  then show ?case
    using queue_reject_run [OF 8(1) l, of b] settled_held [OF 8(1) l] settled_inv [OF 8(1) l]
    by (auto simp: Let_def queue_held_enqueue queue_unknown_def queue_inv_enqueue
        intro!: queue_inv_enqueue) (auto simp: queue_inv_def queue_held_def)
qed (auto simp: queue_ops queue_unknown_def Let_def split: if_splits option.splits)

subsection \<open>Order and delivery bounds\<close>

text \<open>A receive takes the command of the greatest priority, and among those the oldest entry.\<close>

lemma queue_receive_order:
  assumes "queue_inv q" and "queue_receive now i q = (Inr (Some r), q')" and "y \<in> set (pq_queue q)"
  shows "priority_int (rc_priority (qc_command y)) \<le> priority_int (rc_priority (rp_command r))"
    and "rc_priority (qc_command y) = rc_priority (rp_command r) \<Longrightarrow> qc_command y \<noteq> rp_command r \<Longrightarrow>
      \<exists>x \<in> set (pq_queue q). qc_command x = rp_command r \<and> qc_sequence x < qc_sequence y"
proof -
  obtain x where x: "py_min qc_rank (pq_queue q) = Some x" "rp_command r = qc_command x"
    using assms(2) by (rule queue_receive_Some)
  from py_min_Some [OF x(1)] assms(3) have xin: "x \<in> set (pq_queue q)" and le: "qc_rank x \<le> qc_rank y"
    by auto
  from assms(1,3) xin have p: "qc_priority x = - priority_int (rc_priority (qc_command x))"
    "qc_priority y = - priority_int (rc_priority (qc_command y))"
    by (auto simp: queue_inv_def item_ok_def list_all_iff)
  from le p x(2) show "priority_int (rc_priority (qc_command y)) \<le> priority_int (rc_priority (rp_command r))"
    by (auto simp: less_eq_prod_def)
  assume "rc_priority (qc_command y) = rc_priority (rp_command r)" "qc_command y \<noteq> rp_command r"
  then have "qc_sequence x < qc_sequence y"
    using le p x(2) assms(1,3) xin
    by (auto simp: less_eq_prod_def queue_inv_def distinct_map inj_on_def order_less_le)
  with x(2) xin show "\<exists>x \<in> set (pq_queue q). qc_command x = rp_command r \<and> qc_sequence x < qc_sequence y"
    by auto
qed

text \<open>No receipt is handed out more often than the first time and once per retry.\<close>

lemma queue_receive_bound:
  assumes "queue_inv q" and "queue_receive now i q = (Inr (Some r), q')"
  shows "1 \<le> rp_delivery_count r \<and> rp_delivery_count r \<le> max 0 (pq_max_retries q) + 1"
proof -
  obtain x where x: "py_min qc_rank (pq_queue q) = Some x"
    "rp_delivery_count r = qc_delivery_count x + 1"
    using assms(2) by (rule queue_receive_Some)
  from py_min_Some [OF x(1)] assms(1) have "item_ok (pq_max_retries q) x"
    by (auto simp: queue_inv_def list_all_iff)
  with x(2) show ?thesis by (simp add: item_ok_def)
qed

lemma queue_reject_dead:
  assumes "queue_inv q" and "queue_active q r"
  shows "pq_dead_letters (snd (queue_reject r b q)) =
    pq_dead_letters q @ (if b \<and> rp_delivery_count r \<le> pq_max_retries q then [] else [rp_command r])"
proof -
  from assms(2) obtain x where l: "map_of (pq_leases q) (id_value (rp_lease_id r)) = Some (x, r)"
    by (auto simp: queue_active_def)
  with queue_inv_leaseD [OF assms(1) l] queue_reject_run [OF assms(1) l, of b] show ?thesis
    by (simp add: Let_def lease_ok_def)
qed

end
