(* ===== verification/Memory_Events.thy ===== *)
theory Memory_Events
  imports Domain "HOL-Library.Sublist"
begin

section \<open>The in-memory event journal\<close>

text \<open>
  \<^verbatim>\<open>adapters/memory/events.py\<close>: an append-only list of events per run, replay from a cursor, and live
  subscriptions through bounded queues.  An \<open>asyncio.Queue\<close> is an object with identity: the
  journal's sets hold queue identifiers, and \<open>ej_queues\<close> is the heap of their contents (\<open>None\<close> is the
  end marker).  Every method runs to completion under the lock, so the interleavings of writers and
  subscribers are sequences of the operations \<open>journal_append\<close>, \<open>subscribe_open\<close>, \<open>subscribe_next\<close> and
  \<open>subscribe_close\<close>.
\<close>

record EventJournal =
  ej_events :: "(string, RuntimeEvent list) pydict"
  ej_subscribers :: "(string, nat list) pydict"
  ej_overflowed :: "nat list"
  ej_queues :: "(nat, RuntimeEvent option list) pydict"
  ej_next_queue :: nat
  ej_queue_size :: nat

definition terminal_events :: "runtime_event_type list" where
  "terminal_events = [RUN_COMPLETED, RUN_CANCELLED, RUN_FAILED, RUN_TIMEOUT, RUN_INTERRUPTED]"

abbreviation ev_terminal :: "RuntimeEvent \<Rightarrow> bool" where
  "ev_terminal e \<equiv> ev_in (ev_type e) terminal_events"

definition new_journal :: "int \<Rightarrow> exc + EventJournal" where
  "new_journal queue_size =
     (if queue_size < 1 then Inl (ValueError ''queue_size must be positive'')
      else Inr \<lparr> ej_events = [], ej_subscribers = [], ej_overflowed = [], ej_queues = [],
                 ej_next_queue = 0, ej_queue_size = nat queue_size \<rparr>)"

definition events_of :: "EventJournal \<Rightarrow> string \<Rightarrow> RuntimeEvent list" where
  "events_of j k = (case map_of (ej_events j) k of None \<Rightarrow> [] | Some es \<Rightarrow> es)"

definition subscribers_of :: "EventJournal \<Rightarrow> string \<Rightarrow> nat list" where
  "subscribers_of j k = (case map_of (ej_subscribers j) k of None \<Rightarrow> [] | Some qs \<Rightarrow> qs)"

definition queue_of :: "EventJournal \<Rightarrow> nat \<Rightarrow> RuntimeEvent option list" where
  "queue_of j q = (case map_of (ej_queues j) q of None \<Rightarrow> [] | Some xs \<Rightarrow> xs)"

definition set_queue :: "nat \<Rightarrow> RuntimeEvent option list \<Rightarrow> EventJournal \<Rightarrow> EventJournal" where
  "set_queue q xs j = j \<lparr> ej_queues := AList.update q xs (ej_queues j) \<rparr>"

definition queue_full :: "EventJournal \<Rightarrow> nat \<Rightarrow> bool" where
  "queue_full j q \<longleftrightarrow> ej_queue_size j \<le> length (queue_of j q)"

definition discard_subscriber :: "string \<Rightarrow> nat \<Rightarrow> EventJournal \<Rightarrow> EventJournal" where
  "discard_subscriber k q j =
     j \<lparr> ej_subscribers := AList.update k (removeAll q (subscribers_of j k)) (ej_subscribers j) \<rparr>"

definition prune_subscribers :: "string \<Rightarrow> EventJournal \<Rightarrow> EventJournal" where
  "prune_subscribers k j =
     (if subscribers_of j k = [] then j \<lparr> ej_subscribers := AList.delete k (ej_subscribers j) \<rparr> else j)"

subsection \<open>append\<close>

definition close_queue :: "nat \<Rightarrow> EventJournal \<Rightarrow> EventJournal" where
  "close_queue q j =
     (if queue_full j q then set_queue q (tl (queue_of j q) @ [None]) j
      else set_queue q (queue_of j q @ [None]) j)"

definition deliver :: "string \<Rightarrow> RuntimeEvent \<Rightarrow> nat \<Rightarrow> EventJournal \<Rightarrow> EventJournal" where
  "deliver k e q j =
     (if q \<in> set (ej_overflowed j) then j
      else if queue_full j q
      then close_queue q (discard_subscriber k q
             (j \<lparr> ej_overflowed := List.insert q (ej_overflowed j) \<rparr>))
      else set_queue q (queue_of j q @ [Some e]) j)"

definition finish_subscriber :: "string \<Rightarrow> nat \<Rightarrow> EventJournal \<Rightarrow> EventJournal" where
  "finish_subscriber k q j = close_queue q (discard_subscriber k q j)"

definition make_event :: "EventJournal \<Rightarrow> datetime \<Rightarrow> string \<Rightarrow> RuntimeEventDraft \<Rightarrow> RuntimeEvent" where
  "make_event j now new_id d =
     \<lparr> ev_event_id = EventId new_id,
       ev_sequence = int (length (events_of j (run_key (dr_identity d)))),
       ev_timestamp = now, ev_identity = dr_identity d, ev_type = dr_type d,
       ev_namespace = dr_namespace d, ev_data = dr_data d, ev_native = dr_native d,
       ev_trace = \<lparr> trace_id = None, span_id = None \<rparr>, ev_schema_version = 1 \<rparr>"

definition journal_append ::
  "datetime \<Rightarrow> string \<Rightarrow> RuntimeEventDraft \<Rightarrow> (EventJournal, exc, RuntimeEvent) prog" where
  "journal_append now new_id d = (\<lambda>j.
     let k = run_key (dr_identity d);
         event = make_event j now new_id d;
         subscribers = subscribers_of j k;
         j1 = j \<lparr> ej_events := AList.update k (events_of j k @ [event]) (ej_events j) \<rparr>;
         j2 = fold (deliver k event) subscribers j1;
         j3 = (if ev_terminal event then fold (finish_subscriber k) subscribers j2 else j2)
     in (Inr event, prune_subscribers k j3))"

subsection \<open>replay\<close>

definition cursor_invalid :: exc where
  "cursor_invalid = runtime_failure STREAM_CURSOR_INVALID ''sequence cursor must be >= -1''"

definition journal_replay :: "string \<Rightarrow> int \<Rightarrow> (EventJournal, exc, RuntimeEvent list) prog" where
  "journal_replay run after = (\<lambda>j.
     if after < -1 then (Inl cursor_invalid, j)
     else (Inr (filter (\<lambda>e. ev_sequence e > after) (events_of j run)), j))"

subsection \<open>subscribe\<close>

text \<open>
  The generator between two of its steps: the events of the initial snapshot it has still to yield,
  whether that snapshot was terminal, and whether its \<open>finally\<close> block has run.
\<close>

record Subscription =
  sb_key :: string
  sb_queue :: nat
  sb_initial :: "RuntimeEvent list"
  sb_terminal :: bool
  sb_finished :: bool

datatype stream_step = Yield RuntimeEvent | EndOfStream | Waiting

definition subscribe_open :: "string \<Rightarrow> int \<Rightarrow> (EventJournal, exc, Subscription) prog" where
  "subscribe_open run after = (\<lambda>j.
     if after < -1 then (Inl cursor_invalid, j)
     else let q = ej_next_queue j;
              initial = filter (\<lambda>e. ev_sequence e > after) (events_of j run);
              terminal = list_ex ev_terminal initial;
              j1 = (set_queue q [] j) \<lparr> ej_next_queue := Suc q \<rparr>;
              j2 = (if terminal then j1
                    else j1 \<lparr> ej_subscribers :=
                      AList.update run (List.insert q (subscribers_of j1 run)) (ej_subscribers j1) \<rparr>)
          in (Inr \<lparr> sb_key = run, sb_queue = q, sb_initial = initial, sb_terminal = terminal,
                    sb_finished = False \<rparr>, j2))"

definition subscribe_close :: "Subscription \<Rightarrow> EventJournal \<Rightarrow> Subscription \<times> EventJournal" where
  "subscribe_close s j =
     (if sb_finished s then (s, j)
      else (s \<lparr> sb_finished := True \<rparr>,
            prune_subscribers (sb_key s)
              ((discard_subscriber (sb_key s) (sb_queue s) j)
                 \<lparr> ej_overflowed := removeAll (sb_queue s) (ej_overflowed j) \<rparr>)))"

definition subscribe_next ::
  "Subscription \<Rightarrow> EventJournal \<Rightarrow> stream_step \<times> Subscription \<times> EventJournal" where
  "subscribe_next s j =
     (if sb_finished s then (EndOfStream, s, j)
      else case sb_initial s of
        e # es \<Rightarrow> (Yield e, s \<lparr> sb_initial := es \<rparr>, j)
      | [] \<Rightarrow>
        (if sb_terminal s then (EndOfStream, subscribe_close s j)
         else case queue_of j (sb_queue s) of
           [] \<Rightarrow> (Waiting, s, j)
         | None # xs \<Rightarrow> (EndOfStream, subscribe_close s (set_queue (sb_queue s) xs j))
         | Some e # xs \<Rightarrow> (Yield e, s, set_queue (sb_queue s) xs j)))"

subsection \<open>The contract of an event log\<close>

text \<open>
  What the ports \<open>EventJournal\<close> and \<open>EventReplay\<close> promise: per run the events are numbered from 0
  without gaps in the order of the appends, and a replay from a cursor returns exactly the events
  after it.
\<close>

definition numbered :: "RuntimeEvent list \<Rightarrow> bool" where
  "numbered es \<longleftrightarrow> map ev_sequence es = map int [0..<length es]"

lemma numbered_snoc: "numbered (es @ [e]) \<longleftrightarrow> numbered es \<and> ev_sequence e = int (length es)"
  by (auto simp: numbered_def)

lemma numbered_Nil [simp]: "numbered []"
  by (simp add: numbered_def)

lemma numbered_nth: "numbered es \<Longrightarrow> i < length es \<Longrightarrow> ev_sequence (es ! i) = int i"
  unfolding numbered_def by (drule arg_cong [where f = "\<lambda>l. l ! i"]) simp

lemma numbered_filter:
  "numbered es \<Longrightarrow> -1 \<le> n \<Longrightarrow> filter (\<lambda>e. n < ev_sequence e) es = drop (nat (n + 1)) es"
proof (induction es rule: rev_induct)
  case (snoc e es)
  then have "numbered es" "ev_sequence e = int (length es)" by (auto simp: numbered_snoc)
  with snoc show ?case by auto
qed simp

text \<open>\<open>stored\<close> is what a replay shows of an event that \<open>append\<close> returned, \<open>ok\<close> the drafts the store represents.\<close>

locale event_log =
  fixes append :: "datetime \<Rightarrow> string \<Rightarrow> RuntimeEventDraft \<Rightarrow> ('s, exc, RuntimeEvent) prog"
    and replay :: "string \<Rightarrow> int \<Rightarrow> ('s, exc, RuntimeEvent list) prog"
    and log :: "'s \<Rightarrow> string \<Rightarrow> RuntimeEvent list"
    and inv :: "'s \<Rightarrow> bool"
    and stored :: "RuntimeEvent \<Rightarrow> RuntimeEvent"
    and ok :: "RuntimeEventDraft \<Rightarrow> bool"
  assumes append_spec: "inv s \<Longrightarrow> ok d \<Longrightarrow> append now i d s = (Inr e, s') \<Longrightarrow>
      inv s' \<and> ev_sequence e = int (length (log s (run_key (dr_identity d))))
      \<and> ev_type e = dr_type d \<and> ev_data e = dr_data d \<and> ev_identity e = dr_identity d
      \<and> log s' = (log s)(run_key (dr_identity d) := log s (run_key (dr_identity d)) @ [stored e])"
    and inv_numbered: "inv s \<Longrightarrow> numbered (log s k)"
    and replay_spec: "inv s \<Longrightarrow> -1 \<le> n \<Longrightarrow> replay k n s = (Inr (drop (nat (n + 1)) (log s k)), s)"
begin

lemma append_other_run:
  assumes "inv s" and "ok d" and "append now i d s = (Inr e, s')" and "k \<noteq> run_key (dr_identity d)"
  shows "log s' k = log s k"
  using append_spec [OF assms(1-3)] assms(4) by simp

lemma replay_all: "inv s \<Longrightarrow> replay k (-1) s = (Inr (log s k), s)"
  by (simp add: replay_spec)

text \<open>A reader that reconnects with the last sequence number it saw misses nothing and sees nothing
  twice, also when events were appended in between.\<close>

lemma replay_resume:
  assumes "inv s" and "inv s'" and "log s' k = log s k @ new" and "replay k n s = (Inr es, s)"
    and "es \<noteq> []" and "-1 \<le> n"
  shows "replay k (ev_sequence (last es)) s' = (Inr new, s')"
proof -
  have es: "es = drop (nat (n + 1)) (log s k)" using assms by (simp add: replay_spec)
  with assms(5) have "last es = last (log s k)" and ne: "log s k \<noteq> []" by (auto simp: last_drop)
  with numbered_nth [OF inv_numbered [OF assms(1)], of "length (log s k) - 1" k]
  have "ev_sequence (last es) = int (length (log s k)) - 1"
    by (simp add: last_conv_nth of_nat_diff Suc_le_eq)
  with assms(2,3) show ?thesis by (simp add: replay_spec)
qed

lemma append_all:
  assumes "inv s" and "mapM (\<lambda>(now, i, d). append now i d) xs s = (Inr es, s')"
    and "list_all (\<lambda>(now, i, d). ok d \<and> run_key (dr_identity d) = k) xs"
  shows "inv s' \<and> log s' k = log s k @ map stored es"
  using assms
proof (induction xs arbitrary: s es)
  case (Cons x xs)
  obtain now i d where x: "x = (now, i, d)" by (cases x)
  obtain e s1 es1 where 1: "append now i d s = (Inr e, s1)"
    and 2: "mapM (\<lambda>(now, i, d). append now i d) xs s1 = (Inr es1, s')" and "es = e # es1"
    using Cons.prems(2) x by (auto simp: prog_defs split: prod.splits sum.splits)
  then show ?case
    using append_spec [OF Cons.prems(1) _ 1] Cons.IH [OF _ 2] Cons.prems(3) x by simp
qed (simp add: prog_defs)

lemma append_then_replay:
  assumes "inv s" and "ok d" and "append now i d s = (Inr e, s')"
  shows "replay (run_key (dr_identity d)) (ev_sequence e - 1) s' = (Inr [stored e], s')"
proof -
  note a = append_spec [OF assms]
  then have "inv s'" by simp
  moreover have "nat (ev_sequence e - 1 + 1) = length (log s (run_key (dr_identity d)))" using a by simp
  ultimately show ?thesis
    using a replay_spec [of s' "ev_sequence e - 1" "run_key (dr_identity d)"] by simp
qed

end

subsection \<open>The journal keeps the log\<close>

definition journal_inv :: "EventJournal \<Rightarrow> bool" where
  "journal_inv j \<longleftrightarrow> dict_ok (ej_events j) \<and> list_all (\<lambda>(k, es). numbered es) (ej_events j)
     \<and> 0 < ej_queue_size j"

lemmas journal_parts = set_queue_def discard_subscriber_def prune_subscribers_def close_queue_def
  deliver_def finish_subscriber_def

lemma deliver_events [simp]: "ej_events (deliver k e q j) = ej_events j"
  and finish_events [simp]: "ej_events (finish_subscriber k q j) = ej_events j"
  and prune_events [simp]: "ej_events (prune_subscribers k j) = ej_events j"
  and deliver_size [simp]: "ej_queue_size (deliver k e q j) = ej_queue_size j"
  and finish_size [simp]: "ej_queue_size (finish_subscriber k q j) = ej_queue_size j"
  and prune_size [simp]: "ej_queue_size (prune_subscribers k j) = ej_queue_size j"
  by (simp_all add: journal_parts)

lemma fold_frame: "(\<And>x s. f (g x s) = f s) \<Longrightarrow> f (fold g xs s) = f s"
  by (induction xs arbitrary: s) simp_all

lemma journal_append_events:
  "ej_events (snd (journal_append now i d j)) =
     AList.update (run_key (dr_identity d))
       (events_of j (run_key (dr_identity d)) @ [make_event j now i d]) (ej_events j)"
  by (simp add: journal_append_def Let_def fold_frame [where f = ej_events])

lemma journal_append_size: "ej_queue_size (snd (journal_append now i d j)) = ej_queue_size j"
  by (simp add: journal_append_def Let_def fold_frame [where f = ej_queue_size])

lemma journal_append_result: "fst (journal_append now i d j) = Inr (make_event j now i d)"
  by (simp add: journal_append_def Let_def)

lemma journal_inv_numbered: "journal_inv j \<Longrightarrow> numbered (events_of j k)"
  by (auto simp: journal_inv_def events_of_def list_all_iff split: option.splits dest: map_of_SomeD)

lemma journal_append_inv: "journal_inv j \<Longrightarrow> journal_inv (snd (journal_append now i d j))"
  using journal_inv_numbered [of j "run_key (dr_identity d)"]
  by (auto simp: journal_inv_def journal_append_events journal_append_size set_update_dict
      list_all_iff numbered_snoc make_event_def)

lemma journal_append_log:
  "events_of (snd (journal_append now i d j)) =
     (events_of j)(run_key (dr_identity d) :=
        events_of j (run_key (dr_identity d)) @ [make_event j now i d])"
  by (rule ext) (simp add: events_of_def journal_append_events map_of_update_fun)

interpretation memory_log: event_log journal_append journal_replay events_of journal_inv "\<lambda>e. e" "\<lambda>_. True"
proof (unfold_locales, goal_cases)
  case (1 s d now i e s')
  then have "e = make_event s now i d" "s' = snd (journal_append now i d s)"
    using journal_append_result [of now i d s] by auto
  with 1(1) show ?case by (simp add: journal_append_inv journal_append_log make_event_def)
next
  case (3 s n k)
  then show ?case by (simp add: journal_replay_def numbered_filter journal_inv_numbered)
qed (simp_all add: journal_inv_numbered journal_replay_def)

lemma journal_replay_invalid: "n < -1 \<Longrightarrow> journal_replay k n j = (Inl cursor_invalid, j)"
  by (simp add: journal_replay_def)

lemma new_journal_inv: "new_journal n = Inr j \<Longrightarrow> journal_inv j"
  by (auto simp: new_journal_def journal_inv_def split: if_splits)

subsection \<open>What a live subscriber sees\<close>

text \<open>How the small steps of \<open>append\<close> and \<open>subscribe\<close> change the three views of the state.\<close>

lemma set_queue_views [simp]:
  "queue_of (set_queue q xs j) = (queue_of j)(q := xs)"
  "subscribers_of (set_queue q xs j) = subscribers_of j"
  "ej_overflowed (set_queue q xs j) = ej_overflowed j"
  "ej_queue_size (set_queue q xs j) = ej_queue_size j"
  "ej_next_queue (set_queue q xs j) = ej_next_queue j"
  "events_of (set_queue q xs j) = events_of j"
  by (auto simp: set_queue_def queue_of_def subscribers_of_def events_of_def map_of_update_fun fun_eq_iff)

lemma discard_views [simp]:
  "queue_of (discard_subscriber k q j) = queue_of j"
  "subscribers_of (discard_subscriber k q j) = (subscribers_of j)(k := removeAll q (subscribers_of j k))"
  "ej_overflowed (discard_subscriber k q j) = ej_overflowed j"
  "ej_queue_size (discard_subscriber k q j) = ej_queue_size j"
  "ej_next_queue (discard_subscriber k q j) = ej_next_queue j"
  "events_of (discard_subscriber k q j) = events_of j"
  by (auto simp: discard_subscriber_def queue_of_def subscribers_of_def events_of_def map_of_update_fun
      fun_eq_iff)

lemma prune_views [simp]:
  "queue_of (prune_subscribers k j) = queue_of j"
  "subscribers_of (prune_subscribers k j) = subscribers_of j"
  "ej_overflowed (prune_subscribers k j) = ej_overflowed j"
  "ej_next_queue (prune_subscribers k j) = ej_next_queue j"
  "events_of (prune_subscribers k j) = events_of j"
  by (auto simp: prune_subscribers_def queue_of_def subscribers_of_def events_of_def map_of_delete_fun
      fun_eq_iff split: option.splits)

lemma overflow_views [simp]:
  "queue_of (j \<lparr> ej_overflowed := x \<rparr>) = queue_of j"
  "subscribers_of (j \<lparr> ej_overflowed := x \<rparr>) = subscribers_of j"
  "events_of (j \<lparr> ej_overflowed := x \<rparr>) = events_of j"
  "queue_of (j \<lparr> ej_events := y \<rparr>) = queue_of j"
  "subscribers_of (j \<lparr> ej_events := y \<rparr>) = subscribers_of j"
  by (simp_all add: queue_of_def subscribers_of_def events_of_def fun_eq_iff)

lemma close_queue_views [simp]:
  "subscribers_of (close_queue q j) = subscribers_of j"
  "ej_overflowed (close_queue q j) = ej_overflowed j"
  "ej_queue_size (close_queue q j) = ej_queue_size j"
  "ej_next_queue (close_queue q j) = ej_next_queue j"
  "events_of (close_queue q j) = events_of j"
  "p \<noteq> q \<Longrightarrow> queue_of (close_queue q j) p = queue_of j p"
  by (simp_all add: close_queue_def)

text \<open>The steps for another queue leave a queue, its overflow mark and its registration alone.\<close>

definition same_for :: "nat \<Rightarrow> EventJournal \<Rightarrow> EventJournal \<Rightarrow> bool" where
  "same_for q j j' \<longleftrightarrow> queue_of j' q = queue_of j q
     \<and> (q \<in> set (ej_overflowed j') \<longleftrightarrow> q \<in> set (ej_overflowed j))
     \<and> (\<forall>k. q \<in> set (subscribers_of j' k) \<longleftrightarrow> q \<in> set (subscribers_of j k))
     \<and> ej_queue_size j' = ej_queue_size j \<and> events_of j' = events_of j
     \<and> ej_next_queue j \<le> ej_next_queue j'"

lemma same_for_refl [simp]: "same_for q j j"
  by (simp add: same_for_def)

lemma same_for_trans: "same_for q a b \<Longrightarrow> same_for q b c \<Longrightarrow> same_for q a c"
  by (auto simp: same_for_def)

lemma same_for_deliver: "q \<noteq> p \<Longrightarrow> same_for q j (deliver k e p j)"
  by (auto simp: same_for_def deliver_def queue_full_def)

lemma same_for_finish: "q \<noteq> p \<Longrightarrow> same_for q j (finish_subscriber k p j)"
  by (auto simp: same_for_def finish_subscriber_def)

lemma same_for_fold:
  assumes "\<And>p j. q \<noteq> p \<Longrightarrow> same_for q j (f p j)" and "q \<notin> set qs"
  shows "same_for q j (fold f qs j)"
  using assms(2)
proof (induction qs arbitrary: j)
  case (Cons p qs)
  then have "same_for q j (f p j)" "same_for q (f p j) (fold f qs (f p j))" using assms(1) by auto
  then show ?case by (auto intro: same_for_trans)
qed simp

lemma same_for_prune: "same_for q j (prune_subscribers k j)"
  by (simp add: same_for_def)

text \<open>A fold over the registered queues acts on one of them as its single step does.\<close>

lemma fold_at:
  assumes "\<And>p j. q \<noteq> p \<Longrightarrow> same_for q j (f p j)" and "distinct qs" and "q \<in> set qs"
  obtains j1 where "same_for q j j1" and "same_for q (f q j1) (fold f qs j)"
proof -
  obtain a b where qs: "qs = a @ q # b" "q \<notin> set a" "q \<notin> set b"
    using assms(2,3) by (auto dest!: split_list)
  have "same_for q j (fold f a j)"
    and "same_for q (f q (fold f a j)) (fold f b (f q (fold f a j)))"
    using assms(1) qs by (auto intro: same_for_fold)
  then show ?thesis using qs that by simp
qed

definition subs_distinct :: "EventJournal \<Rightarrow> bool" where
  "subs_distinct j \<longleftrightarrow> (\<forall>k. distinct (subscribers_of j k))"

lemma subs_distinct_steps:
  "subs_distinct j \<Longrightarrow> subs_distinct (deliver k e q j)"
  "subs_distinct j \<Longrightarrow> subs_distinct (finish_subscriber k q j)"
  by (auto simp: subs_distinct_def deliver_def finish_subscriber_def distinct_removeAll)

lemma fold_invariant: "(\<And>x s. P s \<Longrightarrow> P (f x s)) \<Longrightarrow> P s \<Longrightarrow> P (fold f xs s)"
  by (induction xs arbitrary: s) simp_all

lemma journal_append_distinct: "subs_distinct j \<Longrightarrow> subs_distinct (snd (journal_append now i d j))"
proof -
  assume j: "subs_distinct j"
  have "subs_distinct (j \<lparr> ej_events := x \<rparr>)" for x using j by (simp add: subs_distinct_def)
  then have "subs_distinct (fold (deliver k e) qs (j \<lparr> ej_events := x \<rparr>))" for k e qs x
    by (rule fold_invariant [rotated]) (rule subs_distinct_steps)
  moreover from this have "subs_distinct (fold (finish_subscriber k) qs
      (fold (deliver k e) qs (j \<lparr> ej_events := x \<rparr>)))" for k e qs x
    by (rule fold_invariant [rotated]) (rule subs_distinct_steps)
  ultimately show ?thesis
    by (simp add: journal_append_def Let_def) (simp add: subs_distinct_def)
qed

text \<open>\<open>append\<close> seen from one queue: nothing happens to a queue that is not registered for the run; a
  registered one with room for two more entries gets the event, and the end marker after a terminal
  one.\<close>

lemma append_unregistered:
  assumes "q \<notin> set (subscribers_of j (run_key (dr_identity d)))"
  shows "queue_of (snd (journal_append now i d j)) q = queue_of j q"
    and "q \<in> set (ej_overflowed (snd (journal_append now i d j))) \<longleftrightarrow> q \<in> set (ej_overflowed j)"
    and "q \<in> set (subscribers_of (snd (journal_append now i d j)) k) \<longleftrightarrow> q \<in> set (subscribers_of j k)"
proof -
  let ?k = "run_key (dr_identity d)" and ?e = "make_event j now i d"
  let ?j1 = "j \<lparr> ej_events := AList.update ?k (events_of j ?k @ [?e]) (ej_events j) \<rparr>"
  let ?j2 = "fold (deliver ?k ?e) (subscribers_of j ?k) ?j1"
  have "same_for q ?j1 ?j2" and "same_for q ?j2 (fold (finish_subscriber ?k) (subscribers_of j ?k) ?j2)"
    using assms by (auto intro!: same_for_fold same_for_deliver same_for_finish)
  then have "same_for q ?j1 (snd (journal_append now i d j))"
    using same_for_prune same_for_trans by (auto simp: journal_append_def Let_def)
  then show "queue_of (snd (journal_append now i d j)) q = queue_of j q"
    and "q \<in> set (ej_overflowed (snd (journal_append now i d j))) \<longleftrightarrow> q \<in> set (ej_overflowed j)"
    and "q \<in> set (subscribers_of (snd (journal_append now i d j)) k) \<longleftrightarrow> q \<in> set (subscribers_of j k)"
    by (simp_all add: same_for_def)
qed

lemma append_registered:
  fixes now :: datetime and i :: string
  assumes "q \<in> set (subscribers_of j (run_key (dr_identity d)))" and "subs_distinct j"
    and "q \<notin> set (ej_overflowed j)" and "length (queue_of j q) + 1 < ej_queue_size j"
  defines "e \<equiv> make_event j now i d" and "j' \<equiv> snd (journal_append now i d j)"
  shows "queue_of j' q = queue_of j q @ Some e # (if ev_terminal e then [None] else [])"
    and "q \<notin> set (ej_overflowed j')"
    and "q \<in> set (subscribers_of j' k) \<longleftrightarrow>
      q \<in> set (subscribers_of j k) \<and> \<not> (ev_terminal e \<and> k = run_key (dr_identity d))"
proof -
  let ?k = "run_key (dr_identity d)"
  let ?qs = "subscribers_of j ?k"
  let ?j1 = "j \<lparr> ej_events := AList.update ?k (events_of j ?k @ [e]) (ej_events j) \<rparr>"
  let ?j2 = "fold (deliver ?k e) ?qs ?j1" let ?j3 = "fold (finish_subscriber ?k) ?qs ?j2"
  have dist: "distinct ?qs" using assms(2) by (simp add: subs_distinct_def)
  obtain ja where ja: "same_for q ?j1 ja" "same_for q (deliver ?k e q ja) ?j2"
    by (rule fold_at [where f = "deliver ?k e" and j = ?j1, OF same_for_deliver dist assms(1)])
  obtain jb where jb: "same_for q ?j2 jb" "same_for q (finish_subscriber ?k q jb) ?j3"
    by (rule fold_at [where f = "finish_subscriber ?k" and j = ?j2, OF same_for_finish dist assms(1)])
  have j2: "queue_of ?j2 q = queue_of j q @ [Some e]" "q \<notin> set (ej_overflowed ?j2)"
      "\<And>k. q \<in> set (subscribers_of ?j2 k) \<longleftrightarrow> q \<in> set (subscribers_of j k)"
      "ej_queue_size ?j2 = ej_queue_size j"
    using ja assms(3,4) by (auto simp: same_for_def deliver_def queue_full_def)
  have j3: "queue_of ?j3 q = queue_of j q @ [Some e, None]" "q \<notin> set (ej_overflowed ?j3)"
      "\<And>k. q \<in> set (subscribers_of ?j3 k) \<longleftrightarrow> q \<in> set (subscribers_of j k) \<and> k \<noteq> ?k"
    using jb j2 assms(4)
    by (auto simp: same_for_def finish_subscriber_def close_queue_def queue_full_def)
  have j': "j' = prune_subscribers ?k (if ev_terminal e then ?j3 else ?j2)"
    by (simp add: j'_def e_def journal_append_def Let_def)
  show "queue_of j' q = queue_of j q @ Some e # (if ev_terminal e then [None] else [])"
    "q \<notin> set (ej_overflowed j')"
    "q \<in> set (subscribers_of j' k) \<longleftrightarrow>
      q \<in> set (subscribers_of j k) \<and> \<not> (ev_terminal e \<and> k = ?k)"
    unfolding j' using j2 j3 by auto
qed

text \<open>A subscriber may start with a cursor beyond the last event; it then waits for events whose
  numbers are not after the cursor and receives those too, so the contract is about cursors that
  name an event of the log or -1.\<close>

definition cursor_ok :: "int \<Rightarrow> EventJournal \<Rightarrow> string \<Rightarrow> bool" where
  "cursor_ok n j k \<longleftrightarrow> n < int (length (events_of j k))"

text \<open>
  The states of a subscription that started after the cursor \<open>n\<close>, together with the events it has
  yielded: other readers may open, read and close, and writers append, where the subscriber's own
  queue never lags so far behind that fewer than two places are free.
\<close>

inductive subscription_run :: "int \<Rightarrow> EventJournal \<Rightarrow> Subscription \<Rightarrow> RuntimeEvent list \<Rightarrow> bool"
  for n where
  opened: "cursor_ok n j k \<Longrightarrow> journal_inv j \<Longrightarrow> subs_distinct j \<Longrightarrow> (\<forall>k q. q \<in> set (subscribers_of j k) \<longrightarrow> q < ej_next_queue j)
    \<Longrightarrow> (\<forall>q \<in> set (ej_overflowed j). q < ej_next_queue j)
    \<Longrightarrow> subscribe_open k n j = (Inr s, j') \<Longrightarrow> subscription_run n j' s []"
| appended: "subscription_run n j s got \<Longrightarrow> length (queue_of j (sb_queue s)) + 1 < ej_queue_size j
    \<Longrightarrow> subscription_run n (snd (journal_append now i d j)) s got"
| yielded: "subscription_run n j s got \<Longrightarrow> subscribe_next s j = (Yield e, s', j')
    \<Longrightarrow> subscription_run n j' s' (got @ [e])"
| other_open: "subscription_run n j s got \<Longrightarrow> subscribe_open k m j = (Inr s', j')
    \<Longrightarrow> subscription_run n j' s got"
| other_next: "subscription_run n j s got \<Longrightarrow> sb_queue s' \<noteq> sb_queue s
    \<Longrightarrow> subscribe_next s' j = (r, s'', j') \<Longrightarrow> subscription_run n j' s got"
| other_close: "subscription_run n j s got \<Longrightarrow> sb_queue s' \<noteq> sb_queue s
    \<Longrightarrow> subscribe_close s' j = (s'', j') \<Longrightarrow> subscription_run n j' s got"

definition after_cursor :: "int \<Rightarrow> EventJournal \<Rightarrow> string \<Rightarrow> RuntimeEvent list" where
  "after_cursor n j k = drop (nat (n + 1)) (events_of j k)"

definition snapshot_phase :: "int \<Rightarrow> EventJournal \<Rightarrow> Subscription \<Rightarrow> RuntimeEvent list \<Rightarrow> bool" where
  "snapshot_phase n j s got \<longleftrightarrow> sb_terminal s
     \<and> prefix (got @ sb_initial s) (after_cursor n j (sb_key s))
     \<and> list_ex ev_terminal (got @ sb_initial s)
     \<and> (\<forall>k. sb_queue s \<notin> set (subscribers_of j k))"

definition live_phase :: "int \<Rightarrow> EventJournal \<Rightarrow> Subscription \<Rightarrow> RuntimeEvent list \<Rightarrow> bool" where
  "live_phase n j s got \<longleftrightarrow> \<not> sb_terminal s \<and> sb_queue s \<notin> set (ej_overflowed j)
     \<and> (\<forall>k. sb_queue s \<in> set (subscribers_of j k) \<longleftrightarrow> k = sb_key s)
     \<and> (\<exists>evs. queue_of j (sb_queue s) = map Some evs
           \<and> got @ sb_initial s @ evs = after_cursor n j (sb_key s))
     \<and> \<not> list_ex ev_terminal (after_cursor n j (sb_key s))"

definition closing_phase :: "int \<Rightarrow> EventJournal \<Rightarrow> Subscription \<Rightarrow> RuntimeEvent list \<Rightarrow> bool" where
  "closing_phase n j s got \<longleftrightarrow> \<not> sb_terminal s \<and> (\<forall>k. sb_queue s \<notin> set (subscribers_of j k))
     \<and> (\<exists>evs. queue_of j (sb_queue s) = map Some evs @ [None]
           \<and> prefix (got @ sb_initial s @ evs) (after_cursor n j (sb_key s))
           \<and> list_ex ev_terminal (got @ sb_initial s @ evs))"

definition subscription_inv :: "int \<Rightarrow> EventJournal \<Rightarrow> Subscription \<Rightarrow> RuntimeEvent list \<Rightarrow> bool" where
  "subscription_inv n j s got \<longleftrightarrow> journal_inv j \<and> subs_distinct j \<and> \<not> sb_finished s \<and> -1 \<le> n
     \<and> sb_queue s < ej_next_queue j \<and> cursor_ok n j (sb_key s)
     \<and> (snapshot_phase n j s got \<or> live_phase n j s got \<or> closing_phase n j s got)"

lemmas phase_defs = snapshot_phase_def live_phase_def closing_phase_def

text \<open>A step that is the same for the subscriber's queue keeps its phase.\<close>

lemma phases_same:
  assumes "same_for (sb_queue s) j j'"
  shows "snapshot_phase n j s got \<Longrightarrow> snapshot_phase n j' s got"
    and "live_phase n j s got \<Longrightarrow> live_phase n j' s got"
    and "closing_phase n j s got \<Longrightarrow> closing_phase n j' s got"
  using assms by (auto simp: phase_defs same_for_def after_cursor_def)

lemma subscription_inv_same:
  assumes "subscription_inv n j s got" and "same_for (sb_queue s) j j'"
    and "ej_events j' = ej_events j" and "subs_distinct j'"
  shows "subscription_inv n j' s got"
  using assms phases_same [OF assms(2)]
  by (auto simp: subscription_inv_def journal_inv_def same_for_def cursor_ok_def)

lemma subscribe_close_events [simp]: "ej_events (snd (subscribe_close s' j)) = ej_events j"
  by (simp add: subscribe_close_def prune_subscribers_def discard_subscriber_def)

lemma subscribe_close_same:
  assumes "sb_queue s' \<noteq> q"
  shows "same_for q j (snd (subscribe_close s' j))"
    and "subs_distinct j \<Longrightarrow> subs_distinct (snd (subscribe_close s' j))"
  using assms by (auto simp: same_for_def subscribe_close_def subs_distinct_def distinct_removeAll)

lemma set_queue_events [simp]: "ej_events (set_queue q xs j) = ej_events j"
  by (simp add: set_queue_def)

lemma set_queue_same:
  assumes "q' \<noteq> q"
  shows "same_for q j (set_queue q' xs j)" and "subs_distinct (set_queue q' xs j) = subs_distinct j"
  using assms by (simp_all add: same_for_def subs_distinct_def)

lemma subscribe_next_same:
  assumes "sb_queue s' \<noteq> q"
  shows "same_for q j (snd (snd (subscribe_next s' j)))"
    and "ej_events (snd (snd (subscribe_next s' j))) = ej_events j"
    and "subs_distinct j \<Longrightarrow> subs_distinct (snd (snd (subscribe_next s' j)))"
  using set_queue_same [OF assms] subscribe_close_same [OF assms]
    same_for_trans [OF set_queue_same(1) [OF assms] subscribe_close_same(1) [OF assms]]
  by (auto simp: subscribe_next_def intro: same_for_trans split: list.splits option.splits)

lemma registration_views [simp]:
  "queue_of (j \<lparr> ej_next_queue := x \<rparr>) = queue_of j"
  "subscribers_of (j \<lparr> ej_next_queue := x \<rparr>) = subscribers_of j"
  "events_of (j \<lparr> ej_next_queue := x \<rparr>) = events_of j"
  "queue_of (j \<lparr> ej_next_queue := x, ej_subscribers := y \<rparr>) = queue_of j"
  "subscribers_of (j \<lparr> ej_next_queue := x, ej_subscribers := AList.update k qs (ej_subscribers j) \<rparr>)
     = (subscribers_of j)(k := qs)"
  "events_of (j \<lparr> ej_next_queue := x, ej_subscribers := y \<rparr>) = events_of j"
  by (auto simp: queue_of_def subscribers_of_def events_of_def fun_eq_iff map_of_update_fun)

lemma subscribe_open_run:
  assumes "subscribe_open k m j = (Inr s, j')"
  shows "-1 \<le> m" and "sb_key s = k" and "sb_queue s = ej_next_queue j" and "\<not> sb_finished s"
    and "sb_initial s = filter (\<lambda>e. m < ev_sequence e) (events_of j k)"
    and "sb_terminal s = list_ex ev_terminal (sb_initial s)"
    and "queue_of j' = (queue_of j)(ej_next_queue j := [])"
    and "subscribers_of j' = (if sb_terminal s then subscribers_of j
      else (subscribers_of j)(k := List.insert (ej_next_queue j) (subscribers_of j k)))"
    and "ej_events j' = ej_events j" and "ej_overflowed j' = ej_overflowed j"
    and "ej_queue_size j' = ej_queue_size j" and "ej_next_queue j' = Suc (ej_next_queue j)"
  using assms by (auto simp: subscribe_open_def Let_def split: if_splits)

lemma subscribe_open_same:
  assumes "q < ej_next_queue j" and "subscribe_open k m j = (Inr s', j')"
  shows "same_for q j j'" and "subs_distinct j \<Longrightarrow> subs_distinct j'"
  using assms(1) subscribe_open_run [OF assms(2)]
  by (auto simp: same_for_def subs_distinct_def events_of_def fun_eq_iff distinct_insert)

lemma subscription_inv_open:
  assumes "cursor_ok n j k" and "journal_inv j" and "subs_distinct j"
    and "\<forall>k q. q \<in> set (subscribers_of j k) \<longrightarrow> q < ej_next_queue j"
    and "\<forall>q \<in> set (ej_overflowed j). q < ej_next_queue j"
    and "subscribe_open k n j = (Inr s, j')"
  shows "subscription_inv n j' s []"
proof -
  note run = subscribe_open_run [OF assms(6)]
  have init: "sb_initial s = after_cursor n j' k"
    using run(1,5,9) numbered_filter [OF journal_inv_numbered [OF assms(2)]]
    by (simp add: after_cursor_def events_of_def)
  have fresh: "ej_next_queue j \<notin> set (subscribers_of j k')" "ej_next_queue j \<notin> set (ej_overflowed j)" for k'
    using assms(4,5) by blast+
  have "snapshot_phase n j' s [] \<or> live_phase n j' s []"
    using run init fresh by (cases "sb_terminal s") (auto simp: phase_defs)
  with assms(1-3) run show ?thesis
    by (auto simp: subscription_inv_def journal_inv_def cursor_ok_def events_of_def subs_distinct_def distinct_insert)
qed

lemma after_cursor_append:
  assumes "-1 \<le> n"
  shows "prefix (after_cursor n j k) (after_cursor n (snd (journal_append now i d j)) k)"
    and "run_key (dr_identity d) \<noteq> k \<Longrightarrow>
      after_cursor n (snd (journal_append now i d j)) k = after_cursor n j k"
    and "run_key (dr_identity d) = k \<Longrightarrow> nat (n + 1) \<le> length (events_of j k) \<Longrightarrow>
      after_cursor n (snd (journal_append now i d j)) k = after_cursor n j k @ [make_event j now i d]"
  by (auto simp: after_cursor_def journal_append_log)

lemma subscription_inv_append:
  assumes "subscription_inv n j s got"
    and "length (queue_of j (sb_queue s)) + 1 < ej_queue_size j"
  shows "subscription_inv n (snd (journal_append now i d j)) s got"
proof -
  let ?j' = "snd (journal_append now i d j)" and ?q = "sb_queue s" and ?k = "sb_key s"
  let ?e = "make_event j now i d"
  have n: "-1 \<le> n" "nat (n + 1) \<le> length (events_of j ?k)"
    using assms(1) by (auto simp: subscription_inv_def cursor_ok_def)
  note grow = after_cursor_append [OF n(1), where j = j and k = ?k and now = now and i = i and d = d]
  have nq: "ej_next_queue ?j' = ej_next_queue j"
    by (simp add: journal_append_def Let_def fold_frame [where f = ej_next_queue] deliver_def
        finish_subscriber_def)
  have "snapshot_phase n ?j' s got \<or> live_phase n ?j' s got \<or> closing_phase n ?j' s got"
  proof (cases "live_phase n j s got")
    case False
    with assms(1) have "snapshot_phase n j s got \<or> closing_phase n j s got"
      and "\<forall>k. ?q \<notin> set (subscribers_of j k)"
      by (auto simp: subscription_inv_def phase_defs)
    with append_unregistered [where q = ?q and j = j and d = d and now = now and i = i] grow(1) show ?thesis
      by (auto simp: phase_defs intro: prefix_order.trans)
  next
    case True
    then obtain evs where live: "?q \<notin> set (ej_overflowed j)" "\<not> sb_terminal s"
      "queue_of j ?q = map Some evs" "got @ sb_initial s @ evs = after_cursor n j ?k"
      "\<And>k. ?q \<in> set (subscribers_of j k) \<longleftrightarrow> k = ?k" "\<not> list_ex ev_terminal (after_cursor n j ?k)"
      by (auto simp: live_phase_def)
    show ?thesis
    proof (cases "run_key (dr_identity d) = ?k")
      case False
      with live(5) have "?q \<notin> set (subscribers_of j (run_key (dr_identity d)))" by simp
      with append_unregistered [where now = now and i = i, OF this] live grow(2) [OF False] show ?thesis
        by (auto simp: live_phase_def)
    next
      case True
      then have "?q \<in> set (subscribers_of j (run_key (dr_identity d)))" and "subs_distinct j"
        using live(5) assms(1) by (auto simp: subscription_inv_def)
      note eff = append_registered [where now = now and i = i, OF this live(1) assms(2)]
      have all: "got @ sb_initial s @ evs @ [?e] = after_cursor n ?j' ?k"
        using grow(3) [OF True n(2)] live(4) by simp
      show ?thesis
      proof (cases "ev_terminal ?e")
        case True
        have "prefix (got @ sb_initial s @ evs @ [?e]) (after_cursor n ?j' ?k)" by (simp add: all)
        then have "closing_phase n ?j' s got"
          unfolding closing_phase_def using live(2,5) eff True \<open>run_key (dr_identity d) = ?k\<close> live(3)
          by (intro conjI exI [of _ "evs @ [?e]"]) auto
        then show ?thesis by simp
      next
        case False
        have "live_phase n ?j' s got"
          unfolding live_phase_def using live eff False all grow(3) [OF \<open>run_key (dr_identity d) = ?k\<close> n(2)]
          by (intro conjI exI [of _ "evs @ [?e]"]) auto
        then show ?thesis by simp
      qed
    qed
  qed
  then show ?thesis
    using assms(1) nq
    by (auto simp: subscription_inv_def journal_append_inv journal_append_distinct cursor_ok_def
        journal_append_log)
qed

lemma subscription_inv_yield:
  assumes "subscription_inv n j s got" and "subscribe_next s j = (Yield e, s', j')"
  shows "subscription_inv n j' s' (got @ [e])"
proof -
  have fin: "\<not> sb_finished s" and j: "journal_inv j" "subs_distinct j" "sb_queue s < ej_next_queue j"
      "-1 \<le> n" "cursor_ok n j (sb_key s)"
    using assms(1) by (auto simp: subscription_inv_def)
  show ?thesis
  proof (cases "sb_initial s")
    case (Cons e' es)
    with assms(2) fin have "e' = e" "s' = s \<lparr> sb_initial := es \<rparr>" "j' = j"
      by (auto simp: subscribe_next_def)
    with assms(1) Cons show ?thesis
      by (auto simp: subscription_inv_def phase_defs cursor_ok_def)
  next
    case Nil
    with assms(2) fin obtain xs where xs: "\<not> sb_terminal s" "queue_of j (sb_queue s) = Some e # xs"
      "s' = s" "j' = set_queue (sb_queue s) xs j"
      by (auto simp: subscribe_next_def split: if_splits list.splits option.splits)
    have inv': "journal_inv j'" "subs_distinct j'"
      using j xs by (simp_all add: journal_inv_def subs_distinct_def)
    from assms(1) xs consider "live_phase n j s got" | "closing_phase n j s got"
      by (auto simp: subscription_inv_def snapshot_phase_def)
    then have "live_phase n j' s (got @ [e]) \<or> closing_phase n j' s (got @ [e])"
    proof cases
      case 1
      then have "live_phase n j' s (got @ [e])"
        using xs Nil by (auto simp: live_phase_def after_cursor_def Cons_eq_map_conv)
      then show ?thesis ..
    next
      case 2
      then obtain evs where "Some e # xs = map Some evs @ [None]"
        "prefix (got @ evs) (after_cursor n j (sb_key s))" "list_ex ev_terminal (got @ evs)"
        using xs Nil by (auto simp: closing_phase_def)
      moreover from this(1) obtain evs' where "evs = e # evs'" by (cases evs) auto
      ultimately have "closing_phase n j' s (got @ [e])"
        using 2 xs Nil by (auto simp: closing_phase_def after_cursor_def)
      then show ?thesis ..
    qed
    with inv' j fin xs show ?thesis by (auto simp: subscription_inv_def cursor_ok_def)
  qed
qed

lemma subscription_run_inv: "subscription_run n j s got \<Longrightarrow> subscription_inv n j s got"
proof (induction rule: subscription_run.induct)
  case (opened j k s j')
  then show ?case by (intro subscription_inv_open)
next
  case (appended j s got now i d)
  then show ?case by (intro subscription_inv_append)
next
  case (yielded j s got e s' j')
  then show ?case by (intro subscription_inv_yield)
next
  case (other_open j s got k m s' j')
  then have "sb_queue s < ej_next_queue j" "subs_distinct j" by (auto simp: subscription_inv_def)
  with other_open subscribe_open_same [of "sb_queue s" j k m s' j'] subscribe_open_run(9) [of k m j s' j']
  show ?case by (intro subscription_inv_same [of n j s got j']) auto
next
  case (other_next j s got s' r s'' j')
  then have "subs_distinct j" by (auto simp: subscription_inv_def)
  with other_next subscribe_next_same [of s' "sb_queue s" j] show ?case
    by (intro subscription_inv_same [of n j s got j']) auto
next
  case (other_close j s got s' s'' j')
  then have "subs_distinct j" by (auto simp: subscription_inv_def)
  with other_close subscribe_close_same [of s' "sb_queue s" j] subscribe_close_events [of s' j] show ?case
    by (intro subscription_inv_same [of n j s got j']) auto
qed

lemma subscription_run_prefix:
  assumes "subscription_run n j s got"
  shows "prefix got (drop (nat (n + 1)) (events_of j (sb_key s)))"
proof -
  from subscription_run_inv [OF assms]
  consider "snapshot_phase n j s got" | "live_phase n j s got" | "closing_phase n j s got"
    by (auto simp: subscription_inv_def)
  then show ?thesis
  proof cases
    case 2
    then obtain evs where "got @ sb_initial s @ evs = after_cursor n j (sb_key s)"
      unfolding live_phase_def by blast
    then show ?thesis unfolding after_cursor_def by (metis prefixI)
  qed (auto simp: snapshot_phase_def closing_phase_def after_cursor_def dest: append_prefixD)
qed

lemma subscription_run_end:
  assumes "subscription_run n j s got" and "subscribe_next s j = (EndOfStream, s', j')"
  shows "list_ex ev_terminal got"
proof -
  note inv = subscription_run_inv [OF assms(1)]
  then have fin: "\<not> sb_finished s" by (simp add: subscription_inv_def)
  with assms(2) have init: "sb_initial s = []"
    by (auto simp: subscribe_next_def split: list.splits)
  from inv consider "snapshot_phase n j s got" | "live_phase n j s got" | "closing_phase n j s got"
    by (auto simp: subscription_inv_def)
  then show ?thesis
  proof cases
    case 1
    with init show ?thesis by (simp add: snapshot_phase_def)
  next
    case 2
    with init fin assms(2) show ?thesis
      by (auto simp: live_phase_def subscribe_next_def split: list.splits option.splits)
  next
    case 3
    then obtain evs where "queue_of j (sb_queue s) = map Some evs @ [None]" "\<not> sb_terminal s"
      "list_ex ev_terminal (got @ evs)" using init by (auto simp: closing_phase_def)
    with init fin assms(2) show ?thesis
      by (cases evs) (auto simp: subscribe_next_def)
  qed
qed

end
