(* ===== verification/Memory_Capacity.thy ===== *)
theory Memory_Capacity
  imports Domain
begin

section \<open>Execution capacity and event batching\<close>

text \<open>
  \<^verbatim>\<open>adapters/memory/capacity.py\<close> and \<^verbatim>\<open>adapters/memory/event_batching.py\<close>.  The context manager \<open>slot\<close>
  suspends at the semaphore and at the condition's lock, so it is split at these points into
  \<open>slot_check\<close>, \<open>slot_acquire\<close>, \<open>slot_enter\<close>, \<open>slot_leave\<close> and \<open>slot_release\<close>; the relation
  \<open>capacity_step\<close> interleaves any number of tasks at any of these points with \<open>start_draining\<close>.
\<close>

subsection \<open>ExecutionCapacity\<close>

record ExecutionCapacity =
  ec_maximum :: int
  ec_semaphore :: int
  ec_active :: int
  ec_draining :: bool

definition new_capacity :: "int \<Rightarrow> exc + ExecutionCapacity" where
  "new_capacity maximum =
     (if maximum < 1 then Inl (ValueError ''maximum capacity must be at least one'')
      else Inr \<lparr> ec_maximum = maximum, ec_semaphore = maximum, ec_active = 0, ec_draining = False \<rparr>)"

definition capacity_closed :: exc where
  "capacity_closed = runtime_failure QUEUE_CLOSED ''execution capacity is draining''"

definition slot_check :: "(ExecutionCapacity, exc, unit) prog" where
  "slot_check = (\<lambda>c. if ec_draining c then (Inl capacity_closed, c) else (Inr (), c))"

text \<open>\<open>Semaphore.acquire\<close>: \<open>False\<close> when the task has to wait.\<close>

definition slot_acquire :: "(ExecutionCapacity, exc, bool) prog" where
  "slot_acquire = (\<lambda>c. if 0 < ec_semaphore c
     then (Inr True, c \<lparr> ec_semaphore := ec_semaphore c - 1 \<rparr>) else (Inr False, c))"

definition slot_release :: "(ExecutionCapacity, exc, unit) prog" where
  "slot_release = modifyM (\<lambda>c. c \<lparr> ec_semaphore := ec_semaphore c + 1 \<rparr>)"

definition slot_enter :: "(ExecutionCapacity, exc, unit) prog" where
  "slot_enter = bindM (getsM ec_draining) (\<lambda>draining.
     if draining then thenM slot_release (raise capacity_closed)
     else modifyM (\<lambda>c. c \<lparr> ec_active := ec_active c + 1 \<rparr>))"

definition slot_leave :: "(ExecutionCapacity, exc, unit) prog" where
  "slot_leave = modifyM (\<lambda>c. c \<lparr> ec_active := ec_active c - 1 \<rparr>)"

definition start_draining :: "(ExecutionCapacity, exc, unit) prog" where
  "start_draining = modifyM (\<lambda>c. c \<lparr> ec_draining := True \<rparr>)"

text \<open>\<open>drain\<close> returns (\<open>True\<close>) once no task is active and waits (\<open>False\<close>) otherwise.\<close>

definition drain :: "(ExecutionCapacity, exc, bool) prog" where
  "drain = thenM start_draining (getsM (\<lambda>c. ec_active c = 0))"

datatype slot_phase = Outside | Checked | Acquired | Inside | Leaving | Finished | Refused

fun slot_step :: "slot_phase \<Rightarrow> ExecutionCapacity \<Rightarrow> slot_phase \<times> ExecutionCapacity" where
  "slot_step Outside c = (case slot_check c of (Inr _, c') \<Rightarrow> (Checked, c') | (Inl _, c') \<Rightarrow> (Refused, c'))"
| "slot_step Checked c = (case slot_acquire c of (Inr True, c') \<Rightarrow> (Acquired, c') | (_, c') \<Rightarrow> (Checked, c'))"
| "slot_step Acquired c = (case slot_enter c of (Inr _, c') \<Rightarrow> (Inside, c') | (Inl _, c') \<Rightarrow> (Refused, c'))"
| "slot_step Inside c = (Leaving, snd (slot_leave c))"
| "slot_step Leaving c = (Finished, snd (slot_release c))"
| "slot_step Finished c = (Finished, c)"
| "slot_step Refused c = (Refused, c)"

inductive capacity_step ::
  "ExecutionCapacity \<times> slot_phase list \<Rightarrow> ExecutionCapacity \<times> slot_phase list \<Rightarrow> bool" where
  spawn: "capacity_step (c, ps) (c, ps @ [Outside])"
| task: "i < length ps \<Longrightarrow> slot_step (ps ! i) c = (p, c') \<Longrightarrow> capacity_step (c, ps) (c', ps[i := p])"
| draining: "capacity_step (c, ps) (snd (start_draining c), ps)"

definition count_phase :: "slot_phase \<Rightarrow> slot_phase list \<Rightarrow> int" where
  "count_phase p ps = int (length (filter (\<lambda>x. x = p) ps))"

definition capacity_inv :: "int \<Rightarrow> ExecutionCapacity \<times> slot_phase list \<Rightarrow> bool" where
  "capacity_inv m s = (case s of (c, ps) \<Rightarrow> ec_maximum c = m \<and> 0 \<le> ec_semaphore c
     \<and> ec_active c = count_phase Inside ps
     \<and> ec_semaphore c + count_phase Acquired ps + count_phase Inside ps + count_phase Leaving ps
         = ec_maximum c)"

lemmas slot_defs = slot_check_def slot_acquire_def slot_enter_def slot_leave_def slot_release_def
  start_draining_def

lemma count_phase_update:
  assumes "i < length ps"
  shows "count_phase q (ps[i := p]) =
    count_phase q ps - (if ps ! i = q then 1 else 0) + (if p = q then 1 else 0)"
proof -
  have ps: "ps = take i ps @ ps ! i # drop (Suc i) ps"
    using assms by (rule id_take_nth_drop)
  have "ps[i := p] = take i ps @ p # drop (Suc i) ps"
    using assms by (rule upd_conv_take_nth_drop)
  then show ?thesis
    by (subst (2) ps) (simp add: count_phase_def)
qed

lemma count_phase_nonneg [simp]: "0 \<le> count_phase p ps"
  by (simp add: count_phase_def)

lemma capacity_inv_step: "capacity_step s s' \<Longrightarrow> capacity_inv m s \<Longrightarrow> capacity_inv m s'"
proof (induction rule: capacity_step.induct)
  case (spawn c ps)
  then show ?case by (simp add: capacity_inv_def count_phase_def)
next
  case (task i ps c p c')
  then show ?case
    by (cases "ps ! i")
      (auto simp: capacity_inv_def slot_defs prog_defs count_phase_update split: if_splits)
next
  case (draining c ps)
  then show ?case by (simp add: capacity_inv_def start_draining_def modifyM_def)
qed

text \<open>Once draining has begun no task enters: the active count never grows again.\<close>

lemma draining_step:
  assumes "capacity_step (c, ps) (c', ps')" and "ec_draining c"
  shows "ec_draining c' \<and> ec_active c' \<le> ec_active c"
  using assms
proof (cases rule: capacity_step.cases)
  case (task i p)
  with assms(2) show ?thesis
    by (cases "ps ! i") (auto simp: slot_defs prog_defs split: if_splits)
qed (auto simp: slot_defs prog_defs)

lemma capacity_reachable_inv:
  assumes "new_capacity m = Inr c0" and "capacity_step\<^sup>*\<^sup>* (c0, []) s"
  shows "capacity_inv m s"
  using assms(2)
proof (induction rule: rtranclp_induct)
  case base
  then show ?case
    using assms(1) by (auto simp: new_capacity_def capacity_inv_def count_phase_def split: if_splits)
next
  case (step y z)
  then show ?case using capacity_inv_step by blast
qed

lemma draining_reachable:
  assumes "capacity_step\<^sup>*\<^sup>* s s'" and "ec_draining (fst s)"
  shows "ec_draining (fst s') \<and> ec_active (fst s') \<le> ec_active (fst s)"
  using assms
proof (induction rule: rtranclp_induct)
  case (step y z)
  then show ?case using draining_step [of "fst y" "snd y" "fst z" "snd z"] by force
qed simp

subsection \<open>RuntimeEventBatcher\<close>

text \<open>The writer is the callback given to the constructor, a program over a state of its own.\<close>

record EventBatcher =
  eb_max_events :: int
  eb_max_bytes :: int
  eb_events :: "RuntimeEvent list"
  eb_bytes :: int

type_synonym 'w batch_writer = "RuntimeEvent list \<Rightarrow> ('w, exc, unit) prog"

definition new_batcher :: "int \<Rightarrow> int \<Rightarrow> exc + EventBatcher" where
  "new_batcher max_events max_bytes =
     (if max_events < 1 \<or> max_bytes < 1 then Inl (ValueError ''batch limits must be positive'')
      else Inr \<lparr> eb_max_events = max_events, eb_max_bytes = max_bytes, eb_events = [], eb_bytes = 0 \<rparr>)"

definition event_size :: "RuntimeEvent \<Rightarrow> int" where
  "event_size e = int (length (py_str (ev_data e))) + int (length (py_str (JObj (ev_native e))))"

definition flushing_events :: "runtime_event_type list" where
  "flushing_events = [RUN_COMPLETED, RUN_CANCELLED, RUN_FAILED, RUN_TIMEOUT]"

definition flush_locked :: "'w batch_writer \<Rightarrow> (EventBatcher \<times> 'w, exc, unit) prog" where
  "flush_locked writer = (\<lambda>(b, w). if eb_events b = [] then (Inr (), (b, w))
     else (case writer (eb_events b) w of (r, w') \<Rightarrow> (r, (b \<lparr> eb_events := [], eb_bytes := 0 \<rparr>, w'))))"

definition batch_append :: "RuntimeEvent \<Rightarrow> (EventBatcher \<times> 'w, exc, unit) prog" where
  "batch_append e = modifyM (map_prod (\<lambda>b. b \<lparr> eb_events := eb_events b @ [e],
     eb_bytes := eb_bytes b + event_size e \<rparr>) id)"

definition batch_add :: "'w batch_writer \<Rightarrow> RuntimeEvent \<Rightarrow> (EventBatcher \<times> 'w, exc, unit) prog" where
  "batch_add writer e =
     bindM (getsM fst) (\<lambda>b.
     thenM (whenM (eb_events b \<noteq> [] \<and>
         (eb_max_events b \<le> int (length (eb_events b)) \<or> eb_max_bytes b < eb_bytes b + event_size e))
       (flush_locked writer))
     (thenM (batch_append e)
     (whenM (ev_in (ev_type e) flushing_events) (flush_locked writer))))"

definition batch_flush :: "'w batch_writer \<Rightarrow> (EventBatcher \<times> 'w, exc, unit) prog" where
  "batch_flush writer = flush_locked writer"

text \<open>The reference writer: it keeps the batches it was given.\<close>

definition recording_writer :: "RuntimeEvent list list batch_writer" where
  "recording_writer es = modifyM (\<lambda>ws. ws @ [es])"

definition batch_bytes :: "RuntimeEvent list \<Rightarrow> int" where
  "batch_bytes es = sum_list (map event_size es)"

definition batch_ok :: "EventBatcher \<Rightarrow> RuntimeEvent list \<Rightarrow> bool" where
  "batch_ok b es \<longleftrightarrow> int (length es) \<le> eb_max_events b
     \<and> (batch_bytes es \<le> eb_max_bytes b \<or> length es = 1)"

definition batcher_inv :: "EventBatcher \<times> RuntimeEvent list list \<Rightarrow> bool" where
  "batcher_inv s = (case s of (b, ws) \<Rightarrow> 1 \<le> eb_max_events b \<and> 1 \<le> eb_max_bytes b
     \<and> eb_bytes b = batch_bytes (eb_events b)
     \<and> list_all (\<lambda>es. es \<noteq> [] \<and> batch_ok b es) ws \<and> (eb_events b = [] \<or> batch_ok b (eb_events b)))"

lemma batch_ok_limits [simp]: "batch_ok (b \<lparr> eb_events := x, eb_bytes := y \<rparr>) = batch_ok b"
  by (simp add: batch_ok_def fun_eq_iff)

lemma flush_recording:
  "flush_locked recording_writer (b, ws) =
     (Inr (), (b \<lparr> eb_events := [], eb_bytes := if eb_events b = [] then eb_bytes b else 0 \<rparr>,
       if eb_events b = [] then ws else ws @ [eb_events b]))"
  by (simp add: flush_locked_def recording_writer_def modifyM_def)

lemma batch_add_inv: "preserves batcher_inv (batch_add recording_writer e)"
proof (rule preservesI)
  fix s :: "EventBatcher \<times> RuntimeEvent list list"
  assume "batcher_inv s"
  moreover obtain b ws where "s = (b, ws)" by fastforce
  ultimately show "batcher_inv (snd (batch_add recording_writer e s))"
    by (auto simp: batch_add_def prog_defs flush_recording batch_append_def batcher_inv_def
        batch_ok_def [of b] batch_bytes_def)
qed

definition batched :: "EventBatcher \<times> RuntimeEvent list list \<Rightarrow> RuntimeEvent list" where
  "batched s = concat (snd s) @ eb_events (fst s)"

lemma batch_add_run:
  "\<exists>s'. batch_add recording_writer e s = (Inr (), s') \<and> batched s' = batched s @ [e]
     \<and> (ev_in (ev_type e) flushing_events \<longrightarrow> eb_events (fst s') = [])"
  by (cases s) (auto simp: batch_add_def prog_defs flush_recording batch_append_def batched_def)

lemma batch_adds:
  "\<exists>s'. forM (batch_add recording_writer) es s = (Inr (), s') \<and> batched s' = batched s @ es"
proof (induction es arbitrary: s)
  case (Cons e es)
  obtain s1 where s1: "batch_add recording_writer e s = (Inr (), s1)" "batched s1 = batched s @ [e]"
    using batch_add_run by blast
  from Cons [of s1] obtain s2 where "forM (batch_add recording_writer) es s1 = (Inr (), s2)"
    "batched s2 = batched s1 @ es" by blast
  with s1 show ?case by (simp add: thenM_def bindM_def)
qed (simp add: ret_def)

end
