(* ===== verification/Runtime_Service.thy ===== *)
theory Runtime_Service
  imports Memory_Repositories Memory_Queue Memory_Events Memory_Capacity
begin

section \<open>The runtime execution service\<close>

text \<open>
  \<^verbatim>\<open>application/runtime_service.py\<close> over the in-memory components that \<^verbatim>\<open>bootstrap/local.py\<close> composes.
  The state of the service is the state of the objects it holds; an optional collaborator has a flag
  that says whether it was given.  The clock and the identifier generator are explicit streams read
  through a counter.  The in-memory components never suspend, so \<open>create_thread\<close>, \<open>start_run\<close>,
  \<open>cancel_run\<close> and \<open>resume_run\<close> are atomic; \<open>_execute_receipt\<close> suspends only while it waits for the next
  draft of the adapter's stream.
\<close>

subsection \<open>Adapters\<close>

text \<open>
  What the service uses of a \<open>RuntimeAdapter\<close>: the drafts its stream yields for a request and the
  exception the stream ends with, if any; whether \<open>cancel\<close> raises; its manifest; and its state.
\<close>

record Adapter =
  ad_manifest :: AdapterManifest
  ad_stream :: "ExecutionRequest \<Rightarrow> RuntimeEventDraft list \<times> exc option"
  ad_cancel :: "ExecutionRequest \<Rightarrow> exc option"
  ad_get_state :: "ExecutionRequest \<Rightarrow> exc + json"

datatype worker_task = NoWorker | WorkerRunning | WorkerDone

record Service =
  sv_threads :: thread_repo
  sv_runs :: run_repo
  sv_commands :: PriorityQueue
  sv_journal :: EventJournal
  sv_journal_on :: bool
  sv_replay_on :: bool
  sv_subscription_on :: bool
  sv_outbox :: outbox_repo
  sv_outbox_on :: bool
  sv_adapters :: "(string, Adapter) pydict"
  sv_adapters_on :: bool
  sv_capacity :: ExecutionCapacity
  sv_capacity_on :: bool
  sv_worker :: worker_task
  sv_active_adapters :: "(string, Adapter) pydict"
  sv_clock :: "nat \<Rightarrow> datetime"
  sv_clock_ix :: nat
  sv_ids :: "nat \<Rightarrow> string"
  sv_id_ix :: nat

type_synonym 'a svc = "(Service, exc, 'a) prog"

definition svc_now :: "datetime svc" where
  "svc_now = (\<lambda>s. (Inr (sv_clock s (sv_clock_ix s)), s \<lparr> sv_clock_ix := Suc (sv_clock_ix s) \<rparr>))"

definition svc_new_id :: "string svc" where
  "svc_new_id = (\<lambda>s. (Inr (sv_ids s (sv_id_ix s)), s \<lparr> sv_id_ix := Suc (sv_id_ix s) \<rparr>))"

abbreviation on_threads :: "(thread_repo, exc, 'a) prog \<Rightarrow> 'a svc" where
  "on_threads \<equiv> zoomM sv_threads (\<lambda>c. sv_threads_update (\<lambda>_. c))"

abbreviation on_runs :: "(run_repo, exc, 'a) prog \<Rightarrow> 'a svc" where
  "on_runs \<equiv> zoomM sv_runs (\<lambda>c. sv_runs_update (\<lambda>_. c))"

abbreviation on_commands :: "(PriorityQueue, exc, 'a) prog \<Rightarrow> 'a svc" where
  "on_commands \<equiv> zoomM sv_commands (\<lambda>c. sv_commands_update (\<lambda>_. c))"

abbreviation on_journal :: "(EventJournal, exc, 'a) prog \<Rightarrow> 'a svc" where
  "on_journal \<equiv> zoomM sv_journal (\<lambda>c. sv_journal_update (\<lambda>_. c))"

abbreviation on_outbox :: "(outbox_repo, exc, 'a) prog \<Rightarrow> 'a svc" where
  "on_outbox \<equiv> zoomM sv_outbox (\<lambda>c. sv_outbox_update (\<lambda>_. c))"

abbreviation on_capacity :: "(ExecutionCapacity, exc, 'a) prog \<Rightarrow> 'a svc" where
  "on_capacity \<equiv> zoomM sv_capacity (\<lambda>c. sv_capacity_update (\<lambda>_. c))"

text \<open>\<open>self._journal.append(draft)\<close>.\<close>

definition svc_append :: "RuntimeEventDraft \<Rightarrow> RuntimeEvent svc" where
  "svc_append d = bindM (getsM sv_journal_on) (\<lambda>on.
     if on then bindM svc_new_id (\<lambda>i. bindM svc_now (\<lambda>n. on_journal (journal_append n i d)))
     else raise (AttributeError (repr_str ''NoneType'' @ '' object has no attribute '' @ repr_str ''append'')))"

text \<open>\<open>if self._journal is not None: await self._journal.append(draft)\<close>.\<close>

definition svc_append_if :: "RuntimeEventDraft \<Rightarrow> unit svc" where
  "svc_append_if d = bindM (getsM sv_journal_on) (\<lambda>on. whenM on (bindM (svc_append d) (\<lambda>_. ret ())))"

text \<open>\<open>self._runs.update(f(now))\<close> and \<open>thread = self._threads.get(t); self._threads.update(f(thread, now))\<close>.\<close>

definition svc_update_run :: "(datetime \<Rightarrow> exc + Run) \<Rightarrow> unit svc" where
  "svc_update_run f = bindM svc_now (\<lambda>n. bindM (liftE (f n)) (\<lambda>r.
     bindM (on_runs (runs_update r)) (\<lambda>_. ret ())))"

definition svc_update_thread :: "string \<Rightarrow> (Thread \<Rightarrow> datetime \<Rightarrow> Thread) \<Rightarrow> unit svc" where
  "svc_update_thread k f = bindM (on_threads (threads_get k)) (\<lambda>t. bindM svc_now (\<lambda>n.
     bindM (on_threads (threads_update (f t n))) (\<lambda>_. ret ())))"

subsection \<open>create_thread\<close>

definition create_thread :: "string option \<Rightarrow> obj option \<Rightarrow> Thread svc" where
  "create_thread thread metadata =
     bindM svc_now (\<lambda>now.
     bindM (case thread of
              Some t \<Rightarrow> if t \<noteq> [] then liftE (parse_id ThreadId t) else bindM svc_new_id (\<lambda>i. ret (ThreadId i))
            | None \<Rightarrow> bindM svc_new_id (\<lambda>i. ret (ThreadId i))) (\<lambda>tid.
     on_threads (threads_create
       \<lparr> th_thread_id = tid, th_status = T_IDLE,
         th_metadata = (case metadata of None \<Rightarrow> [] | Some m \<Rightarrow> m),
         th_created_at = Some now, th_updated_at = Some now \<rparr>)))"

subsection \<open>start_run\<close>

definition start_message :: "ExecutionRequest \<Rightarrow> datetime \<Rightarrow> string \<Rightarrow> OutboxMessage" where
  "start_message rq now new_id = (let i = rq_identity rq in
     \<lparr> ob_message_id = CommandId new_id, ob_topic = ''rt.local.run.commands.v1'',
       ob_key = id_value (application_id (scope i)) @ '':''
         @ (case thread_key i of Some t \<Rightarrow> t | None \<Rightarrow> ''stateless''),
       ob_payload =
         [(''run_id'', JStr (run_key i)), (''assistant_id'', JStr (id_value (assistant_id i))),
          (''thread_id'', opt_str (thread_key i)), (''input'', rq_input rq),
          (''command'', rq_command rq), (''config'', JObj (rq_config rq)),
          (''context'', JObj (rq_context rq)), (''metadata'', JObj (rq_metadata rq)),
          (''stream_modes'', JArr (map JStr (rq_stream_modes rq)))],
       ob_created_at = now, ob_published = False \<rparr>)"

definition make_command :: "ExecutionIdentity \<Rightarrow> ExecutionRequest \<Rightarrow> datetime \<Rightarrow> string \<Rightarrow> RunCommand" where
  "make_command i rq now new_id =
     \<lparr> rc_command_id = CommandId new_id, rc_identity = i, rc_request = rq,
       rc_priority = rq_priority rq, rc_available_at = now, rc_created_at = now \<rparr>"

definition new_run :: "ExecutionRequest \<Rightarrow> datetime \<Rightarrow> Run" where
  "new_run rq now =
     \<lparr> rn_identity = rq_identity rq, rn_status = PENDING, rn_metadata = rq_metadata rq,
       rn_created_at = Some now, rn_updated_at = Some now, rn_result = JNull, rn_error = None \<rparr>"

definition queue_failed :: RunError where
  "queue_failed = make_run_error ''RUN_QUEUE_FAILED'' ''run command could not be queued'' False None"

text \<open>The four stages of \<open>start_run\<close>: take the thread, create the run, announce and hand over the
  command, and the \<open>except Exception\<close> block.\<close>

definition take_thread :: "ExecutionRequest \<Rightarrow> datetime \<Rightarrow> unit svc" where
  "take_thread rq now = (case thread_key (rq_identity rq) of
       None \<Rightarrow> ret ()
     | Some t \<Rightarrow> bindM (on_threads (threads_get t)) (\<lambda>th.
         if th_status th = T_BUSY
         then raise (runtime_failure THREAD_BUSY (''thread is busy: '' @ t))
         else bindM (on_threads (threads_update (mark_busy th now))) (\<lambda>_. ret ())))"

definition hand_over :: "bool \<Rightarrow> ExecutionRequest \<Rightarrow> datetime \<Rightarrow> unit svc" where
  "hand_over outbox_given rq now =
     thenM (svc_append_if (make_draft (rq_identity rq) RUN_QUEUED
       (JObj [(''assistant_id'', JStr (id_value (assistant_id (rq_identity rq))))])))
     (bindM (getsM sv_outbox_on) (\<lambda>own.
      if outbox_given \<or> own
      then bindM svc_new_id (\<lambda>i. bindM (on_outbox (outbox_append (start_message rq now i))) (\<lambda>_. ret ()))
      else bindM svc_new_id (\<lambda>i. on_commands (queue_publish (make_command (rq_identity rq) rq now i)))))"

definition start_failed :: "ExecutionRequest \<Rightarrow> Run \<Rightarrow> unit svc" where
  "start_failed rq created =
     thenM (svc_update_run (fail created queue_failed))
       (case thread_key (rq_identity rq) of
          None \<Rightarrow> ret ()
        | Some t \<Rightarrow> svc_update_thread t mark_error)"

definition start_run :: "bool \<Rightarrow> ExecutionRequest \<Rightarrow> Run svc" where
  "start_run outbox_given rq =
     bindM svc_now (\<lambda>now.
     thenM (take_thread rq now)
     (bindM (on_runs (runs_create (new_run rq now))) (\<lambda>created.
      thenM (catchM (hand_over outbox_given rq now)
        (\<lambda>e. if is_exception e then thenM (start_failed rq created) (raise e) else raise e))
      (ret created))))"

subsection \<open>cancel_run and resume_run\<close>

definition cancel_run :: "string \<Rightarrow> Run svc" where
  "cancel_run rid =
     bindM (on_runs (runs_get rid)) (\<lambda>run.
     if is_terminal (rn_status run) then ret run
     else
       bindM (getsM (\<lambda>s. map_of (sv_active_adapters s) (rn_key run))) (\<lambda>adapter.
       thenM (case adapter of
                None \<Rightarrow> ret ()
              | Some a \<Rightarrow> (case ad_cancel a (default_request (rn_identity run)) of
                    None \<Rightarrow> ret () | Some e \<Rightarrow> raise e))
       (bindM svc_now (\<lambda>n.
        bindM (liftE (cancel run n)) (\<lambda>cancelled.
        thenM (bindM (on_runs (runs_update cancelled)) (\<lambda>_. ret ()))
        (thenM (case rn_thread_key run of
                  None \<Rightarrow> ret ()
                | Some t \<Rightarrow> svc_update_thread t mark_idle)
        (thenM (svc_append_if (make_draft (rn_identity run) RUN_CANCELLED
           (JObj [(''run_id'', JStr (rn_key run)),
                  (''status'', JStr (run_status_str (rn_status cancelled)))])))
        (ret cancelled))))))))"

definition resume_run :: "ExecutionRequest \<Rightarrow> Run svc" where
  "resume_run rq =
     bindM (on_runs (runs_get (run_key (rq_identity rq)))) (\<lambda>run.
     if rn_status run \<noteq> INTERRUPTED
     then raise (runtime_failure INVALID_EXECUTION_INPUT ''run is not interrupted'')
     else
       bindM svc_now (\<lambda>now. bindM svc_new_id (\<lambda>i.
       thenM (on_commands (queue_publish (make_command (rn_identity run) rq now i)))
       (thenM (svc_append_if (make_draft (rn_identity run) RUN_QUEUED (JObj [(''resume'', JBool True)])))
       (ret run)))))"

subsection \<open>_execute_receipt\<close>

text \<open>\<open>execute_draft\<close> is the body of the loop over the adapter's stream; the loop carries the last
  state value and whether a terminal event was seen.\<close>

definition framework_failure :: "string \<Rightarrow> RunError" where
  "framework_failure message = make_run_error ''FRAMEWORK_EXECUTION_FAILED'' message False None"

definition interrupted_run :: "Run \<Rightarrow> datetime \<Rightarrow> exc + Run" where
  "interrupted_run r now = Inr (r \<lparr> rn_status := INTERRUPTED, rn_updated_at := Some now \<rparr>)"

definition settle_run :: "RuntimeEvent \<Rightarrow> json \<Rightarrow> Run \<Rightarrow> datetime \<Rightarrow> exc + Run" where
  "settle_run e last_result current n =
     (if ev_is (ev_type e) RUN_COMPLETED then complete current last_result n
      else if ev_is (ev_type e) RUN_CANCELLED then cancel current n
      else if ev_is (ev_type e) RUN_INTERRUPTED then interrupted_run current n
      else fail current (framework_failure (py_str (ev_data e))) n)"

definition settle_thread :: "RuntimeEvent \<Rightarrow> Thread \<Rightarrow> datetime \<Rightarrow> Thread" where
  "settle_thread e t n =
     (if ev_is (ev_type e) RUN_INTERRUPTED then mark_interrupted t n else mark_idle t n)"

definition execute_draft :: "Run \<Rightarrow> RuntimeEventDraft \<Rightarrow> json \<times> bool \<Rightarrow> (json \<times> bool) svc" where
  "execute_draft run d acc =
     bindM (svc_append d) (\<lambda>e.
       let last_result = (if ev_is (ev_type e) STATE_VALUES then ev_data e else fst acc)
       in if ev_in (ev_type e) terminal_events
          then bindM (on_runs (runs_get (rn_key run))) (\<lambda>current.
               thenM (svc_update_run (settle_run e last_result current))
               (thenM (case rn_thread_key current of
                         None \<Rightarrow> ret ()
                       | Some t \<Rightarrow> svc_update_thread t (settle_thread e))
               (ret (last_result, True))))
          else ret (last_result, snd acc))"

fun execute_drafts :: "Run \<Rightarrow> RuntimeEventDraft list \<Rightarrow> json \<times> bool \<Rightarrow> (json \<times> bool) svc" where
  "execute_drafts run [] acc = ret acc"
| "execute_drafts run (d # ds) acc = bindM (execute_draft run d acc) (execute_drafts run ds)"

definition execute_end :: "Run \<Rightarrow> exc option \<Rightarrow> json \<times> bool \<Rightarrow> unit svc" where
  "execute_end run ending acc = (case ending of
       Some e \<Rightarrow> raise e
     | None \<Rightarrow> whenM (\<not> snd acc)
         (bindM (on_runs (runs_get (rn_key run))) (\<lambda>current.
            svc_update_run (complete current (fst acc)))))"

definition execute_except :: "Run \<Rightarrow> ExecutionRequest \<Rightarrow> exc \<Rightarrow> unit svc" where
  "execute_except run rq e =
     bindM (on_runs (runs_get (rn_key run))) (\<lambda>current.
     if e = CancelledError
     then whenM (rn_status current \<noteq> CANCELLED)
       (bindM (svc_append (make_draft (rq_identity rq) RUN_CANCELLED JNull)) (\<lambda>_.
        svc_update_run (cancel current)))
     else thenM (whenM (\<not> is_terminal (rn_status current))
       (bindM (svc_append (make_draft (rq_identity rq) RUN_FAILED (JObj [(''error'', JStr (exc_str e))]))) (\<lambda>_.
        svc_update_run (fail current (framework_failure (exc_str e))))))
       (raise e))"

definition execute_finally :: "Run \<Rightarrow> RunCommandReceipt \<Rightarrow> unit svc" where
  "execute_finally run receipt =
     thenM (modifyM (\<lambda>s. s \<lparr> sv_active_adapters := AList.delete (rn_key run) (sv_active_adapters s) \<rparr>))
     (thenM (case rn_thread_key run of
               None \<Rightarrow> ret ()
             | Some t \<Rightarrow> bindM (on_threads (threads_get t)) (\<lambda>th.
                 whenM (th_status th = T_BUSY) (bindM svc_now (\<lambda>n.
                   bindM (on_threads (threads_update (mark_idle th n))) (\<lambda>_. ret ())))))
     (on_commands (queue_acknowledge receipt)))"

definition execute_guard :: "Run \<Rightarrow> RunCommandReceipt \<Rightarrow> unit svc \<Rightarrow> unit svc" where
  "execute_guard run receipt m =
     finallyM (catchM m (execute_except run (rc_request (rp_command receipt)))) (execute_finally run receipt)"

definition execute_receipt :: "RunCommandReceipt \<Rightarrow> Adapter \<Rightarrow> unit svc" where
  "execute_receipt receipt adapter =
     (let rq = rc_request (rp_command receipt) in
      bindM (on_runs (runs_get (run_key (rq_identity rq)))) (\<lambda>run.
      if rn_status run \<noteq> PENDING then on_commands (queue_acknowledge receipt)
      else thenM (modifyM (\<lambda>s. s \<lparr> sv_active_adapters :=
               AList.update (rn_key run) adapter (sv_active_adapters s) \<rparr>))
        (execute_guard run receipt
          (thenM (svc_update_run (mark_running run))
          (bindM (execute_drafts run (fst (ad_stream adapter rq)) (JNull, False))
            (execute_end run (snd (ad_stream adapter rq))))))))"

subsection \<open>The worker loop\<close>

definition start_worker :: "unit svc" where
  "start_worker = modifyM (\<lambda>s.
     if sv_worker s \<noteq> NoWorker then s
     else if \<not> sv_adapters_on s \<or> dict_values (sv_adapters s) = [] then s
     else s \<lparr> sv_worker := WorkerRunning \<rparr>)"

text \<open>
  One round of \<open>_consume_commands\<close>: \<open>Some True\<close> says that the loop goes on, \<open>Some False\<close> that it
  returned because the queue is closed, \<open>None\<close> that it is suspended (on the empty queue, or on the
  semaphore of the capacity).  An exception ends the loop.
\<close>

definition with_slot :: "unit svc \<Rightarrow> bool svc" where
  "with_slot m = bindM (getsM sv_capacity_on) (\<lambda>on.
     if \<not> on then thenM m (ret True)
     else thenM (on_capacity slot_check) (bindM (on_capacity slot_acquire) (\<lambda>got.
       if \<not> got then ret False
       else thenM (on_capacity slot_enter)
         (thenM (finallyM m (thenM (on_capacity slot_leave) (on_capacity slot_release))) (ret True)))))"

definition svc_receive :: "RunCommandReceipt option option svc" where
  "svc_receive = bindM svc_new_id (\<lambda>i. bindM svc_now (\<lambda>n.
     catchM (bindM (on_commands (queue_receive n i)) (\<lambda>r. ret (Some r)))
       (\<lambda>e. case e of RuntimeFailureError _ _ _ _ \<Rightarrow> ret None
             | CancelledError \<Rightarrow> ret None | _ \<Rightarrow> raise e)))"

definition svc_adapter :: "string \<Rightarrow> Adapter svc" where
  "svc_adapter k = zoomM sv_adapters (\<lambda>c. sv_adapters_update (\<lambda>_. c)) (registry_get k)"

definition consume_once :: "bool option svc" where
  "consume_once = bindM svc_receive (\<lambda>got. case got of
       None \<Rightarrow> ret (Some False)
     | Some None \<Rightarrow> ret None
     | Some (Some receipt) \<Rightarrow>
         bindM (svc_adapter (id_value (assistant_id (rp_identity receipt)))) (\<lambda>adapter.
         bindM (with_slot (execute_receipt receipt adapter)) (\<lambda>done.
         ret (if done then Some True else None))))"

text \<open>The loop itself, for at most the given number of rounds; \<open>Some True\<close> says that it would go on.\<close>

fun consume_commands :: "nat \<Rightarrow> bool option svc" where
  "consume_commands 0 = ret (Some True)"
| "consume_commands (Suc n) = bindM consume_once (\<lambda>r.
     if r = Some True then consume_commands n else ret r)"

text \<open>The worker task: when the loop returns or raises, the task is done, and it stays referenced.\<close>

definition run_worker :: "nat \<Rightarrow> unit svc" where
  "run_worker n = bindM (getsM sv_worker) (\<lambda>w. whenM (w = WorkerRunning)
     (catchM (bindM (consume_commands n) (\<lambda>r.
        whenM (r = Some False) (modifyM (\<lambda>s. s \<lparr> sv_worker := WorkerDone \<rparr>))))
      (\<lambda>_. modifyM (\<lambda>s. s \<lparr> sv_worker := WorkerDone \<rparr>))))"

text \<open>\<open>stop_worker\<close> while the loop waits for a command: the cancelled \<open>receive\<close> ends the loop.\<close>

definition stop_worker :: "unit svc" where
  "stop_worker = modifyM (\<lambda>s. s \<lparr> sv_worker := NoWorker \<rparr>)"

subsection \<open>Reading events and state\<close>

definition not_configured :: "string \<Rightarrow> exc" where
  "not_configured what = runtime_failure ADAPTER_NOT_SUPPORTED (what @ '' is not configured'')"

definition stream_events :: "string \<Rightarrow> int \<Rightarrow> RuntimeEvent list svc" where
  "stream_events rid after = bindM (getsM sv_replay_on) (\<lambda>on.
     if \<not> on then raise (not_configured ''event replay'')
     else bindM (liftE (parse_id RunId rid)) (\<lambda>i. on_journal (journal_replay (id_value i) after)))"

text \<open>The subscription that \<open>stream_live_events\<close> iterates over with \<^const>\<open>subscribe_next\<close>.\<close>

definition stream_live_events :: "string \<Rightarrow> int \<Rightarrow> Subscription svc" where
  "stream_live_events rid after = bindM (getsM sv_subscription_on) (\<lambda>on.
     if \<not> on then raise (not_configured ''event subscription'')
     else bindM (liftE (parse_id RunId rid)) (\<lambda>i. on_journal (subscribe_open (id_value i) after)))"

text \<open>The in-memory journal inherits \<open>replay_by_thread\<close> from the protocol class, whose body is a
  docstring: the call returns \<open>None\<close>.\<close>

definition journal_replay_by_thread ::
  "string \<Rightarrow> int \<Rightarrow> int \<Rightarrow> (EventJournal, exc, RuntimeEvent list option) prog" where
  "journal_replay_by_thread tid after lmt = ret None"

definition get_thread_history :: "string \<Rightarrow> int \<Rightarrow> int \<Rightarrow> RuntimeEvent list option svc" where
  "get_thread_history tid after lmt = bindM (getsM sv_replay_on) (\<lambda>on.
     if \<not> on then raise (not_configured ''event replay'')
     else on_journal (journal_replay_by_thread tid after lmt))"

definition last_state_value :: "RuntimeEvent list \<Rightarrow> json" where
  "last_state_value es = (case List.find (\<lambda>e. ev_is (ev_type e) STATE_VALUES) (rev es) of
     Some e \<Rightarrow> ev_data e | None \<Rightarrow> JNull)"

definition state_request :: "string \<Rightarrow> ExecutionIdentity \<Rightarrow> ExecutionRequest" where
  "state_request tid i = (default_request i)
     \<lparr> rq_config := [(''configurable'', JObj [(''thread_id'', JStr tid)])] \<rparr>"

definition thread_state_from_events :: "string \<Rightarrow> json svc" where
  "thread_state_from_events tid = bindM (getsM sv_replay_on) (\<lambda>on.
     if \<not> on then ret JNull
     else bindM (on_journal (journal_replay_by_thread tid (-1) 0)) (\<lambda>events. case events of
         None \<Rightarrow> raise (TypeError (repr_str ''NoneType'' @ '' object is not reversible''))
       | Some es \<Rightarrow> ret (last_state_value es)))"

definition get_thread_state :: "string \<Rightarrow> Adapter option \<Rightarrow> json svc" where
  "get_thread_state tid adapter =
     (case adapter of
        Some a \<Rightarrow>
          if cap_state_management (mf_capabilities (ad_manifest a))
          then bindM svc_new_id (\<lambda>r. bindM (liftE (parse_id ThreadId tid)) (\<lambda>t.
               bindM (liftE (make_identity ScopeMissing None (Some (RunId r)) None (Some t)
                        None None None None None)) (\<lambda>i.
               liftE (ad_get_state a (state_request tid i)))))
          else thread_state_from_events tid
      | None \<Rightarrow> thread_state_from_events tid)"

subsection \<open>The local composition (bootstrap/local.py)\<close>

definition create_local_runtime ::
  "int \<Rightarrow> (nat \<Rightarrow> datetime) \<Rightarrow> (nat \<Rightarrow> string) \<Rightarrow> exc + Service" where
  "create_local_runtime max_concurrency clock ids =
     (case (new_journal 128, new_capacity max_concurrency) of
        (Inl e, _) \<Rightarrow> Inl e
      | (_, Inl e) \<Rightarrow> Inl e
      | (Inr j, Inr c) \<Rightarrow> Inr
          \<lparr> sv_threads = [], sv_runs = [], sv_commands = new_queue 60 3, sv_journal = j,
            sv_journal_on = True, sv_replay_on = True, sv_subscription_on = True, sv_outbox = [],
            sv_outbox_on = False, sv_adapters = [], sv_adapters_on = True, sv_capacity = c,
            sv_capacity_on = True, sv_worker = NoWorker, sv_active_adapters = [],
            sv_clock = clock, sv_clock_ix = 0, sv_ids = ids, sv_id_ix = 0 \<rparr>)"

definition runtime_start :: "bool \<Rightarrow> unit svc" where
  "runtime_start execute_locally = whenM execute_locally start_worker"

definition runtime_shutdown :: "bool svc" where
  "runtime_shutdown = thenM stop_worker (thenM (on_commands queue_close) (on_capacity drain))"

subsection \<open>Well-formed states\<close>

text \<open>The identifier generator never repeats, and every lease of the queue carries an identifier it
  has already given out.\<close>

definition ids_ok :: "Service \<Rightarrow> bool" where
  "ids_ok s \<longleftrightarrow> inj (sv_ids s) \<and> fst ` set (pq_leases (sv_commands s)) \<subseteq> sv_ids s ` {..<sv_id_ix s}"

definition svc_wf :: "Service \<Rightarrow> bool" where
  "svc_wf s \<longleftrightarrow> keyed_by th_key (sv_threads s) \<and> keyed_by rn_key (sv_runs s)
     \<and> queue_inv (sv_commands s) \<and> journal_inv (sv_journal s) \<and> ids_ok s"

lemma svc_wf_clock [hoare_intros]: "preserves svc_wf svc_now"
  by (rule preservesI) (simp add: svc_now_def svc_wf_def ids_ok_def)

lemma svc_wf_id [hoare_intros]: "preserves svc_wf svc_new_id"
  by (rule preservesI) (auto simp: svc_new_id_def svc_wf_def ids_ok_def dest!: subsetD)

lemma svc_wf_threads:
  "preserves (keyed_by th_key) m \<Longrightarrow> preserves svc_wf (on_threads m)"
  by (rule preserves_zoom) (auto simp: svc_wf_def ids_ok_def)

lemma svc_wf_runs:
  "preserves (keyed_by rn_key) m \<Longrightarrow> preserves svc_wf (on_runs m)"
  by (rule preserves_zoom) (auto simp: svc_wf_def ids_ok_def)

lemma svc_wf_journal:
  "preserves journal_inv m \<Longrightarrow> preserves svc_wf (on_journal m)"
  by (rule preserves_zoom) (auto simp: svc_wf_def ids_ok_def)

lemma svc_wf_outbox [hoare_intros]: "preserves svc_wf (on_outbox m)"
  by (rule preserves_zoom_frame) (auto simp: svc_wf_def ids_ok_def)

lemma svc_wf_capacity [hoare_intros]: "preserves svc_wf (on_capacity m)"
  by (rule preserves_zoom_frame) (auto simp: svc_wf_def ids_ok_def)

lemma svc_wf_adapter [hoare_intros]: "preserves svc_wf (svc_adapter k)"
  unfolding svc_adapter_def by (rule preserves_zoom_frame) (auto simp: svc_wf_def ids_ok_def)

text \<open>A queue operation that adds no lease keeps the well-formedness.\<close>

lemma svc_wf_commands:
  assumes "\<And>q. queue_inv q \<Longrightarrow> queue_inv (snd (m q)) \<and> fst ` set (pq_leases (snd (m q))) \<subseteq> fst ` set (pq_leases q)"
  shows "preserves svc_wf (on_commands m)"
proof (rule preservesI)
  fix s assume s: "svc_wf s"
  let ?q = "snd (m (sv_commands s))"
  have "queue_inv ?q" "fst ` set (pq_leases ?q) \<subseteq> fst ` set (pq_leases (sv_commands s))"
    using assms s by (simp_all add: svc_wf_def)
  moreover have "snd (on_commands m s) = s \<lparr> sv_commands := ?q \<rparr>"
    by (simp add: zoomM_def split: prod.splits)
  ultimately show "svc_wf (snd (on_commands m s))"
    using s by (auto simp: svc_wf_def ids_ok_def dest: subset_trans)
qed

lemma keyed_store_ops:
  "preserves (keyed_by th_key) (threads_get k)" "preserves (keyed_by th_key) (threads_update t)"
  "preserves (keyed_by th_key) (threads_create t)"
  "preserves (keyed_by rn_key) (runs_get k)" "preserves (keyed_by rn_key) (runs_update r)"
  "preserves (keyed_by rn_key) (runs_create r)"
  by (auto intro!: preservesI simp: threads_defs runs_defs keyed_by_update split: option.splits)

lemma journal_append_preserves: "preserves journal_inv (journal_append n i d)"
  by (intro preservesI journal_append_inv)

lemma svc_wf_stores [hoare_intros]:
  "preserves svc_wf (on_threads (threads_get k))" "preserves svc_wf (on_threads (threads_update t))"
  "preserves svc_wf (on_threads (threads_create t))"
  "preserves svc_wf (on_runs (runs_get k))" "preserves svc_wf (on_runs (runs_update r))"
  "preserves svc_wf (on_runs (runs_create r))"
  "preserves svc_wf (on_journal (journal_append n i d))"
  by (intro svc_wf_threads svc_wf_runs svc_wf_journal keyed_store_ops journal_append_preserves)+

lemma svc_wf_publish [hoare_intros]: "preserves svc_wf (on_commands (queue_publish c))"
  by (rule svc_wf_commands) (auto simp: queue_publish_def queue_inv_enqueue)

lemma svc_wf_ack [hoare_intros]: "preserves svc_wf (on_commands (queue_acknowledge r))"
proof (rule svc_wf_commands)
  fix q assume q: "queue_inv q"
  show "queue_inv (snd (queue_acknowledge r q))
    \<and> fst ` set (pq_leases (snd (queue_acknowledge r q))) \<subseteq> fst ` set (pq_leases q)"
  proof (cases "map_of (pq_leases q) (id_value (rp_lease_id r))")
    case None
    with q show ?thesis by (simp add: queue_acknowledge_def)
  next
    case (Some l)
    with q show ?thesis
      by (auto simp: queue_acknowledge_run settled_inv set_delete_dict)
  qed
qed

lemma svc_wf_close [hoare_intros]: "preserves svc_wf (on_commands queue_close)"
  by (rule svc_wf_commands) (simp add: queue_close_def modifyM_def queue_inv_def)

lemma svc_wf_receive [hoare_intros]: "preserves svc_wf svc_receive"
proof (rule preservesI)
  fix s assume s: "svc_wf s"
  let ?i = "sv_ids s (sv_id_ix s)" and ?n = "sv_clock s (sv_clock_ix s)"
  have fresh: "map_of (pq_leases (sv_commands s)) ?i = None"
  proof (rule ccontr)
    assume "map_of (pq_leases (sv_commands s)) ?i \<noteq> None"
    then have "?i \<in> fst ` set (pq_leases (sv_commands s))" by (simp add: map_of_eq_None_iff)
    with s obtain j where "j < sv_id_ix s" "?i = sv_ids s j"
      unfolding svc_wf_def ids_ok_def by blast
    with s show False by (auto simp: svc_wf_def ids_ok_def dest: injD)
  qed
  obtain r q' where rq: "queue_receive ?n ?i (sv_commands s) = (r, q')" by fastforce
  have "queue_inv q' \<and> fst ` set (pq_leases q') \<subseteq> insert ?i (fst ` set (pq_leases (sv_commands s)))"
  proof (cases r)
    case (Inl e)
    with rq s show ?thesis using memory_queue.receive_error by (fastforce simp: svc_wf_def)
  next
    case (Inr o')
    show ?thesis
    proof (cases o')
      case None
      with Inr rq s show ?thesis using memory_queue.receive_none by (fastforce simp: svc_wf_def)
    next
      case (Some c)
      with Inr rq have rq': "queue_receive ?n ?i (sv_commands s) = (Inr (Some c), q')" by simp
      then obtain x where "q' = (sv_commands s) \<lparr> pq_queue := remove1 x (pq_queue (sv_commands s)),
          pq_leases := AList.update ?i (x, c) (pq_leases (sv_commands s)) \<rparr>"
        by (rule queue_receive_Some)
      moreover have "queue_inv q'"
        using queue_receive_spec [OF _ fresh rq'] s by (simp add: svc_wf_def)
      ultimately show ?thesis by (auto simp: dict_update_new [OF fresh])
    qed
  qed
  moreover have "snd (svc_receive s) = s \<lparr> sv_id_ix := Suc (sv_id_ix s),
      sv_clock_ix := Suc (sv_clock_ix s), sv_commands := q' \<rparr>"
    using rq by (cases r) (auto simp: svc_receive_def prog_defs svc_new_id_def svc_now_def split: exc.splits)
  ultimately show "svc_wf (snd (svc_receive s))"
    using s by (auto simp: svc_wf_def ids_ok_def lessThan_Suc)
qed

subsection \<open>Every operation keeps the state well-formed\<close>

lemma svc_wf_active [hoare_intros]: "preserves svc_wf (modifyM (\<lambda>s. s \<lparr> sv_active_adapters := f s \<rparr>))"
  and svc_wf_worker [hoare_intros]: "preserves svc_wf (modifyM (\<lambda>s. s \<lparr> sv_worker := w \<rparr>))"
  by (auto intro!: preservesI simp: modifyM_def svc_wf_def ids_ok_def)

lemma svc_wf_append [hoare_intros]: "preserves svc_wf (svc_append d)" "preserves svc_wf (svc_append_if d)"
  by (auto simp: svc_append_def svc_append_if_def intro!: hoare_intros)

lemma svc_wf_updates [hoare_intros]:
  "preserves svc_wf (svc_update_run f)" "preserves svc_wf (svc_update_thread k g)"
  by (auto simp: svc_update_run_def svc_update_thread_def intro!: hoare_intros)

lemma svc_wf_create_thread: "preserves svc_wf (create_thread t m)"
  by (auto simp: create_thread_def intro!: hoare_intros split: option.splits)

lemma svc_wf_start_run: "preserves svc_wf (start_run b rq)"
  by (auto simp: start_run_def take_thread_def hand_over_def start_failed_def
      intro!: hoare_intros split: option.splits)

lemma svc_wf_cancel_run: "preserves svc_wf (cancel_run k)"
  by (auto simp: cancel_run_def intro!: hoare_intros split: option.splits)

lemma svc_wf_resume_run: "preserves svc_wf (resume_run rq)"
  by (auto simp: resume_run_def intro!: hoare_intros)

lemma svc_wf_execute_draft [hoare_intros]: "preserves svc_wf (execute_draft run d acc)"
  by (auto simp: execute_draft_def Let_def intro!: hoare_intros split: option.splits)

lemma svc_wf_execute_drafts [hoare_intros]: "preserves svc_wf (execute_drafts run ds acc)"
  by (induction ds arbitrary: acc) (auto intro!: hoare_intros)

lemma svc_wf_execute_parts [hoare_intros]:
  "preserves svc_wf (execute_end run x acc)" "preserves svc_wf (execute_except run rq e)"
  "preserves svc_wf (execute_finally run rp)"
  by (auto simp: execute_end_def execute_except_def execute_finally_def
      intro!: hoare_intros split: option.splits)

lemma svc_wf_execute_receipt [hoare_intros]: "preserves svc_wf (execute_receipt rp a)"
  by (auto simp: execute_receipt_def execute_guard_def Let_def intro!: hoare_intros)

lemma svc_wf_consume_once [hoare_intros]: "preserves svc_wf consume_once"
  by (auto simp: consume_once_def with_slot_def intro!: hoare_intros split: option.splits)

lemma svc_wf_consume_commands: "preserves svc_wf (consume_commands n)"
  by (induction n) (auto intro!: hoare_intros)

subsection \<open>At most one active run per thread\<close>

abbreviation svc_one_active :: "Service \<Rightarrow> bool" where
  "svc_one_active s \<equiv> one_active (sv_runs s)"

text \<open>Programs that do not touch the runs keep every property of the runs.\<close>

definition runs_only :: "(run_repo \<Rightarrow> bool) \<Rightarrow> Service \<Rightarrow> bool" where
  "runs_only P s \<longleftrightarrow> P (sv_runs s)"

lemma runs_frame [hoare_intros]:
  "preserves (runs_only P) svc_now" "preserves (runs_only P) svc_new_id"
  "preserves (runs_only P) (on_threads m1)" "preserves (runs_only P) (on_commands m2)"
  "preserves (runs_only P) (on_journal m3)" "preserves (runs_only P) (on_outbox m4)"
  "preserves (runs_only P) (on_capacity m5)" "preserves (runs_only P) (svc_adapter k)"
  "preserves (runs_only P) (modifyM (\<lambda>s. s \<lparr> sv_active_adapters := f s \<rparr>))"
  "preserves (runs_only P) (modifyM (\<lambda>s. s \<lparr> sv_worker := w \<rparr>))"
  by (auto intro!: preservesI simp: runs_only_def svc_now_def svc_new_id_def zoomM_def modifyM_def
      svc_adapter_def split: prod.splits)

lemma runs_frame_append [hoare_intros]:
  "preserves (runs_only P) (svc_append d)" "preserves (runs_only P) (svc_append_if d)"
  "preserves (runs_only P) (svc_update_thread k g)" "preserves (runs_only P) (take_thread rq n)"
  "preserves (runs_only P) (hand_over b rq n)"
  by (auto simp: svc_append_def svc_append_if_def svc_update_thread_def take_thread_def hand_over_def
      intro!: hoare_intros split: option.splits)

lemma runs_zoom: "preserves P m \<Longrightarrow> preserves (runs_only P) (on_runs m)"
  by (rule preserves_zoom) (auto simp: runs_only_def)

lemma runs_get_state: "snd (runs_get k d) = d"
  by (rule runs.get_pure)

lemma runs_get_preserves [hoare_intros]: "preserves (runs_only P) (on_runs (runs_get k))"
  by (intro runs_zoom preservesI) (simp add: runs_get_state)

lemma terminal_update_one_active:
  assumes "\<not> is_active (rn_status r)"
  shows "preserves one_active (runs_update r)"
proof (rule preservesI)
  fix d assume "one_active d"
  with assms show "one_active (snd (runs_update r d))"
    by (cases "map_of d (rn_key r)") (auto simp: runs_update_def intro: one_active_update)
qed

lemma update_run_preserves:
  assumes "\<And>n r. f n = Inr r \<Longrightarrow> preserves P (runs_update r)"
  shows "preserves (runs_only P) (svc_update_run f)"
  unfolding svc_update_run_def
  by (intro preserves_bind [OF runs_frame(1)] preserves_bind_liftE preserves_bind [OF runs_zoom]
      preserves_ret assms)

lemma update_run_one_active:
  assumes "\<And>n r. f n = Inr r \<Longrightarrow> \<not> is_active (rn_status r)"
  shows "preserves (runs_only one_active) (svc_update_run f)"
  using assms by (intro update_run_preserves terminal_update_one_active)

lemma settled_not_active:
  "complete r v n = Inr r' \<Longrightarrow> \<not> is_active (rn_status r')"
  "fail r er n = Inr r' \<Longrightarrow> \<not> is_active (rn_status r')"
  "cancel r n = Inr r' \<Longrightarrow> \<not> is_active (rn_status r')"
  by (auto dest!: run_ops_status simp: active_statuses_def)

lemma one_active_start_run: "preserves (runs_only one_active) (start_run b rq)"
proof -
  have "preserves (runs_only one_active) (svc_update_run (fail r e))" for r e
    by (rule update_run_one_active) (rule settled_not_active)
  moreover have "preserves (runs_only one_active) (on_runs (runs_create r))" for r
    by (rule runs_zoom) (rule runs_create_one_active)
  ultimately show ?thesis
    by (auto simp: start_run_def start_failed_def intro!: hoare_intros split: option.splits)
qed

lemma one_active_cancel_run: "preserves (runs_only one_active) (cancel_run k)"
proof -
  have upd: "preserves (runs_only one_active) (bindM (on_runs (runs_update r)) (\<lambda>_. ret ()))"
    if "cancel run n = Inr r" for r run n
    using settled_not_active(3) [OF that]
    by (intro preserves_bind preserves_ret runs_zoom terminal_update_one_active)
  have tail: "preserves (runs_only one_active) (bindM (liftE (cancel run n)) (\<lambda>r.
      thenM (bindM (on_runs (runs_update r)) (\<lambda>_. ret ())) (m r)))"
    if "\<And>r. preserves (runs_only one_active) (m r)" for run n and m :: "Run \<Rightarrow> Run svc"
    by (intro preserves_bind_liftE preserves_then upd that)
  show ?thesis
    unfolding cancel_run_def
    by (intro preserves_bind [OF runs_get_preserves] hoare_if preserves_bind [OF preserves_gets]
        preserves_then [OF _ preserves_bind [OF runs_frame(1)]] tail)
      (auto intro!: hoare_intros split: option.splits)
qed

lemma one_active_resume_run: "preserves (runs_only one_active) (resume_run rq)"
  by (auto simp: resume_run_def intro!: hoare_intros)

lemma one_active_create_thread: "preserves (runs_only one_active) (create_thread t m)"
  by (auto simp: create_thread_def intro!: hoare_intros split: option.splits)

text \<open>
  While a run executes it holds its thread whatever its recorded status: replacing its record by one
  of any status keeps the threads apart.
\<close>

definition reserved :: "string \<Rightarrow> string option \<Rightarrow> run_repo \<Rightarrow> bool" where
  "reserved k t d \<longleftrightarrow> keyed_by rn_key d \<and> (\<exists>r. map_of d k = Some r \<and> rn_thread_key r = t
     \<and> one_active (AList.update k (r \<lparr> rn_status := RUNNING \<rparr>) d))"

lemma reserved_one_active: "reserved k t d \<Longrightarrow> one_active d"
proof -
  assume "reserved k t d"
  then obtain r where r: "map_of d k = Some r" "one_active (AList.update k (r \<lparr> rn_status := RUNNING \<rparr>) d)"
    by (auto simp: reserved_def)
  have "one_active (AList.update k r (AList.update k (r \<lparr> rn_status := RUNNING \<rparr>) d))"
    by (rule one_active_update [OF r(2) map_of_update_same]) (auto simp: active_statuses_def)
  with r(1) show ?thesis by (simp add: AList.update_triv)
qed

lemma reservedI:
  assumes "keyed_by rn_key d" and "one_active d" and "map_of d k = Some r" and "is_active (rn_status r)"
  shows "reserved k (rn_thread_key r) d"
  using assms one_active_update [OF assms(2,3), of "r \<lparr> rn_status := RUNNING \<rparr>"]
  by (auto simp: reserved_def)

lemma reserved_update:
  assumes "rn_key r = k" and "rn_thread_key r = t"
  shows "preserves (reserved k t) (runs_update r)"
proof (rule preservesI)
  fix d assume "reserved k t d"
  then obtain old where old: "keyed_by rn_key d" "map_of d k = Some old" "rn_thread_key old = t"
    "one_active (AList.update k (old \<lparr> rn_status := RUNNING \<rparr>) d)" by (auto simp: reserved_def)
  have "one_active (AList.update k (r \<lparr> rn_status := RUNNING \<rparr>)
      (AList.update k (old \<lparr> rn_status := RUNNING \<rparr>) d))"
    by (rule one_active_update [OF old(4) map_of_update_same]) (use old(3) assms(2) in \<open>auto simp: active_statuses_def\<close>)
  with old assms show "reserved k t (snd (runs_update r d))"
    by (simp add: reserved_def runs_update_def keyed_by_update)
qed

lemma preserves_bind_get:
  assumes "\<And>d r. P d \<Longrightarrow> map_of d k = Some r \<Longrightarrow> Q r"
    and "\<And>r. Q r \<Longrightarrow> preserves (runs_only P) (m r)"
  shows "preserves (runs_only P) (bindM (on_runs (runs_get k)) m)"
proof (rule preservesI)
  fix s assume s: "runs_only P s"
  show "runs_only P (snd (bindM (on_runs (runs_get k)) m s))"
  proof (cases "map_of (sv_runs s) k")
    case None
    with s show ?thesis by (simp add: prog_defs runs_get_def)
  next
    case (Some r)
    with s have "Q r" using assms(1) by (auto simp: runs_only_def)
    from preserves_state [OF assms(2) [OF this] s] Some show ?thesis
      by (simp add: prog_defs runs_get_def)
  qed
qed

lemma settle_run_identity: "settle_run e v r n = Inr r' \<Longrightarrow> rn_identity r' = rn_identity r"
  by (auto simp: settle_run_def interrupted_run_def split: if_splits dest: run_ops_identity)

lemma reserved_update_run:
  assumes "\<And>n r. f n = Inr r \<Longrightarrow> rn_identity r = rn_identity old" and "rn_key old = k" and "rn_thread_key old = t"
  shows "preserves (runs_only (reserved k t)) (svc_update_run f)"
  using assms by (intro update_run_preserves reserved_update) auto

lemma reservedD: "reserved k t d \<Longrightarrow> map_of d k = Some r \<Longrightarrow> rn_key r = k \<and> rn_thread_key r = t"
  by (auto simp: reserved_def dest: keyed_byD)

lemmas reserved_get = preserves_bind_get [where Q = "\<lambda>r. rn_key r = k \<and> rn_thread_key r = t" and k = k
    and P = "reserved k t" for k t, OF reservedD]

lemma reserved_draft: "preserves (runs_only (reserved (rn_key run) t)) (execute_draft run d acc)"
proof -
  have "preserves (runs_only (reserved (rn_key run) t)) (svc_update_run (settle_run e v r))"
    if "rn_key r = rn_key run \<and> rn_thread_key r = t" for e v r
    using that settle_run_identity by (intro reserved_update_run [where old = r]) auto
  then show ?thesis
    unfolding execute_draft_def Let_def
    by (intro preserves_bind [OF runs_frame_append(1)] hoare_if reserved_get)
      (auto intro!: hoare_intros split: option.splits)
qed

lemma reserved_drafts: "preserves (runs_only (reserved (rn_key run) t)) (execute_drafts run ds acc)"
  by (induction ds arbitrary: acc) (auto intro!: preserves_bind reserved_draft preserves_ret)

lemma reserved_end: "preserves (runs_only (reserved (rn_key run) t)) (execute_end run x acc)"
proof -
  have "preserves (runs_only (reserved (rn_key run) t)) (svc_update_run (complete r v))"
    if "rn_key r = rn_key run \<and> rn_thread_key r = t" for v r
    using that run_ops_identity by (intro reserved_update_run [where old = r]) auto
  then show ?thesis
    by (auto simp: execute_end_def intro!: reserved_get preserves_when preserves_raise split: option.splits)
qed

lemma reserved_except: "preserves (runs_only (reserved (rn_key run) t)) (execute_except run rq e)"
proof -
  have "preserves (runs_only (reserved (rn_key run) t)) (svc_update_run (cancel r))"
    "preserves (runs_only (reserved (rn_key run) t)) (svc_update_run (fail r er))"
    if "rn_key r = rn_key run \<and> rn_thread_key r = t" for r er
    using that run_ops_identity by (auto intro!: reserved_update_run [where old = r])
  then show ?thesis
    unfolding execute_except_def
    by (intro reserved_get hoare_if) (auto intro!: hoare_intros)
qed

lemma reserved_finally: "preserves (runs_only P) (execute_finally run rp)"
  by (auto simp: execute_finally_def intro!: hoare_intros split: option.splits)

lemma one_active_execute:
  assumes "keyed_by rn_key (sv_runs s)" and "one_active (sv_runs s)"
  shows "one_active (sv_runs (snd (execute_receipt rp a s)))"
proof -
  let ?k = "run_key (rq_identity (rc_request (rp_command rp)))"
  show ?thesis
  proof (cases "map_of (sv_runs s) ?k")
    case None
    with assms show ?thesis by (simp add: execute_receipt_def Let_def prog_defs runs_get_def)
  next
    case (Some run)
    then have k: "rn_key run = ?k" using keyed_byD [OF assms(1)] by force
    show ?thesis
    proof (cases "rn_status run = PENDING")
      case False
      with Some assms show ?thesis
        by (auto simp: execute_receipt_def Let_def prog_defs runs_get_def split: prod.splits)
    next
      case True
      then have res: "runs_only (reserved (rn_key run) (rn_thread_key run)) s"
        unfolding k using reservedI [OF assms Some] by (simp add: runs_only_def active_statuses_def)
      let ?m = "thenM (modifyM (\<lambda>s. s \<lparr> sv_active_adapters := AList.update (rn_key run) a (sv_active_adapters s) \<rparr>))
          (execute_guard run rp (thenM (svc_update_run (mark_running run))
           (bindM (execute_drafts run (fst (ad_stream a (rc_request (rp_command rp)))) (JNull, False))
            (execute_end run (snd (ad_stream a (rc_request (rp_command rp))))))))"
      have "preserves (runs_only (reserved (rn_key run) (rn_thread_key run)))
          (svc_update_run (mark_running run))"
        using run_ops_identity(1) by (intro reserved_update_run [where old = run]) auto
      then have pres: "preserves (runs_only (reserved (rn_key run) (rn_thread_key run))) ?m"
        unfolding execute_guard_def
        by (intro preserves_then preserves_finally preserves_catch preserves_bind runs_frame
            reserved_drafts reserved_end reserved_except reserved_finally)
      have "execute_receipt rp a s = ?m s"
        using Some True by (simp add: execute_receipt_def Let_def bindM_def zoomM_def runs_get_def)
      with preserves_state [OF pres res] show ?thesis
        by (auto simp: runs_only_def dest: reserved_one_active)
    qed
  qed
qed

lemma one_active_consume_once:
  assumes "svc_wf s" and "one_active (sv_runs s)"
  shows "one_active (sv_runs (snd (consume_once s)))"
proof -
  define I where "I = (\<lambda>s. svc_wf s \<and> one_active (sv_runs s))"
  have frame: "preserves I m" if "preserves svc_wf m" "preserves (runs_only one_active) m" for m :: "'a svc"
    using that unfolding preserves_iff I_def runs_only_def by blast
  have "preserves (runs_only one_active) svc_receive"
    by (auto simp: svc_receive_def intro!: hoare_intros split: exc.splits)
  then have rcv: "preserves I svc_receive" by (intro frame svc_wf_receive)
  have exe: "preserves I (execute_receipt rp a)" for rp a
    using preserves_state [OF svc_wf_execute_receipt] one_active_execute
    unfolding preserves_iff I_def by (auto simp: svc_wf_def)
  have cap: "preserves I (on_capacity m)" for m :: "(ExecutionCapacity, exc, 'a) prog"
    by (intro frame svc_wf_capacity runs_frame)
  have "preserves I (with_slot (execute_receipt rp a))" for rp a
    unfolding with_slot_def
    by (intro preserves_bind preserves_gets hoare_if preserves_then preserves_finally preserves_ret exe cap)
  moreover have "preserves I (svc_adapter k)" for k by (intro frame svc_wf_adapter runs_frame)
  ultimately have "preserves I consume_once"
    unfolding consume_once_def
    by (auto intro!: preserves_bind rcv preserves_ret split: option.splits)
  from preserves_state [OF this, of s] assms show ?thesis by (simp add: I_def)
qed

end
