(* ===== verification/Kafka_Dispatch.thy ===== *)
theory Kafka_Dispatch
  imports Memory_Queue
begin

section \<open>Kafka topics, the fair dispatcher and the lease queue\<close>

text \<open>
  \<^verbatim>\<open>adapters/kafka/topics.py\<close>, \<^verbatim>\<open>dispatcher.py\<close> and \<^verbatim>\<open>event_transport.py\<close>: the topic names, the in-memory
  transport that records messages, the dispatcher that chooses the next command, and the command queue
  with leases on top of both.  The queue satisfies the same contract as the in-memory queue
  (the locale \<open>command_queue\<close>), and the dispatcher serves every aged command after the older ones.
\<close>

subsection \<open>Topics\<close>

record TopicNames =
  tn_short_queue :: string
  tn_long_queue :: string
  tn_execution_events :: string
  tn_lifecycle :: string
  tn_commands :: string
  tn_audit :: string
  tn_deadletter :: string

definition topic_defaults :: "string \<Rightarrow> (string, string) pydict" where
  "topic_defaults base =
     [(''short_queue'', base @ ''.runs.short_queue''), (''long_queue'', base @ ''.runs.long_queue''),
      (''execution_events'', base @ ''.execution.events''), (''lifecycle'', base @ ''.run.lifecycle''),
      (''commands'', base @ ''.run.commands''), (''audit'', base @ ''.audit.events''),
      (''deadletter'', base @ ''.deadletter'')]"

definition topics_of :: "(string, string) pydict \<Rightarrow> TopicNames" where
  "topics_of d = (let f = (\<lambda>k. the (map_of d k)) in
     \<lparr> tn_short_queue = f ''short_queue'', tn_long_queue = f ''long_queue'',
       tn_execution_events = f ''execution_events'', tn_lifecycle = f ''lifecycle'',
       tn_commands = f ''commands'', tn_audit = f ''audit'', tn_deadletter = f ''deadletter'' \<rparr>)"

text \<open>\<open>TopicNames.from_config\<close>; no overrides are the empty ones.\<close>

definition topics_from_config ::
  "string \<Rightarrow> string \<Rightarrow> (string, string) pydict \<Rightarrow> exc + TopicNames" where
  "topics_from_config prefix environment overrides =
     (if prefix = [] \<or> environment = []
      then Inl (ValueError ''topic prefix and environment must not be empty'')
      else let defaults = topic_defaults (prefix @ ''.'' @ environment);
               unknown = filter (\<lambda>k. map_of defaults k = None) (map fst overrides)
           in if unknown \<noteq> []
              then Inl (ValueError (''unknown topic override(s): '' @ join '', '' (sort unknown)))
              else Inr (topics_of (dict_merge defaults overrides)))"

definition topics_as_dict :: "TopicNames \<Rightarrow> (string, string) pydict" where
  "topics_as_dict t =
     [(''short_queue'', tn_short_queue t), (''long_queue'', tn_long_queue t),
      (''execution_events'', tn_execution_events t), (''lifecycle'', tn_lifecycle t),
      (''commands'', tn_commands t), (''audit'', tn_audit t), (''deadletter'', tn_deadletter t)]"

definition run_topic_for :: "string \<Rightarrow> string \<Rightarrow> int \<Rightarrow> string" where
  "run_topic_for prefix application priority =
     prefix @ ''.'' @ application @ ''.runs.''
       @ (if priority \<ge> priority_int NORMAL then ''short_queue'' else ''long_queue'')"

definition topic_keys :: "string list" where
  "topic_keys = [''short_queue'', ''long_queue'', ''execution_events'', ''lifecycle'', ''commands'',
     ''audit'', ''deadletter'']"

lemma topics_as_dict_of:
  "map_of (topics_as_dict (topics_of d)) k = (if k \<in> set topic_keys then Some (the (map_of d k)) else None)"
  by (simp add: topics_as_dict_def topics_of_def topic_keys_def Let_def)

lemma topic_defaults_None: "map_of (topic_defaults b) k = None \<longleftrightarrow> k \<notin> set topic_keys"
  by (simp add: topic_defaults_def topic_keys_def)

text \<open>An override changes its own topic and no other, and the names read back as configured.\<close>

lemma topics_as_dict_config:
  assumes "topics_from_config prefix environment overrides = Inr t" and "dict_ok overrides"
  shows "map_of (topics_as_dict t) k =
    (case map_of overrides k of Some v \<Rightarrow> Some v | None \<Rightarrow> map_of (topic_defaults (prefix @ ''.'' @ environment)) k)"
proof -
  let ?d = "topic_defaults (prefix @ ''.'' @ environment)"
  have known: "map_of ?d k \<noteq> None" if "map_of overrides k \<noteq> None" for k
  proof -
    have "k \<in> set (map fst overrides)" using that by (simp add: map_of_eq_None_iff)
    moreover have "filter (\<lambda>k. map_of ?d k = None) (map fst overrides) = []"
      using assms(1) by (auto simp: topics_from_config_def Let_def split: if_splits)
    ultimately show ?thesis by (auto simp: filter_empty_conv)
  qed
  have t: "t = topics_of (dict_merge ?d overrides)"
    using assms(1) by (auto simp: topics_from_config_def Let_def split: if_splits)
  have look: "map_of (dict_merge ?d overrides) k =
      (case map_of overrides k of Some v \<Rightarrow> Some v | None \<Rightarrow> map_of ?d k)" for k
    by (rule map_of_dict_merge [OF assms(2)])
  show ?thesis
  proof (cases "map_of ?d k = None")
    case True
    with known have "map_of overrides k = None" by blast
    with True show ?thesis using topic_defaults_None [of "prefix @ ''.'' @ environment" k]
      unfolding t topics_as_dict_of by simp
  next
    case False
    then have "map_of (dict_merge ?d overrides) k \<noteq> None" using look [of k] by (auto split: option.splits)
    with False show ?thesis
      unfolding t topics_as_dict_of look [symmetric] using topic_defaults_None by auto
  qed
qed

text \<open>The topic of a command depends on the class of its priority only: batch commands go to the long
  queue, normal and interactive ones to the short queue.\<close>

lemma run_topic_classes:
  "run_topic_for p a (priority_int q) = run_topic_for p a (priority_int r) \<longleftrightarrow> (q = BATCH) = (r = BATCH)"
  by (cases q; cases r) (simp_all add: run_topic_for_def)

subsection \<open>The transport\<close>

datatype kafka_value = KCommand RunCommand | KEvent RuntimeEvent

record KafkaMessage =
  km_topic :: string
  km_key :: string
  km_value :: kafka_value
  km_headers :: "(string \<times> string) list"

type_synonym kafka_log = "KafkaMessage list"

definition partition_key :: "RunCommand \<Rightarrow> string" where
  "partition_key c = id_value (application_id (scope (rc_identity c))) @ '':'' @ run_key (rc_identity c)"

definition command_headers :: "RunCommand \<Rightarrow> (string \<times> string) list" where
  "command_headers c = (let i = rc_identity c in
     [(''runtime-schema-version'', ''1''), (''event-id'', id_value (rc_command_id c)),
      (''application-id'', id_value (application_id (scope i))),
      (''revision-id'', id_value (revision_id (scope i))),
      (''deployment-id'', id_value (deployment_id (scope i))), (''run-id'', run_key i),
      (''content-type'', ''application/json'')])"

definition transport_publish :: "RunCommand \<Rightarrow> (kafka_log, exc, unit) prog" where
  "transport_publish c = modifyM (\<lambda>ms. ms @
     [\<lparr> km_topic = run_topic_for ''rt'' (id_value (application_id (scope (rc_identity c))))
          (priority_int (rc_priority c)),
        km_key = partition_key c, km_value = KCommand c, km_headers = command_headers c \<rparr>])"

text \<open>\<open>KafkaRuntimeEventPublisher.publish\<close>: run and attempt events go to the life cycle topic.\<close>

definition event_topic :: "TopicNames \<Rightarrow> RuntimeEvent \<Rightarrow> string" where
  "event_topic t e =
     (if is_prefix ''run.'' (ev_str (ev_type e)) \<or> is_prefix ''attempt.'' (ev_str (ev_type e))
      then tn_lifecycle t else tn_execution_events t)"

definition event_key :: "RuntimeEvent \<Rightarrow> string" where
  "event_key e = (let i = ev_identity e in
     id_value (application_id (scope i)) @ '':'' @ (case thread_key i of Some t \<Rightarrow> t | None \<Rightarrow> run_key i))"

definition publish_event :: "TopicNames \<Rightarrow> RuntimeEvent \<Rightarrow> (kafka_log, exc, unit) prog" where
  "publish_event t e = modifyM (\<lambda>ms. ms @
     [\<lparr> km_topic = event_topic t e, km_key = event_key e, km_value = KEvent e,
        km_headers = [(''runtime-schema-version'', ''1''), (''event-id'', id_value (ev_event_id e)),
          (''run-id'', run_key (ev_identity e)), (''content-type'', ''application/json'')] \<rparr>])"

text \<open>Events of one run share one key in each topic, so their order survives partitioning.\<close>

lemma event_key_run: "ev_identity a = ev_identity b \<Longrightarrow> event_key a = event_key b"
  by (simp add: event_key_def)

subsection \<open>WeightedFairDispatcher\<close>

record DispatchItem =
  di_priority :: int
  di_sequence :: nat
  di_command :: RunCommand
  di_delivery_count :: int

record Dispatcher =
  dp_weights :: "int \<times> int \<times> int"
  dp_age_after :: int
  dp_items :: "DispatchItem list"
  dp_sequence :: nat
  dp_cursor :: nat

definition new_dispatcher :: "int \<times> int \<times> int \<Rightarrow> int \<Rightarrow> exc + Dispatcher" where
  "new_dispatcher weights age_after =
     (case weights of (a, b, c) \<Rightarrow>
      if a \<le> 0 \<or> b \<le> 0 \<or> c \<le> 0 then Inl (ValueError ''weights must contain three positive values'')
      else Inr \<lparr> dp_weights = weights, dp_age_after = age_after, dp_items = [], dp_sequence = 0,
                 dp_cursor = 0 \<rparr>)"

definition dispatcher_add :: "RunCommand \<Rightarrow> int \<Rightarrow> Dispatcher \<Rightarrow> Dispatcher" where
  "dispatcher_add c n d = d
     \<lparr> dp_items := dp_items d @ [\<lparr> di_priority = priority_int (rc_priority c), di_sequence = dp_sequence d,
          di_command = c, di_delivery_count = n \<rparr>],
       dp_sequence := Suc (dp_sequence d) \<rparr>"

definition aged :: "datetime \<Rightarrow> Dispatcher \<Rightarrow> DispatchItem \<Rightarrow> bool" where
  "aged now d x \<longleftrightarrow> now - rc_created_at (di_command x) \<ge> dp_age_after d"

definition turn_priority :: "nat \<Rightarrow> int" where
  "turn_priority cursor = [100, 50, 10] ! (cursor mod 3)"

definition candidates :: "Dispatcher \<Rightarrow> DispatchItem list" where
  "candidates d =
     (let cs = filter (\<lambda>x. di_priority x = turn_priority (dp_cursor d)) (dp_items d)
      in if cs = []
         then filter (\<lambda>x. di_priority x = fold max (map di_priority (dp_items d)) (di_priority (hd (dp_items d))))
                (dp_items d)
         else cs)"

definition dispatcher_choose :: "datetime \<Rightarrow> Dispatcher \<Rightarrow> (RunCommand \<times> int) option \<times> Dispatcher" where
  "dispatcher_choose now d =
     (if dp_items d = [] then (None, d)
      else let old = filter (aged now d) (dp_items d);
               pool = (if old \<noteq> [] then old else candidates d);
               d' = (if old \<noteq> [] then d else d \<lparr> dp_cursor := Suc (dp_cursor d) \<rparr>)
           in case py_min di_sequence pool of
                None \<Rightarrow> (None, d')
              | Some x \<Rightarrow> (Some (di_command x, di_delivery_count x), d' \<lparr> dp_items := remove1 x (dp_items d') \<rparr>))"

subsection \<open>KafkaRunCommandQueue\<close>

record KafkaQueue =
  kq_transport :: kafka_log
  kq_dispatcher :: Dispatcher
  kq_leases :: "(string, RunCommandReceipt) pydict"
  kq_lease_seconds :: int
  kq_dead_letters :: "RunCommand list"

definition new_kafka_queue :: "int \<Rightarrow> exc + KafkaQueue" where
  "new_kafka_queue lease_seconds = map_sum id
     (\<lambda>d. \<lparr> kq_transport = [], kq_dispatcher = d, kq_leases = [], kq_lease_seconds = lease_seconds,
            kq_dead_letters = [] \<rparr>)
     (new_dispatcher (8, 3, 1) (seconds 30))"

definition kafka_publish :: "RunCommand \<Rightarrow> (KafkaQueue, exc, unit) prog" where
  "kafka_publish c =
     thenM (zoomM kq_transport (\<lambda>t. kq_transport_update (\<lambda>_. t)) (transport_publish c))
       (modifyM (\<lambda>q. q \<lparr> kq_dispatcher := dispatcher_add c 0 (kq_dispatcher q) \<rparr>))"

text \<open>The clock is read twice: for the choice and for the lease.\<close>

definition kafka_receive :: "datetime \<Rightarrow> datetime \<Rightarrow> string \<Rightarrow> (KafkaQueue, exc, RunCommandReceipt) prog" where
  "kafka_receive chosen_at now new_id = (\<lambda>q.
     case dispatcher_choose chosen_at (kq_dispatcher q) of
       (None, d) \<Rightarrow> (Inl (runtime_failure QUEUE_CLOSED ''no command is available''), q \<lparr> kq_dispatcher := d \<rparr>)
     | (Some (c, n), d) \<Rightarrow>
         (let r = \<lparr> rp_command = c, rp_lease_id = LeaseId new_id, rp_delivery_count = n + 1, rp_leased_at = now,
                    rp_lease_expires_at = now + seconds (kq_lease_seconds q) \<rparr>
          in (Inr r, q \<lparr> kq_dispatcher := d, kq_leases := AList.update new_id r (kq_leases q) \<rparr>)))"

definition not_active :: exc where
  "not_active = runtime_failure INVALID_EXECUTION_INPUT ''receipt is not active''"

definition pop_lease :: "RunCommandReceipt \<Rightarrow> (KafkaQueue, exc, unit) prog" where
  "pop_lease r = (\<lambda>q. let k = id_value (rp_lease_id r) in
     if map_of (kq_leases q) k = None then (Inl not_active, q)
     else (Inr (), q \<lparr> kq_leases := AList.delete k (kq_leases q) \<rparr>))"

definition kafka_acknowledge :: "RunCommandReceipt \<Rightarrow> (KafkaQueue, exc, unit) prog" where
  "kafka_acknowledge = pop_lease"

definition kafka_reject :: "RunCommandReceipt \<Rightarrow> bool \<Rightarrow> (KafkaQueue, exc, unit) prog" where
  "kafka_reject r retryable = thenM (pop_lease r)
     (modifyM (\<lambda>q.
        if retryable \<and> rp_delivery_count r < 3
        then q \<lparr> kq_dispatcher := dispatcher_add (rp_command r) (rp_delivery_count r) (kq_dispatcher q) \<rparr>
        else q \<lparr> kq_dead_letters := kq_dead_letters q @ [rp_command r] \<rparr>))"

subsection \<open>What the dispatcher keeps\<close>

definition item_sound :: "Dispatcher \<Rightarrow> DispatchItem \<Rightarrow> bool" where
  "item_sound d x \<longleftrightarrow> di_sequence x < dp_sequence d \<and> di_priority x = priority_int (rc_priority (di_command x))
     \<and> 0 \<le> di_delivery_count x \<and> di_delivery_count x < 3"

definition dispatcher_inv :: "Dispatcher \<Rightarrow> bool" where
  "dispatcher_inv d \<longleftrightarrow> distinct (map di_sequence (dp_items d)) \<and> list_all (item_sound d) (dp_items d)"

lemma new_dispatcher_inv: "new_dispatcher w a = Inr d \<Longrightarrow> dispatcher_inv d \<and> dp_items d = []"
  by (auto simp: new_dispatcher_def dispatcher_inv_def split: prod.splits if_splits)

lemma dispatcher_add_inv:
  "dispatcher_inv d \<Longrightarrow> 0 \<le> n \<Longrightarrow> n < 3 \<Longrightarrow> dispatcher_inv (dispatcher_add c n d)"
  by (auto simp: dispatcher_inv_def dispatcher_add_def item_sound_def list_all_iff)

lemma fold_max_in: "fold max xs (x :: int) \<in> insert x (set xs)"
  by (induction xs arbitrary: x) (fastforce simp: max_def)+

lemma candidates_nonempty: "dp_items d \<noteq> [] \<Longrightarrow> candidates d \<noteq> []"
  using fold_max_in [of "map di_priority (dp_items d)" "di_priority (hd (dp_items d))"]
  by (auto simp: candidates_def Let_def filter_empty_conv)

lemma candidates_subset: "set (candidates d) \<subseteq> set (dp_items d)"
  by (auto simp: candidates_def Let_def)

text \<open>The effect of a choice: one item leaves the list, its command is returned.\<close>

lemma dispatcher_choose_Some:
  assumes "dp_items d \<noteq> []"
  obtains x k where "x \<in> set (dp_items d)"
    and "dispatcher_choose now d = (Some (di_command x, di_delivery_count x),
      d \<lparr> dp_cursor := k, dp_items := remove1 x (dp_items d) \<rparr>)"
    and "\<forall>y \<in> set (dp_items d). aged now d y \<longrightarrow> aged now d x \<and> di_sequence x \<le> di_sequence y"
proof -
  let ?old = "filter (aged now d) (dp_items d)"
  let ?pool = "if ?old \<noteq> [] then ?old else candidates d"
  let ?k = "if ?old \<noteq> [] then dp_cursor d else Suc (dp_cursor d)"
  have "?pool \<noteq> []" using candidates_nonempty [OF assms] by auto
  then obtain x where x: "py_min di_sequence ?pool = Some x" by fastforce
  note xm = py_min_Some [OF x]
  have "x \<in> set (dp_items d)" using xm candidates_subset [of d] by (auto split: if_splits)
  moreover have "dispatcher_choose now d = (Some (di_command x, di_delivery_count x),
      d \<lparr> dp_cursor := ?k, dp_items := remove1 x (dp_items d) \<rparr>)"
    using x assms by (auto simp: dispatcher_choose_def Let_def)
  moreover have "aged now d x \<and> di_sequence x \<le> di_sequence y" if "y \<in> set (dp_items d)" "aged now d y" for y
  proof -
    have ne: "?old \<noteq> []" using that by (auto simp: filter_empty_conv)
    then have "x \<in> set ?old" "\<forall>z \<in> set ?old. di_sequence x \<le> di_sequence z" using xm by (auto split: if_splits)
    then show ?thesis using that by auto
  qed
  ultimately show thesis by (intro that) auto
qed

lemma dispatcher_choose_None: "fst (dispatcher_choose now d) = None \<longleftrightarrow> dp_items d = []"
proof (cases "dp_items d = []")
  case False
  then show ?thesis by (rule dispatcher_choose_Some [of d now]) (use False in simp)
qed (simp add: dispatcher_choose_def)

lemma dispatcher_remove_inv:
  "dispatcher_inv d \<Longrightarrow> dispatcher_inv (d \<lparr> dp_cursor := k, dp_items := remove1 x (dp_items d) \<rparr>)"
  using set_remove1_subset [of x "dp_items d"]
  by (auto simp: dispatcher_inv_def item_sound_def list_all_iff distinct_map_remove1)

subsection \<open>The queue contract\<close>

definition kafka_held :: "KafkaQueue \<Rightarrow> RunCommand multiset" where
  "kafka_held q = image_mset di_command (mset (dp_items (kq_dispatcher q)))
     + image_mset (rp_command \<circ> snd) (mset (kq_leases q))"

definition kafka_inv :: "KafkaQueue \<Rightarrow> bool" where
  "kafka_inv q \<longleftrightarrow> dispatcher_inv (kq_dispatcher q) \<and> dict_ok (kq_leases q)
     \<and> list_all (\<lambda>(k, r). 1 \<le> rp_delivery_count r \<and> rp_delivery_count r \<le> 3) (kq_leases q)"

definition kafka_active :: "KafkaQueue \<Rightarrow> RunCommandReceipt \<Rightarrow> bool" where
  "kafka_active q r \<longleftrightarrow> map_of (kq_leases q) (id_value (rp_lease_id r)) = Some r"

definition kafka_unknown :: "KafkaQueue \<Rightarrow> RunCommandReceipt \<Rightarrow> bool" where
  "kafka_unknown q r \<longleftrightarrow> map_of (kq_leases q) (id_value (rp_lease_id r)) = None"

lemmas kafka_ops = kafka_publish_def kafka_receive_def kafka_acknowledge_def kafka_reject_def pop_lease_def
lemmas kafka_views = kafka_held_def kafka_active_def kafka_unknown_def

lemma new_kafka_queue_inv:
  "new_kafka_queue l = Inr q \<Longrightarrow> kafka_inv q \<and> kafka_held q = {#} \<and> kq_dead_letters q = []"
  by (auto simp: new_kafka_queue_def new_dispatcher_def kafka_inv_def kafka_held_def dispatcher_inv_def)

lemma kafka_publish_spec:
  assumes "kafka_inv q"
  shows "\<exists>q'. kafka_publish c q = (Inr (), q') \<and> kafka_inv q' \<and> kafka_held q' = add_mset c (kafka_held q)
    \<and> kq_dead_letters q' = kq_dead_letters q"
  using assms dispatcher_add_inv [of "kq_dispatcher q" 0 c]
  by (auto simp: kafka_publish_def transport_publish_def prog_defs kafka_inv_def kafka_held_def dispatcher_add_def)

lemma kafka_receive_spec:
  assumes "kafka_inv q" and "map_of (kq_leases q) i = None" and "kafka_receive t now i q = (Inr r, q')"
  shows "kafka_inv q' \<and> kafka_held q' = kafka_held q \<and> kq_dead_letters q' = kq_dead_letters q
    \<and> kafka_active q' r \<and> rp_command r \<in># kafka_held q \<and> 1 \<le> rp_delivery_count r \<and> rp_delivery_count r \<le> 3"
proof -
  let ?d = "kq_dispatcher q"
  have "dp_items ?d \<noteq> []"
    using assms(3) dispatcher_choose_None [of t ?d] by (auto simp: kafka_receive_def split: prod.splits)
  then obtain x k where x: "x \<in> set (dp_items ?d)" and ch: "dispatcher_choose t ?d =
      (Some (di_command x, di_delivery_count x), ?d \<lparr> dp_cursor := k, dp_items := remove1 x (dp_items ?d) \<rparr>)"
    by (rule dispatcher_choose_Some)
  have n: "0 \<le> di_delivery_count x" "di_delivery_count x < 3"
    using x assms(1) by (auto simp: kafka_inv_def dispatcher_inv_def item_sound_def list_all_iff)
  have r: "rp_command r = di_command x" "rp_lease_id r = LeaseId i" "rp_delivery_count r = di_delivery_count x + 1"
    and q': "q' = q \<lparr> kq_dispatcher := ?d \<lparr> dp_cursor := k, dp_items := remove1 x (dp_items ?d) \<rparr>,
      kq_leases := AList.update i r (kq_leases q) \<rparr>"
    using assms(3) ch by (auto simp: kafka_receive_def Let_def)
  have "kafka_inv q'"
    using assms(1,2) n r dispatcher_remove_inv [of ?d x k] unfolding q'
    by (auto simp: kafka_inv_def dict_update_new [OF assms(2)] map_of_eq_None_iff)
  moreover have "kafka_held q' = kafka_held q"
    using x r unfolding q' by (simp add: kafka_held_def dict_update_new [OF assms(2)] image_mset_Diff)
  moreover have "rp_command r \<in># kafka_held q" using x r by (auto simp: kafka_held_def)
  ultimately show ?thesis using n r unfolding q' by (simp add: kafka_active_def)
qed

lemma set_delete_subset: "set (AList.delete k d) \<subseteq> set d"
  by (auto simp: AList.delete_eq)

lemma kafka_pop:
  assumes "kafka_inv q" and "kafka_active q r"
  shows "\<exists>q'. pop_lease r q = (Inr (), q') \<and> kafka_inv q' \<and> kafka_unknown q' r
    \<and> add_mset (rp_command r) (kafka_held q') = kafka_held q \<and> kq_dead_letters q' = kq_dead_letters q
    \<and> kq_dispatcher q' = kq_dispatcher q"
proof -
  let ?k = "id_value (rp_lease_id r)"
  have l: "map_of (kq_leases q) ?k = Some r" and ok: "dict_ok (kq_leases q)"
    using assms by (auto simp: kafka_active_def kafka_inv_def)
  have m: "mset (kq_leases q) = add_mset (?k, r) (mset (AList.delete ?k (kq_leases q)))"
    using mset_map_delete(1) [OF ok l, of id] by simp
  show ?thesis
    using l assms(1) set_delete_subset [of ?k "kq_leases q"]
    by (auto simp: pop_lease_def Let_def kafka_inv_def kafka_held_def kafka_unknown_def m list_all_iff)
qed

lemma kafka_reject_spec:
  assumes "kafka_inv q" and "kafka_active q r"
  shows "\<exists>q'. kafka_reject r b q = (Inr (), q') \<and> kafka_inv q' \<and> kafka_unknown q' r
    \<and> kq_dead_letters q' = kq_dead_letters q @ (if b \<and> rp_delivery_count r < 3 then [] else [rp_command r])
    \<and> kafka_held q' + mset (kq_dead_letters q') = kafka_held q + mset (kq_dead_letters q)"
proof -
  obtain q1 where q1: "pop_lease r q = (Inr (), q1)" "kafka_inv q1" "kafka_unknown q1 r"
    "add_mset (rp_command r) (kafka_held q1) = kafka_held q" "kq_dead_letters q1 = kq_dead_letters q"
    using kafka_pop [OF assms] by blast
  have "1 \<le> rp_delivery_count r"
    using assms by (auto simp: kafka_inv_def kafka_active_def list_all_iff dest: map_of_SomeD)
  with q1(2) have "rp_delivery_count r < 3 \<Longrightarrow>
      dispatcher_inv (dispatcher_add (rp_command r) (rp_delivery_count r) (kq_dispatcher q1))"
    by (intro dispatcher_add_inv) (auto simp: kafka_inv_def)
  with q1 show ?thesis
    by (auto simp: kafka_reject_def prog_defs kafka_inv_def kafka_unknown_def kafka_held_def dispatcher_add_def)
qed

text \<open>The Kafka queue keeps the contract of the in-memory queue, whatever the clock shows between the
  choice of a command and its lease.\<close>

interpretation kafka_queue: command_queue kafka_publish
    "\<lambda>now i. bindM (kafka_receive (now - lag) now i) (\<lambda>r. ret (Some r))" kafka_acknowledge kafka_reject
    kafka_held "\<lambda>q. mset (kq_dead_letters q)" kafka_inv kafka_active kafka_unknown
    "\<lambda>q i. map_of (kq_leases q) i = None"
  for lag
proof (unfold_locales, goal_cases)
  case (1 s c u s')
  then show ?case using kafka_publish_spec [of s c] by auto
next
  case (3 s i now r s')
  then have "kafka_receive (now - lag) now i s = (Inr r, s')"
    by (auto simp: prog_defs split: prod.splits sum.splits)
  from kafka_receive_spec [OF 3(1,2) this] show ?case by simp
next
  case (5 now i s e s')
  then have none: "fst (dispatcher_choose (now - lag) (kq_dispatcher s)) = None"
    by (auto simp: kafka_receive_def prog_defs Let_def split: prod.splits sum.splits option.splits)
  then have "dp_items (kq_dispatcher s) = []" by (simp add: dispatcher_choose_None)
  with 5 show ?case by (auto simp: kafka_receive_def prog_defs dispatcher_choose_def)
next
  case (6 s r)
  then show ?case using kafka_pop [of s r] by (auto simp: kafka_acknowledge_def)
next
  case (8 s r b)
  then show ?case using kafka_reject_spec [of s r b] by auto
qed (auto simp: kafka_ops transport_publish_def prog_defs kafka_unknown_def Let_def
    split: if_splits option.splits prod.splits sum.splits)

subsection \<open>No command starves\<close>

text \<open>A sequence of arrivals and choices, and the commands chosen.\<close>

datatype dispatch_op = Arrive RunCommand int | Choose datetime

fun run_dispatch :: "dispatch_op list \<Rightarrow> Dispatcher \<Rightarrow> (RunCommand \<times> int) list" where
  "run_dispatch [] d = []"
| "run_dispatch (Arrive c n # os) d = run_dispatch os (dispatcher_add c n d)"
| "run_dispatch (Choose now # os) d =
     (case dispatcher_choose now d of
        (None, d') \<Rightarrow> run_dispatch os d'
      | (Some x, d') \<Rightarrow> x # run_dispatch os d')"

fun choices :: "dispatch_op list \<Rightarrow> datetime list" where
  "choices [] = []"
| "choices (Arrive c n # os) = choices os"
| "choices (Choose now # os) = now # choices os"

definition older :: "DispatchItem \<Rightarrow> Dispatcher \<Rightarrow> DispatchItem list" where
  "older x d = filter (\<lambda>y. di_sequence y < di_sequence x) (dp_items d)"

fun arrivals_ok :: "dispatch_op list \<Rightarrow> bool" where
  "arrivals_ok [] = True"
| "arrivals_ok (Arrive c n # os) = (0 \<le> n \<and> n < 3 \<and> arrivals_ok os)"
| "arrivals_ok (Choose now # os) = arrivals_ok os"

lemma older_add:
  assumes "dispatcher_inv d" and "x \<in> set (dp_items d)"
  shows "older x (dispatcher_add c n d) = older x d"
  using assms by (auto simp: older_def dispatcher_add_def dispatcher_inv_def item_sound_def list_all_iff)

lemma older_remove:
  assumes "y \<in> set (dp_items d)" and "di_sequence y < di_sequence x"
  shows "Suc (length (older x (d \<lparr> dp_cursor := k, dp_items := remove1 y (dp_items d) \<rparr>))) = length (older x d)"
proof -
  have "y \<in> set (older x d)" using assms by (simp add: older_def)
  moreover have "older x (d \<lparr> dp_cursor := k, dp_items := remove1 y (dp_items d) \<rparr>) = remove1 y (older x d)"
    by (simp add: older_def filter_remove1)
  ultimately show ?thesis using length_pos_if_in_set [of y "older x d"] by (simp add: length_remove1)
qed

theorem aged_served:
  assumes "dispatcher_inv d" and "x \<in> set (dp_items d)" and "arrivals_ok os"
    and "list_all (\<lambda>t. aged t d x) (choices os)" and "length (older x d) < length (choices os)"
  shows "(di_command x, di_delivery_count x) \<in> set (run_dispatch os d)"
  using assms
proof (induction os d rule: run_dispatch.induct)
  case (2 c n os d)
  have "dispatcher_inv (dispatcher_add c n d)" using 2 by (simp add: dispatcher_add_inv)
  moreover have "x \<in> set (dp_items (dispatcher_add c n d))" using 2 by (simp add: dispatcher_add_def)
  moreover have "aged t (dispatcher_add c n d) x \<longleftrightarrow> aged t d x" for t by (simp add: aged_def dispatcher_add_def)
  ultimately show ?case using 2 older_add [of d x c n] by simp
next
  case (3 now os d)
  have "dp_items d \<noteq> []" using 3 by auto
  then obtain y k where y: "y \<in> set (dp_items d)"
    and ch: "dispatcher_choose now d = (Some (di_command y, di_delivery_count y),
      d \<lparr> dp_cursor := k, dp_items := remove1 y (dp_items d) \<rparr>)"
    and first: "\<forall>z \<in> set (dp_items d). aged now d z \<longrightarrow> aged now d y \<and> di_sequence y \<le> di_sequence z"
    by (rule dispatcher_choose_Some [where now = now])
  let ?d = "d \<lparr> dp_cursor := k, dp_items := remove1 y (dp_items d) \<rparr>"
  show ?case
  proof (cases "y = x")
    case True
    then show ?thesis using ch by simp
  next
    case False
    have "di_sequence y \<noteq> di_sequence x"
      using False y 3(4) 3(3) by (auto simp: dispatcher_inv_def distinct_map dest: inj_onD)
    then have lt: "di_sequence y < di_sequence x" using first 3 by fastforce
    have "(di_command x, di_delivery_count x) \<in> set (run_dispatch os ?d)"
    proof (rule 3(2) [OF ch [symmetric]])
      show "length (older x ?d) < length (choices os)" using older_remove [OF y lt, of k] 3 by simp
    qed (use 3 False dispatcher_remove_inv in \<open>auto simp: aged_def\<close>)
    then show ?thesis using ch by simp
  qed
qed simp

end
