(* ===== verification/Json_Text.thy ===== *)
theory Json_Text
  imports Python_Values
begin

section \<open>JSON text\<close>

text \<open>
  \<open>json.dumps\<close> with compact separators and \<open>json.loads\<close>, as the configuration repositories and the
  Kafka codec use them.  Text is UTF-8, and characters beyond ASCII are written as they are
  (\<open>ensure_ascii=False\<close>).  The conversion of a float literal is a parameter of the reader: \<open>flt t\<close> is the
  value of \<open>float(t)\<close> and its \<open>repr\<close>.  The literals \<open>NaN\<close> and \<open>Infinity\<close> are not modelled.
\<close>

subsection \<open>Writing\<close>

definition escape_char :: "char \<Rightarrow> string" where
  "escape_char c =
     (if c = CHR 0x22 then [CHR 0x5C, CHR 0x22]
      else if c = CHR 0x5C then [CHR 0x5C, CHR 0x5C]
      else if c = CHR 0x0A then [CHR 0x5C, CHR ''n'']
      else if c = CHR 0x0D then [CHR 0x5C, CHR ''r'']
      else if c = CHR 0x09 then [CHR 0x5C, CHR ''t'']
      else if c = CHR 0x0C then [CHR 0x5C, CHR ''f'']
      else if c = CHR 0x08 then [CHR 0x5C, CHR ''b'']
      else if (of_char c :: nat) < 32
      then [CHR 0x5C, CHR ''u'', CHR ''0'', CHR ''0'', hex_digit (of_char c div 16), hex_digit (of_char c mod 16)]
      else [c])"

definition quote :: "string \<Rightarrow> string" where
  "quote s = CHR 0x22 # concat (map escape_char s) @ [CHR 0x22]"

primrec json_dumps :: "json \<Rightarrow> string" where
  "json_dumps JNull = ''null''"
| "json_dumps (JBool b) = (if b then ''true'' else ''false'')"
| "json_dumps (JInt i) = int_str i"
| "json_dumps (JFloat r t) = t"
| "json_dumps (JStr s) = quote s"
| "json_dumps (JArr xs) = ''['' @ join '','' (map json_dumps xs) @ '']''"
| "json_dumps (JObj d) =
     CHR 0x7B # join '','' (map (\<lambda>(k, t). quote k @ '':'' @ t) (map (map_prod id json_dumps) d)) @ [CHR 0x7D]"

text \<open>\<open>sort_keys=True\<close>.\<close>

primrec sort_json :: "json \<Rightarrow> json" where
  "sort_json JNull = JNull"
| "sort_json (JBool b) = JBool b"
| "sort_json (JInt i) = JInt i"
| "sort_json (JFloat r t) = JFloat r t"
| "sort_json (JStr s) = JStr s"
| "sort_json (JArr xs) = JArr (map sort_json xs)"
| "sort_json (JObj d) = JObj (sort_key fst (map (map_prod id sort_json) d))"

definition canonical_json :: "json \<Rightarrow> string" where
  "canonical_json v = json_dumps (sort_json v)"

subsection \<open>Reading\<close>

definition json_space :: "char \<Rightarrow> bool" where
  "json_space c \<longleftrightarrow> c = CHR '' '' \<or> c = CHR 0x09 \<or> c = CHR 0x0A \<or> c = CHR 0x0D"

abbreviation skip_ws :: "string \<Rightarrow> string" where
  "skip_ws \<equiv> dropWhile json_space"

definition hex_val :: "char \<Rightarrow> nat option" where
  "hex_val c = (let n = (of_char c :: nat) in
     if 48 \<le> n \<and> n \<le> 57 then Some (n - 48)
     else if 97 \<le> n \<and> n \<le> 102 then Some (n - 87)
     else if 65 \<le> n \<and> n \<le> 70 then Some (n - 55) else None)"

fun hex4 :: "string \<Rightarrow> (nat \<times> string) option" where
  "hex4 (a # b # c # d # r) = (case (hex_val a, hex_val b, hex_val c, hex_val d) of
     (Some i, Some j, Some k, Some l) \<Rightarrow> Some (((i * 16 + j) * 16 + k) * 16 + l, r) | _ \<Rightarrow> None)"
| "hex4 _ = None"

definition utf8 :: "nat \<Rightarrow> string" where
  "utf8 n =
     (if n < 128 then [char_of n]
      else if n < 2048 then [char_of (192 + n div 64), char_of (128 + n mod 64)]
      else if n < 65536
      then [char_of (224 + n div 4096), char_of (128 + n div 64 mod 64), char_of (128 + n mod 64)]
      else [char_of (240 + n div 262144), char_of (128 + n div 4096 mod 64),
            char_of (128 + n div 64 mod 64), char_of (128 + n mod 64)])"

text \<open>The character after a backslash and \<open>u\<close>: a surrogate pair is one code point.\<close>

definition unicode_escape :: "string \<Rightarrow> (string \<times> string) option" where
  "unicode_escape s = (case hex4 s of
       None \<Rightarrow> None
     | Some (u, r) \<Rightarrow>
         (if 55296 \<le> u \<and> u < 56320 \<and> take 2 r = [CHR 0x5C, CHR ''u'']
          then (case hex4 (drop 2 r) of
                  Some (v, r') \<Rightarrow> if 56320 \<le> v \<and> v < 57344
                    then Some (utf8 (65536 + (u - 55296) * 1024 + (v - 56320)), r') else Some (utf8 u, r)
                | None \<Rightarrow> None)
          else Some (utf8 u, r)))"

definition simple_escape :: "char \<Rightarrow> char option" where
  "simple_escape c = map_of [(CHR 0x22, CHR 0x22), (CHR 0x5C, CHR 0x5C), (CHR ''/'', CHR ''/''),
     (CHR ''n'', CHR 0x0A), (CHR ''r'', CHR 0x0D), (CHR ''t'', CHR 0x09), (CHR ''f'', CHR 0x0C),
     (CHR ''b'', CHR 0x08)] c"

lemma hex4_shorter: "hex4 s = Some (u, r) \<Longrightarrow> length r < length s"
  by (cases s rule: hex4.cases) (auto split: option.splits)

lemma unicode_escape_shorter: "unicode_escape s = Some (t, r) \<Longrightarrow> length r < length s"
proof -
  assume "unicode_escape s = Some (t, r)"
  then consider u where "hex4 s = Some (u, r)"
    | u r1 v where "hex4 s = Some (u, r1)" "hex4 (drop 2 r1) = Some (v, r)"
    by (auto simp: unicode_escape_def split: option.splits if_splits)
  then show ?thesis
  proof cases
    case 2
    then show ?thesis using hex4_shorter [of s] hex4_shorter [of "drop 2 r1"] by fastforce
  qed (rule hex4_shorter)
qed

text \<open>The body of a string, after its opening quote.\<close>

function parse_string :: "string \<Rightarrow> (string \<times> string) option" where
  "parse_string [] = None"
| "parse_string (c # cs) =
     (if c = CHR 0x22 then Some ([], cs)
      else if c = CHR 0x5C
      then (case cs of
              [] \<Rightarrow> None
            | d # ds \<Rightarrow>
                (if d = CHR ''u''
                 then (case unicode_escape ds of
                         None \<Rightarrow> None
                       | Some (t, r) \<Rightarrow> map_option (\<lambda>(u, r'). (t @ u, r')) (parse_string r))
                 else (case simple_escape d of
                         None \<Rightarrow> None
                       | Some e \<Rightarrow> map_option (\<lambda>(u, r'). (e # u, r')) (parse_string ds))))
      else if (of_char c :: nat) < 32 then None
      else map_option (\<lambda>(u, r'). (c # u, r')) (parse_string cs))"
  by pat_completeness auto
termination
  by (relation "measure length") (auto dest: unicode_escape_shorter)

definition number_char :: "char \<Rightarrow> bool" where
  "number_char c \<longleftrightarrow> is_digit c \<or> c \<in> {CHR ''-'', CHR ''+'', CHR ''.'', CHR ''e'', CHR ''E''}"

definition plain_int :: "string \<Rightarrow> bool" where
  "plain_int t \<longleftrightarrow> t \<noteq> [] \<and> list_all is_digit t \<and> (hd t = CHR ''0'' \<longrightarrow> length t = 1)"

definition strip_minus :: "string \<Rightarrow> string" where
  "strip_minus t = (if t \<noteq> [] \<and> hd t = CHR ''-'' then tl t else t)"

definition is_int_token :: "string \<Rightarrow> bool" where
  "is_int_token t \<longleftrightarrow> plain_int (strip_minus t)"

text \<open>\<open>-?(0|[1-9][0-9]*)(\.[0-9]+)?([eE][-+]?[0-9]+)?\<close> with a fraction or an exponent.\<close>

definition exponent_ok :: "string \<Rightarrow> bool" where
  "exponent_ok t \<longleftrightarrow> t = [] \<or> ((hd t = CHR ''e'' \<or> hd t = CHR ''E'') \<and>
     (let u = tl t; d = (if u \<noteq> [] \<and> (hd u = CHR ''-'' \<or> hd u = CHR ''+'') then tl u else u)
      in d \<noteq> [] \<and> list_all is_digit d))"

definition is_float_token :: "string \<Rightarrow> bool" where
  "is_float_token t \<longleftrightarrow>
     (let u = strip_minus t; whole = takeWhile is_digit u; r = dropWhile is_digit u
      in plain_int whole \<and> r \<noteq> [] \<and>
         (if hd r = CHR ''.''
          then takeWhile is_digit (tl r) \<noteq> [] \<and> exponent_ok (dropWhile is_digit (tl r))
          else exponent_ok r))"

definition parse_number :: "(string \<Rightarrow> rat \<times> string) \<Rightarrow> string \<Rightarrow> (json \<times> string) option" where
  "parse_number flt s =
     (let t = takeWhile number_char s; r = dropWhile number_char s in
      if is_int_token t
      then Some (JInt ((if hd t = CHR ''-'' then -1 else 1) * int (nat_of_digits (strip_minus t))), r)
      else if is_float_token t then Some (JFloat (fst (flt t)) (snd (flt t)), r)
      else None)"

definition literals :: "(string \<times> json) list" where
  "literals = [(''null'', JNull), (''true'', JBool True), (''false'', JBool False)]"

definition parse_literal :: "string \<Rightarrow> (json \<times> string) option" where
  "parse_literal s = (case List.find (\<lambda>(t, _). is_prefix t s) literals of
     Some (t, v) \<Rightarrow> Some (v, drop (length t) s) | None \<Rightarrow> None)"

text \<open>The recursion is bounded by fuel; every level consumes a character, so the length of the text is
  enough.  A repeated key keeps its first position and its last value.\<close>

fun parse_value :: "(string \<Rightarrow> rat \<times> string) \<Rightarrow> nat \<Rightarrow> string \<Rightarrow> (json \<times> string) option"
  and parse_elements :: "(string \<Rightarrow> rat \<times> string) \<Rightarrow> nat \<Rightarrow> string \<Rightarrow> (json list \<times> string) option"
  and parse_members :: "(string \<Rightarrow> rat \<times> string) \<Rightarrow> nat \<Rightarrow> string \<Rightarrow> (obj \<times> string) option"
where
  "parse_value flt 0 s = None"
| "parse_value flt (Suc n) [] = None"
| "parse_value flt (Suc n) (c # cs) =
     (if c = CHR 0x22 then map_option (map_prod JStr id) (parse_string cs)
      else if c = CHR ''[''
      then (case skip_ws cs of
              [] \<Rightarrow> None
            | d # ds \<Rightarrow> if d = CHR '']'' then Some (JArr [], ds)
                else map_option (map_prod JArr id) (parse_elements flt n (d # ds)))
      else if c = CHR 0x7B
      then (case skip_ws cs of
              [] \<Rightarrow> None
            | d # ds \<Rightarrow> if d = CHR 0x7D then Some (JObj [], ds)
                else map_option (map_prod (\<lambda>ps. JObj (dict_merge [] ps)) id) (parse_members flt n (d # ds)))
      else (case parse_literal (c # cs) of Some x \<Rightarrow> Some x | None \<Rightarrow> parse_number flt (c # cs)))"
| "parse_elements flt 0 s = None"
| "parse_elements flt (Suc n) s =
     (case parse_value flt n s of
        None \<Rightarrow> None
      | Some (v, r) \<Rightarrow>
          (case skip_ws r of
             [] \<Rightarrow> None
           | d # ds \<Rightarrow>
               if d = CHR '']'' then Some ([v], ds)
               else if d = CHR '','' then map_option (map_prod (\<lambda>vs. v # vs) id) (parse_elements flt n (skip_ws ds))
               else None))"
| "parse_members flt 0 s = None"
| "parse_members flt (Suc n) [] = None"
| "parse_members flt (Suc n) (q # qs) =
     (if q \<noteq> CHR 0x22 then None
      else case parse_string qs of
        None \<Rightarrow> None
      | Some (k, r1) \<Rightarrow>
          (case skip_ws r1 of
             [] \<Rightarrow> None
           | e # es \<Rightarrow>
               if e \<noteq> CHR '':'' then None
               else (case parse_value flt n (skip_ws es) of
                  None \<Rightarrow> None
                | Some (v, r2) \<Rightarrow>
                    (case skip_ws r2 of
                       [] \<Rightarrow> None
                     | d # ds \<Rightarrow>
                         if d = CHR 0x7D then Some ([(k, v)], ds)
                         else if d = CHR '',''
                         then map_option (map_prod (\<lambda>ps. (k, v) # ps) id) (parse_members flt n (skip_ws ds))
                         else None))))"

definition json_loads :: "(string \<Rightarrow> rat \<times> string) \<Rightarrow> string \<Rightarrow> json option" where
  "json_loads flt s = (case parse_value flt (Suc (length s)) (skip_ws s) of
     Some (v, r) \<Rightarrow> if skip_ws r = [] then Some v else None | None \<Rightarrow> None)"

subsection \<open>Reading what was written\<close>

lemma hex_val_hex_digit: "n < 16 \<Longrightarrow> hex_val (hex_digit n) = Some n"
  by (simp add: hex_val_def hex_digit_def Let_def)

lemma parse_escaped:
  "parse_string (escape_char c @ s) = map_option (\<lambda>(u, r). (c # u, r)) (parse_string s)"
proof -
  have ctl: "parse_string ([CHR 0x5C, CHR ''u'', CHR ''0'', CHR ''0'', hex_digit (of_char c div 16),
      hex_digit (of_char c mod 16)] @ s) = map_option (\<lambda>(u, r). (c # u, r)) (parse_string s)"
    if "(of_char c :: nat) < 32"
  proof -
    have "(of_char c :: nat) div 16 < 16" using that by (simp add: div_less_iff_less_mult)
    moreover have "hex_val (CHR ''0'') = Some 0" by (simp add: hex_val_def Let_def)
    ultimately have "hex4 (CHR ''0'' # CHR ''0'' # hex_digit (of_char c div 16) # hex_digit (of_char c mod 16) # s)
        = Some (of_char c, s)"
      by (simp add: hex_val_hex_digit div_mult_mod_eq)
    moreover have "utf8 (of_char c) = [c]" using that by (simp add: utf8_def)
    ultimately show ?thesis using that by (simp add: unicode_escape_def)
  qed
  show ?thesis
    using ctl unfolding escape_char_def by (auto simp: simple_escape_def)
qed

lemma parse_quoted: "parse_string (concat (map escape_char s) @ CHR 0x22 # r) = Some (s, r)"
  by (induction s) (simp_all add: parse_escaped)

text \<open>What may follow a value: nothing, a comma or a closing bracket.\<close>

definition follows :: "string \<Rightarrow> bool" where
  "follows r \<longleftrightarrow> r = [] \<or> hd r = CHR '','' \<or> hd r = CHR '']'' \<or> hd r = CHR 0x7D"

definition number_token :: "string \<Rightarrow> bool" where
  "number_token t \<longleftrightarrow> t \<noteq> [] \<and> list_all number_char t \<and> (is_digit (hd t) \<or> hd t = CHR ''-'')"

lemma number_token_scan:
  assumes "number_token t" and "follows r"
  shows "takeWhile number_char (t @ r) = t" and "dropWhile number_char (t @ r) = r"
proof -
  have "r = [] \<or> \<not> number_char (hd r)"
    using assms(2) by (auto simp: follows_def number_char_def is_digit_def)
  with assms(1) show "takeWhile number_char (t @ r) = t" "dropWhile number_char (t @ r) = r"
    unfolding number_token_def
    by (cases r; simp add: takeWhile_append dropWhile_append list_all_iff)+
qed

lemma digit_hd_facts:
  assumes "is_digit c \<or> c = CHR ''-''"
  shows "c \<noteq> CHR 0x22" "c \<noteq> CHR ''[''" "c \<noteq> CHR 0x7B" "c \<noteq> CHR '']''" "\<not> json_space c"
    "parse_literal (c # cs) = None"
  using assms
  by (auto simp: is_digit_def json_space_def parse_literal_def literals_def is_prefix_def)

lemma nat_str_hd: "0 < n \<Longrightarrow> hd (nat_str n) \<noteq> CHR ''0''"
proof (induction n rule: nat_str.induct)
  case (1 n)
  show ?case
  proof (cases "n < 10")
    case True
    with 1(2) have "(of_char (digit_char n) :: nat) \<noteq> 48" by (simp add: digit_char_def)
    then have "digit_char n \<noteq> CHR ''0''" by auto
    with True show ?thesis by (simp add: nat_str.simps [of n])
  next
    case False
    then show ?thesis using 1 by (simp add: nat_str.simps [of n])
  qed
qed

lemma nat_str_zero: "nat_str 0 = ''0''"
  by code_simp

lemma plain_int_nat_str: "plain_int (nat_str n)"
  using nat_str_digits [of n] nat_str_hd [of n] nat_str_zero
  by (cases "n = 0") (auto simp: plain_int_def list_all_iff)

lemma int_str_token: "number_token (int_str i)" "is_int_token (int_str i)"
proof -
  have hd: "is_digit (hd (nat_str n))" "hd (nat_str n) \<noteq> CHR ''-''" for n
    using nat_str_digits [of n] digit_not_sign by (auto simp: hd_in_set)
  then have strip: "strip_minus (nat_str n) = nat_str n" for n by (simp add: strip_minus_def)
  have chars: "list_all number_char (nat_str n)" for n
    using nat_str_digits [of n] by (auto simp: list_all_iff number_char_def)
  show "number_token (int_str i)"
    using hd chars by (simp add: number_token_def int_str_def number_char_def)
  show "is_int_token (int_str i)"
  proof (cases "i < 0")
    case True
    then show ?thesis using plain_int_nat_str by (simp add: is_int_token_def int_str_def strip_minus_def)
  next
    case False
    then show ?thesis using plain_int_nat_str strip by (simp add: is_int_token_def int_str_def)
  qed
qed

lemma parse_int_str:
  assumes "follows r"
  shows "parse_number flt (int_str i @ r) = Some (JInt i, r)"
proof -
  have nm: "hd (nat_str n) \<noteq> CHR ''-''" for n
    using nat_str_digits [of n] digit_not_sign by (auto simp: hd_in_set)
  have "(if hd (int_str i) = CHR ''-'' then -1 else 1) * int (nat_of_digits (strip_minus (int_str i))) = i"
    using nm by (auto simp: int_str_def strip_minus_def)
  then show ?thesis
    using number_token_scan [OF int_str_token(1) assms] int_str_token(2)
    by (simp add: parse_number_def Let_def)
qed

text \<open>Values the writer and the reader agree on: keys are unique, and each float carries the literal
  that reads back as itself.\<close>

definition float_ok :: "(string \<Rightarrow> rat \<times> string) \<Rightarrow> rat \<Rightarrow> string \<Rightarrow> bool" where
  "float_ok flt r t \<longleftrightarrow> is_float_token t \<and> \<not> is_int_token t \<and> number_token t \<and> flt t = (r, t)"

primrec json_wf :: "(string \<Rightarrow> rat \<times> string) \<Rightarrow> json \<Rightarrow> bool" where
  "json_wf flt JNull = True"
| "json_wf flt (JBool b) = True"
| "json_wf flt (JInt i) = True"
| "json_wf flt (JFloat r t) = float_ok flt r t"
| "json_wf flt (JStr s) = True"
| "json_wf flt (JArr xs) = list_all id (map (json_wf flt) xs)"
| "json_wf flt (JObj d) = (distinct (map fst d) \<and> list_all snd (map (map_prod id (json_wf flt)) d))"

lemma json_dumps_hd:
  assumes "json_wf flt v"
  obtains c cs where "json_dumps v = c # cs" and "\<not> json_space c" and "c \<noteq> CHR '']''"
proof (cases v)
  case (JInt i)
  with int_str_token(1) [of i] digit_hd_facts [of "hd (int_str i)"] that show ?thesis
    by (cases "int_str i") (auto simp: number_token_def)
next
  case (JFloat r t)
  with assms digit_hd_facts [of "hd t"] that show ?thesis
    by (cases t) (auto simp: float_ok_def number_token_def)
next
  case (JBool b)
  with that show ?thesis by (cases b) (auto simp: json_space_def)
qed (use that in \<open>auto simp: json_space_def quote_def\<close>)

lemma skip_ws_dumps: "json_wf flt v \<Longrightarrow> skip_ws (json_dumps v @ r) = json_dumps v @ r"
  by (rule json_dumps_hd) auto

definition reads_back :: "(string \<Rightarrow> rat \<times> string) \<Rightarrow> json \<Rightarrow> bool" where
  "reads_back flt v \<longleftrightarrow> (\<forall>n r. length (json_dumps v) \<le> n \<longrightarrow> follows r \<longrightarrow>
     parse_value flt n (json_dumps v @ r) = Some (v, r))"

lemma skip_ws_follows: "follows r \<Longrightarrow> skip_ws r = r"
  by (cases r) (auto simp: follows_def json_space_def)

lemma parse_elements_dumps:
  assumes "xs \<noteq> []" and "\<And>x. x \<in> set xs \<Longrightarrow> reads_back flt x \<and> json_wf flt x"
    and "length (join '','' (map json_dumps xs)) < n"
  shows "parse_elements flt n (join '','' (map json_dumps xs) @ CHR '']'' # r) = Some (xs, r)"
  using assms
proof (induction xs arbitrary: n)
  case (Cons x xs)
  obtain m where n: "n = Suc m" using Cons.prems(3) by (cases n) auto
  show ?case
  proof (cases xs)
    case Nil
    with Cons.prems n show ?thesis by (simp add: reads_back_def follows_def json_space_def)
  next
    case (Cons y ys)
    let ?rest = "join '','' (map json_dumps xs) @ CHR '']'' # r"
    have split: "join '','' (map json_dumps (x # xs)) @ CHR '']'' # r = json_dumps x @ CHR '','' # ?rest"
      using Cons by simp
    have len: "length (json_dumps x) \<le> m" "length (join '','' (map json_dumps xs)) < m"
      using Cons.prems(3) n Cons by auto
    have "parse_value flt m (json_dumps x @ CHR '','' # ?rest) = Some (x, CHR '','' # ?rest)"
      using Cons.prems(2) [of x] len(1) by (simp add: reads_back_def follows_def)
    moreover have "skip_ws ?rest = ?rest"
      using Cons.prems(2) [of y] skip_ws_dumps [of flt y] Cons by (cases ys) auto
    moreover have "parse_elements flt m ?rest = Some (xs, r)"
      using Cons.IH [OF _ _ len(2)] Cons.prems(2) Cons by simp
    ultimately show ?thesis unfolding split n by (simp add: json_space_def)
  qed
qed simp

definition member_text :: "string \<times> json \<Rightarrow> string" where
  "member_text kv = quote (fst kv) @ '':'' @ json_dumps (snd kv)"

lemma member_texts:
  "json_dumps (JObj d) = CHR 0x7B # join '','' (map member_text d) @ [CHR 0x7D]"
  by (simp add: member_text_def [abs_def] case_prod_beta comp_def)

lemma member_text_length: "length (json_dumps v) < length (member_text (k, v))"
  by (simp add: member_text_def)

lemma parse_member:
  assumes "reads_back flt v" and "json_wf flt v" and "length (json_dumps v) \<le> n" and "follows r"
  shows "parse_members flt (Suc n) (member_text (k, v) @ r) =
    (case r of [] \<Rightarrow> None
     | d # ds \<Rightarrow> if d = CHR 0x7D then Some ([(k, v)], ds)
         else if d = CHR '','' then map_option (map_prod (\<lambda>ps. (k, v) # ps) id) (parse_members flt n (skip_ws ds))
         else None)"
proof -
  have "parse_value flt n (json_dumps v @ r) = Some (v, r)"
    using assms by (simp add: reads_back_def)
  then show ?thesis
    using parse_quoted [of k "CHR '':'' # json_dumps v @ r"] skip_ws_dumps [OF assms(2), of r]
      skip_ws_follows [OF assms(4)]
    by (simp add: member_text_def quote_def json_space_def)
qed

lemma parse_members_dumps:
  assumes "d \<noteq> []" and "\<And>k v. (k, v) \<in> set d \<Longrightarrow> reads_back flt v \<and> json_wf flt v"
    and "length (join '','' (map member_text d)) < n"
  shows "parse_members flt n (join '','' (map member_text d) @ CHR 0x7D # r) = Some (d, r)"
  using assms
proof (induction d arbitrary: n)
  case (Cons kv d)
  obtain k v where kv: "kv = (k, v)" by (cases kv)
  obtain m where n: "n = Suc m" using Cons.prems(3) by (cases n) auto
  have v: "reads_back flt v" "json_wf flt v" using Cons.prems(2) [of k v] kv by auto
  show ?case
  proof (cases d)
    case Nil
    with Cons.prems n v kv show ?thesis
      using parse_member [OF v, of m "CHR 0x7D # r" k] by (simp add: follows_def member_text_def)
  next
    case (Cons y ys)
    let ?rest = "join '','' (map member_text d) @ CHR 0x7D # r"
    have split: "join '','' (map member_text (kv # d)) @ CHR 0x7D # r = member_text (k, v) @ CHR '','' # ?rest"
      using Cons kv by simp
    have len: "length (json_dumps v) \<le> m" "length (join '','' (map member_text d)) < m"
      using Cons.prems(3) n Cons kv member_text_length [of v k] by auto
    have "skip_ws ?rest = ?rest"
      using Cons by (cases ys) (simp_all add: member_text_def quote_def json_space_def)
    moreover have "parse_members flt m ?rest = Some (d, r)"
      using Cons.IH [OF _ _ len(2)] Cons.prems(2) Cons by auto
    ultimately show ?thesis
      using parse_member [OF v len(1), of "CHR '','' # ?rest" k] unfolding split n
      by (simp add: follows_def kv)
  qed
qed simp

lemma parse_token:
  assumes "number_token t"
  shows "parse_value flt (Suc n) (t @ r) = parse_number flt (t @ r)"
proof -
  obtain c cs where t: "t = c # cs" and c: "is_digit c \<or> c = CHR ''-''"
    using assms by (cases t) (auto simp: number_token_def)
  show ?thesis using digit_hd_facts [OF c] unfolding t by simp
qed

lemma float_reads_back: "float_ok flt x t \<Longrightarrow> reads_back flt (JFloat x t)"
proof (unfold reads_back_def, intro allI impI)
  fix n r
  assume ok: "float_ok flt x t" and n: "length (json_dumps (JFloat x t)) \<le> n" and r: "follows r"
  then have t: "number_token t" by (simp add: float_ok_def)
  then obtain m where "n = Suc m" using n by (cases n) (auto simp: number_token_def)
  then show "parse_value flt n (json_dumps (JFloat x t) @ r) = Some (JFloat x t, r)"
    using parse_token [OF t] number_token_scan [OF t r] ok
    by (simp add: parse_number_def Let_def float_ok_def)
qed

lemma int_reads_back: "reads_back flt (JInt i)"
proof (unfold reads_back_def, intro allI impI)
  fix n r
  assume n: "length (json_dumps (JInt i)) \<le> n" and r: "follows r"
  obtain m where "n = Suc m" using n int_str_token(1) [of i] by (cases n) (auto simp: number_token_def)
  then show "parse_value flt n (json_dumps (JInt i) @ r) = Some (JInt i, r)"
    using parse_token [OF int_str_token(1)] parse_int_str [OF r] by simp
qed

lemma array_reads_back:
  assumes "\<And>x. x \<in> set xs \<Longrightarrow> reads_back flt x \<and> json_wf flt x"
  shows "reads_back flt (JArr xs)"
proof (unfold reads_back_def, intro allI impI)
  fix n r
  assume n: "length (json_dumps (JArr xs)) \<le> n" and "follows r"
  obtain m where m: "n = Suc m" "length (join '','' (map json_dumps xs)) < m" using n by (cases n) auto
  show "parse_value flt n (json_dumps (JArr xs) @ r) = Some (JArr xs, r)"
  proof (cases xs)
    case Nil
    with m show ?thesis by (simp add: json_space_def)
  next
    case (Cons y ys)
    obtain c cs where c: "json_dumps y = c # cs" "\<not> json_space c" "c \<noteq> CHR '']''"
      using assms [of y] Cons json_dumps_hd [of flt y] by auto
    then obtain ds where ds: "join '','' (map json_dumps xs) @ CHR '']'' # r = c # ds"
      using Cons by (cases ys) auto
    have "parse_elements flt m (c # ds) = Some (xs, r)"
      using parse_elements_dumps [OF _ assms m(2), of r] Cons ds by simp
    then show ?thesis using c ds m(1) by simp
  qed
qed

lemma update_fresh: "k \<notin> fst ` set d \<Longrightarrow> AList.update k v d = d @ [(k, v)]"
  by (induction d) auto

lemma dict_merge_fresh:
  "distinct (map fst e) \<Longrightarrow> fst ` set d \<inter> fst ` set e = {} \<Longrightarrow> dict_merge d e = d @ e"
proof (induction e arbitrary: d)
  case (Cons kv e)
  then show ?case by (cases kv) (simp add: dict_merge_def update_fresh)
qed (simp add: dict_merge_def)

lemma dict_merge_self: "distinct (map fst d) \<Longrightarrow> dict_merge [] d = d"
  by (simp add: dict_merge_fresh)

lemma object_reads_back:
  assumes "\<And>k v. (k, v) \<in> set d \<Longrightarrow> reads_back flt v \<and> json_wf flt v" and "distinct (map fst d)"
  shows "reads_back flt (JObj d)"
proof (unfold reads_back_def, intro allI impI)
  fix n r
  assume n: "length (json_dumps (JObj d)) \<le> n" and "follows r"
  obtain m where m: "n = Suc m" "length (join '','' (map member_text d)) < m"
    using n unfolding member_texts by (cases n) auto
  show "parse_value flt n (json_dumps (JObj d) @ r) = Some (JObj d, r)"
  proof (cases d)
    case Nil
    with m show ?thesis by (simp add: json_space_def)
  next
    case (Cons y ys)
    then obtain ds where ds: "join '','' (map member_text d) @ CHR 0x7D # r = CHR 0x22 # ds"
      by (cases ys) (auto simp: member_text_def quote_def)
    have "parse_members flt m (CHR 0x22 # ds) = Some (d, r)"
      using parse_members_dumps [where r = r, OF _ assms(1) m(2)] Cons ds by auto
    then show ?thesis using ds m(1) dict_merge_self [OF assms(2)]
      unfolding member_texts by (simp add: json_space_def)
  qed
qed

lemma json_reads_back: "json_wf flt v \<Longrightarrow> reads_back flt v"
proof (induction v)
  case (JArr xs)
  then show ?case by (intro array_reads_back) (auto simp: list_all_iff)
next
  case (JObj d)
  then show ?case by (intro object_reads_back) (fastforce simp: list_all_iff)+
next
  case (JStr s)
  show ?case
    using parse_quoted [of s] unfolding reads_back_def by (auto simp: quote_def gr0_conv_Suc Suc_le_eq dest: less_imp_Suc_add)
next
  case JNull
  show ?case unfolding reads_back_def
    by (auto simp: parse_literal_def literals_def is_prefix_def numeral_eq_Suc Suc_le_eq dest!: less_imp_Suc_add)
next
  case (JBool b)
  show ?case unfolding reads_back_def
    by (cases b) (auto simp: parse_literal_def literals_def is_prefix_def numeral_eq_Suc Suc_le_eq dest!: less_imp_Suc_add)
qed (simp_all add: float_reads_back int_reads_back)

theorem json_loads_dumps:
  assumes "json_wf flt v"
  shows "json_loads flt (json_dumps v) = Some v"
proof -
  have "parse_value flt (Suc (length (json_dumps v))) (json_dumps v @ []) = Some (v, [])"
    using json_reads_back [OF assms] unfolding reads_back_def by (simp add: follows_def)
  then show ?thesis using skip_ws_dumps [OF assms, of "[]"] by (simp add: json_loads_def)
qed

end
