(* ===== verification/Datetime.thy ===== *)
theory Datetime
  imports Python_Values
begin

section \<open>Points in time\<close>

text \<open>
  The part of \<open>datetime\<close> the sources use: \<open>isoformat\<close> of an aware UTC time and reading that text back.
  A time is its distance from \<open>datetime.min\<close> in microseconds; the calendar is the proleptic Gregorian
  one, computed from the day number the way the standard library does.
\<close>

definition is_leap :: "int \<Rightarrow> bool" where
  "is_leap y \<longleftrightarrow> y mod 4 = 0 \<and> (y mod 100 \<noteq> 0 \<or> y mod 400 = 0)"

definition days_in_month :: "bool \<Rightarrow> int list" where
  "days_in_month leap = [31, if leap then 29 else 28, 31, 30, 31, 30, 31, 31, 30, 31, 30, 31]"

definition days_before_year :: "int \<Rightarrow> int" where
  "days_before_year y = (let p = y - 1 in p * 365 + p div 4 - p div 100 + p div 400)"

definition days_before_month :: "bool \<Rightarrow> nat \<Rightarrow> int" where
  "days_before_month leap m = sum_list (take (m - 1) (days_in_month leap))"

text \<open>The month (from 1) and the day of the month for a day of the year (from 0).\<close>

fun month_day :: "int list \<Rightarrow> nat \<Rightarrow> int \<Rightarrow> nat \<times> int" where
  "month_day [] m n = (m, n + 1)"
| "month_day (d # ds) m n = (if n < d then (m, n + 1) else month_day ds (Suc m) (n - d))"

definition ymd_of_days :: "int \<Rightarrow> int \<times> nat \<times> int" where
  "ymd_of_days n0 =
     (let n400 = n0 div 146097; r400 = n0 mod 146097;
          n100 = r400 div 36524; r100 = r400 mod 36524;
          n4 = r100 div 1461; r4 = r100 mod 1461;
          n1 = r4 div 365; r1 = r4 mod 365;
          year = n400 * 400 + 1 + n100 * 100 + n4 * 4 + n1
      in if n1 = 4 \<or> n100 = 4 then (year - 1, 12, 31)
         else (year, month_day (days_in_month (n1 = 3 \<and> (n4 \<noteq> 24 \<or> n100 = 3))) 1 r1))"

definition days_of_ymd :: "int \<Rightarrow> nat \<Rightarrow> int \<Rightarrow> int" where
  "days_of_ymd y m d = days_before_year y + days_before_month (is_leap y) m + d - 1"

definition pad :: "nat \<Rightarrow> nat \<Rightarrow> string" where
  "pad w n = replicate (w - length (nat_str n)) (CHR ''0'') @ nat_str n"

definition isoformat :: "datetime \<Rightarrow> string" where
  "isoformat t =
     (let us = nat (t mod 1000000); secs = t div 1000000; day = secs div 86400;
          s = nat (secs mod 86400)
      in case ymd_of_days day of (y, m, d) \<Rightarrow>
        pad 4 (nat y) @ ''-'' @ pad 2 m @ ''-'' @ pad 2 (nat d) @ ''T''
        @ pad 2 (s div 3600) @ '':'' @ pad 2 (s mod 3600 div 60) @ '':'' @ pad 2 (s mod 60)
        @ (if us = 0 then [] else ''.'' @ pad 6 us) @ ''+00:00'')"

subsection \<open>The calendar is a bijection\<close>

lemma month_day_sum:
  assumes "0 \<le> n" and "n < sum_list ds" and "month_day ds m n = (m', d)"
  shows "m \<le> m' \<and> m' - m < length ds \<and> sum_list (take (m' - m) ds) + d - 1 = n \<and> 1 \<le> d \<and> d \<le> ds ! (m' - m)"
  using assms
proof (induction ds arbitrary: m n)
  case (Cons x ds)
  show ?case
  proof (cases "n < x")
    case False
    with Cons.prems Cons.IH [of "n - x" "Suc m"] have
      "Suc m \<le> m'" "m' - Suc m < length ds" "sum_list (take (m' - Suc m) ds) + d - 1 = n - x"
      "1 \<le> d" "d \<le> ds ! (m' - Suc m)" by auto
    moreover from this have "m' - m = Suc (m' - Suc m)" by simp
    ultimately show ?thesis by simp
  qed (use Cons.prems in auto)
qed simp

lemma year_arith:
  fixes a b c e :: int
  assumes "0 \<le> b" "b \<le> 3" "0 \<le> c" "c \<le> 24" "0 \<le> e" "e \<le> 3"
  defines "p \<equiv> 400 * a + 100 * b + 4 * c + e"
  shows "p div 4 = 100 * a + 25 * b + c" and "p div 100 = 4 * a + b" and "p div 400 = a"
    and "is_leap (p + 1) \<longleftrightarrow> e = 3 \<and> (c \<noteq> 24 \<or> b = 3)"
proof -
  show "p div 4 = 100 * a + 25 * b + c"
    by (rule int_div_pos_eq [where r = e]) (use assms in \<open>simp_all add: p_def\<close>)
  show "p div 100 = 4 * a + b"
    by (rule int_div_pos_eq [where r = "4 * c + e"]) (use assms in \<open>simp_all add: p_def\<close>)
  show "p div 400 = a"
    by (rule int_div_pos_eq [where r = "100 * b + 4 * c + e"]) (use assms in \<open>simp_all add: p_def\<close>)
  have m4: "(p + 1) mod 4 = 0 \<longleftrightarrow> e = 3"
  proof (cases "e = 3")
    case True
    then have "(p + 1) mod 4 = 0"
      by (intro int_mod_pos_eq [where q = "100 * a + 25 * b + c + 1"]) (simp_all add: p_def)
    with True show ?thesis by simp
  next
    case False
    then have "(p + 1) mod 4 = e + 1"
      using assms by (intro int_mod_pos_eq [where q = "100 * a + 25 * b + c"]) (simp_all add: p_def)
    with False assms show ?thesis by simp
  qed
  have m100: "(p + 1) mod 100 = 0 \<longleftrightarrow> c = 24 \<and> e = 3"
  proof (cases "c = 24 \<and> e = 3")
    case True
    then have "(p + 1) mod 100 = 0"
      by (intro int_mod_pos_eq [where q = "4 * a + b + 1"]) (simp_all add: p_def)
    with True show ?thesis by simp
  next
    case False
    then have "(p + 1) mod 100 = 4 * c + e + 1"
      using assms by (intro int_mod_pos_eq [where q = "4 * a + b"]) (auto simp: p_def)
    with False assms show ?thesis by simp
  qed
  have m400: "(p + 1) mod 400 = 0 \<longleftrightarrow> b = 3 \<and> c = 24 \<and> e = 3"
  proof (cases "b = 3 \<and> c = 24 \<and> e = 3")
    case True
    then have "(p + 1) mod 400 = 0"
      by (intro int_mod_pos_eq [where q = "a + 1"]) (simp_all add: p_def)
    with True show ?thesis by simp
  next
    case False
    then have "(p + 1) mod 400 = 100 * b + 4 * c + e + 1"
      using assms by (intro int_mod_pos_eq [where q = a]) (auto simp: p_def)
    with False assms show ?thesis by simp
  qed
  show "is_leap (p + 1) \<longleftrightarrow> e = 3 \<and> (c \<noteq> 24 \<or> b = 3)"
    unfolding is_leap_def m4 m100 m400 by auto
qed

lemma days_before_year_eq:
  fixes a b c e :: int
  assumes "0 \<le> b" "b \<le> 3" "0 \<le> c" "c \<le> 24" "0 \<le> e" "e \<le> 3"
  shows "days_before_year (400 * a + 100 * b + 4 * c + e + 1) = 146097 * a + 36524 * b + 1461 * c + 365 * e"
  using year_arith [OF assms, of a] by (simp add: days_before_year_def Let_def)

lemma year_length: "sum_list (days_in_month leap) = (if leap then 366 else 365)"
  by (simp add: days_in_month_def)

lemma last_day: "days_before_month True 12 + 31 - 1 = 365"
  by (simp add: days_before_month_def days_in_month_def)

theorem ymd_of_days_inverse:
  assumes "0 \<le> n" and "ymd_of_days n = (y, m, d)"
  shows "days_of_ymd y m d = n" and "1 \<le> y" and "1 \<le> m" and "m \<le> 12" and "1 \<le> d" and "d \<le> 31"
    and "d \<le> days_in_month (is_leap y) ! (m - 1)"
proof -
  define a where "a = n div 146097"
  define r400 where "r400 = n mod 146097"
  define b where "b = r400 div 36524"
  define r100 where "r100 = r400 mod 36524"
  define c where "c = r100 div 1461"
  define r4 where "r4 = r100 mod 1461"
  define e where "e = r4 div 365"
  define r1 where "r1 = r4 mod 365"
  have a: "0 \<le> a" "n = 146097 * a + r400" "0 \<le> r400" "r400 < 146097"
    using assms(1) by (simp_all add: a_def r400_def pos_imp_zdiv_nonneg_iff)
  have b: "0 \<le> b" "r400 = 36524 * b + r100" "0 \<le> r100" "r100 < 36524"
    using a by (simp_all add: b_def r100_def pos_imp_zdiv_nonneg_iff)
  have c: "0 \<le> c" "r100 = 1461 * c + r4" "0 \<le> r4" "r4 < 1461"
    using b by (simp_all add: c_def r4_def pos_imp_zdiv_nonneg_iff)
  have e: "0 \<le> e" "r4 = 365 * e + r1" "0 \<le> r1" "r1 < 365"
    using c by (simp_all add: e_def r1_def pos_imp_zdiv_nonneg_iff)
  have bounds: "b \<le> 4" "c \<le> 24" "e \<le> 4" using a b c e by linarith+
  let ?y = "a * 400 + 1 + b * 100 + c * 4 + e"
  have ymd: "ymd_of_days n = (if e = 4 \<or> b = 4 then (?y - 1, 12, 31)
      else (?y, month_day (days_in_month (e = 3 \<and> (c \<noteq> 24 \<or> b = 3))) 1 r1))"
    unfolding ymd_of_days_def Let_def a_def b_def c_def e_def r1_def r4_def r100_def r400_def ..
  have "days_of_ymd y m d = n \<and> 1 \<le> y \<and> 1 \<le> m \<and> m \<le> 12 \<and> 1 \<le> d \<and> d \<le> 31
      \<and> d \<le> days_in_month (is_leap y) ! (m - 1)"
  proof (cases "e = 4 \<or> b = 4")
    case False
    let ?leap = "e = 3 \<and> (c \<noteq> 24 \<or> b = 3)"
    have le: "0 \<le> b" "b \<le> 3" "0 \<le> c" "c \<le> 24" "0 \<le> e" "e \<le> 3" using False bounds b c e by auto
    have y: "y = 400 * a + 100 * b + 4 * c + e + 1" and md: "month_day (days_in_month ?leap) 1 r1 = (m, d)"
      using ymd assms(2) False by auto
    have leap: "is_leap y = ?leap" unfolding y using year_arith(4) [OF le, of a] by simp
    have "r1 < sum_list (days_in_month ?leap)" using e(4) by (simp add: year_length)
    from month_day_sum [OF e(3) this md] have
      md': "1 \<le> m" "m - 1 < 12" "days_before_month ?leap m + d - 1 = r1" "1 \<le> d" "d \<le> days_in_month ?leap ! (m - 1)"
      by (simp_all add: days_before_month_def days_in_month_def)
    have "days_in_month ?leap ! (m - 1) \<le> 31"
      using md'(2) by (auto simp: days_in_month_def nth_Cons' less_Suc_eq numeral_nat)
    then have "d \<le> 31" using md'(5) by linarith
    moreover have "days_of_ymd y m d = n"
      using md'(3) days_before_year_eq [OF le, of a] a(2) b(2) c(2) e(2)
      unfolding days_of_ymd_def leap unfolding y by linarith
    ultimately show ?thesis using md' a(1) le y leap by auto
  next
    case True
    have ends: "y = ?y - 1" "m = 12" "d = 31" using ymd assms(2) True by auto
    consider "b = 4" | "b \<noteq> 4" "e = 4" using True by blast
    then have "\<exists>b' c'. 0 \<le> b' \<and> b' \<le> 3 \<and> 0 \<le> c' \<and> c' \<le> 24 \<and> (c' \<noteq> 24 \<or> b' = 3)
        \<and> y = 400 * a + 100 * b' + 4 * c' + 3 + 1 \<and> n = 146097 * a + 36524 * b' + 1461 * c' + 365 * 3 + 365"
    proof cases
      case 1
      then have "r100 = 0" using a b by linarith
      then have "c = 0" "r4 = 0" "e = 0" using c(1-3) e by linarith+
      with 1 \<open>r100 = 0\<close> a(2) b(2) ends(1) show ?thesis by (intro exI [of _ 3] exI [of _ 24]) simp
    next
      case 2
      then have "r1 = 0" "r4 = 1460" using c(4) e by linarith+
      moreover have "c \<noteq> 24" using b(4) c(2) \<open>r4 = 1460\<close> by linarith
      moreover have "b \<le> 3" using 2 bounds by linarith
      ultimately show ?thesis
        using 2 a(2) b(1,2) c(1,2) ends(1) bounds by (intro exI [of _ b] exI [of _ c]) simp
    qed
    then obtain b' c' where le: "0 \<le> b'" "b' \<le> 3" "0 \<le> c'" "c' \<le> 24" "c' \<noteq> 24 \<or> b' = 3"
      and y: "y = 400 * a + 100 * b' + 4 * c' + 3 + 1"
      and n: "n = 146097 * a + 36524 * b' + 1461 * c' + 365 * 3 + 365" by blast
    have leap: "is_leap y" unfolding y using year_arith(4) [OF le(1-4), of 3 a] le(5) by simp
    have "days_of_ymd y 12 31 = n"
      using days_before_year_eq [OF le(1-4), of 3 a] last_day leap n y
      unfolding days_of_ymd_def by simp
    with ends a(1) le y show ?thesis by (simp add: days_in_month_def)
  qed
  then show "days_of_ymd y m d = n" "1 \<le> y" "1 \<le> m" "m \<le> 12" "1 \<le> d" "d \<le> 31"
    "d \<le> days_in_month (is_leap y) ! (m - 1)" by simp_all
qed

subsection \<open>Reading the text back\<close>

text \<open>
  \<open>datetime.fromisoformat\<close> on the texts the program writes: date, \<open>T\<close>, time with an optional fraction of
  six digits, and the offset of UTC.  The library accepts further spellings; they never occur in what
  the program writes and are \<open>None\<close> here.
\<close>

definition fixed_digits :: "nat \<Rightarrow> string \<Rightarrow> (nat \<times> string) option" where
  "fixed_digits w s = (let d = take w s in
     if length d = w \<and> list_all is_digit d then Some (nat_of_digits d, drop w s) else None)"

definition expect :: "char \<Rightarrow> string \<Rightarrow> string option" where
  "expect c s = (case s of x # xs \<Rightarrow> if x = c then Some xs else None | [] \<Rightarrow> None)"

definition field_after :: "char \<Rightarrow> nat \<Rightarrow> string \<Rightarrow> (nat \<times> string) option" where
  "field_after c w s = Option.bind (expect c s) (fixed_digits w)"

definition parse_iso :: "string \<Rightarrow> datetime option" where
  "parse_iso s0 =
     Option.bind (fixed_digits 4 s0) (\<lambda>(y, s1). Option.bind (field_after (CHR ''-'') 2 s1) (\<lambda>(mo, s2).
     Option.bind (field_after (CHR ''-'') 2 s2) (\<lambda>(d, s3). Option.bind (field_after (CHR ''T'') 2 s3) (\<lambda>(h, s4).
     Option.bind (field_after (CHR '':'') 2 s4) (\<lambda>(mi, s5). Option.bind (field_after (CHR '':'') 2 s5) (\<lambda>(se, s6).
     Option.bind (if s6 \<noteq> [] \<and> hd s6 = CHR ''.'' then field_after (CHR ''.'') 6 s6 else Some (0, s6)) (\<lambda>(us, s7).
     if s7 = ''+00:00'' \<and> 1 \<le> y \<and> 1 \<le> mo \<and> mo \<le> 12 \<and> 1 \<le> d
        \<and> int d \<le> days_in_month (is_leap (int y)) ! (mo - 1) \<and> h < 24 \<and> mi < 60 \<and> se < 60
     then Some (((days_of_ymd (int y) mo (int d) * 86400 + int (h * 3600 + mi * 60 + se)) * 1000000) + int us)
     else None)))))))"

lemma nat_of_digits_zeros: "nat_of_digits (replicate k (CHR ''0'') @ s) = nat_of_digits s"
proof -
  have "foldl (\<lambda>a c. 10 * a + digit_val c) 0 (replicate k (CHR ''0'')) = 0"
    by (induction k) (simp_all add: digit_val_def)
  then show ?thesis by (simp add: nat_of_digits_def)
qed

lemma length_nat_str: "n < 10 ^ w \<Longrightarrow> 0 < w \<Longrightarrow> length (nat_str n) \<le> w"
proof (induction w arbitrary: n)
  case (Suc w)
  show ?case
  proof (cases "n < 10")
    case False
    with Suc.prems have "0 < w" "n div 10 < 10 ^ w" by (cases w; simp)+
    from Suc.IH [OF this(2,1)] False show ?thesis by (simp add: nat_str.simps [of n])
  qed (simp add: nat_str.simps [of n])
qed simp

lemma fixed_digits_pad:
  assumes "n < 10 ^ w" and "0 < w"
  shows "fixed_digits w (pad w n @ s) = Some (n, s)"
proof -
  have len: "length (pad w n) = w" using length_nat_str [OF assms] by (simp add: pad_def)
  have "list_all is_digit (pad w n)"
    using nat_str_digits [of n] by (auto simp: pad_def list_all_iff is_digit_def)
  moreover have "nat_of_digits (pad w n) = n" by (simp add: pad_def nat_of_digits_zeros)
  ultimately show ?thesis using len by (simp add: fixed_digits_def Let_def)
qed

lemma field_after_pad:
  "n < 10 ^ w \<Longrightarrow> 0 < w \<Longrightarrow> field_after c w (c # pad w n @ s) = Some (n, s)"
  by (simp add: field_after_def expect_def fixed_digits_pad)

text \<open>\<open>datetime.max\<close> is the last microsecond of the year 9999.\<close>

definition datetime_ok :: "datetime \<Rightarrow> bool" where
  "datetime_ok t \<longleftrightarrow> 0 \<le> t \<and> t < 3652059 * 86400 * 1000000"

lemma div_times_le_int: "0 < k \<Longrightarrow> n div k * k \<le> (n :: int)"
  using pos_mod_sign [of k n] div_mult_mod_eq [of n k] by linarith

lemma year_bound:
  assumes "10000 \<le> y"
  shows "3652059 \<le> days_before_year y"
proof -
  let ?p = "y - 1"
  have "2499 \<le> ?p div 4" "24 \<le> ?p div 400"
    using assms zdiv_mono1 [of 9999 ?p 4] zdiv_mono1 [of 9999 ?p 400] by simp_all
  moreover have "100 * (?p div 100) \<le> ?p" by simp
  moreover have "3652059 \<le> p * 365 + a - b + c" if "2499 \<le> a" "24 \<le> c" "100 * b \<le> p" "9999 \<le> p" for a b c p :: int
    using that by linarith
  ultimately show ?thesis using assms unfolding days_before_year_def Let_def by simp
qed

theorem parse_iso_isoformat:
  assumes "datetime_ok t"
  shows "parse_iso (isoformat t) = Some t"
proof -
  define us where "us = nat (t mod 1000000)"
  define secs where "secs = t div 1000000"
  define day where "day = secs div 86400"
  define sd where "sd = nat (secs mod 86400)"
  obtain y m d where ymd: "ymd_of_days day = (y, m, d)" by (metis prod_cases3)
  have "secs * 1000000 \<le> t" "day * 86400 \<le> secs"
    unfolding secs_def day_def by (simp_all add: div_times_le_int)
  then have day: "0 \<le> day" "day < 3652059" "0 \<le> secs"
    using assms by (auto simp: day_def secs_def datetime_ok_def pos_imp_zdiv_nonneg_iff)
  note inv = ymd_of_days_inverse [OF day(1) ymd]
  have y: "y < 10000"
  proof (rule ccontr)
    assume "\<not> y < 10000"
    then have "3652059 \<le> days_before_year y" by (simp add: year_bound)
    moreover have "0 \<le> days_before_month (is_leap y) m"
      unfolding days_before_month_def
      by (intro sum_list_nonneg) (auto simp: days_in_month_def dest!: in_set_takeD)
    ultimately show False using inv(1,5) day(2) by (simp add: days_of_ymd_def)
  qed
  define h mi se where hms_def: "h = sd div 3600" "mi = sd mod 3600 div 60" "se = sd mod 60"
  have "sd < 86400" by (simp add: sd_def nat_less_iff)
  then have sd: "h < 24" "mi < 60" "se < 60"
    by (auto simp: hms_def div_less_iff_less_mult)
  have hms: "int (h * 3600 + mi * 60 + se) = int sd"
  proof -
    have "sd mod 3600 mod 60 = sd mod 60" by (simp add: mod_mod_cancel)
    then show ?thesis unfolding hms_def by (metis div_mult_mod_eq add.assoc)
  qed
  have us: "us < 1000000" by (simp add: us_def nat_less_iff)
  have t: "(day * 86400 + int sd) * 1000000 + int us = t"
    by (simp add: us_def sd_def day_def secs_def)
  have iso: "isoformat t = pad 4 (nat y) @ CHR ''-'' # pad 2 m @ CHR ''-'' # pad 2 (nat d) @ CHR ''T''
      # pad 2 h @ CHR '':'' # pad 2 mi @ CHR '':'' # pad 2 se
      @ (if us = 0 then [] else CHR ''.'' # pad 6 us) @ ''+00:00''"
    unfolding isoformat_def Let_def us_def [symmetric] secs_def [symmetric] day_def [symmetric]
      sd_def [symmetric] ymd hms_def by simp
  have frac: "(let s6 = (if us = 0 then [] else CHR ''.'' # pad 6 us) @ ''+00:00'' in
      if s6 \<noteq> [] \<and> hd s6 = CHR ''.'' then field_after (CHR ''.'') 6 s6 else Some (0, s6)) = Some (us, ''+00:00'')"
    using us field_after_pad [of us 6 "CHR ''.''" "''+00:00''"] by (simp add: Let_def)
  have f: "fixed_digits 4 (pad 4 (nat y) @ s) = Some (nat y, s)"
    "field_after c 2 (c # pad 2 m @ s) = Some (m, s)" "field_after c 2 (c # pad 2 (nat d) @ s) = Some (nat d, s)"
    "field_after c 2 (c # pad 2 h @ s) = Some (h, s)"
    "field_after c 2 (c # pad 2 mi @ s) = Some (mi, s)"
    "field_after c 2 (c # pad 2 se @ s) = Some (se, s)" for c s
    using y inv sd by (auto intro!: fixed_digits_pad field_after_pad)
  show ?thesis
    unfolding iso parse_iso_def using frac inv sd t y
    by (simp add: f Let_def hms del: of_nat_add of_nat_mult) (simp add: Suc_le_eq)
qed

end
