(* ===== verification/Kafka_Codec.thy ===== *)
theory Kafka_Codec
  imports Kafka_Dispatch Json_Text Datetime
begin

section \<open>Commands on the wire and the durable Kafka queue\<close>

text \<open>
  \<^verbatim>\<open>adapters/kafka/aiokafka_queue.py\<close>.  The encoder builds a JSON object and hands it to \<open>orjson.dumps\<close>,
  which is a parameter (\<open>dumps\<close>) of the model; the decoder reads the text with \<open>json.loads\<close>.  The Kafka
  client is a parameter too: the outcome of every call is an input, and what the queue asks of the
  client (messages sent, offsets committed) is recorded in its state.
\<close>

subsection \<open>Encoding\<close>

definition identity_json :: "ExecutionIdentity \<Rightarrow> json" where
  "identity_json i = JObj
     [(''workspace_id'', JStr (id_value (workspace_id (scope i)))),
      (''project_id'', JStr (id_value (project_id (scope i)))),
      (''application_id'', JStr (id_value (application_id (scope i)))),
      (''revision_id'', JStr (id_value (revision_id (scope i)))),
      (''deployment_id'', JStr (id_value (deployment_id (scope i)))),
      (''assistant_id'', JStr (id_value (assistant_id i))),
      (''thread_id'', opt_str (thread_key i)),
      (''run_id'', JStr (id_value (run_id i))),
      (''attempt_id'', JStr (id_value (attempt_id i)))]"

definition request_json :: "ExecutionRequest \<Rightarrow> json" where
  "request_json rq = JObj
     [(''input'', rq_input rq), (''command'', rq_command rq), (''config'', JObj (rq_config rq)),
      (''context'', JObj (rq_context rq)), (''metadata'', JObj (rq_metadata rq)),
      (''stream_modes'', JArr (map JStr (rq_stream_modes rq))),
      (''stream_subgraphs'', JBool (rq_stream_subgraphs rq)),
      (''priority'', JInt (priority_int (rq_priority rq))),
      (''timeout_seconds'', JInt (rq_timeout_seconds rq))]"

definition command_json :: "RunCommand \<Rightarrow> json" where
  "command_json c = JObj
     [(''command_id'', JStr (id_value (rc_command_id c))),
      (''identity'', identity_json (rc_identity c)),
      (''request'', request_json (rc_request c)),
      (''priority'', JInt (priority_int (rc_priority c))),
      (''created_at'', JStr (isoformat (rc_created_at c)))]"

definition json_command :: "(json \<Rightarrow> string) \<Rightarrow> RunCommand \<Rightarrow> string" where
  "json_command dumps c = dumps (command_json c)"

subsection \<open>Decoding\<close>

text \<open>
  \<open>Some (Inl e)\<close>: the code raises \<open>e\<close>; \<open>None\<close>: the payload has, in a field that the code keeps without
  looking at it, a JSON value of another type than the field of the record, which the model does not
  represent.
\<close>

type_synonym 'a dec = "(exc + 'a) option"

definition okD :: "'a \<Rightarrow> 'a dec" where
  "okD x = Some (Inr x)"

definition raiseD :: "exc \<Rightarrow> 'a dec" where
  "raiseD e = Some (Inl e)"

definition bindD :: "'a dec \<Rightarrow> ('a \<Rightarrow> 'b dec) \<Rightarrow> 'b dec" where
  "bindD m f = (case m of None \<Rightarrow> None | Some (Inl e) \<Rightarrow> Some (Inl e) | Some (Inr x) \<Rightarrow> f x)"

lemmas dec_defs = okD_def raiseD_def bindD_def

fun type_name :: "json \<Rightarrow> string" where
  "type_name JNull = ''NoneType''"
| "type_name (JBool _) = ''bool''"
| "type_name (JInt _) = ''int''"
| "type_name (JFloat _ _) = ''float''"
| "type_name (JStr _) = ''str''"
| "type_name (JArr _) = ''list''"
| "type_name (JObj _) = ''dict''"

text \<open>\<open>value[key]\<close> for a text key, and \<open>value.get(key, default)\<close>.\<close>

definition subscript :: "json \<Rightarrow> string \<Rightarrow> json dec" where
  "subscript v k = (case v of
       JObj d \<Rightarrow> (case map_of d k of Some w \<Rightarrow> okD w | None \<Rightarrow> raiseD (KeyError k))
     | JArr _ \<Rightarrow> raiseD (TypeError ''list indices must be integers or slices, not str'')
     | JStr _ \<Rightarrow> raiseD (TypeError (''string indices must be integers, not '' @ repr_str ''str''))
     | _ \<Rightarrow> raiseD (TypeError (repr_str (type_name v) @ '' object is not subscriptable'')))"

definition get_default :: "json \<Rightarrow> string \<Rightarrow> json \<Rightarrow> json dec" where
  "get_default v k dflt = (case v of
       JObj d \<Rightarrow> okD (get_or d k dflt)
     | _ \<Rightarrow> raiseD (AttributeError (repr_str (type_name v) @ '' object has no attribute '' @ repr_str ''get'')))"

text \<open>\<open>cls.parse(value)\<close>.\<close>

definition parse_json_id :: "(string \<Rightarrow> typed_id) \<Rightarrow> json \<Rightarrow> typed_id dec" where
  "parse_json_id cls v =
     (if \<not> truthy v then raiseD (ValueError ''identifier must not be empty'')
      else case v of JStr s \<Rightarrow> okD (cls s) | _ \<Rightarrow> None)"

text \<open>\<open>int(value)\<close>; a float is truncated towards zero.\<close>

definition int_of_json :: "json \<Rightarrow> int dec" where
  "int_of_json v = (case v of
       JInt i \<Rightarrow> okD i
     | JBool b \<Rightarrow> okD (if b then 1 else 0)
     | JFloat r _ \<Rightarrow> okD (if r < 0 then - \<lfloor>- r\<rfloor> else \<lfloor>r\<rfloor>)
     | JStr s \<Rightarrow> (case py_int s of Some i \<Rightarrow> okD i
         | None \<Rightarrow> raiseD (ValueError (''invalid literal for int() with base 10: '' @ repr_str s)))
     | _ \<Rightarrow> raiseD (TypeError (''int() argument must be a string, a bytes-like object or a real number, not ''
         @ repr_str (type_name v))))"

definition priority_of_json :: "json \<Rightarrow> queue_priority dec" where
  "priority_of_json v = bindD (int_of_json v) (\<lambda>n. Some (priority_of n))"

definition obj_of_json :: "json \<Rightarrow> obj dec" where
  "obj_of_json v = (case v of JObj d \<Rightarrow> okD d | _ \<Rightarrow> None)"

definition the_str :: "json \<Rightarrow> string option" where
  "the_str v = (case v of JStr s \<Rightarrow> Some s | _ \<Rightarrow> None)"

text \<open>\<open>tuple(value)\<close>: the elements of a list, the keys of an object, the characters of a text.\<close>

definition strings_of_json :: "json \<Rightarrow> string list dec" where
  "strings_of_json v = (case v of
       JArr xs \<Rightarrow> (case those (map the_str xs) of Some ss \<Rightarrow> okD ss | None \<Rightarrow> None)
     | JObj d \<Rightarrow> okD (map fst d)
     | JStr s \<Rightarrow> okD (map (\<lambda>c. [c]) s)
     | _ \<Rightarrow> raiseD (TypeError (repr_str (type_name v) @ '' object is not iterable'')))"

definition identity_of_json :: "json \<Rightarrow> ExecutionIdentity dec" where
  "identity_of_json raw =
     bindD (bindD (subscript raw ''workspace_id'') (parse_json_id WorkspaceId)) (\<lambda>ws.
     bindD (bindD (subscript raw ''project_id'') (parse_json_id ProjectId)) (\<lambda>pr.
     bindD (bindD (subscript raw ''application_id'') (parse_json_id ApplicationId)) (\<lambda>ap.
     bindD (bindD (subscript raw ''revision_id'') (parse_json_id RevisionId)) (\<lambda>rv.
     bindD (bindD (subscript raw ''deployment_id'') (parse_json_id DeploymentId)) (\<lambda>dp.
     bindD (bindD (subscript raw ''assistant_id'') (parse_json_id AssistantId)) (\<lambda>asst.
     bindD (bindD (subscript raw ''run_id'') (parse_json_id RunId)) (\<lambda>rn.
     bindD (bindD (subscript raw ''attempt_id'') (parse_json_id AttemptId)) (\<lambda>att.
     bindD (bindD (subscript raw ''thread_id'') (\<lambda>t.
        if truthy t then bindD (parse_json_id ThreadId t) (\<lambda>i. okD (Some i)) else okD None)) (\<lambda>thr.
     okD \<lparr> scope = \<lparr> workspace_id = ws, project_id = pr, application_id = ap, revision_id = rv,
                     deployment_id = dp \<rparr>,
           assistant_id = asst, run_id = rn, attempt_id = att, thread_id = thr \<rparr>)))))))))"

definition request_of_json :: "ExecutionIdentity \<Rightarrow> json \<Rightarrow> ExecutionRequest dec" where
  "request_of_json i raw =
     bindD (get_default raw ''input'' JNull) (\<lambda>inp.
     bindD (get_default raw ''command'' JNull) (\<lambda>com.
     bindD (bindD (get_default raw ''config'' (JObj [])) obj_of_json) (\<lambda>cfg.
     bindD (bindD (get_default raw ''context'' (JObj [])) obj_of_json) (\<lambda>ctx.
     bindD (bindD (get_default raw ''metadata'' (JObj [])) obj_of_json) (\<lambda>md.
     bindD (bindD (get_default raw ''stream_modes'' (JArr [JStr ''values''])) strings_of_json) (\<lambda>modes.
     bindD (get_default raw ''stream_subgraphs'' (JBool False)) (\<lambda>sub.
     bindD (bindD (get_default raw ''priority'' (JInt 100)) priority_of_json) (\<lambda>pri.
     bindD (bindD (get_default raw ''timeout_seconds'' (JInt 1800)) int_of_json) (\<lambda>tmo.
     okD \<lparr> rq_identity = i, rq_input = inp, rq_command = com, rq_config = cfg, rq_context = ctx,
           rq_metadata = md, rq_stream_modes = modes, rq_stream_subgraphs = truthy sub,
           rq_priority = pri, rq_timeout_seconds = tmo \<rparr>)))))))))"

text \<open>\<open>datetime.fromisoformat\<close> on the texts that \<open>isoformat\<close> writes; other texts are outside the model.\<close>

definition fromisoformat :: "json \<Rightarrow> datetime dec" where
  "fromisoformat v = (case v of
       JStr s \<Rightarrow> (case parse_iso s of Some t \<Rightarrow> okD t | None \<Rightarrow> None)
     | _ \<Rightarrow> raiseD (TypeError ''fromisoformat: argument must be str''))"

definition command_of_payload ::
  "(string \<Rightarrow> rat \<times> string) \<Rightarrow> datetime \<Rightarrow> string \<Rightarrow> RunCommand dec" where
  "command_of_payload flt now payload = (case json_loads flt payload of
       None \<Rightarrow> raiseD (ValueError ''invalid JSON'')
     | Some v \<Rightarrow>
         bindD (bindD (subscript v ''identity'') identity_of_json) (\<lambda>i.
         bindD (bindD (subscript v ''request'') (request_of_json i)) (\<lambda>rq.
         bindD (bindD (subscript v ''command_id'') (parse_json_id CommandId)) (\<lambda>cid.
         bindD (bindD (subscript v ''priority'') priority_of_json) (\<lambda>pri.
         bindD (bindD (subscript v ''created_at'') fromisoformat) (\<lambda>created.
         okD \<lparr> rc_command_id = cid, rc_identity = i, rc_request = rq, rc_priority = pri,
               rc_available_at = now, rc_created_at = created \<rparr>))))))"

subsection \<open>The round trip\<close>

definition command_wf :: "(string \<Rightarrow> rat \<times> string) \<Rightarrow> RunCommand \<Rightarrow> bool" where
  "command_wf flt c \<longleftrightarrow> identity_wf (rc_identity c) \<and> classed CommandId (rc_command_id c)
     \<and> rq_identity (rc_request c) = rc_identity c \<and> datetime_ok (rc_created_at c)
     \<and> json_wf flt (rq_input (rc_request c)) \<and> json_wf flt (rq_command (rc_request c))
     \<and> json_wf flt (JObj (rq_config (rc_request c))) \<and> json_wf flt (JObj (rq_context (rc_request c)))
     \<and> json_wf flt (JObj (rq_metadata (rc_request c)))"

lemma parse_classed: "classed cls i \<Longrightarrow> parse_json_id cls (JStr (id_value i)) = okD i"
  by (simp add: classed_def parse_json_id_def)

lemma identity_roundtrip: "identity_wf i \<Longrightarrow> identity_of_json (identity_json i) = okD i"
  by (cases "thread_id i")
    (simp_all add: identity_wf_def identity_of_json_def identity_json_def subscript_def okD_def bindD_def
      thread_key_def opt_str_def parse_classed [unfolded okD_def] classed_def)

lemma those_strings: "those (map the_str (map JStr ss)) = Some ss"
  by (induction ss) (simp_all add: the_str_def)

lemma request_roundtrip: "rq_identity rq = i \<Longrightarrow> request_of_json i (request_json rq) = okD rq"
  by (simp add: request_of_json_def request_json_def get_default_def get_or_def dec_defs obj_of_json_def
      strings_of_json_def those_strings [unfolded map_map comp_def] comp_def priority_of_json_def int_of_json_def)

lemma command_json_wf: "command_wf flt c \<Longrightarrow> json_wf flt (command_json c)"
  by (simp add: command_wf_def command_json_def identity_json_def request_json_def opt_str_def list_all_iff
      split: option.splits)

lemma command_roundtrip:
  assumes "command_wf flt c" and "json_loads flt (dumps (command_json c)) = Some (command_json c)"
  shows "command_of_payload flt now (json_command dumps c) = okD (c \<lparr> rc_available_at := now \<rparr>)"
proof -
  have "identity_wf (rc_identity c)" and cid: "classed CommandId (rc_command_id c)"
    and "rq_identity (rc_request c) = rc_identity c" and "datetime_ok (rc_created_at c)"
    using assms(1) by (simp_all add: command_wf_def)
  then show ?thesis
    using identity_roundtrip [of "rc_identity c"] request_roundtrip [of "rc_request c"]
      parse_iso_isoformat [of "rc_created_at c"] parse_classed [OF cid]
    unfolding command_of_payload_def json_command_def assms(2) option.case
    by (simp add: command_json_def subscript_def dec_defs fromisoformat_def priority_of_json_def int_of_json_def)
qed

subsection \<open>AioKafkaRunCommandQueue\<close>

text \<open>
  A record of the log, and what the queue keeps: whether the clients exist, the leases, and, as the
  trace of its calls, the messages sent and the offsets committed.  \<open>aq_io n\<close> is the outcome of the
  \<open>n\<close>-th call of the client: \<open>None\<close>, or the exception it raises.
\<close>

record KafkaRecord =
  kr_topic :: string
  kr_partition :: int
  kr_offset :: int
  kr_value :: string
  kr_headers :: "(string \<times> string) list"

record KafkaSend =
  ks_topic :: string
  ks_value :: string
  ks_key :: string
  ks_headers :: "(string \<times> string) list"

record AioKafkaQueue =
  aq_prefix :: string
  aq_application_id :: string
  aq_producer :: bool
  aq_consumer :: bool
  aq_subscribed :: "string list"
  aq_leases :: "(string, KafkaRecord) pydict"
  aq_lease_seconds :: int
  aq_sent :: "KafkaSend list"
  aq_commits :: "(string \<times> int \<times> int) list"
  aq_io :: "nat \<Rightarrow> exc option"
  aq_calls :: nat

type_synonym 'a aio = "(AioKafkaQueue, exc, 'a) prog"

definition new_aio_queue :: "string \<Rightarrow> string \<Rightarrow> (nat \<Rightarrow> exc option) \<Rightarrow> AioKafkaQueue" where
  "new_aio_queue prefix application io =
     \<lparr> aq_prefix = prefix, aq_application_id = application, aq_producer = False, aq_consumer = False,
       aq_subscribed = [], aq_leases = [], aq_lease_seconds = 60, aq_sent = [], aq_commits = [],
       aq_io = io, aq_calls = 0 \<rparr>"

definition max_retries :: int where
  "max_retries = 3"

text \<open>A call of the client: the next outcome, and the effect when it is not an exception.\<close>

definition client_call :: "(AioKafkaQueue \<Rightarrow> AioKafkaQueue) \<Rightarrow> unit aio" where
  "client_call f = (\<lambda>q. let q' = q \<lparr> aq_calls := Suc (aq_calls q) \<rparr> in
     case aq_io q (aq_calls q) of Some e \<Rightarrow> (Inl e, q') | None \<Rightarrow> (Inr (), f q'))"

text \<open>The producer is stored before it is started, so it stays when starting it fails; the consumer is
  stored once it runs.\<close>

definition ensure_producer :: "unit aio" where
  "ensure_producer = bindM (getsM aq_producer) (\<lambda>on. whenM (\<not> on)
     (thenM (modifyM (\<lambda>q. q \<lparr> aq_producer := True \<rparr>)) (client_call id)))"

definition ensure_consumer :: "unit aio" where
  "ensure_consumer = thenM ensure_producer (bindM (getsM aq_consumer) (\<lambda>on. whenM (\<not> on)
     (thenM (catchM (client_call (\<lambda>q. q \<lparr> aq_subscribed :=
           [run_topic_for (aq_prefix q) (aq_application_id q) (priority_int INTERACTIVE),
            run_topic_for (aq_prefix q) (aq_application_id q) (priority_int BATCH)] \<rparr>))
        (\<lambda>e. if is_exception e then thenM (client_call id) (raise e) else raise e))
      (modifyM (\<lambda>q. q \<lparr> aq_consumer := True \<rparr>)))))"

definition aio_send :: "KafkaSend \<Rightarrow> unit aio" where
  "aio_send m = client_call (\<lambda>q. q \<lparr> aq_sent := aq_sent q @ [m] \<rparr>)"

definition aio_commit :: "KafkaRecord \<Rightarrow> unit aio" where
  "aio_commit m = client_call (\<lambda>q. q \<lparr> aq_commits := aq_commits q @ [(kr_topic m, kr_partition m, kr_offset m + 1)] \<rparr>)"

definition aio_publish :: "(json \<Rightarrow> string) \<Rightarrow> RunCommand \<Rightarrow> unit aio" where
  "aio_publish dumps c = thenM ensure_producer (bindM (getsM aq_prefix) (\<lambda>prefix.
     aio_send \<lparr> ks_topic = run_topic_for prefix (id_value (application_id (scope (rc_identity c))))
         (priority_int (rc_priority c)),
       ks_value = json_command dumps c, ks_key = partition_key c,
       ks_headers = [(''runtime-schema-version'', ''1''), (''run-id'', run_key (rc_identity c))] \<rparr>))"

text \<open>The last well-formed \<open>retry-count\<close> header decides.\<close>

definition delivery_count_of :: "(string \<times> string) list \<Rightarrow> int" where
  "delivery_count_of hs = fold (\<lambda>(k, v) n. if k = ''retry-count''
     then (case py_int v of Some i \<Rightarrow> i + 1 | None \<Rightarrow> n) else n) hs 1"

text \<open>\<open>got\<close> is the outcome of \<open>getone\<close>; the result is \<open>None\<close> for a payload outside the model.\<close>

definition aio_receive ::
  "(string \<Rightarrow> rat \<times> string) \<Rightarrow> exc + KafkaRecord \<Rightarrow> datetime \<Rightarrow> datetime \<Rightarrow> string
   \<Rightarrow> RunCommandReceipt option aio" where
  "aio_receive flt got available_at now new_id =
     thenM ensure_consumer (bindM (liftE got) (\<lambda>m.
       case command_of_payload flt available_at (kr_value m) of
         None \<Rightarrow> ret None
       | Some (Inl e) \<Rightarrow> raise e
       | Some (Inr c) \<Rightarrow> bindM (getsM aq_lease_seconds) (\<lambda>lease.
           thenM (modifyM (\<lambda>q. q \<lparr> aq_leases := AList.update new_id m (aq_leases q) \<rparr>))
           (ret (Some \<lparr> rp_command = c, rp_lease_id = LeaseId new_id,
               rp_delivery_count = delivery_count_of (kr_headers m),
               rp_leased_at = now, rp_lease_expires_at = now + seconds lease \<rparr>)))))"

text \<open>The lease is gone even when the check of the consumer or the commit fails.\<close>

definition aio_pop :: "RunCommandReceipt \<Rightarrow> KafkaRecord aio" where
  "aio_pop r = (let k = id_value (rp_lease_id r) in
     bindM (getsM (\<lambda>q. map_of (aq_leases q) k)) (\<lambda>m.
     thenM (modifyM (\<lambda>q. q \<lparr> aq_leases := AList.delete k (aq_leases q) \<rparr>))
     (bindM (getsM aq_consumer) (\<lambda>on. case m of
        Some x \<Rightarrow> if on then ret x else raise not_active
      | None \<Rightarrow> raise not_active))))"

definition aio_acknowledge :: "RunCommandReceipt \<Rightarrow> unit aio" where
  "aio_acknowledge r = bindM (aio_pop r) aio_commit"

definition retry_message :: "(json \<Rightarrow> string) \<Rightarrow> KafkaRecord \<Rightarrow> RunCommandReceipt \<Rightarrow> KafkaSend" where
  "retry_message dumps m r =
     \<lparr> ks_topic = kr_topic m, ks_value = json_command dumps (rp_command r), ks_key = partition_key (rp_command r),
       ks_headers = [(''runtime-schema-version'', ''1''), (''run-id'', run_key (rp_identity r)),
         (''retry-count'', int_str (rp_delivery_count r))] \<rparr>"

definition aio_reject :: "(json \<Rightarrow> string) \<Rightarrow> RunCommandReceipt \<Rightarrow> bool \<Rightarrow> unit aio" where
  "aio_reject dumps r retryable = bindM (aio_pop r) (\<lambda>m. thenM (aio_commit m)
     (if \<not> retryable \<or> rp_delivery_count r \<ge> max_retries then ret ()
      else aio_send (retry_message dumps m r)))"

definition aio_close :: "unit aio" where
  "aio_close = bindM (getsM (\<lambda>q. (aq_consumer q, aq_producer q))) (\<lambda>(consumer, producer).
     thenM (modifyM (\<lambda>q. q \<lparr> aq_consumer := False, aq_producer := False \<rparr>))
     (thenM (whenM consumer (client_call id)) (whenM producer (client_call id))))"

subsection \<open>Deliveries and retries\<close>

text \<open>A consumer is only ever there together with a producer, which is what the assertions of the code
  rely on.\<close>

definition aio_inv :: "AioKafkaQueue \<Rightarrow> bool" where
  "aio_inv q \<longleftrightarrow> (aq_consumer q \<longrightarrow> aq_producer q)"

lemma client_call_inv:
  "(\<And>q n. P q \<Longrightarrow> P (f (q \<lparr> aq_calls := n \<rparr>)) \<and> P (q \<lparr> aq_calls := n \<rparr>)) \<Longrightarrow> preserves P (client_call f)"
  by (auto simp: preserves_iff client_call_def Let_def split: option.splits)

lemma ensure_producer_spec:
  "hoare aio_inv ensure_producer (\<lambda>_ q. aio_inv q \<and> aq_producer q) (\<lambda>_. aio_inv)"
  by (auto simp: hoare_def ensure_producer_def client_call_def aio_inv_def prog_defs Let_def
      split: prod.splits sum.splits option.splits)

lemma ensure_consumer_inv: "preserves aio_inv ensure_consumer"
proof -
  let ?J = "\<lambda>q. aio_inv q \<and> aq_producer q"
  have call: "preserves ?J (client_call f)"
    if "\<And>q. aq_producer (f q) = aq_producer q \<and> aq_consumer (f q) = aq_consumer q" for f
    using that by (intro client_call_inv) (auto simp: aio_inv_def)
  have "hoare ?J (bindM (getsM aq_consumer) (\<lambda>on. whenM (\<not> on)
     (thenM (catchM (client_call (\<lambda>q. q \<lparr> aq_subscribed :=
           [run_topic_for (aq_prefix q) (aq_application_id q) (priority_int INTERACTIVE),
            run_topic_for (aq_prefix q) (aq_application_id q) (priority_int BATCH)] \<rparr>))
        (\<lambda>e. if is_exception e then thenM (client_call id) (raise e) else raise e))
      (modifyM (\<lambda>q. q \<lparr> aq_consumer := True \<rparr>))))) (\<lambda>_. ?J) (\<lambda>_. ?J)"
    by (intro preserves_bind preserves_gets preserves_when preserves_then preserves_catch call hoare_if
        preserves_raise) (auto simp: aio_inv_def hoare_def modifyM_def)
  then show ?thesis
    unfolding ensure_consumer_def by (intro hoare_then [OF ensure_producer_spec]) (auto elim!: hoare_post)
qed

lemma aio_effects_inv: "preserves aio_inv (aio_send x)" "preserves aio_inv (aio_commit m)"
    "preserves aio_inv (aio_pop r)"
  unfolding aio_send_def aio_commit_def
  by (auto intro!: client_call_inv simp: aio_inv_def)
    (auto simp: aio_inv_def preserves_iff aio_pop_def prog_defs Let_def split: option.splits)

lemma aio_ops_inv:
  "preserves aio_inv (aio_publish dumps c)" "preserves aio_inv (aio_receive flt got t now i)"
  "preserves aio_inv (aio_acknowledge r)" "preserves aio_inv (aio_reject dumps r b)"
  "preserves aio_inv aio_close"
proof -
  have producer: "preserves aio_inv ensure_producer"
    using ensure_producer_spec by (rule hoare_post) auto
  show "preserves aio_inv (aio_publish dumps c)"
    unfolding aio_publish_def by (intro preserves_then preserves_bind preserves_gets producer aio_effects_inv)
  have "preserves aio_inv (modifyM (\<lambda>q. q \<lparr> aq_leases := AList.update i m (aq_leases q) \<rparr>))" for m
    by (simp add: preserves_iff modifyM_def aio_inv_def)
  then show "preserves aio_inv (aio_receive flt got t now i)"
    unfolding aio_receive_def
    by (auto intro!: preserves_then preserves_bind preserves_gets preserves_liftE preserves_ret preserves_raise
        ensure_consumer_inv split: option.splits sum.splits)
  show "preserves aio_inv (aio_acknowledge r)"
    unfolding aio_acknowledge_def by (intro preserves_bind aio_effects_inv)
  show "preserves aio_inv (aio_reject dumps r b)"
    unfolding aio_reject_def
    by (intro preserves_bind preserves_then hoare_if preserves_ret aio_effects_inv)
  show "preserves aio_inv aio_close"
    by (auto simp: aio_close_def hoare_def prog_defs client_call_def aio_inv_def Let_def
        split: prod.splits sum.splits option.splits)
qed

lemma int_str_nonneg: "0 \<le> i \<Longrightarrow> py_int (int_str i) = Some i"
  by (simp add: int_str_def)

lemma retry_delivery_count:
  "0 \<le> rp_delivery_count r \<Longrightarrow>
   delivery_count_of (ks_headers (retry_message dumps m r)) = rp_delivery_count r + 1"
  by (simp add: delivery_count_of_def retry_message_def int_str_nonneg)

lemma aio_pop_active:
  "map_of (aq_leases q) (id_value (rp_lease_id r)) = Some m \<Longrightarrow> aq_consumer q \<Longrightarrow>
   aio_pop r q = (Inr m, q \<lparr> aq_leases := AList.delete (id_value (rp_lease_id r)) (aq_leases q) \<rparr>)"
  by (simp add: aio_pop_def prog_defs Let_def)

text \<open>What rejecting a leased record does, also when the client fails: the offset is committed first, so
  a failing send loses the command.\<close>

lemma aio_reject_spec:
  assumes "map_of (aq_leases q) (id_value (rp_lease_id r)) = Some m" and "aq_consumer q"
    and "aq_io q (aq_calls q) = None"
  obtains q' where "aq_commits q' = aq_commits q @ [(kr_topic m, kr_partition m, kr_offset m + 1)]"
    and "map_of (aq_leases q') (id_value (rp_lease_id r)) = None"
    and "\<not> (b \<and> rp_delivery_count r < 3) \<Longrightarrow>
      aio_reject dumps r b q = (Inr (), q') \<and> aq_sent q' = aq_sent q"
    and "b \<Longrightarrow> rp_delivery_count r < 3 \<Longrightarrow> aq_io q (Suc (aq_calls q)) = None \<Longrightarrow>
      aio_reject dumps r b q = (Inr (), q') \<and> aq_sent q' = aq_sent q @ [retry_message dumps m r]"
    and "b \<Longrightarrow> rp_delivery_count r < 3 \<Longrightarrow> aq_io q (Suc (aq_calls q)) = Some e \<Longrightarrow>
      aio_reject dumps r b q = (Inl e, q') \<and> aq_sent q' = aq_sent q"
proof
  let ?q = "snd (aio_reject dumps r b q)"
  note run = aio_reject_def aio_pop_active [OF assms(1,2)] prog_defs aio_commit_def aio_send_def client_call_def
    Let_def assms(3) max_retries_def
  show "aq_commits ?q = aq_commits q @ [(kr_topic m, kr_partition m, kr_offset m + 1)]"
    and "map_of (aq_leases ?q) (id_value (rp_lease_id r)) = None"
    by (simp_all add: run map_of_delete_fun split: option.splits)
  show "aio_reject dumps r b q = (Inr (), ?q) \<and> aq_sent ?q = aq_sent q" if "\<not> (b \<and> rp_delivery_count r < 3)"
    using that by (cases b) (simp_all add: run)
  show "aio_reject dumps r b q = (Inr (), ?q) \<and> aq_sent ?q = aq_sent q @ [retry_message dumps m r]"
    if "b" "rp_delivery_count r < 3" "aq_io q (Suc (aq_calls q)) = None"
    using that by (simp add: run)
  show "aio_reject dumps r b q = (Inl e, ?q) \<and> aq_sent ?q = aq_sent q"
    if "b" "rp_delivery_count r < 3" "aq_io q (Suc (aq_calls q)) = Some e"
    using that by (simp add: run)
qed

lemma aio_receive_record:
  assumes "aq_consumer q" and "aq_producer q" and "command_of_payload flt t (kr_value m) = okD c"
  shows "aio_receive flt (Inr m) t now i q =
    (Inr (Some \<lparr> rp_command = c, rp_lease_id = LeaseId i, rp_delivery_count = delivery_count_of (kr_headers m),
        rp_leased_at = now, rp_lease_expires_at = now + seconds (aq_lease_seconds q) \<rparr>),
     q \<lparr> aq_leases := AList.update i m (aq_leases q) \<rparr>)"
  using assms by (simp add: aio_receive_def ensure_consumer_def ensure_producer_def prog_defs okD_def)

text \<open>A retried command arrives as it was, with its delivery count one higher.\<close>

lemma aio_retry_received:
  assumes "command_wf flt (rp_command r)" and "0 \<le> rp_delivery_count r"
    and "json_loads flt (dumps (command_json (rp_command r))) = Some (command_json (rp_command r))"
    and "kr_value m' = ks_value (retry_message dumps m r)" and "kr_headers m' = ks_headers (retry_message dumps m r)"
    and "aq_consumer q" and "aq_producer q"
  shows "\<exists>r' q'. aio_receive flt (Inr m') t now i q = (Inr (Some r'), q')
    \<and> rp_command r' = (rp_command r) \<lparr> rc_available_at := t \<rparr> \<and> rp_delivery_count r' = rp_delivery_count r + 1"
proof -
  have "command_of_payload flt t (kr_value m') = okD ((rp_command r) \<lparr> rc_available_at := t \<rparr>)"
    unfolding assms(4) retry_message_def using command_roundtrip [OF assms(1), where dumps = dumps] assms(3) by simp
  from aio_receive_record [OF assms(6,7) this] show ?thesis
    using retry_delivery_count [OF assms(2), of dumps m] assms(5) by simp
qed

end
