(* ===== verification/Grpc_Worker.thy ===== *)
theory Grpc_Worker
  imports Runtime_Service Kafka_Codec
begin

section \<open>The gRPC worker\<close>

text \<open>
  \<^verbatim>\<open>adapters/grpc/payloads.py\<close>, \<^verbatim>\<open>worker.py\<close> and \<^verbatim>\<open>server.py\<close>: the conversion between JSON values and
  protobuf values, the bounded worker with its slots, its registration and its running tasks, and the three
  servicers.  A protobuf number is a double: \<open>dbl\<close> is the conversion of an integer to one, \<open>None\<close> where
  it overflows.  An adapter is the record of the runtime service with, as a parameter, what \<open>invoke\<close>
  returns.  The generated message classes are records with the fields of the \<open>.proto\<close> files.
\<close>

subsection \<open>Protobuf values (payloads.py)\<close>

datatype pb_value =
    PbNull
  | PbBool bool
  | PbNumber rat string
  | PbString string
  | PbList "pb_value list"
  | PbStruct "(string \<times> pb_value) list"
  | PbUnset

primrec value_to_python :: "pb_value \<Rightarrow> json" where
  "value_to_python PbNull = JNull"
| "value_to_python (PbBool b) = JBool b"
| "value_to_python (PbNumber r t) = JFloat r t"
| "value_to_python (PbString s) = JStr s"
| "value_to_python (PbList vs) = JArr (map value_to_python vs)"
| "value_to_python (PbStruct d) = JObj (map (map_prod id value_to_python) d)"
| "value_to_python PbUnset = JNull"

definition number_overflow :: exc where
  "number_overflow = FrameworkError ''OverflowError''"

primrec python_to_value :: "(int \<Rightarrow> (rat \<times> string) option) \<Rightarrow> json \<Rightarrow> exc + pb_value" where
  "python_to_value dbl JNull = Inr PbNull"
| "python_to_value dbl (JBool b) = Inr (PbBool b)"
| "python_to_value dbl (JInt i) = (case dbl i of Some (r, t) \<Rightarrow> Inr (PbNumber r t) | None \<Rightarrow> Inl number_overflow)"
| "python_to_value dbl (JFloat r t) = Inr (PbNumber r t)"
| "python_to_value dbl (JStr s) = Inr (PbString s)"
| "python_to_value dbl (JArr xs) = map_sum id PbList (collect (map (python_to_value dbl) xs))"
| "python_to_value dbl (JObj d) = map_sum id PbStruct
     (collect (map (\<lambda>(k, r). map_sum id (Pair k) r) (map (map_prod id (python_to_value dbl)) d)))"

definition struct_of :: "(int \<Rightarrow> (rat \<times> string) option) \<Rightarrow> obj \<Rightarrow> exc + (string \<times> pb_value) list" where
  "struct_of dbl d = collect (map (\<lambda>(k, v). map_sum id (Pair k) (python_to_value dbl v)) d)"

definition obj_of_struct :: "(string \<times> pb_value) list \<Rightarrow> obj" where
  "obj_of_struct fs = map (\<lambda>(k, v). (k, value_to_python v)) fs"

subsection \<open>WorkerConfig\<close>

record WorkerConfig =
  wc_configured_concurrency :: int
  wc_policy_ceiling :: int
  wc_environment_name :: string

definition worker_config :: "int \<Rightarrow> int \<Rightarrow> WorkerConfig" where
  "worker_config configured policy = \<lparr> wc_configured_concurrency = configured, wc_policy_ceiling = policy,
     wc_environment_name = ''UR_WORKER_MAX_CONCURRENCY'' \<rparr>"

text \<open>\<open>environ or os.environ\<close>: an empty mapping counts as none.\<close>

definition resolve_config ::
  "WorkerConfig \<Rightarrow> (string, string) pydict option \<Rightarrow> (string, string) pydict \<Rightarrow> exc + int" where
  "resolve_config c environ os_environ =
     (let vals = (case environ of Some (p # d) \<Rightarrow> p # d | _ \<Rightarrow> os_environ) in
      case (case map_of vals (wc_environment_name c) of
              None \<Rightarrow> Inr (wc_configured_concurrency c)
            | Some raw \<Rightarrow> (case py_int raw of Some i \<Rightarrow> Inr i
                | None \<Rightarrow> Inl (ValueError (''invalid literal for int() with base 10: '' @ repr_str raw)))) of
        Inl e \<Rightarrow> Inl e
      | Inr env_limit \<Rightarrow>
          if env_limit < 1 then Inl (ValueError ''worker concurrency must be positive'')
          else Inr (min (min (wc_configured_concurrency c) env_limit) (wc_policy_ceiling c)))"

subsection \<open>BoundedWorker\<close>

record WorkerRegistration =
  wr_worker_id :: string
  wr_application_id :: string
  wr_revision_id :: string
  wr_deployment_id :: string
  wr_config_hash :: string
  wr_max_concurrency :: int
  wr_capabilities :: obj

type_synonym RegisterWorkerRequest = WorkerRegistration

text \<open>Running tasks are numbered; a cancelled task is recorded.\<close>

record BoundedWorker =
  bw_max_concurrency :: int
  bw_slots :: int
  bw_active :: int
  bw_draining :: bool
  bw_registration :: "WorkerRegistration option"
  bw_running :: "(string, nat) pydict"
  bw_cancelled :: "nat list"

definition new_worker :: "WorkerConfig \<Rightarrow> (string, string) pydict \<Rightarrow> exc + BoundedWorker" where
  "new_worker c os_environ = (case resolve_config c None os_environ of
     Inl e \<Rightarrow> Inl e
   | Inr m \<Rightarrow> if m < 0 then Inl (ValueError ''Semaphore initial value must be >= 0'')
       else Inr \<lparr> bw_max_concurrency = m, bw_slots = m, bw_active = 0, bw_draining = False,
                 bw_registration = None, bw_running = [], bw_cancelled = [] \<rparr>)"

definition worker_register :: "RegisterWorkerRequest \<Rightarrow> (BoundedWorker, exc, WorkerRegistration) prog" where
  "worker_register rq = (\<lambda>w.
     if wr_max_concurrency rq \<noteq> bw_max_concurrency w
     then (Inl (ValueError ''worker max concurrency does not match resolved policy''), w)
     else (Inr rq, w \<lparr> bw_registration := Some rq \<rparr>))"

definition register_running :: "string \<Rightarrow> nat \<Rightarrow> (BoundedWorker, exc, unit) prog" where
  "register_running run task = modifyM (\<lambda>w. w \<lparr> bw_running := AList.update run task (bw_running w) \<rparr>)"

definition unregister_running :: "string \<Rightarrow> (BoundedWorker, exc, unit) prog" where
  "unregister_running run = modifyM (\<lambda>w. w \<lparr> bw_running := AList.delete run (bw_running w) \<rparr>)"

definition worker_cancel :: "string \<Rightarrow> (BoundedWorker, exc, bool) prog" where
  "worker_cancel run = (\<lambda>w. case map_of (bw_running w) run of
     None \<Rightarrow> (Inr False, w) | Some task \<Rightarrow> (Inr True, w \<lparr> bw_cancelled := task # bw_cancelled w \<rparr>))"

text \<open>\<open>acquire\<close> is split where it suspends: the check, and the semaphore (\<open>False\<close>: the caller waits).\<close>

definition acquire_check :: "(BoundedWorker, exc, unit) prog" where
  "acquire_check = (\<lambda>w. if bw_draining w then (Inl (RuntimeError ''worker is draining''), w) else (Inr (), w))"

definition acquire_slot :: "(BoundedWorker, exc, bool) prog" where
  "acquire_slot = (\<lambda>w. if 0 < bw_slots w
     then (Inr True, w \<lparr> bw_slots := bw_slots w - 1, bw_active := bw_active w + 1 \<rparr>) else (Inr False, w))"

definition worker_release :: "(BoundedWorker, exc, unit) prog" where
  "worker_release = modifyM (\<lambda>w. if bw_active w \<noteq> 0
     then w \<lparr> bw_active := bw_active w - 1, bw_slots := bw_slots w + 1 \<rparr> else w)"

text \<open>\<open>drain\<close>: \<open>polls\<close> are the workers as the loop finds them at each of its turns before the deadline.\<close>

definition drain_start :: "(BoundedWorker, exc, unit) prog" where
  "drain_start = modifyM (\<lambda>w. w \<lparr> bw_draining := True \<rparr>)"

fun drain_wait :: "BoundedWorker list \<Rightarrow> BoundedWorker \<Rightarrow> exc + unit" where
  "drain_wait [] final = (if bw_active final \<noteq> 0 then Inl (TimeoutError ''worker drain timed out'') else Inr ())"
| "drain_wait (w # ws) final = (if bw_active w \<noteq> 0 then drain_wait ws final else Inr ())"

definition active_executions :: "BoundedWorker \<Rightarrow> int" where
  "active_executions w = bw_active w"

definition available_slots :: "BoundedWorker \<Rightarrow> int" where
  "available_slots w = bw_max_concurrency w - bw_active w"

subsection \<open>WorkerControlServicer\<close>

record RegisterWorkerResponse =
  rr_accepted :: bool
  rr_reason :: string
  rr_heartbeat_interval_seconds :: int
  rr_defaults :: "(string \<times> pb_value) list"

definition servicer_register :: "RegisterWorkerRequest \<Rightarrow> (BoundedWorker, exc, RegisterWorkerResponse) prog" where
  "servicer_register rq = catchM
     (bindM (worker_register rq) (\<lambda>reg. ret \<lparr> rr_accepted = True, rr_reason = '''',
        rr_heartbeat_interval_seconds = 15, rr_defaults = [(''config_hash'', PbString (wr_config_hash reg))] \<rparr>))
     (\<lambda>e. case e of ValueError m \<Rightarrow> ret \<lparr> rr_accepted = False, rr_reason = m, rr_heartbeat_interval_seconds = 0,
        rr_defaults = [] \<rparr> | _ \<Rightarrow> raise e)"

datatype worker_message = Heartbeat string | OtherMessage

text \<open>\<open>Work\<close>: each heartbeat is answered with the slots that are free when it arrives.\<close>

fun servicer_work :: "(worker_message \<times> BoundedWorker) list \<Rightarrow> (string \<times> pb_value) list list" where
  "servicer_work [] = []"
| "servicer_work ((Heartbeat wid, w) # ms) =
     [(''worker_id'', PbString wid), (''available_slots'', PbNumber (of_int (available_slots w)) (int_str (available_slots w) @ ''.0''))]
       # servicer_work ms"
| "servicer_work ((OtherMessage, w) # ms) = servicer_work ms"

record MigrateResponse =
  mr_success :: bool
  mr_error :: string

definition servicer_migrate :: "(exc + unit) option \<Rightarrow> exc + MigrateResponse" where
  "servicer_migrate migrate_app = (case migrate_app of
     None \<Rightarrow> Inr \<lparr> mr_success = False, mr_error = ''migration handler not configured'' \<rparr>
   | Some (Inl e) \<Rightarrow> if is_exception e then Inr \<lparr> mr_success = False, mr_error = exc_str e \<rparr> else Inl e
   | Some (Inr _) \<Rightarrow> Inr \<lparr> mr_success = True, mr_error = '''' \<rparr>)"

definition servicer_drain :: "string \<Rightarrow> BoundedWorker list \<Rightarrow> BoundedWorker \<Rightarrow> (BoundedWorker, exc, unit) prog" where
  "servicer_drain wid polls final = bindM (getsM bw_registration) (\<lambda>reg.
     if reg = None \<or> wid \<noteq> wr_worker_id (the reg) then raise (ValueError ''unknown worker'')
     else thenM drain_start (liftE (drain_wait polls final)))"

subsection \<open>ExecutionServicer\<close>

record ProtoIdentity =
  pi_workspace_id :: string
  pi_project_id :: string
  pi_application_id :: string
  pi_revision_id :: string
  pi_deployment_id :: string
  pi_assistant_id :: string
  pi_thread_id :: string
  pi_run_id :: string
  pi_attempt_id :: string

record InvokeRequest =
  iv_identity :: ProtoIdentity
  iv_input :: pb_value
  iv_command :: pb_value
  iv_config :: "(string \<times> pb_value) list"
  iv_context :: "(string \<times> pb_value) list"
  iv_metadata :: "(string \<times> pb_value) list"
  iv_stream_modes :: "string list"
  iv_stream_subgraphs :: bool

record ProtoEvent =
  pe_type :: string
  pe_sequence :: int
  pe_namespace :: "string list"
  pe_identity :: ProtoIdentity
  pe_timestamp :: datetime
  pe_data :: pb_value
  pe_native :: "(string \<times> pb_value) list"

record InvokeResponse =
  ir_run_id :: string
  ir_status :: string
  ir_output :: pb_value

datatype adapters = NoAdapter | OneAdapter Adapter | AdapterTable "(string, Adapter) pydict"

definition adapter_for :: "adapters \<Rightarrow> string \<Rightarrow> exc + Adapter" where
  "adapter_for ads assistant = (case ads of
     AdapterTable d \<Rightarrow> (case map_of d assistant of Some a \<Rightarrow> Inr a
       | None \<Rightarrow> Inl (RuntimeError (''no adapter registered for assistant: '' @ assistant)))
   | NoAdapter \<Rightarrow> Inl (RuntimeError ''worker graph adapter is not configured'')
   | OneAdapter a \<Rightarrow> Inr a)"

definition proto_thread :: "string \<Rightarrow> exc + typed_id option" where
  "proto_thread t = (if t = [] then Inr None else map_sum id Some (parse_id ThreadId t))"

definition identity_from_proto :: "ProtoIdentity \<Rightarrow> exc + ExecutionIdentity" where
  "identity_from_proto raw = fst (
     bindM (liftE (parse_id WorkspaceId (pi_workspace_id raw))) (\<lambda>ws.
     bindM (liftE (parse_id ProjectId (pi_project_id raw))) (\<lambda>pr.
     bindM (liftE (parse_id ApplicationId (pi_application_id raw))) (\<lambda>ap.
     bindM (liftE (parse_id RevisionId (pi_revision_id raw))) (\<lambda>rv.
     bindM (liftE (parse_id DeploymentId (pi_deployment_id raw))) (\<lambda>dp.
     bindM (liftE (parse_id AssistantId (pi_assistant_id raw))) (\<lambda>asst.
     bindM (liftE (parse_id RunId (pi_run_id raw))) (\<lambda>rn.
     bindM (liftE (parse_id AttemptId (pi_attempt_id raw))) (\<lambda>att.
     bindM (liftE (proto_thread (pi_thread_id raw))) (\<lambda>thr.
     ret \<lparr> scope = \<lparr> workspace_id = ws, project_id = pr, application_id = ap, revision_id = rv, deployment_id = dp \<rparr>,
           assistant_id = asst, run_id = rn, attempt_id = att, thread_id = thr \<rparr>))))))))) ())"

definition request_from_proto :: "InvokeRequest \<Rightarrow> exc + ExecutionRequest" where
  "request_from_proto rq = map_sum id (\<lambda>i. (default_request i)
     \<lparr> rq_input := value_to_python (iv_input rq), rq_command := value_to_python (iv_command rq),
       rq_config := obj_of_struct (iv_config rq), rq_context := obj_of_struct (iv_context rq),
       rq_metadata := obj_of_struct (iv_metadata rq),
       rq_stream_modes := (if iv_stream_modes rq = [] then [''values''] else iv_stream_modes rq),
       rq_stream_subgraphs := iv_stream_subgraphs rq \<rparr>) (identity_from_proto (iv_identity rq))"

text \<open>The body of \<open>Invoke\<close> and \<open>Stream\<close> runs with a slot taken: \<open>with_worker_slot\<close> is what both do around it,
  once the semaphore has let them in.  \<open>task\<close> is the current task.\<close>

definition with_worker_slot :: "string \<Rightarrow> nat \<Rightarrow> exc + 'a \<Rightarrow> (BoundedWorker, exc, 'a option) prog" where
  "with_worker_slot run task result = thenM acquire_check (bindM acquire_slot (\<lambda>got.
     if \<not> got then ret None
     else thenM (register_running run task)
       (finallyM (bindM (liftE result) (\<lambda>x. ret (Some x)))
         (thenM (unregister_running run) worker_release))))"

text \<open>\<open>invoke a rq\<close> is what the adapter's \<open>invoke\<close> returns.  The result is \<open>None\<close> while the call waits.\<close>

definition invoke_body ::
  "(int \<Rightarrow> (rat \<times> string) option) \<Rightarrow> (Adapter \<Rightarrow> ExecutionRequest \<Rightarrow> exc + json) \<Rightarrow> adapters \<Rightarrow> InvokeRequest \<Rightarrow>
   exc + InvokeResponse" where
  "invoke_body dbl invoke ads rq = fst (
     bindM (liftE (adapter_for ads (pi_assistant_id (iv_identity rq)))) (\<lambda>a.
     bindM (liftE (request_from_proto rq)) (\<lambda>r.
     bindM (liftE (invoke a r)) (\<lambda>output.
     bindM (liftE (python_to_value dbl output)) (\<lambda>v.
     ret \<lparr> ir_run_id = pi_run_id (iv_identity rq), ir_status = ''accepted'', ir_output = v \<rparr>)))) ())"

definition servicer_invoke ::
  "(int \<Rightarrow> (rat \<times> string) option) \<Rightarrow> (Adapter \<Rightarrow> ExecutionRequest \<Rightarrow> exc + json) \<Rightarrow> adapters \<Rightarrow> nat \<Rightarrow> InvokeRequest \<Rightarrow>
   (BoundedWorker, exc, InvokeResponse option) prog" where
  "servicer_invoke dbl invoke ads task rq =
     with_worker_slot (pi_run_id (iv_identity rq)) task (invoke_body dbl invoke ads rq)"

definition proto_event ::
  "(int \<Rightarrow> (rat \<times> string) option) \<Rightarrow> ProtoIdentity \<Rightarrow> datetime \<Rightarrow> int \<Rightarrow> RuntimeEventDraft \<Rightarrow> exc + ProtoEvent" where
  "proto_event dbl i now n d = fst (
     bindM (liftE (python_to_value dbl (dr_data d))) (\<lambda>v.
     bindM (liftE (struct_of dbl (dr_native d))) (\<lambda>nat.
     ret \<lparr> pe_type = ev_str (dr_type d), pe_sequence = n, pe_namespace = dr_namespace d, pe_identity = i,
           pe_timestamp = now, pe_data = v, pe_native = nat \<rparr>)) ())"

text \<open>The events the stream yields, and the exception it ends with, if any.\<close>

fun stream_protos ::
  "(int \<Rightarrow> (rat \<times> string) option) \<Rightarrow> ProtoIdentity \<Rightarrow> (nat \<Rightarrow> datetime) \<Rightarrow> nat \<Rightarrow> RuntimeEventDraft list \<Rightarrow> exc option \<Rightarrow>
   ProtoEvent list \<times> exc option" where
  "stream_protos dbl i clock n [] ending = ([], ending)"
| "stream_protos dbl i clock n (d # ds) ending = (case proto_event dbl i (clock n) (int n) d of
     Inl e \<Rightarrow> ([], Some e)
   | Inr p \<Rightarrow> (case stream_protos dbl i clock (Suc n) ds ending of (ps, e) \<Rightarrow> (p # ps, e)))"

definition stream_body ::
  "(int \<Rightarrow> (rat \<times> string) option) \<Rightarrow> (nat \<Rightarrow> datetime) \<Rightarrow> adapters \<Rightarrow> InvokeRequest \<Rightarrow> exc + (ProtoEvent list \<times> exc option)" where
  "stream_body dbl clock ads rq = fst (
     bindM (liftE (adapter_for ads (pi_assistant_id (iv_identity rq)))) (\<lambda>a.
     bindM (liftE (request_from_proto rq)) (\<lambda>r.
     ret (stream_protos dbl (iv_identity rq) clock 0 (fst (ad_stream a r)) (snd (ad_stream a r))))) ())"

definition servicer_stream ::
  "(int \<Rightarrow> (rat \<times> string) option) \<Rightarrow> (nat \<Rightarrow> datetime) \<Rightarrow> adapters \<Rightarrow> nat \<Rightarrow> InvokeRequest \<Rightarrow>
   (BoundedWorker, exc, (ProtoEvent list \<times> exc option) option) prog" where
  "servicer_stream dbl clock ads task rq =
     with_worker_slot (pi_run_id (iv_identity rq)) task (stream_body dbl clock ads rq)"

definition servicer_cancel :: "ProtoIdentity \<Rightarrow> (BoundedWorker, exc, unit) prog" where
  "servicer_cancel i = bindM (worker_cancel (pi_run_id i)) (\<lambda>_. ret ())"

subsection \<open>Values survive the wire\<close>

text \<open>The integers of a value for which the conversion to a double is exact.\<close>

primrec ints_exact :: "(int \<Rightarrow> (rat \<times> string) option) \<Rightarrow> json \<Rightarrow> bool" where
  "ints_exact dbl JNull = True"
| "ints_exact dbl (JBool b) = True"
| "ints_exact dbl (JInt i) = (case dbl i of None \<Rightarrow> False | Some (r, t) \<Rightarrow> r = of_int i)"
| "ints_exact dbl (JFloat r t) = True"
| "ints_exact dbl (JStr s) = True"
| "ints_exact dbl (JArr xs) = list_all id (map (ints_exact dbl) xs)"
| "ints_exact dbl (JObj d) = list_all snd (map (map_prod id (ints_exact dbl)) d)"

lemma python_to_value_total:
  "ints_exact dbl v \<Longrightarrow> \<exists>p. python_to_value dbl v = Inr p"
proof (induction v)
  case (JArr xs)
  then have "\<forall>x \<in> set xs. \<exists>p. python_to_value dbl x = Inr p" by (simp add: list_all_iff)
  then obtain f where "\<forall>x \<in> set xs. python_to_value dbl x = Inr (f x)" by metis
  then have "map (python_to_value dbl) xs = map Inr (map f xs)" by simp
  then have "collect (map (python_to_value dbl) xs) = Inr (map f xs)" by (simp only: collect_all)
  then show ?case by simp
next
  case (JObj d)
  have "\<forall>p \<in> set d. \<exists>x. python_to_value dbl (snd p) = Inr x"
  proof
    fix p assume p: "p \<in> set d"
    then have "ints_exact dbl (snd p)" using JObj.prems by (auto simp: list_all_iff)
    then show "\<exists>x. python_to_value dbl (snd p) = Inr x" using JObj.IH p by (metis prod.collapse snds.intros)
  qed
  then obtain f where f: "\<forall>p \<in> set d. python_to_value dbl (snd p) = Inr (f p)" by metis
  then have "map (\<lambda>(k, r). map_sum id (Pair k) r) (map (map_prod id (python_to_value dbl)) d) =
      map Inr (map (\<lambda>p. (fst p, f p)) d)" by auto
  then have "collect (map (\<lambda>(k, r). map_sum id (Pair k) r) (map (map_prod id (python_to_value dbl)) d)) =
      Inr (map (\<lambda>p. (fst p, f p)) d)" by (simp only: collect_all)
  then show ?case by (simp del: map_map)
qed (auto split: option.splits)

lemma python_value_roundtrip:
  "python_to_value dbl v = Inr p \<Longrightarrow> ints_exact dbl v \<Longrightarrow> json_ok v \<Longrightarrow> py_eq (value_to_python p) v"
proof (induction v arbitrary: p)
  case (JArr xs)
  then obtain ps where p: "p = PbList ps" and ps: "map (python_to_value dbl) xs = map Inr ps"
    by (cases "collect (map (python_to_value dbl) xs)") (auto simp: collect_Inr)
  have len: "length xs = length ps" using ps by (metis length_map)
  have "py_eq (value_to_python (ps ! i)) (xs ! i)" if "i < length xs" for i
  proof -
    have "python_to_value dbl (xs ! i) = Inr (ps ! i)"
      using ps that len by (metis nth_map)
    moreover have "ints_exact dbl (xs ! i)" "json_ok (xs ! i)"
      using JArr.prems that by (auto simp: list_all_iff)
    ultimately show ?thesis using JArr.IH that by (meson nth_mem)
  qed
  with len p show ?case by (auto simp: list_all2_conv_all_nth)
next
  case (JObj d)
  let ?g = "\<lambda>(k, r). map_sum id (Pair k) r"
  obtain ps where p: "p = PbStruct ps" and ps: "map ?g (map (map_prod id (python_to_value dbl)) d) = map Inr ps"
    using JObj.prems(1)
    by (cases "collect (map ?g (map (map_prod id (python_to_value dbl)) d))") (auto simp: collect_Inr simp del: map_map)
  have len: "length d = length ps" using ps by (metis length_map)
  have el: "fst (ps ! i) = fst (d ! i) \<and> py_eq (value_to_python (snd (ps ! i))) (snd (d ! i))" if "i < length d" for i
  proof -
    have "?g (map_prod id (python_to_value dbl) (d ! i)) = Inr (ps ! i)"
      using ps that len by (metis (no_types, lifting) length_map nth_map)
    then obtain x where x: "python_to_value dbl (snd (d ! i)) = Inr x" "ps ! i = (fst (d ! i), x)"
      by (cases "d ! i"; cases "python_to_value dbl (snd (d ! i))") auto
    moreover have "ints_exact dbl (snd (d ! i))" "json_ok (snd (d ! i))"
      using JObj.prems that by (force simp: list_all_iff)+
    moreover have "snd (d ! i) \<in> Basic_BNFs.snds (d ! i)" "d ! i \<in> set d"
      using that by (auto simp: snds.simps prod_eq_iff)
    ultimately show ?thesis using JObj.IH by auto
  qed
  have keys: "map fst ps = map fst d" using len el by (auto intro: nth_equalityI)
  have "case map_of d k of None \<Rightarrow> False | Some w \<Rightarrow> py_eq (value_to_python v) w" if kv: "(k, v) \<in> set ps" for k v
  proof -
    obtain i where i: "i < length ps" "ps ! i = (k, v)" using kv by (meson in_set_conv_nth)
    then have "d ! i = (k, snd (d ! i))" using el [of i] len by (metis fst_conv prod.collapse)
    moreover have "d ! i \<in> set d" using i len by simp
    ultimately have "map_of d k = Some (snd (d ! i))" using JObj.prems(3) by (metis json_ok.simps(7) map_of_eq_Some_iff)
    then show ?thesis using el [of i] i len by simp
  qed
  then show ?case using p len by (auto simp: list_all_iff)
qed (auto split: option.splits)

subsection \<open>Slots\<close>

lemma resolve_config_bounds:
  assumes "resolve_config c environ os = Inr m"
  shows "m \<le> wc_configured_concurrency c \<and> m \<le> wc_policy_ceiling c"
  using assms by (auto simp: resolve_config_def Let_def split: option.splits sum.splits if_splits list.splits)

text \<open>The tasks of a worker, each at one of the points where \<open>acquire\<close> suspends.\<close>

datatype bw_phase = BwNew | BwWaiting | BwInside | BwGone | BwRefused

fun bw_task_step :: "bw_phase \<Rightarrow> BoundedWorker \<Rightarrow> bw_phase \<times> BoundedWorker" where
  "bw_task_step BwNew w = (case acquire_check w of (Inr _, w') \<Rightarrow> (BwWaiting, w') | (Inl _, w') \<Rightarrow> (BwRefused, w'))"
| "bw_task_step BwWaiting w = (case acquire_slot w of (Inr True, w') \<Rightarrow> (BwInside, w') | (_, w') \<Rightarrow> (BwWaiting, w'))"
| "bw_task_step BwInside w = (BwGone, snd (worker_release w))"
| "bw_task_step p w = (p, w)"

inductive bw_step :: "BoundedWorker \<times> bw_phase list \<Rightarrow> BoundedWorker \<times> bw_phase list \<Rightarrow> bool" where
  bw_spawn: "bw_step (w, ps) (w, ps @ [BwNew])"
| bw_task: "i < length ps \<Longrightarrow> bw_task_step (ps ! i) w = (p, w') \<Longrightarrow> bw_step (w, ps) (w', ps[i := p])"
| bw_drain: "bw_step (w, ps) (snd (drain_start w), ps)"
| bw_register: "bw_step (w, ps) (snd (worker_register rq w), ps)"
| bw_cancel: "bw_step (w, ps) (snd (worker_cancel run w), ps)"

definition bw_inside :: "bw_phase list \<Rightarrow> int" where
  "bw_inside ps = int (length (filter (\<lambda>p. p = BwInside) ps))"

definition bw_inv :: "int \<Rightarrow> BoundedWorker \<times> bw_phase list \<Rightarrow> bool" where
  "bw_inv m s = (case s of (w, ps) \<Rightarrow> bw_max_concurrency w = m \<and> 0 \<le> bw_slots w \<and> bw_active w = bw_inside ps
     \<and> bw_slots w + bw_active w = m)"

lemma bw_inside_update:
  assumes "i < length ps"
  shows "bw_inside (ps[i := p]) = bw_inside ps - (if ps ! i = BwInside then 1 else 0) + (if p = BwInside then 1 else 0)"
proof -
  have ps: "ps = take i ps @ ps ! i # drop (Suc i) ps" using assms by (rule id_take_nth_drop)
  have "ps[i := p] = take i ps @ p # drop (Suc i) ps" using assms by (rule upd_conv_take_nth_drop)
  then show ?thesis by (subst (2) ps) (simp add: bw_inside_def)
qed

lemma bw_inside_pos: "i < length ps \<Longrightarrow> ps ! i = BwInside \<Longrightarrow> 0 < bw_inside ps"
  by (auto simp: bw_inside_def filter_empty_conv) (metis nth_mem)

lemma bw_inv_step: "bw_step s s' \<Longrightarrow> bw_inv m s \<Longrightarrow> bw_inv m s'"
proof (induction rule: bw_step.induct)
  case (bw_task i ps w p w')
  then show ?case
    using bw_inside_pos [of i ps]
    by (cases "ps ! i")
      (auto simp: bw_inv_def bw_inside_update acquire_check_def acquire_slot_def worker_release_def prog_defs
        split: if_splits)
next
  case (bw_cancel w ps run)
  then show ?case by (auto simp: bw_inv_def worker_cancel_def split: option.splits)
qed (auto simp: bw_inv_def bw_inside_def drain_start_def worker_register_def modifyM_def)

lemma bw_inv_start: "new_worker c os = Inr w \<Longrightarrow> bw_inv (bw_max_concurrency w) (w, [])"
  by (auto simp: new_worker_def bw_inv_def bw_inside_def split: sum.splits if_splits)

lemma bw_inv_reachable: "bw_step\<^sup>*\<^sup>* s s' \<Longrightarrow> bw_inv m s \<Longrightarrow> bw_inv m s'"
  by (induction rule: rtranclp_induct) (auto intro: bw_inv_step)

lemma bw_inside_nonneg [simp]: "0 \<le> bw_inside ps"
  by (simp add: bw_inside_def)

text \<open>A call gives its slot back however its body ends.\<close>

lemma with_worker_slot_balanced:
  assumes "bw_inv m (w, ps)" and "with_worker_slot run task result w = (r, w')"
  shows "bw_slots w' = bw_slots w \<and> bw_active w' = bw_active w \<and> bw_draining w' = bw_draining w"
proof -
  have "bw_inside ps + 1 \<noteq> 0" using bw_inside_nonneg [of ps] by linarith
  then show ?thesis
  using assms
  by (cases result)
    (auto simp: with_worker_slot_def prog_defs acquire_check_def acquire_slot_def register_running_def
      unregister_running_def worker_release_def bw_inv_def split: if_splits)
qed

lemma with_worker_slot_result:
  assumes "\<not> bw_draining w" and "0 < bw_slots w"
  shows "fst (with_worker_slot run task result w) = map_sum id Some result"
  using assms
  by (cases result)
    (simp_all add: with_worker_slot_def prog_defs acquire_check_def acquire_slot_def register_running_def
      unregister_running_def worker_release_def)

text \<open>Draining is only checked before the wait: a task that waits for a slot is let in afterwards.\<close>

lemma waiter_enters_draining:
  assumes "bw_draining w" and "0 < bw_slots w" and "i < length ps" and "ps ! i = BwWaiting"
  shows "\<exists>w'. bw_step (w, ps) (w', ps[i := BwInside]) \<and> bw_draining w' \<and> bw_active w' = bw_active w + 1"
  using assms
  by (intro exI [of _ "w \<lparr> bw_slots := bw_slots w - 1, bw_active := bw_active w + 1 \<rparr>"])
    (auto simp: acquire_slot_def intro!: bw_task)

subsection \<open>Streams are numbered\<close>

lemma stream_protos_numbered:
  "stream_protos dbl i clock n ds ending = (ps, e) \<Longrightarrow>
   map pe_sequence ps = map int [n..<n + length ps] \<and> list_all (\<lambda>p. pe_identity p = i) ps"
proof (induction ds arbitrary: n ps e)
  case (Cons d ds)
  show ?case
  proof (cases "proto_event dbl i (clock n) (int n) d")
    case (Inr p)
    obtain ps' e' where s: "stream_protos dbl i clock (Suc n) ds ending = (ps', e')" by fastforce
    then have "ps = p # ps'" using Cons.prems Inr by simp
    moreover have "pe_sequence p = int n" "pe_identity p = i"
      using Inr by (auto simp: proto_event_def bindM_def liftE_def ret_def split: sum.splits prod.splits)
    ultimately show ?thesis using Cons.IH [OF s] by (simp add: upt_conv_Cons del: upt_Suc)
  qed (use Cons.prems in simp)
qed simp

lemma stream_protos_complete:
  assumes "list_all (\<lambda>d. ints_exact dbl (dr_data d) \<and> ints_exact dbl (JObj (dr_native d))) ds"
  shows "\<exists>ps. stream_protos dbl i clock n ds ending = (ps, ending) \<and> map pe_type ps = map (\<lambda>d. ev_str (dr_type d)) ds"
  using assms
proof (induction ds arbitrary: n)
  case (Cons d ds)
  obtain v where "python_to_value dbl (dr_data d) = Inr v" using Cons.prems python_to_value_total by auto
  moreover obtain fs where "struct_of dbl (dr_native d) = Inr fs"
  proof -
    obtain p where "python_to_value dbl (JObj (dr_native d)) = Inr p"
      using Cons.prems python_to_value_total [of dbl "JObj (dr_native d)"] by auto
    moreover have "map (\<lambda>(k, r). map_sum id (Pair k) r) (map (map_prod id (python_to_value dbl)) (dr_native d)) =
        map (\<lambda>(k, v). map_sum id (Pair k) (python_to_value dbl v)) (dr_native d)" by auto
    ultimately show ?thesis
      using that by (cases "struct_of dbl (dr_native d)") (auto simp: struct_of_def simp del: map_map)
  qed
  ultimately have "\<exists>p. proto_event dbl i (clock n) (int n) d = Inr p \<and> pe_type p = ev_str (dr_type d)"
    by (simp add: proto_event_def bindM_def liftE_def ret_def)
  with Cons.IH [of "Suc n"] Cons.prems show ?case by fastforce
qed simp

end
