(* ===== verification/Sha256.thy ===== *)
theory Sha256
  imports Python_Values "HOL-Library.Word"
begin

section \<open>hashlib.sha256\<close>

text \<open>
  SHA-256 on 32-bit words, the digest with which configuration revisions are identified and from which
  the key of the migration lock is taken.  A text is the sequence of its UTF-8 bytes.
\<close>

unbundle bit_operations_syntax

type_synonym w32 = "32 word"

definition round_constants :: "w32 list" where
  "round_constants =
    [0x428A2F98, 0x71374491, 0xB5C0FBCF, 0xE9B5DBA5, 0x3956C25B, 0x59F111F1, 0x923F82A4, 0xAB1C5ED5,
     0xD807AA98, 0x12835B01, 0x243185BE, 0x550C7DC3, 0x72BE5D74, 0x80DEB1FE, 0x9BDC06A7, 0xC19BF174,
     0xE49B69C1, 0xEFBE4786, 0x0FC19DC6, 0x240CA1CC, 0x2DE92C6F, 0x4A7484AA, 0x5CB0A9DC, 0x76F988DA,
     0x983E5152, 0xA831C66D, 0xB00327C8, 0xBF597FC7, 0xC6E00BF3, 0xD5A79147, 0x06CA6351, 0x14292967,
     0x27B70A85, 0x2E1B2138, 0x4D2C6DFC, 0x53380D13, 0x650A7354, 0x766A0ABB, 0x81C2C92E, 0x92722C85,
     0xA2BFE8A1, 0xA81A664B, 0xC24B8B70, 0xC76C51A3, 0xD192E819, 0xD6990624, 0xF40E3585, 0x106AA070,
     0x19A4C116, 0x1E376C08, 0x2748774C, 0x34B0BCB5, 0x391C0CB3, 0x4ED8AA4A, 0x5B9CCA4F, 0x682E6FF3,
     0x748F82EE, 0x78A5636F, 0x84C87814, 0x8CC70208, 0x90BEFFFA, 0xA4506CEB, 0xBEF9A3F7, 0xC67178F2]"

definition initial_hash :: "w32 list" where
  "initial_hash =
    [0x6A09E667, 0xBB67AE85, 0x3C6EF372, 0xA54FF53A, 0x510E527F, 0x9B05688C, 0x1F83D9AB, 0x5BE0CD19]"

definition rotr :: "nat \<Rightarrow> w32 \<Rightarrow> w32" where
  "rotr n x = drop_bit n x OR push_bit (32 - n) x"

definition small_sigma0 :: "w32 \<Rightarrow> w32" where
  "small_sigma0 x = rotr 7 x XOR rotr 18 x XOR drop_bit 3 x"

definition small_sigma1 :: "w32 \<Rightarrow> w32" where
  "small_sigma1 x = rotr 17 x XOR rotr 19 x XOR drop_bit 10 x"

definition big_sigma0 :: "w32 \<Rightarrow> w32" where
  "big_sigma0 x = rotr 2 x XOR rotr 13 x XOR rotr 22 x"

definition big_sigma1 :: "w32 \<Rightarrow> w32" where
  "big_sigma1 x = rotr 6 x XOR rotr 11 x XOR rotr 25 x"

definition choose_bits :: "w32 \<Rightarrow> w32 \<Rightarrow> w32 \<Rightarrow> w32" where
  "choose_bits x y z = (x AND y) XOR (NOT x AND z)"

definition majority_bits :: "w32 \<Rightarrow> w32 \<Rightarrow> w32 \<Rightarrow> w32" where
  "majority_bits x y z = (x AND y) XOR (x AND z) XOR (y AND z)"

text \<open>The message: its bytes, a one bit, zeros, and its length in bits as eight bytes.\<close>

fun be_bytes :: "nat \<Rightarrow> int \<Rightarrow> int list" where
  "be_bytes 0 v = []"
| "be_bytes (Suc n) v = be_bytes n (v div 256) @ [v mod 256]"

definition padding :: "nat \<Rightarrow> int list" where
  "padding n = 128 # replicate ((119 - n mod 64) mod 64) 0 @ be_bytes 8 (8 * int n)"

fun words_of :: "int list \<Rightarrow> w32 list" where
  "words_of (a # b # c # d # r) = word_of_int (((a * 256 + b) * 256 + c) * 256 + d) # words_of r"
| "words_of _ = []"

text \<open>The message schedule, the newest word first.\<close>

fun extend_schedule :: "nat \<Rightarrow> w32 list \<Rightarrow> w32 list" where
  "extend_schedule 0 ws = ws"
| "extend_schedule (Suc n) ws = extend_schedule n
     ((small_sigma1 (ws ! 1) + ws ! 6 + small_sigma0 (ws ! 14) + ws ! 15) # ws)"

definition compress_round :: "w32 \<times> w32 \<Rightarrow> w32 list \<Rightarrow> w32 list" where
  "compress_round kw s = (case s of
     [a, b, c, d, e, f, g, h] \<Rightarrow>
       (let t1 = h + big_sigma1 e + choose_bits e f g + fst kw + snd kw;
            t2 = big_sigma0 a + majority_bits a b c
        in [t1 + t2, a, b, c, d + t1, e, f, g])
   | _ \<Rightarrow> s)"

definition compress :: "w32 list \<Rightarrow> w32 list \<Rightarrow> w32 list" where
  "compress hash block =
     (let ws = rev (extend_schedule 48 (rev block))
      in map2 (+) hash (fold compress_round (zip round_constants ws) hash))"

function blocks :: "'a list \<Rightarrow> 'a list list" where
  "blocks ws = (if ws = [] then [] else take 16 ws # blocks (drop 16 ws))"
  by pat_completeness auto
termination by (relation "measure length") auto

declare blocks.simps [simp del]

definition sha256 :: "string \<Rightarrow> int list" where
  "sha256 s =
     (let bytes = map of_char s :: int list
      in concat (map (\<lambda>w. be_bytes 4 (uint w))
           (fold (\<lambda>b h. compress h b) (blocks (words_of (bytes @ padding (length bytes)))) initial_hash)))"

definition hexdigest :: "int list \<Rightarrow> string" where
  "hexdigest bs = concat (map (\<lambda>b. [hex_digit (nat (b div 16)), hex_digit (nat (b mod 16))]) bs)"

definition sha256_hex :: "string \<Rightarrow> string" where
  "sha256_hex s = hexdigest (sha256 s)"

subsection \<open>Shape of the digest\<close>

lemma be_bytes_length [simp]: "length (be_bytes n v) = n"
  by (induction n arbitrary: v) auto

lemma be_bytes_range: "b \<in> set (be_bytes n v) \<Longrightarrow> 0 \<le> b \<and> b < 256"
  by (induction n arbitrary: v) auto

lemma compress_round_length [simp]: "length (compress_round kw s) = length s"
  by (auto simp: compress_round_def Let_def split: list.splits)

lemma compress_rounds_length [simp]: "length (fold compress_round kws s) = length s"
  by (induction kws arbitrary: s) auto

lemma compress_length [simp]: "length (compress h b) = length h"
  by (simp add: compress_def Let_def)

lemma compress_fold_length [simp]: "length (fold (\<lambda>b h. compress h b) bs h) = length h"
  by (induction bs arbitrary: h) auto

lemma sha256_length: "length (sha256 s) = 32"
  by (simp add: sha256_def Let_def length_concat comp_def initial_hash_def sum_list_triv)

lemma sha256_bytes: "b \<in> set (sha256 s) \<Longrightarrow> 0 \<le> b \<and> b < 256"
  by (auto simp: sha256_def Let_def dest: be_bytes_range)

lemma sha256_hex_length: "length (sha256_hex s) = 64"
  by (simp add: sha256_hex_def hexdigest_def length_concat comp_def sha256_length sum_list_triv)

text \<open>The padded message is a whole number of blocks.\<close>

lemma padding_length: "(n + length (padding n)) mod 64 = 0"
proof -
  define q m where "q = n div 64" and "m = n mod 64"
  then have n: "n = 64 * q + m" and m: "m < 64" by simp_all
  have "n + (9 + (119 - n mod 64)) = 64 * (q + 2)"
    unfolding m_def [symmetric] using n m by simp
  then have "(n + (9 + (119 - n mod 64))) mod 64 = 0" by simp
  then have "(n + (9 + (119 - n mod 64) mod 64)) mod 64 = 0" by (simp only: mod_add_right_eq add.assoc [symmetric])
  then show ?thesis by (simp add: padding_def add.commute add.left_commute)
qed

end
