(* ===== verification/Configuration_Store.thy ===== *)
theory Configuration_Store
  imports Domain Json_Text Sha256 "HOL-Library.Multiset"
begin

section \<open>Application configuration revisions\<close>

text \<open>
  The two implementations of the configuration port: \<^verbatim>\<open>adapters/memory/configuration.py\<close> and
  \<^verbatim>\<open>PostgresApplicationConfigRepository\<close> of \<^verbatim>\<open>adapters/postgres/repositories.py\<close>.  Both are shown to
  satisfy one contract, the locale \<open>config_store\<close>.  A table of the database is the list of its rows; a
  transaction that raises is rolled back.
\<close>

subsection \<open>The canonical text of a configuration\<close>

text \<open>Two JSON values that differ in the order of object keys only.\<close>

inductive same_json :: "json \<Rightarrow> json \<Rightarrow> bool" where
  same_refl: "same_json v v"
| same_arr: "list_all2 same_json xs ys \<Longrightarrow> same_json (JArr xs) (JArr ys)"
| same_obj: "list_all2 (rel_prod (=) same_json) d e \<Longrightarrow> mset e' = mset e \<Longrightarrow> same_json (JObj d) (JObj e')"

lemma distinct_sort_key: "distinct (map fst (sort_key fst xs)) \<longleftrightarrow> distinct (map fst xs)"
proof -
  have "mset (map fst (sort_key fst xs)) = mset (map fst xs)" by (simp only: mset_map mset_sort)
  then show ?thesis by (rule mset_eq_imp_distinct_iff)
qed

lemma sort_key_perm:
  assumes "mset xs = mset ys" and "distinct (map fst xs)"
  shows "sort_key fst xs = sort_key fst (ys :: (string \<times> 'a) list)"
proof (rule properties_for_sort_key [symmetric])
  show "mset (sort_key fst xs) = mset ys" using assms(1) by simp
  show "sorted (map fst (sort_key fst xs))" by simp
  fix k assume k: "k \<in> set (sort_key fst xs)"
  have s: "set xs = set ys" using assms(1) by (metis set_mset_mset)
  have d: "distinct (map fst ys)"
    using assms by (metis distinct_map mset_map mset_eq_imp_distinct_iff)
  have one: "filter (\<lambda>x. fst k = fst x) zs = [k]" if "distinct (map fst zs)" "k \<in> set zs" for zs
    using that
  proof (induction zs)
    case (Cons z zs)
    then show ?case by (auto simp: filter_empty_conv image_iff)
  qed simp
  show "filter (\<lambda>x. fst k = fst x) (sort_key fst xs) = filter (\<lambda>x. fst k = fst x) ys"
    using one [of "sort_key fst xs"] one [of ys] d assms(2) k s by (simp add: distinct_sort_key)
qed

text \<open>The hash of a configuration does not depend on the order in which its keys were written.\<close>

lemma same_json_sort: "same_json a b \<Longrightarrow> json_ok a \<Longrightarrow> sort_json a = sort_json b"
proof (induction rule: same_json.induct)
  case (same_arr xs ys)
  have "map sort_json xs = map sort_json ys"
    using same_arr by (auto simp: list_all2_conv_all_nth list_all_length intro!: nth_equalityI)
  then show ?case by simp
next
  case (same_obj d e e')
  have ok: "distinct (map fst d)" and oks: "(k, v) \<in> set d \<Longrightarrow> json_ok v" for k v
    using same_obj.prems by (auto simp: list_all_iff)
  have "map (map_prod id sort_json) d = map (map_prod id sort_json) e"
  proof (rule nth_equalityI)
    show "length (map (map_prod id sort_json) d) = length (map (map_prod id sort_json) e)"
      using same_obj(1) by (auto dest: list_all2_lengthD)
    fix i assume "i < length (map (map_prod id sort_json) d)"
    then have i: "i < length d" by simp
    obtain k v where kv: "d ! i = (k, v)" by fastforce
    obtain k' v' where kv': "e ! i = (k', v')" by fastforce
    have "k = k' \<and> same_json v v' \<and> (json_ok v \<longrightarrow> sort_json v = sort_json v')"
      using same_obj(1) i kv kv' by (auto simp: list_all2_conv_all_nth rel_prod.simps)
    then show "map (map_prod id sort_json) d ! i = map (map_prod id sort_json) e ! i"
      using i kv kv' oks [of k v] same_obj(1) nth_mem [OF i] by (auto dest: list_all2_lengthD)
  qed
  moreover have "mset (map (map_prod id sort_json) e) = mset (map (map_prod id sort_json) e')"
    using same_obj.hyps by (simp add: mset_map)
  moreover have "map fst (map (map_prod id sort_json) d) = map fst d" by simp
  ultimately show ?case
    using sort_key_perm [of "map (map_prod id sort_json) d"] ok by (metis sort_json.simps(7))
qed simp

lemma canonical_same: "same_json a b \<Longrightarrow> json_ok a \<Longrightarrow> canonical_json a = canonical_json b"
  by (simp add: canonical_json_def same_json_sort)

lemma sort_json_wf: "json_wf flt v \<Longrightarrow> json_wf flt (sort_json v)"
proof (induction v)
  case (JObj d)
  then have "distinct (map fst (sort_key fst (map (map_prod id sort_json) d)))"
    by (simp only: distinct_sort_key) simp
  with JObj show ?case by (fastforce simp: list_all_iff)
qed (auto simp: list_all_iff)

lemma canonical_roundtrip: "json_wf flt v \<Longrightarrow> json_loads flt (canonical_json v) = Some (sort_json v)"
  unfolding canonical_json_def by (rule json_loads_dumps [OF sort_json_wf])

subsection \<open>The contract\<close>

definition active_missing :: "string \<Rightarrow> exc" where
  "active_missing app = runtime_failure RESOURCE_NOT_FOUND (''active config not found: '' @ app)"

text \<open>\<open>revs s app\<close> are the revisions of an application in the order of their numbers.\<close>

locale config_store =
  fixes create :: "string \<Rightarrow> string \<Rightarrow> obj \<Rightarrow> ('s, exc, ConfigRevision) prog"
    and activate :: "string \<Rightarrow> int \<Rightarrow> ('s, exc, ConfigRevision) prog"
    and get_active :: "string \<Rightarrow> ('s, exc, ConfigRevision) prog"
    and revs :: "'s \<Rightarrow> string \<Rightarrow> ConfigRevision list"
    and inv :: "'s \<Rightarrow> bool"
  assumes create_spec: "inv s \<Longrightarrow> rid \<noteq> [] \<Longrightarrow> create rid app cfg s = (Inr r, s') \<Longrightarrow>
      inv s' \<and> cr_revision r = int (length (revs s app)) + 1
      \<and> (\<exists>c. revs s' = (revs s)(app := revs s app @ [r \<lparr> cr_config := c \<rparr>]))"
    and create_error: "inv s \<Longrightarrow> rid \<noteq> [] \<Longrightarrow> create rid app cfg s = (Inl e, s') \<Longrightarrow> inv s' \<and> revs s' = revs s"
    and inv_numbered: "inv s \<Longrightarrow> map cr_revision (revs s app) = map int [1..<Suc (length (revs s app))]"
    and inv_active: "inv s \<Longrightarrow> length (filter cr_active (revs s app)) \<le> 1"
    and activate_spec: "inv s \<Longrightarrow> 1 \<le> n \<Longrightarrow> n \<le> int (length (revs s app)) \<Longrightarrow>
      \<exists>r s'. activate app n s = (Inr r, s') \<and> inv s' \<and> cr_revision r = n \<and> cr_active r
        \<and> revs s' = (revs s)(app := map (\<lambda>x. x \<lparr> cr_active := (cr_revision x = n) \<rparr>) (revs s app))"
    and activate_missing: "inv s \<Longrightarrow> n < 1 \<or> int (length (revs s app)) < n \<Longrightarrow> \<exists>e. activate app n s = (Inl e, s)"
    and get_active_spec: "inv s \<Longrightarrow> get_active app s =
      (case List.find cr_active (rev (revs s app)) of Some r \<Rightarrow> Inr r | None \<Rightarrow> Inl (active_missing app), s)"
begin

lemma nth_revision: "inv s \<Longrightarrow> i < length (revs s app) \<Longrightarrow> cr_revision (revs s app ! i) = int i + 1"
  using inv_numbered [of s app] by (auto dest!: arg_cong [where f = "\<lambda>l. l ! i"] simp del: upt_Suc)

lemma revision_inj:
  "inv s \<Longrightarrow> x \<in> set (revs s app) \<Longrightarrow> y \<in> set (revs s app) \<Longrightarrow> cr_revision x = cr_revision y \<Longrightarrow> x = y"
  using nth_revision by (fastforce simp: in_set_conv_nth)

text \<open>Activating a revision makes it, and only it, the active one.\<close>

lemma activate_then_get:
  assumes "inv s" and "1 \<le> n" and "n \<le> int (length (revs s app))"
  shows "\<exists>r s'. activate app n s = (Inr r, s') \<and> (\<exists>a. get_active app s' = (Inr a, s') \<and> cr_revision a = n)
    \<and> (\<forall>app'. app' \<noteq> app \<longrightarrow> fst (get_active app' s') = fst (get_active app' s))"
proof -
  obtain r s' where a: "activate app n s = (Inr r, s')" "inv s'"
    "revs s' = (revs s)(app := map (\<lambda>x. x \<lparr> cr_active := (cr_revision x = n) \<rparr>) (revs s app))"
    using activate_spec [OF assms] by blast
  define x where "x = revs s app ! nat (n - 1)"
  have x: "x \<in> set (revs s app)" "cr_revision x = n"
    unfolding x_def using assms nth_revision [of s "nat (n - 1)" app] by (auto intro: nth_mem)
  have "List.find cr_active (rev (revs s' app)) \<noteq> None"
    using x a(3) by (auto simp: find_None_iff)
  then obtain y where y: "List.find cr_active (rev (revs s' app)) = Some y" by blast
  have "cr_active y" "y \<in> set (revs s' app)" using find_SomeD [OF y] by auto
  then have "cr_revision y = n" using a(3) by auto
  then show ?thesis
    using a(1,3) y get_active_spec [OF a(2)] get_active_spec [OF assms(1)] by auto
qed

text \<open>A new revision leaves the active one in place, unless it is the first.\<close>

lemma create_keeps_active:
  assumes "inv s" and "rid \<noteq> []" and "create rid app cfg s = (Inr r, s')" and "\<not> cr_active r"
  shows "fst (get_active app' s') = fst (get_active app' s)"
  using create_spec [OF assms(1-3)] get_active_spec [of s] get_active_spec [of s'] assms(1,4) by auto

end

subsection \<open>In memory\<close>

type_synonym config_repo = "(string, ConfigRevision list) pydict"

definition revisions_of :: "config_repo \<Rightarrow> string \<Rightarrow> ConfigRevision list" where
  "revisions_of d app = (case map_of d app of Some rs \<Rightarrow> rs | None \<Rightarrow> [])"

definition config_get_active :: "string \<Rightarrow> (config_repo, exc, ConfigRevision) prog" where
  "config_get_active app = (\<lambda>d. (case List.find cr_active (rev (revisions_of d app)) of
       Some r \<Rightarrow> Inr r | None \<Rightarrow> Inl (active_missing app), d))"

text \<open>The configuration is stored as its canonical text reads back.\<close>

definition config_create_revision ::
  "(string \<Rightarrow> rat \<times> string) \<Rightarrow> string \<Rightarrow> string \<Rightarrow> obj \<Rightarrow> (config_repo, exc, ConfigRevision) prog" where
  "config_create_revision flt new_id app config = (\<lambda>d.
     let revisions = revisions_of d app; canonical = canonical_json (JObj config)
     in case json_loads flt canonical of
          Some (JObj c) \<Rightarrow>
            (let r = \<lparr> cr_application_id = app, cr_revision = int (length revisions) + 1, cr_config = c,
                       cr_config_hash = sha256_hex canonical, cr_active = (revisions = []),
                       cr_config_revision_id = Some (ConfigRevisionId new_id) \<rparr>
             in (Inr r, AList.update app (revisions @ [r]) d))
        | _ \<Rightarrow> (Inl (ValueError ''invalid JSON''), AList.update app revisions d))"

definition config_activate :: "string \<Rightarrow> int \<Rightarrow> (config_repo, exc, ConfigRevision) prog" where
  "config_activate app n = (\<lambda>d.
     let revisions = revisions_of d app
     in if n < 1 \<or> n > int (length revisions)
        then (Inl (runtime_failure RESOURCE_NOT_FOUND (''config revision not found: '' @ int_str n)), d)
        else let activated = map (\<lambda>x. x \<lparr> cr_active := (cr_revision x = n) \<rparr>) revisions
             in (Inr (activated ! nat (n - 1)), AList.update app activated d))"

definition revisions_ok :: "ConfigRevision list \<Rightarrow> bool" where
  "revisions_ok rs \<longleftrightarrow> map cr_revision rs = map int [1..<Suc (length rs)] \<and> length (filter cr_active rs) \<le> 1"

definition config_inv :: "config_repo \<Rightarrow> bool" where
  "config_inv d \<longleftrightarrow> (\<forall>app. revisions_ok (revisions_of d app)
     \<and> (revisions_of d app \<noteq> [] \<longrightarrow> filter cr_active (revisions_of d app) \<noteq> []))"

lemma revisions_of_update: "revisions_of (AList.update app rs d) = (revisions_of d)(app := rs)"
  by (auto simp: revisions_of_def map_of_update_fun)

lemma numbered_filter_one:
  "map cr_revision rs = map int [1..<Suc (length rs)] \<Longrightarrow>
   length (filter (\<lambda>x. cr_revision x = n) rs) \<le> 1"
proof (induction rs rule: rev_induct)
  case (snoc r rs)
  then have r: "cr_revision r = int (length rs) + 1"
    and rs: "map cr_revision rs = map int [1..<Suc (length rs)]" by simp_all
  have "cr_revision x < cr_revision r" if "x \<in> set rs" for x
  proof -
    have "cr_revision x \<in> set (map cr_revision rs)" using that by simp
    then show ?thesis unfolding rs using r by auto
  qed
  then have "filter (\<lambda>x. cr_revision x = n) rs = []" if "cr_revision r = n"
    using that by (force simp: filter_empty_conv)
  then show ?case using snoc.IH [OF rs] by auto
qed simp

lemma revisions_ok_activate:
  "revisions_ok rs \<Longrightarrow> revisions_ok (map (\<lambda>x. x \<lparr> cr_active := (cr_revision x = n) \<rparr>) rs)"
  using numbered_filter_one [of rs n] by (simp add: revisions_ok_def comp_def filter_map)

lemma revisions_ok_append:
  assumes "revisions_ok rs" and "cr_revision r = int (length rs) + 1" and "cr_active r \<Longrightarrow> rs = []"
  shows "revisions_ok (rs @ [r])"
  using assms by (auto simp: revisions_ok_def)

lemma revisions_ok_nth:
  "revisions_ok rs \<Longrightarrow> i < length rs \<Longrightarrow> cr_revision (rs ! i) = int i + 1"
  by (auto simp: revisions_ok_def dest!: arg_cong [where f = "\<lambda>l. l ! i"] simp del: upt_Suc)

interpretation memory_config: config_store "config_create_revision flt" config_activate config_get_active
    revisions_of config_inv
  for flt
proof (unfold_locales, goal_cases)
  case (1 s rid app cfg r s')
  then have r: "cr_revision r = int (length (revisions_of s app)) + 1"
    "cr_active r \<longleftrightarrow> revisions_of s app = []" "s' = AList.update app (revisions_of s app @ [r]) s"
    by (auto simp: config_create_revision_def Let_def split: option.splits json.splits)
  have "revisions_ok (revisions_of s app @ [r])"
    using 1(1) r by (intro revisions_ok_append) (auto simp: config_inv_def)
  with 1(1) r have "config_inv s'"
    by (auto simp: config_inv_def revisions_of_update)
  with r show ?case by (auto simp: revisions_of_update intro!: exI [of _ "cr_config r"])
next
  case (2 s rid app cfg e s')
  then have "s' = AList.update app (revisions_of s app) s"
    by (auto simp: config_create_revision_def Let_def split: option.splits json.splits)
  with 2(1) show ?case by (auto simp: config_inv_def revisions_of_update)
next
  case (5 s n app)
  let ?rs = "map (\<lambda>x. x \<lparr> cr_active := (cr_revision x = n) \<rparr>) (revisions_of s app)"
  have ok: "revisions_ok (revisions_of s app)" using 5(1) by (simp add: config_inv_def)
  have i: "nat (n - 1) < length (revisions_of s app)" using 5 by simp
  have nth: "cr_revision (revisions_of s app ! nat (n - 1)) = n" using revisions_ok_nth [OF ok i] 5 by simp
  have "\<exists>x \<in> set (revisions_of s app). cr_revision x = n" using nth nth_mem [OF i] by blast
  then have "filter cr_active ?rs \<noteq> []" by (auto simp: filter_empty_conv)
  then have "config_inv (AList.update app ?rs s)"
    using 5(1) revisions_ok_activate [OF ok, of n] by (auto simp: config_inv_def revisions_of_update)
  then show ?case using 5 i nth by (auto simp: config_activate_def Let_def revisions_of_update)
qed (auto simp: config_inv_def revisions_ok_def config_activate_def config_get_active_def Let_def)

subsection \<open>In Postgres\<close>

text \<open>\<open>json.dumps\<close> with \<open>ensure_ascii\<close>: a character beyond ASCII is written as one or two \<open>u\<close> escapes.\<close>

definition u_escape :: "nat \<Rightarrow> string" where
  "u_escape n = CHR 0x5C # CHR ''u'' # hex_digits 4 n"

definition escape_code :: "nat \<Rightarrow> string" where
  "escape_code n =
     (if n < 65536 then u_escape n
      else u_escape (55296 + (n - 65536) div 1024) @ u_escape (56320 + (n - 65536) mod 1024))"

definition low_bits :: "char \<Rightarrow> nat" where
  "low_bits c = of_char c mod 64"

function ascii_escape :: "string \<Rightarrow> string" where
  "ascii_escape [] = []"
| "ascii_escape (c # cs) =
     (let n = (of_char c :: nat) in
      if n < 127 then escape_char c @ ascii_escape cs
      else if n < 192 then escape_code n @ ascii_escape cs
      else if n < 224 then (case cs of a # r \<Rightarrow> escape_code (n mod 32 * 64 + low_bits a) @ ascii_escape r | _ \<Rightarrow> [])
      else if n < 240 then (case cs of a # b # r \<Rightarrow>
        escape_code ((n mod 16 * 64 + low_bits a) * 64 + low_bits b) @ ascii_escape r | _ \<Rightarrow> [])
      else (case cs of a # b # d # r \<Rightarrow>
        escape_code (((n mod 8 * 64 + low_bits a) * 64 + low_bits b) * 64 + low_bits d) @ ascii_escape r | _ \<Rightarrow> []))"
  by pat_completeness auto
termination by (relation "measure length") auto

primrec json_dumps_ascii :: "json \<Rightarrow> string" where
  "json_dumps_ascii JNull = ''null''"
| "json_dumps_ascii (JBool b) = (if b then ''true'' else ''false'')"
| "json_dumps_ascii (JInt i) = int_str i"
| "json_dumps_ascii (JFloat r t) = t"
| "json_dumps_ascii (JStr s) = CHR 0x22 # ascii_escape s @ [CHR 0x22]"
| "json_dumps_ascii (JArr xs) = ''['' @ join '','' (map json_dumps_ascii xs) @ '']''"
| "json_dumps_ascii (JObj d) = CHR 0x7B #
     join '','' (map (\<lambda>(k, t). CHR 0x22 # ascii_escape k @ CHR 0x22 # CHR '':'' # t) (map (map_prod id json_dumps_ascii) d))
     @ [CHR 0x7D]"

record RevisionRow =
  rv_id :: string
  rv_application_id :: string
  rv_revision_number :: int
  rv_config :: obj
  rv_config_hash :: string
  rv_active :: bool

type_synonym revision_table = "RevisionRow list"

definition integrity_error :: exc where
  "integrity_error = FrameworkError ''IntegrityError''"

text \<open>A transaction that raises is rolled back.\<close>

definition transaction :: "('s, 'e, 'a) prog \<Rightarrow> ('s, 'e, 'a) prog" where
  "transaction m = (\<lambda>s. case m s of (Inl e, _) \<Rightarrow> (Inl e, s) | (Inr x, s') \<Rightarrow> (Inr x, s'))"

definition revision_of_row :: "RevisionRow \<Rightarrow> exc + ConfigRevision" where
  "revision_of_row w = (case parse_id ConfigRevisionId (rv_id w) of
     Inl e \<Rightarrow> Inl e
   | Inr i \<Rightarrow> Inr \<lparr> cr_application_id = rv_application_id w, cr_revision = rv_revision_number w,
       cr_config = rv_config w, cr_config_hash = rv_config_hash w, cr_active = rv_active w,
       cr_config_revision_id = Some i \<rparr>)"

definition rows_of :: "revision_table \<Rightarrow> string \<Rightarrow> RevisionRow list" where
  "rows_of t app = filter (\<lambda>w. rv_application_id w = app) t"

text \<open>\<open>ORDER BY revision_number DESC LIMIT 1\<close>.\<close>

definition pg_get_active :: "string \<Rightarrow> (revision_table, exc, ConfigRevision) prog" where
  "pg_get_active app = (\<lambda>t.
     (case sort_desc rv_revision_number (filter rv_active (rows_of t app)) of
        [] \<Rightarrow> Inl (active_missing app)
      | w # _ \<Rightarrow> revision_of_row w, t))"

text \<open>\<open>jsonb\<close> is the cast of the database from text to \<open>jsonb\<close>.  The table has the unique constraints on
  (application, number) and on (application, hash).\<close>

definition pg_create_revision ::
  "(string \<Rightarrow> exc + obj) \<Rightarrow> string \<Rightarrow> string \<Rightarrow> obj \<Rightarrow> (revision_table, exc, ConfigRevision) prog" where
  "pg_create_revision jsonb new_id app config =
     (let encoded = json_dumps_ascii (sort_json (JObj config)); config_hash = sha256_hex encoded in
      transaction (\<lambda>t.
        let revision = fold max (map rv_revision_number (rows_of t app)) 0 + 1
        in case jsonb encoded of
             Inl e \<Rightarrow> (Inl e, t)
           | Inr c \<Rightarrow>
               if list_ex (\<lambda>w. rv_id w = new_id) t
                  \<or> list_ex (\<lambda>w. rv_revision_number w = revision \<or> rv_config_hash w = config_hash) (rows_of t app)
               then (Inl integrity_error, t)
               else (Inr \<lparr> cr_application_id = app, cr_revision = revision, cr_config = config,
                           cr_config_hash = config_hash, cr_active = False,
                           cr_config_revision_id = Some (ConfigRevisionId new_id) \<rparr>,
                     t @ [\<lparr> rv_id = new_id, rv_application_id = app, rv_revision_number = revision,
                            rv_config = c, rv_config_hash = config_hash, rv_active = False \<rparr>])))"

definition pg_activate :: "string \<Rightarrow> int \<Rightarrow> (revision_table, exc, ConfigRevision) prog" where
  "pg_activate app n = bindM (transaction (\<lambda>t.
     let t1 = map (\<lambda>w. if rv_application_id w = app then w \<lparr> rv_active := False \<rparr> else w) t;
         hit = (\<lambda>w. rv_application_id w = app \<and> rv_revision_number w = n);
         t2 = map (\<lambda>w. if hit w then w \<lparr> rv_active := True \<rparr> else w) t1
     in case filter hit t2 of
          [] \<Rightarrow> (Inl (runtime_failure RESOURCE_NOT_FOUND ''config revision not found''), t2)
        | w # _ \<Rightarrow> (Inr w, t2)))
     (\<lambda>w. liftE (map_sum id (\<lambda>r. r \<lparr> cr_application_id := app, cr_revision := n, cr_active := True \<rparr>)
        (revision_of_row w)))"

definition row_revision :: "RevisionRow \<Rightarrow> ConfigRevision" where
  "row_revision w = \<lparr> cr_application_id = rv_application_id w, cr_revision = rv_revision_number w,
     cr_config = rv_config w, cr_config_hash = rv_config_hash w, cr_active = rv_active w,
     cr_config_revision_id = Some (ConfigRevisionId (rv_id w)) \<rparr>"

definition pg_revisions :: "revision_table \<Rightarrow> string \<Rightarrow> ConfigRevision list" where
  "pg_revisions t app = map row_revision (rows_of t app)"

definition pg_config_inv :: "revision_table \<Rightarrow> bool" where
  "pg_config_inv t \<longleftrightarrow> list_all (\<lambda>w. rv_id w \<noteq> []) t \<and> (\<forall>app. revisions_ok (pg_revisions t app))"

lemma revision_of_row_ok: "rv_id w \<noteq> [] \<Longrightarrow> revision_of_row w = Inr (row_revision w)"
  by (simp add: revision_of_row_def row_revision_def)

lemma row_revision_simps [simp]:
  "cr_revision (row_revision w) = rv_revision_number w" "cr_active (row_revision w) = rv_active w"
  by (simp_all add: row_revision_def)

lemma rows_of_snoc: "rows_of (t @ [w]) = (rows_of t)(rv_application_id w := rows_of t (rv_application_id w) @ [w])"
  by (auto simp: rows_of_def)

lemma pg_numbers:
  "pg_config_inv t \<Longrightarrow> map rv_revision_number (rows_of t app) = map int [1..<Suc (length (rows_of t app))]"
  by (auto simp: pg_config_inv_def revisions_ok_def pg_revisions_def comp_def simp del: upt_Suc dest: spec [of _ app])

lemma fold_max_upt: "fold max (map int [1..<Suc n]) 0 = int n"
  by (induction n) auto

text \<open>The table after \<open>activate\<close>: the rows of the application are active exactly where the number fits.\<close>

lemma pg_activate_rows:
  "rows_of (map (\<lambda>w. if rv_application_id w = app \<and> rv_revision_number w = n then w \<lparr> rv_active := True \<rparr> else w)
      (map (\<lambda>w. if rv_application_id w = app then w \<lparr> rv_active := False \<rparr> else w) t)) a =
   (if a = app then map (\<lambda>w. w \<lparr> rv_active := (rv_revision_number w = n) \<rparr>) (rows_of t app) else rows_of t a)"
  by (induction t) (auto simp: rows_of_def)

lemma find_rev_single:
  assumes "length (filter P xs) \<le> 1"
  shows "List.find P (rev xs) = (case filter P xs of [] \<Rightarrow> None | x # _ \<Rightarrow> Some x)"
proof -
  have "List.find P ys = (case filter P ys of [] \<Rightarrow> None | x # _ \<Rightarrow> Some x)" for ys
    by (induction ys) auto
  moreover have "rev (filter P xs) = filter P xs"
    using assms by (cases "filter P xs") auto
  ultimately show ?thesis by (simp add: rev_filter [symmetric])
qed

definition activated :: "string \<Rightarrow> int \<Rightarrow> revision_table \<Rightarrow> revision_table" where
  "activated app n t = map (\<lambda>w. if rv_application_id w = app \<and> rv_revision_number w = n then w \<lparr> rv_active := True \<rparr> else w)
      (map (\<lambda>w. if rv_application_id w = app then w \<lparr> rv_active := False \<rparr> else w) t)"

lemma activated_ids: "list_all (\<lambda>w. rv_id w \<noteq> []) t \<Longrightarrow> list_all (\<lambda>w. rv_id w \<noteq> []) (activated app n t)"
  by (auto simp: activated_def list_all_iff)

lemma activated_rows:
  "rows_of (activated app n t) a =
   (if a = app then map (\<lambda>w. w \<lparr> rv_active := (rv_revision_number w = n) \<rparr>) (rows_of t app) else rows_of t a)"
  unfolding activated_def by (rule pg_activate_rows)

lemma activated_hits:
  "filter (\<lambda>w. rv_application_id w = app \<and> rv_revision_number w = n) (activated app n t) =
   filter (\<lambda>w. rv_revision_number w = n) (map (\<lambda>w. w \<lparr> rv_active := (rv_revision_number w = n) \<rparr>) (rows_of t app))"
  using activated_rows [of app n t app] by (simp add: rows_of_def) (metis filter_filter conj_commute)

lemma pg_activate_found:
  assumes "list_all (\<lambda>w. rv_id w \<noteq> []) t" and "w \<in> set (rows_of t app)" and "rv_revision_number w = n"
  shows "\<exists>r. pg_activate app n t = (Inr r, activated app n t) \<and> cr_revision r = n \<and> cr_active r"
proof -
  let ?hit = "\<lambda>w. rv_application_id w = app \<and> rv_revision_number w = n"
  have "filter ?hit (activated app n t) \<noteq> []"
    unfolding activated_hits using assms(2,3) by (auto simp: filter_empty_conv)
  then obtain x xs where x: "filter ?hit (activated app n t) = x # xs" by (cases "filter ?hit (activated app n t)") auto
  then have "x \<in> set (activated app n t)" by (metis filter_is_subset list.set_intros(1) subsetD)
  then have "rv_id x \<noteq> []" using activated_ids [OF assms(1), of app n] by (auto simp: list_all_iff)
  with x show ?thesis
    unfolding pg_activate_def Let_def activated_def [symmetric]
    by (simp add: transaction_def prog_defs revision_of_row_ok)
qed

lemma pg_activate_none:
  assumes "\<forall>w \<in> set (rows_of t app). rv_revision_number w \<noteq> n"
  shows "pg_activate app n t = (Inl (runtime_failure RESOURCE_NOT_FOUND ''config revision not found''), t)"
proof -
  have "filter (\<lambda>w. rv_application_id w = app \<and> rv_revision_number w = n) (activated app n t) = []"
    unfolding activated_hits using assms by (auto simp: filter_empty_conv)
  then show ?thesis unfolding pg_activate_def Let_def activated_def [symmetric]
    by (simp add: transaction_def prog_defs)
qed

lemma activated_revisions:
  "pg_revisions (activated app n t) =
     (pg_revisions t)(app := map (\<lambda>x. x \<lparr> cr_active := (cr_revision x = n) \<rparr>) (pg_revisions t app))"
  by (auto simp: fun_eq_iff pg_revisions_def activated_rows row_revision_def)

lemma pg_row_numbers:
  assumes "pg_config_inv t"
  shows "(\<exists>w \<in> set (rows_of t app). rv_revision_number w = n) \<longleftrightarrow> 1 \<le> n \<and> n \<le> int (length (rows_of t app))"
proof -
  have "(\<exists>w \<in> set (rows_of t app). rv_revision_number w = n) \<longleftrightarrow> n \<in> set (map rv_revision_number (rows_of t app))"
    by auto
  also have "\<dots> \<longleftrightarrow> n \<in> int ` {1..<Suc (length (rows_of t app))}"
    by (simp only: pg_numbers [OF assms] set_map set_upt)
  also have "\<dots> \<longleftrightarrow> 1 \<le> n \<and> n \<le> int (length (rows_of t app))"
    by (auto simp: image_iff intro!: bexI [of _ "nat n"])
  finally show ?thesis .
qed

lemma pg_get_active_run:
  assumes "pg_config_inv t"
  shows "pg_get_active app t =
    (case List.find cr_active (rev (pg_revisions t app)) of Some r \<Rightarrow> Inr r | None \<Rightarrow> Inl (active_missing app), t)"
proof -
  have len: "length (filter cr_active (pg_revisions t app)) \<le> 1" and ids: "list_all (\<lambda>w. rv_id w \<noteq> []) t"
    using assms by (auto simp: pg_config_inv_def revisions_ok_def)
  have f: "filter cr_active (pg_revisions t app) = map row_revision (filter rv_active (rows_of t app))"
    by (simp add: pg_revisions_def filter_map comp_def)
  show ?thesis
  proof (cases "filter rv_active (rows_of t app)")
    case Nil
    then show ?thesis using find_rev_single [OF len] f by (simp add: pg_get_active_def sort_desc_def)
  next
    case (Cons w ws)
    then have "ws = []" using len f by simp
    have "w \<in> set t" using Cons by (metis filter_is_subset list.set_intros(1) rows_of_def subsetD)
    then have "revision_of_row w = Inr (row_revision w)" using ids by (auto simp: list_all_iff revision_of_row_ok)
    then show ?thesis
      using find_rev_single [OF len] f Cons \<open>ws = []\<close> by (simp add: pg_get_active_def sort_desc_def)
  qed
qed

interpretation pg_config: config_store "pg_create_revision jsonb" pg_activate pg_get_active pg_revisions
    pg_config_inv
  for jsonb
proof (unfold_locales, goal_cases)
  case (1 s rid app cfg r s')
  let ?n = "int (length (rows_of s app)) + 1"
  have n: "fold max (map rv_revision_number (rows_of s app)) 0 + 1 = ?n"
    by (simp only: pg_numbers [OF 1(1)] fold_max_upt)
  obtain w where w: "s' = s @ [w]" "rv_application_id w = app" "rv_revision_number w = ?n" "rv_id w = rid"
    "\<not> rv_active w" "cr_revision r = ?n" "row_revision w = r \<lparr> cr_config := rv_config w \<rparr>"
    using 1(3) unfolding pg_create_revision_def Let_def transaction_def n
    by (auto split: sum.splits if_splits simp: row_revision_def)
  have "\<not> cr_active (row_revision w)" "cr_revision (row_revision w) = ?n" using w(3,5) by simp_all
  then have "revisions_ok (pg_revisions s app @ [row_revision w])"
    using 1(1) by (intro revisions_ok_append) (auto simp: pg_config_inv_def pg_revisions_def)
  then have "pg_config_inv s'"
    using 1(1,2) w by (auto simp: pg_config_inv_def pg_revisions_def rows_of_snoc)
  moreover have "pg_revisions s' = (pg_revisions s)(app := pg_revisions s app @ [r \<lparr> cr_config := rv_config w \<rparr>])"
    using w by (auto simp: pg_revisions_def rows_of_snoc)
  ultimately show ?case using w by (auto simp: pg_revisions_def)
next
  case (2 s rid app cfg e s')
  then show ?case
    by (auto simp: pg_create_revision_def Let_def transaction_def split: sum.splits if_splits)
next
  case (5 s n app)
  then have "\<exists>w \<in> set (rows_of s app). rv_revision_number w = n"
    using pg_row_numbers [OF 5(1)] by (simp add: pg_revisions_def)
  then obtain r where r: "pg_activate app n s = (Inr r, activated app n s)" "cr_revision r = n" "cr_active r"
    using pg_activate_found 5(1) by (metis pg_config_inv_def)
  moreover have "pg_config_inv (activated app n s)"
    using 5(1) activated_ids [of s app n] revisions_ok_activate
    by (auto simp: pg_config_inv_def activated_revisions)
  ultimately show ?case by (auto simp: activated_revisions)
next
  case (6 s n app)
  then have "\<forall>w \<in> set (rows_of s app). rv_revision_number w \<noteq> n"
    using pg_row_numbers [OF 6(1), of app n] by (auto simp: pg_revisions_def)
  then show ?case by (simp add: pg_activate_none)
next
  case (7 s app)
  then show ?case by (rule pg_get_active_run)
qed (auto simp: pg_config_inv_def revisions_ok_def)

end
