(* ===== verification/Postgres_Repositories.thy ===== *)
theory Postgres_Repositories
  imports Memory_Repositories Configuration_Store
begin

section \<open>The Postgres repositories\<close>

text \<open>
  \<^verbatim>\<open>adapters/postgres/repositories.py\<close> on the tables of \<^verbatim>\<open>models.py\<close>: assistants with their versions,
  threads and runs.  A table is the list of its rows in the order of insertion, a session's transaction is
  \<^const>\<open>transaction\<close>, \<open>now\<close> is the clock of the database, and a violated key or unique index is the client
  library's \<open>IntegrityError\<close>.  The JSON columns hold JSON values; \<open>jsonb\<close> stands for the cast of the
  database.  The limits on the length of text columns are not modelled.
\<close>

subsection \<open>Rows (models.py)\<close>

record AssistantRow =
  ar_id :: string
  ar_application_id :: string
  ar_graph_id :: string
  ar_active_version :: int

record AssistantVersionRow =
  vr_id :: string
  vr_assistant_id :: string
  vr_version :: int
  vr_config :: obj
  vr_context :: obj
  vr_metadata :: obj

record ThreadRow =
  tr_id :: string
  tr_status :: string
  tr_metadata :: obj
  tr_created_at :: datetime
  tr_updated_at :: datetime

record RunRow =
  rr_id :: string
  rr_workspace_id :: string
  rr_project_id :: string
  rr_application_id :: string
  rr_revision_id :: string
  rr_deployment_id :: string
  rr_assistant_id :: string
  rr_thread_id :: "string option"
  rr_attempt_id :: string
  rr_status :: string
  rr_metadata :: obj
  rr_result :: json
  rr_error :: "obj option"
  rr_created_at :: datetime
  rr_updated_at :: datetime

record AssistantTables =
  at_rows :: "AssistantRow list"
  at_versions :: "AssistantVersionRow list"

text \<open>\<open>scalar_one_or_none\<close>.\<close>

definition one_or_none :: "'a list \<Rightarrow> exc + 'a option" where
  "one_or_none xs = (case xs of [] \<Rightarrow> Inr None | [x] \<Rightarrow> Inr (Some x)
     | _ \<Rightarrow> Inl (FrameworkError ''MultipleResultsFound''))"

subsection \<open>PostgresAssistantRepository\<close>

definition find_assistant :: "string \<Rightarrow> AssistantTables \<Rightarrow> AssistantRow option" where
  "find_assistant k s = List.find (\<lambda>w. ar_id w = k) (at_rows s)"

definition version_id :: "string \<Rightarrow> int \<Rightarrow> string" where
  "version_id k v = k @ '':'' @ int_str v"

definition named_metadata :: "Assistant \<Rightarrow> obj" where
  "named_metadata a = AList.update ''name'' (as_name a) (as_metadata a)"

text \<open>The two ways to read a version: by name in \<open>get\<close>, by position in \<open>_to_assistant\<close>.  The fifth
  position of \<open>Assistant\<close> is its description.\<close>

definition read_assistant :: "AssistantRow \<Rightarrow> AssistantVersionRow \<Rightarrow> exc + Assistant" where
  "read_assistant w v = map_sum id (\<lambda>i.
     \<lparr> as_assistant_id = i, as_graph_id = ar_graph_id w, as_version = vr_version v,
       as_name = get_null (vr_metadata v) ''name'', as_description = JNull,
       as_config = vr_config v, as_context = vr_context v,
       as_metadata = AList.delete ''name'' (vr_metadata v), as_created_at = None, as_updated_at = None \<rparr>)
     (parse_id AssistantId (ar_id w))"

definition to_assistant :: "AssistantRow \<Rightarrow> AssistantVersionRow \<Rightarrow> exc + Assistant" where
  "to_assistant w v = map_sum id (\<lambda>i.
     \<lparr> as_assistant_id = i, as_graph_id = ar_graph_id w, as_version = vr_version v,
       as_name = get_null (vr_metadata v) ''name'', as_description = JObj (vr_config v),
       as_config = vr_context v, as_context = AList.delete ''name'' (vr_metadata v),
       as_metadata = [], as_created_at = None, as_updated_at = None \<rparr>)
     (parse_id AssistantId (ar_id w))"

definition pg_assistants_get :: "string \<Rightarrow> (AssistantTables, exc, Assistant) prog" where
  "pg_assistants_get k = (\<lambda>s.
     (case find_assistant k s of
        None \<Rightarrow> Inl (assistant_missing k)
      | Some w \<Rightarrow>
          (case one_or_none (filter (\<lambda>v. vr_assistant_id v = k \<and> vr_version v = ar_active_version w) (at_versions s)) of
             Inl e \<Rightarrow> Inl e
           | Inr None \<Rightarrow> Inl (assistant_missing k)
           | Inr (Some v) \<Rightarrow> read_assistant w v), s))"

definition insert_version :: "AssistantVersionRow \<Rightarrow> (AssistantTables, exc, unit) prog" where
  "insert_version v = (\<lambda>s.
     if list_ex (\<lambda>x. vr_id x = vr_id v \<or> (vr_assistant_id x = vr_assistant_id v \<and> vr_version x = vr_version v))
          (at_versions s)
     then (Inl integrity_error, s) else (Inr (), s \<lparr> at_versions := at_versions s @ [v] \<rparr>))"

definition insert_assistant :: "AssistantRow \<Rightarrow> (AssistantTables, exc, unit) prog" where
  "insert_assistant w = (\<lambda>s.
     if list_ex (\<lambda>x. ar_id x = ar_id w) (at_rows s) then (Inl integrity_error, s)
     else (Inr (), s \<lparr> at_rows := at_rows s @ [w] \<rparr>))"

definition pg_assistants_create :: "string \<Rightarrow> Assistant \<Rightarrow> (AssistantTables, exc, Assistant) prog" where
  "pg_assistants_create app a = (let k = id_value (as_assistant_id a) in
     thenM (catchM (transaction (bindM (getsM (find_assistant k)) (\<lambda>row. whenM (row = None)
         (thenM (insert_assistant \<lparr> ar_id = k, ar_application_id = app, ar_graph_id = as_graph_id a,
              ar_active_version = as_version a \<rparr>)
           (insert_version \<lparr> vr_id = version_id k (as_version a), vr_assistant_id = k, vr_version = as_version a,
              vr_config = as_config a, vr_context = as_context a, vr_metadata = named_metadata a \<rparr>)))))
       (\<lambda>e. if e = integrity_error then ret () else raise e))
     (pg_assistants_get k))"

definition pg_assistants_all :: "string \<Rightarrow> (AssistantTables, exc, Assistant list) prog" where
  "pg_assistants_all app = bindM (getsM (\<lambda>s. map ar_id (filter (\<lambda>w. ar_application_id w = app) (at_rows s))))
     (mapM pg_assistants_get)"

definition own_row :: "string \<Rightarrow> string \<Rightarrow> AssistantTables \<Rightarrow> AssistantRow option" where
  "own_row app k s = (case find_assistant k s of
     Some w \<Rightarrow> if ar_application_id w = app then Some w else None | None \<Rightarrow> None)"

definition pg_assistants_versions :: "string \<Rightarrow> string \<Rightarrow> (AssistantTables, exc, Assistant list) prog" where
  "pg_assistants_versions app k = (\<lambda>s.
     (case own_row app k s of
        None \<Rightarrow> Inl (assistant_missing k)
      | Some w \<Rightarrow>
          (case sort_desc vr_version (filter (\<lambda>v. vr_assistant_id v = k) (at_versions s)) of
             [] \<Rightarrow> Inl (assistant_missing k)
           | vs \<Rightarrow> fst (mapM (\<lambda>v. liftE (to_assistant w v)) vs ())), s))"

definition set_row :: "string \<Rightarrow> (AssistantRow \<Rightarrow> AssistantRow) \<Rightarrow> (AssistantTables, exc, unit) prog" where
  "set_row k f = modifyM (\<lambda>s. s \<lparr> at_rows := map (\<lambda>w. if ar_id w = k then f w else w) (at_rows s) \<rparr>)"

definition pg_assistants_update ::
  "(obj \<Rightarrow> exc + obj) \<Rightarrow> string \<Rightarrow> string \<Rightarrow> Assistant \<Rightarrow> (AssistantTables, exc, Assistant) prog" where
  "pg_assistants_update jsonb app k a =
     thenM (transaction (bindM (getsM (own_row app k)) (\<lambda>row.
       if row = None then raise (assistant_missing k)
       else bindM (getsM (\<lambda>s. fold max (map vr_version (filter (\<lambda>v. vr_assistant_id v = k) (at_versions s))) 0 + 1)) (\<lambda>version.
         bindM (liftE (jsonb (as_config a))) (\<lambda>cfg.
         bindM (liftE (jsonb (as_context a))) (\<lambda>ctx.
         bindM (liftE (jsonb (named_metadata a))) (\<lambda>md.
         thenM (insert_version \<lparr> vr_id = version_id k version, vr_assistant_id = k, vr_version = version,
              vr_config = cfg, vr_context = ctx, vr_metadata = md \<rparr>)
         (set_row k (\<lambda>w. w \<lparr> ar_graph_id := as_graph_id a, ar_active_version := version \<rparr>)))))))))
     (pg_assistants_get k)"

definition pg_assistants_set_latest :: "string \<Rightarrow> string \<Rightarrow> int \<Rightarrow> (AssistantTables, exc, Assistant) prog" where
  "pg_assistants_set_latest app k version =
     thenM (transaction (bindM (getsM (\<lambda>s. (own_row app k s,
         List.find (\<lambda>v. vr_id v = version_id k version) (at_versions s)))) (\<lambda>(row, v).
       if row = None \<or> v = None
       then raise (runtime_failure RESOURCE_NOT_FOUND
              (''assistant version not found: '' @ k @ ''/'' @ int_str version))
       else set_row k (\<lambda>w. w \<lparr> ar_active_version := version \<rparr>))))
     (pg_assistants_get k)"

definition pg_assistants_delete :: "string \<Rightarrow> string \<Rightarrow> (AssistantTables, exc, unit) prog" where
  "pg_assistants_delete app k = transaction (bindM (getsM (own_row app k)) (\<lambda>row.
     if row = None then raise (assistant_missing k)
     else modifyM (\<lambda>s. s \<lparr> at_versions := filter (\<lambda>v. vr_assistant_id v \<noteq> k) (at_versions s),
            at_rows := filter (\<lambda>w. ar_id w \<noteq> k) (at_rows s) \<rparr>)))"

definition pg_assistants_count :: "string \<Rightarrow> string option \<Rightarrow> (AssistantTables, exc, nat) prog" where
  "pg_assistants_count app graph = getsM (\<lambda>s. length (filter (\<lambda>w. ar_application_id w = app
     \<and> (graph = None \<or> graph = Some (ar_graph_id w))) (at_rows s)))"

subsection \<open>PostgresThreadRepository\<close>

type_synonym thread_table = "ThreadRow list"

definition thread_of_row :: "ThreadRow \<Rightarrow> exc + Thread" where
  "thread_of_row w = (case parse_id ThreadId (tr_id w) of
     Inl e \<Rightarrow> Inl e
   | Inr i \<Rightarrow> map_sum id (\<lambda>st. \<lparr> th_thread_id = i, th_status = st, th_metadata = tr_metadata w,
       th_created_at = Some (tr_created_at w), th_updated_at = Some (tr_updated_at w) \<rparr>)
       (thread_status_of (tr_status w)))"

definition pg_threads_create :: "datetime \<Rightarrow> Thread \<Rightarrow> (thread_table, exc, Thread) prog" where
  "pg_threads_create now t = transaction (\<lambda>rows.
     if list_ex (\<lambda>w. tr_id w = th_key t) rows then (Inl integrity_error, rows)
     else (Inr t, rows @ [\<lparr> tr_id = th_key t, tr_status = thread_status_str (th_status t),
             tr_metadata = th_metadata t, tr_created_at = now, tr_updated_at = now \<rparr>]))"

definition pg_threads_get :: "string \<Rightarrow> (thread_table, exc, Thread) prog" where
  "pg_threads_get k = (\<lambda>rows. (case List.find (\<lambda>w. tr_id w = k) rows of
     None \<Rightarrow> Inl (thread_missing k) | Some w \<Rightarrow> thread_of_row w, rows))"

text \<open>The database sets the time of the update when a column changes.\<close>

definition change_thread_row :: "datetime \<Rightarrow> Thread \<Rightarrow> ThreadRow \<Rightarrow> ThreadRow" where
  "change_thread_row now t w =
     (let w' = w \<lparr> tr_status := thread_status_str (th_status t), tr_metadata := th_metadata t \<rparr>
      in if w' = w then w else w' \<lparr> tr_updated_at := now \<rparr>)"

definition pg_threads_update :: "datetime \<Rightarrow> Thread \<Rightarrow> (thread_table, exc, Thread) prog" where
  "pg_threads_update now t = transaction (\<lambda>rows.
     if \<not> list_ex (\<lambda>w. tr_id w = th_key t) rows then (Inl (thread_missing (th_key t)), rows)
     else (Inr t, map (\<lambda>w. if tr_id w = th_key t then change_thread_row now t w else w) rows))"

definition pg_threads_delete :: "string \<Rightarrow> (thread_table, exc, unit) prog" where
  "pg_threads_delete k = transaction (\<lambda>rows.
     if \<not> list_ex (\<lambda>w. tr_id w = k) rows then (Inl (thread_missing k), rows)
     else (Inr (), filter (\<lambda>w. tr_id w \<noteq> k) rows))"

text \<open>The page is cut by the database, the metadata is compared afterwards.\<close>

definition pg_threads_search ::
  "obj option \<Rightarrow> string option \<Rightarrow> nat \<Rightarrow> nat \<Rightarrow> (thread_table, exc, Thread list) prog" where
  "pg_threads_search metadata status limit off = (\<lambda>rows.
     let page = py_slice off limit (sort_desc tr_created_at
           (filter (\<lambda>w. status = None \<or> status = Some (tr_status w)) rows));
         kept = filter (\<lambda>w. metadata_matches (case metadata of None \<Rightarrow> [] | Some m \<Rightarrow> m) (tr_metadata w)) page
     in (fst (mapM (\<lambda>w. liftE (thread_of_row w)) kept ()), rows))"

definition pg_threads_count :: "obj option \<Rightarrow> string option \<Rightarrow> (thread_table, exc, nat) prog" where
  "pg_threads_count metadata status = bindM (pg_threads_search metadata status 100000 0) (\<lambda>ts. ret (length ts))"

subsection \<open>PostgresRunRepository\<close>

type_synonym run_table = "RunRow list"

definition error_json :: "RunError \<Rightarrow> obj" where
  "error_json e = [(''code'', JStr (err_code e)), (''message'', JStr (err_message e)),
     (''retryable'', JBool (err_retryable e)), (''details'', JObj (err_details e))]"

text \<open>A code, message or details of another type, which no writer of the table stores, reads as its text
  or as empty.\<close>

definition error_of_json :: "obj \<Rightarrow> RunError" where
  "error_of_json d = make_run_error (py_str (get_or d ''code'' (JStr ''EXECUTION_FAILED'')))
     (py_str (get_or d ''message'' (JStr ''''))) (truthy (get_or d ''retryable'' (JBool False)))
     (case get_or d ''details'' (JObj []) of JObj x \<Rightarrow> Some x | _ \<Rightarrow> None)"

definition row_of_run :: "datetime \<Rightarrow> Run \<Rightarrow> RunRow" where
  "row_of_run now r = (let i = rn_identity r in
     \<lparr> rr_id = run_key i, rr_workspace_id = id_value (workspace_id (scope i)),
       rr_project_id = id_value (project_id (scope i)), rr_application_id = id_value (application_id (scope i)),
       rr_revision_id = id_value (revision_id (scope i)), rr_deployment_id = id_value (deployment_id (scope i)),
       rr_assistant_id = id_value (assistant_id i), rr_thread_id = thread_key i,
       rr_attempt_id = id_value (attempt_id i), rr_status = run_status_str (rn_status r),
       rr_metadata = rn_metadata r, rr_result = rn_result r, rr_error = map_option error_json (rn_error r),
       rr_created_at = now, rr_updated_at = now \<rparr>)"

definition read_error :: "obj option \<Rightarrow> RunError option" where
  "read_error x = (case x of Some (p # d) \<Rightarrow> Some (error_of_json (p # d)) | _ \<Rightarrow> None)"

definition read_thread_id :: "string option \<Rightarrow> exc + typed_id option" where
  "read_thread_id x = (case x of
     Some (c # cs) \<Rightarrow> map_sum id Some (parse_id ThreadId (c # cs)) | _ \<Rightarrow> Inr None)"

definition run_of_row :: "RunRow \<Rightarrow> exc + Run" where
  "run_of_row w = fst (
     bindM (liftE (parse_id WorkspaceId (rr_workspace_id w))) (\<lambda>ws.
     bindM (liftE (parse_id ProjectId (rr_project_id w))) (\<lambda>pr.
     bindM (liftE (parse_id ApplicationId (rr_application_id w))) (\<lambda>ap.
     bindM (liftE (parse_id RevisionId (rr_revision_id w))) (\<lambda>rv.
     bindM (liftE (parse_id DeploymentId (rr_deployment_id w))) (\<lambda>dp.
     bindM (liftE (parse_id AssistantId (rr_assistant_id w))) (\<lambda>asst.
     bindM (liftE (parse_id RunId (rr_id w))) (\<lambda>rn.
     bindM (liftE (parse_id AttemptId (rr_attempt_id w))) (\<lambda>att.
     bindM (liftE (read_thread_id (rr_thread_id w))) (\<lambda>thr.
     bindM (liftE (run_status_of (rr_status w))) (\<lambda>st.
     ret \<lparr> rn_identity = \<lparr> scope = \<lparr> workspace_id = ws, project_id = pr, application_id = ap, revision_id = rv,
             deployment_id = dp \<rparr>, assistant_id = asst, run_id = rn, attempt_id = att, thread_id = thr \<rparr>,
           rn_status = st, rn_metadata = rr_metadata w, rn_created_at = Some (rr_created_at w),
           rn_updated_at = Some (rr_updated_at w), rn_result = rr_result w,
           rn_error = read_error (rr_error w) \<rparr>)))))))))) ())"

text \<open>The partial unique index: one row per thread among the pending, running and interrupted ones.\<close>

definition active_row :: "RunRow \<Rightarrow> bool" where
  "active_row w \<longleftrightarrow> rr_status w \<in> {''pending'', ''running'', ''interrupted''}"

definition index_conflict :: "RunRow \<Rightarrow> run_table \<Rightarrow> bool" where
  "index_conflict w rows \<longleftrightarrow> active_row w \<and> rr_thread_id w \<noteq> None
     \<and> list_ex (\<lambda>x. rr_id x \<noteq> rr_id w \<and> active_row x \<and> rr_thread_id x = rr_thread_id w) rows"

definition pg_runs_create :: "datetime \<Rightarrow> Run \<Rightarrow> (run_table, exc, Run) prog" where
  "pg_runs_create now r = transaction (\<lambda>rows. let w = row_of_run now r in
     if list_ex (\<lambda>x. rr_id x = rr_id w) rows \<or> index_conflict w rows
     then (Inl (runtime_failure THREAD_BUSY ''thread already has an active run''), rows)
     else (Inr r, rows @ [w]))"

definition pg_runs_get :: "string \<Rightarrow> (run_table, exc, Run) prog" where
  "pg_runs_get k = (\<lambda>rows. (case List.find (\<lambda>w. rr_id w = k) rows of
     None \<Rightarrow> Inl (run_missing k) | Some w \<Rightarrow> run_of_row w, rows))"

definition change_run_row :: "datetime \<Rightarrow> Run \<Rightarrow> RunRow \<Rightarrow> RunRow" where
  "change_run_row now r w =
     (let w' = w \<lparr> rr_status := run_status_str (rn_status r), rr_result := rn_result r,
                   rr_error := map_option error_json (rn_error r) \<rparr>
      in if w' = w then w else w' \<lparr> rr_updated_at := now \<rparr>)"

definition pg_runs_update :: "datetime \<Rightarrow> Run \<Rightarrow> (run_table, exc, Run) prog" where
  "pg_runs_update now r = transaction (\<lambda>rows.
     case List.find (\<lambda>w. rr_id w = rn_key r) rows of
       None \<Rightarrow> (Inl (run_missing (rn_key r)), rows)
     | Some w \<Rightarrow>
         if index_conflict (change_run_row now r w) rows then (Inl integrity_error, rows)
         else (Inr r, map (\<lambda>x. if rr_id x = rn_key r then change_run_row now r x else x) rows))"

definition pg_runs_delete :: "string \<Rightarrow> (run_table, exc, unit) prog" where
  "pg_runs_delete k = transaction (\<lambda>rows.
     if \<not> list_ex (\<lambda>w. rr_id w = k) rows then (Inl (run_missing k), rows)
     else (Inr (), filter (\<lambda>w. rr_id w \<noteq> k) rows))"

definition read_option :: "RunRow option \<Rightarrow> exc + Run option" where
  "read_option x = (case x of None \<Rightarrow> Inr None | Some w \<Rightarrow> map_sum id Some (run_of_row w))"

definition pg_runs_active_for_thread :: "string \<Rightarrow> (run_table, exc, Run option) prog" where
  "pg_runs_active_for_thread t = (\<lambda>rows.
     (case one_or_none (filter (\<lambda>w. rr_thread_id w = Some t \<and> active_row w) rows) of
        Inl e \<Rightarrow> Inl e | Inr x \<Rightarrow> read_option x, rows))"

definition pg_runs_latest_for_thread :: "string \<Rightarrow> (run_table, exc, Run option) prog" where
  "pg_runs_latest_for_thread t = (\<lambda>rows.
     (read_option (case sort_desc rr_created_at (filter (\<lambda>w. rr_thread_id w = Some t) rows) of
        [] \<Rightarrow> None | w # _ \<Rightarrow> Some w), rows))"

definition pg_runs_list_for_thread ::
  "string \<Rightarrow> nat \<Rightarrow> nat \<Rightarrow> string option \<Rightarrow> (run_table, exc, Run list) prog" where
  "pg_runs_list_for_thread t limit off status = (\<lambda>rows.
     (fst (mapM (\<lambda>w. liftE (run_of_row w)) (py_slice off limit (sort_desc rr_created_at
        (filter (\<lambda>w. rr_thread_id w = Some t \<and> (status = None \<or> status = Some (rr_status w))) rows))) ()), rows))"

end
