(* ===== verification/Postgres_Refinement.thy ===== *)
theory Postgres_Refinement
  imports Postgres_Repositories
begin

section \<open>The Postgres repositories refine the in-memory ones\<close>

text \<open>
  A table of runs is abstracted to the dictionary of the in-memory repository by reading every row.
  Creating, reading, deleting and listing runs then do the same on both, the time stamps aside, which the
  database sets; and the unique index keeps the invariant of the in-memory repository under every
  operation.  The last part follows the versions of an assistant.
\<close>

subsection \<open>Reading back what was written\<close>

lemma error_roundtrip: "read_error (map_option error_json x) = x"
proof -
  have "map_prod id copy_value = (id :: string \<times> json \<Rightarrow> _)" by (auto simp: fun_eq_iff)
  then show ?thesis
    by (cases x) (simp_all add: read_error_def error_of_json_def error_json_def get_or_def py_str_def make_run_error_def)
qed

definition stamped :: "datetime \<Rightarrow> Run \<Rightarrow> Run" where
  "stamped now r = r \<lparr> rn_created_at := Some now, rn_updated_at := Some now \<rparr>"

lemma stamped_simps [simp]:
  "rn_identity (stamped now r) = rn_identity r" "rn_status (stamped now r) = rn_status r"
  by (simp_all add: stamped_def)

lemma parse_id_classed: "classed cls i \<Longrightarrow> parse_id cls (id_value i) = Inr i"
  by (simp add: classed_def)

lemma thread_roundtrip: "identity_wf i \<Longrightarrow> read_thread_id (thread_key i) = Inr (thread_id i)"
  by (auto simp: read_thread_id_def thread_key_def identity_wf_def classed_def split: option.splits list.splits)

lemma run_row_roundtrip:
  assumes "identity_wf (rn_identity r)"
  shows "run_of_row (row_of_run now r) = Inr (stamped now r)"
  using assms thread_roundtrip [OF assms] error_roundtrip [of "rn_error r"]
  by (simp add: run_of_row_def row_of_run_def Let_def identity_wf_def parse_id_classed bindM_def liftE_def ret_def
      stamped_def)

lemma run_status_of_Inr: "run_status_of t = Inr st \<Longrightarrow> t = run_status_str st"
  by (auto simp: run_status_of_def dest!: find_SomeD split: option.splits)

lemma read_thread_idD: "read_thread_id x = Inr i \<Longrightarrow> x = Some [] \<or> x = map_option id_value i"
  by (auto simp: read_thread_id_def split: option.splits list.splits)

text \<open>What a readable row says of its run.\<close>

lemma run_of_rowD:
  assumes "run_of_row w = Inr r" and "rr_thread_id w \<noteq> Some []"
  shows "rn_key r = rr_id w" and "rn_thread_key r = rr_thread_id w" and "rr_status w = run_status_str (rn_status r)"
    and "rn_created_at r = Some (rr_created_at w)" and "active_row w \<longleftrightarrow> is_active (rn_status r)"
    and "rn_metadata r = rr_metadata w"
proof -
  have 1: "rn_key r = rr_id w \<and> rn_thread_key r = rr_thread_id w \<and> rr_status w = run_status_str (rn_status r)
      \<and> rn_created_at r = Some (rr_created_at w) \<and> rn_metadata r = rr_metadata w"
    using assms
    by (auto simp: run_of_row_def bindM_def liftE_def ret_def thread_key_def
        split: sum.splits prod.splits dest!: parse_id_InrD run_status_of_Inr read_thread_idD)
  then show "rn_key r = rr_id w" "rn_thread_key r = rr_thread_id w" "rr_status w = run_status_str (rn_status r)"
    "rn_created_at r = Some (rr_created_at w)" "rn_metadata r = rr_metadata w" by simp_all
  from 1 show "active_row w \<longleftrightarrow> is_active (rn_status r)"
    by (cases "rn_status r") (simp_all add: active_row_def active_statuses_def)
qed

subsection \<open>The abstraction\<close>

definition pg_runs :: "run_table \<Rightarrow> run_repo" where
  "pg_runs rows = map (\<lambda>w. (rr_id w, projr (run_of_row w))) rows"

definition readable :: "RunRow \<Rightarrow> bool" where
  "readable w \<longleftrightarrow> \<not> isl (run_of_row w) \<and> rr_thread_id w \<noteq> Some []"

definition pg_runs_inv :: "run_table \<Rightarrow> bool" where
  "pg_runs_inv rows \<longleftrightarrow> list_all readable rows \<and> runs_inv (pg_runs rows)"

lemma readableD: "readable w \<Longrightarrow> run_of_row w = Inr (projr (run_of_row w)) \<and> rr_thread_id w \<noteq> Some []"
  by (cases "run_of_row w") (auto simp: readable_def)

lemma pg_runs_find: "map_of (pg_runs rows) k = map_option (\<lambda>w. projr (run_of_row w)) (List.find (\<lambda>w. rr_id w = k) rows)"
  by (induction rows) (auto simp: pg_runs_def)

lemma pg_runs_values: "dict_values (pg_runs rows) = map (\<lambda>w. projr (run_of_row w)) rows"
  by (simp add: pg_runs_def comp_def)

lemma find_row: "List.find (\<lambda>w. rr_id w = k) rows = Some w \<Longrightarrow> w \<in> set rows \<and> rr_id w = k"
  by (drule find_SomeD) auto

lemma pg_live:
  assumes "list_all readable rows"
  shows "Some t \<in> set (live_threads (pg_runs rows)) \<longleftrightarrow> list_ex (\<lambda>x. active_row x \<and> rr_thread_id x = Some t) rows"
proof -
  have "active_row x \<and> rr_thread_id x = Some t \<longleftrightarrow>
      is_active (rn_status (projr (run_of_row x))) \<and> rn_thread_key (projr (run_of_row x)) = Some t"
    if "x \<in> set rows" for x
  proof -
    have x: "run_of_row x = Inr (projr (run_of_row x))" "rr_thread_id x \<noteq> Some []"
      using assms that readableD by (auto simp: list_all_iff)
    show ?thesis using run_of_rowD(2,5) [OF x] by simp
  qed
  then show ?thesis unfolding live_threads_iff pg_runs_values by (auto simp: list_ex_iff)
qed

subsection \<open>Operation by operation\<close>

lemma pg_runs_get_refines:
  assumes "pg_runs_inv rows"
  shows "pg_runs_get k rows = (fst (runs_get k (pg_runs rows)), rows)"
proof (cases "List.find (\<lambda>w. rr_id w = k) rows")
  case None
  then show ?thesis by (simp add: pg_runs_get_def runs_get_def pg_runs_find)
next
  case (Some w)
  then have "readable w" using assms find_row by (auto simp: pg_runs_inv_def list_all_iff)
  then have "run_of_row w = Inr (projr (run_of_row w))" by (rule readableD [THEN conjunct1])
  with Some show ?thesis by (simp add: pg_runs_get_def runs_get_def pg_runs_find)
qed

lemma pg_runs_create_refines:
  assumes "pg_runs_inv rows" and "identity_wf (rn_identity r)" and "is_active (rn_status r)"
  shows "case runs_create (stamped now r) (pg_runs rows) of
      (Inr _, d) \<Rightarrow> \<exists>rows'. pg_runs_create now r rows = (Inr r, rows') \<and> pg_runs_inv rows' \<and> pg_runs rows' = d
    | (Inl _, _) \<Rightarrow>
        pg_runs_create now r rows = (Inl (runtime_failure THREAD_BUSY ''thread already has an active run''), rows)"
proof -
  let ?w = "row_of_run now r" and ?r = "stamped now r"
  have w: "run_of_row ?w = Inr ?r" by (rule run_row_roundtrip [OF assms(2)])
  have th: "rr_thread_id ?w \<noteq> Some []" "rr_thread_id ?w = rn_thread_key r" "rr_id ?w = rn_key r"
    using assms(2) by (auto simp: row_of_run_def Let_def identity_wf_def thread_key_def classed_def split: option.splits)
  have act: "active_row ?w" using run_of_rowD(5) [OF w th(1)] assms(3) by simp
  have dup: "list_ex (\<lambda>x. rr_id x = rr_id ?w) rows \<longleftrightarrow> map_of (pg_runs rows) (rn_key r) \<noteq> None"
    using th(3) by (auto simp: pg_runs_find find_None_iff list_ex_iff)
  have conf: "index_conflict ?w rows \<longleftrightarrow> (\<exists>t. rn_thread_key r = Some t \<and> runs_active (pg_runs rows) t \<noteq> None)"
    if "map_of (pg_runs rows) (rn_key r) = None"
  proof -
    have "list_ex (\<lambda>x. rr_id x \<noteq> rr_id ?w \<and> active_row x \<and> rr_thread_id x = rr_thread_id ?w) rows \<longleftrightarrow>
        list_ex (\<lambda>x. active_row x \<and> rr_thread_id x = rr_thread_id ?w) rows"
      using dup that by (auto simp: list_ex_iff)
    then show ?thesis
      using act th(2) assms(1) pg_live [of rows]
      by (auto simp: index_conflict_def runs_active_None pg_runs_inv_def)
  qed
  have added: "pg_runs (rows @ [?w]) = AList.update (rn_key r) ?r (pg_runs rows)"
    if "map_of (pg_runs rows) (rn_key r) = None"
    using that th(3) w by (simp add: dict_update_new) (simp add: pg_runs_def)
  have inv: "pg_runs_inv (rows @ [?w])" if "runs_create ?r (pg_runs rows) = (Inr x, pg_runs (rows @ [?w]))" for x
  proof -
    have "runs_inv (snd (runs_create ?r (pg_runs rows)))"
      using assms(1) preserves_state [OF runs_create_keyed] preserves_state [OF runs_create_one_active]
      by (auto simp: pg_runs_inv_def)
    then show ?thesis using that assms(1) w th(1) by (simp add: pg_runs_inv_def readable_def)
  qed
  show ?thesis
    using dup conf added inv
    by (auto simp: runs_create_def pg_runs_create_def transaction_def Let_def split: option.splits)
qed

text \<open>An update changes status, result, error and the time of the update, and keeps the rest.\<close>

lemma run_of_row_change:
  assumes "run_of_row w = Inr r0"
  shows "run_of_row (w \<lparr> rr_status := run_status_str st, rr_result := res, rr_error := map_option error_json er,
      rr_updated_at := u \<rparr>) = Inr (r0 \<lparr> rn_status := st, rn_result := res, rn_error := er, rn_updated_at := Some u \<rparr>)"
  using assms
  by (auto simp: run_of_row_def bindM_def liftE_def ret_def error_roundtrip split: sum.splits prod.splits)

definition updated_run :: "Run \<Rightarrow> datetime \<Rightarrow> Run \<Rightarrow> Run" where
  "updated_run r u r0 = r0 \<lparr> rn_status := rn_status r, rn_result := rn_result r, rn_error := rn_error r,
     rn_updated_at := Some u \<rparr>"

lemma change_run_row_read:
  assumes "run_of_row w = Inr r0"
  shows "\<exists>u. run_of_row (change_run_row now r w) = Inr (updated_run r u r0)
    \<and> rr_id (change_run_row now r w) = rr_id w \<and> rr_thread_id (change_run_row now r w) = rr_thread_id w
    \<and> rr_status (change_run_row now r w) = run_status_str (rn_status r)"
proof -
  obtain u where "change_run_row now r w = w \<lparr> rr_status := run_status_str (rn_status r), rr_result := rn_result r,
      rr_error := map_option error_json (rn_error r), rr_updated_at := u \<rparr>"
    by (cases "w \<lparr> rr_status := run_status_str (rn_status r), rr_result := rn_result r,
      rr_error := map_option error_json (rn_error r) \<rparr> = w")
      (auto simp: change_run_row_def Let_def intro: that [of "rr_updated_at w"] that [of now])
  then show ?thesis using run_of_row_change [OF assms] by (auto simp: updated_run_def)
qed

lemma replace_absent: "k \<notin> fst ` set d \<Longrightarrow> map (\<lambda>p. if fst p = k then (k, v) else p) d = d"
  by (induction d) auto

lemma update_as_map:
  assumes "dict_ok d" and "map_of d k = Some old"
  shows "AList.update k v d = map (\<lambda>p. if fst p = k then (k, v) else p) d"
proof -
  obtain a b where ab: "d = a @ (k, old) # b" "AList.update k v d = a @ (k, v) # b"
    using dict_split [OF assms(2)] by metis
  then have "k \<notin> fst ` set a" "k \<notin> fst ` set b" using assms(1) by auto
  then show ?thesis unfolding ab(2) unfolding ab(1) by (simp add: replace_absent)
qed

lemma one_active_replace:
  assumes "one_active d" and "dict_ok d" and "map_of d k = Some old"
    and "\<And>k' r'. map_of d k' = Some r' \<Longrightarrow> k' \<noteq> k \<Longrightarrow> holds_thread r \<Longrightarrow> holds_thread r' \<Longrightarrow>
      rn_thread_key r' \<noteq> rn_thread_key r"
  shows "one_active (AList.update k r d)"
proof -
  obtain a b where ab: "d = a @ (k, old) # b" "AList.update k r d = a @ (k, r) # b"
    using dict_split [OF assms(3)] by metis
  have other: "rn_thread_key r \<notin> set (live_threads a) \<union> set (live_threads b)" if r: "holds_thread r"
  proof
    assume "rn_thread_key r \<in> set (live_threads a) \<union> set (live_threads b)"
    then have "\<exists>p \<in> set a \<union> set b. holds_thread (snd p) \<and> rn_thread_key (snd p) = rn_thread_key r"
      by (auto simp: live_threads_def)
    then obtain k' r' where m: "(k', r') \<in> set a \<union> set b" "holds_thread r'" "rn_thread_key r' = rn_thread_key r"
      by (metis prod.collapse)
    then have "k' \<noteq> k" using assms(2) ab(1) by (auto simp: image_iff)
    moreover have "map_of d k' = Some r'" using m(1) assms(2) ab(1) by (intro map_of_is_SomeI) auto
    ultimately show False using assms(4) [of k' r'] m r by simp
  qed
  show ?thesis
    using assms(1) other unfolding ab(2) unfolding ab(1) one_active_def
    by (auto split: if_splits)
qed

lemma pg_runs_update_spec:
  assumes "pg_runs_inv rows" and "List.find (\<lambda>w. rr_id w = rn_key r) rows = Some w"
    and "\<not> index_conflict (change_run_row now r w) rows"
  shows "\<exists>u rows'. pg_runs_update now r rows = (Inr r, rows') \<and> pg_runs_inv rows'
    \<and> pg_runs rows' = AList.update (rn_key r) (updated_run r u (projr (run_of_row w))) (pg_runs rows)"
proof -
  let ?rows = "map (\<lambda>x. if rr_id x = rn_key r then change_run_row now r x else x) rows"
  let ?r0 = "projr (run_of_row w)"
  have w: "w \<in> set rows" "rr_id w = rn_key r" using find_row [OF assms(2)] by auto
  have rd: "readable w" using assms(1) w by (auto simp: pg_runs_inv_def list_all_iff)
  note r0 = readableD [OF rd]
  obtain u where u: "run_of_row (change_run_row now r w) = Inr (updated_run r u ?r0)"
    "rr_id (change_run_row now r w) = rr_id w" "rr_thread_id (change_run_row now r w) = rr_thread_id w"
    using change_run_row_read [of w ?r0 now r] r0 by blast
  let ?u = "updated_run r u ?r0"
  have d: "dict_ok (pg_runs rows)" and key: "map_of (pg_runs rows) (rn_key r) = Some ?r0"
    using assms(1,2) by (auto simp: pg_runs_inv_def keyed_by_def pg_runs_find)
  have same: "x = w" if "x \<in> set rows" "rr_id x = rn_key r" for x
  proof -
    have "distinct (map rr_id rows)" using d by (simp add: pg_runs_def comp_def)
    then have "inj_on rr_id (set rows)" by (simp add: distinct_map)
    from inj_onD [OF this, of x w] that w show ?thesis by simp
  qed
  have eq: "pg_runs ?rows = AList.update (rn_key r) ?u (pg_runs rows)"
    unfolding update_as_map [OF d key] unfolding pg_runs_def map_map
  proof (rule map_cong [OF refl])
    fix x assume "x \<in> set rows"
    then show "((\<lambda>w. (rr_id w, projr (run_of_row w))) \<circ> (\<lambda>x. if rr_id x = rn_key r then change_run_row now r x else x)) x =
        ((\<lambda>p. if fst p = rn_key r then (rn_key r, ?u) else p) \<circ> (\<lambda>w. (rr_id w, projr (run_of_row w)))) x"
      using same [of x] u w by (cases "rr_id x = rn_key r") simp_all
  qed
  have rdu: "readable (change_run_row now r w)" using u r0 by (simp add: readable_def)
  have ch: "list_all readable ?rows"
  proof -
    have "readable (if rr_id x = rn_key r then change_run_row now r x else x)" if "x \<in> set rows" for x
      using that assms(1) same [of x] rdu by (cases "rr_id x = rn_key r") (auto simp: pg_runs_inv_def list_all_iff)
    then show ?thesis unfolding list_all_iff set_map by blast
  qed
  have fields: "rn_key ?u = rn_key r" "rn_thread_key ?u = rr_thread_id w"
    "active_row (change_run_row now r w) \<longleftrightarrow> is_active (rn_status ?u)"
    using run_of_rowD [OF u(1)] u(2,3) r0 w by auto
  have "one_active (AList.update (rn_key r) ?u (pg_runs rows))"
  proof (rule one_active_replace [OF _ d key])
    show "one_active (pg_runs rows)" using assms(1) by (simp add: pg_runs_inv_def)
    fix k' r' assume k': "map_of (pg_runs rows) k' = Some r'" "k' \<noteq> rn_key r" "holds_thread ?u" "holds_thread r'"
    then obtain x where x: "x \<in> set rows" "rr_id x = k'" "r' = projr (run_of_row x)"
      by (auto simp: pg_runs_find dest: find_row)
    then have rx: "run_of_row x = Inr r'" "rr_thread_id x \<noteq> Some []"
      using assms(1) readableD by (auto simp: pg_runs_inv_def list_all_iff)
    have "active_row x" using run_of_rowD(5) [OF rx] k'(4) by (simp add: holds_thread_def)
    with assms(3) x k' fields u w have "rr_thread_id x \<noteq> rr_thread_id w"
      by (auto simp: index_conflict_def holds_thread_def list_ex_iff)
    then show "rn_thread_key r' \<noteq> rn_thread_key ?u" using run_of_rowD(2) [OF rx] fields by simp
  qed
  moreover have "keyed_by rn_key (AList.update (rn_key r) ?u (pg_runs rows))"
    using assms(1) fields(1) by (intro keyed_by_update) (auto simp: pg_runs_inv_def)
  ultimately have "pg_runs_inv ?rows" using ch eq by (simp add: pg_runs_inv_def)
  then show ?thesis using assms(2,3) eq by (auto simp: pg_runs_update_def transaction_def)
qed

lemma pg_runs_delete_refines:
  assumes "pg_runs_inv rows"
  shows "fst (pg_runs_delete k rows) = fst (runs_delete k (pg_runs rows))"
    and "pg_runs (snd (pg_runs_delete k rows)) = snd (runs_delete k (pg_runs rows))"
    and "pg_runs_inv (snd (pg_runs_delete k rows))"
proof -
  have there: "list_ex (\<lambda>w. rr_id w = k) rows \<longleftrightarrow> map_of (pg_runs rows) k \<noteq> None"
    by (auto simp: pg_runs_find find_None_iff list_ex_iff)
  have del: "pg_runs (filter (\<lambda>w. rr_id w \<noteq> k) rows) = AList.delete k (pg_runs rows)"
    by (auto simp: pg_runs_def AList.delete_eq filter_map comp_def intro!: arg_cong [of _ _ "map _"] filter_cong)
  show "fst (pg_runs_delete k rows) = fst (runs_delete k (pg_runs rows))"
    and eq: "pg_runs (snd (pg_runs_delete k rows)) = snd (runs_delete k (pg_runs rows))"
    using there del by (auto simp: pg_runs_delete_def transaction_def runs_delete_def)
  have "list_all readable (snd (pg_runs_delete k rows))"
    using assms by (auto simp: pg_runs_delete_def transaction_def pg_runs_inv_def list_all_iff)
  then show "pg_runs_inv (snd (pg_runs_delete k rows))"
    using assms eq by (auto simp: pg_runs_inv_def runs_delete_def keyed_by_delete one_active_delete)
qed

subsection \<open>Queries\<close>

lemma mapM_read_rows:
  assumes "list_all readable ws"
  shows "fst (mapM (\<lambda>w. liftE (run_of_row w)) ws ()) = Inr (map (\<lambda>w. projr (run_of_row w)) ws)"
proof -
  have "mapM (\<lambda>w. liftE (run_of_row w)) ws () = (Inr (map (\<lambda>w. projr (run_of_row w)) ws), ())"
    using assms
  proof (induction ws)
    case (Cons w ws)
    then obtain r where "run_of_row w = Inr r" using readableD [of w] by auto
    with Cons show ?case by (simp add: bindM_def liftE_def ret_def)
  qed (simp add: ret_def)
  then show ?thesis by simp
qed

lemma readable_fields:
  assumes "readable w"
  shows "rr_thread_id w = rn_thread_key (projr (run_of_row w))"
    and "rr_status w = run_status_str (rn_status (projr (run_of_row w)))"
    and "rr_created_at w = created_or_min (rn_created_at (projr (run_of_row w)))"
    and "active_row w \<longleftrightarrow> is_active (rn_status (projr (run_of_row w)))"
proof -
  from readableD [OF assms] have "run_of_row w = Inr (projr (run_of_row w))" "rr_thread_id w \<noteq> Some []" by auto
  from run_of_rowD [OF this] show "rr_thread_id w = rn_thread_key (projr (run_of_row w))"
    "rr_status w = run_status_str (rn_status (projr (run_of_row w)))"
    "rr_created_at w = created_or_min (rn_created_at (projr (run_of_row w)))"
    "active_row w \<longleftrightarrow> is_active (rn_status (projr (run_of_row w)))"
    by (simp_all add: created_or_min_def)
qed

lemma map_insort:
  "(\<forall>y \<in> set (x # xs). j y = k (f y)) \<Longrightarrow> map f (insort_key j x xs) = insort_key k (f x) (map f xs)"
  by (induction xs) auto

lemma map_sort_desc: "(\<forall>y \<in> set xs. j y = k (f y)) \<Longrightarrow> map f (sort_desc j xs) = sort_desc k (map f xs)"
  unfolding sort_desc_def
  by (induction xs) (simp_all add: map_insort [where f = f and j = "\<lambda>x. - j x" and k = "\<lambda>x. - k x"])

lemma map_filter_cong: "(\<forall>y \<in> set xs. P y = Q (f y)) \<Longrightarrow> map f (filter P xs) = filter Q (map f xs)"
  by (induction xs) auto

text \<open>Listing the runs of a thread gives the same page.\<close>

lemma pg_runs_list_refines:
  assumes "pg_runs_inv rows"
  shows "pg_runs_list_for_thread t lmt off st rows = (fst (runs_list_for_thread t lmt off st (pg_runs rows)), rows)"
proof -
  let ?f = "\<lambda>w. projr (run_of_row w)"
  let ?P = "\<lambda>w. rr_thread_id w = Some t \<and> (st = None \<or> st = Some (rr_status w))"
  have rd: "\<forall>w \<in> set rows. readable w" using assms by (simp add: pg_runs_inv_def list_all_iff)
  have "list_all readable (py_slice off lmt (sort_desc rr_created_at (filter ?P rows)))"
    unfolding list_all_iff
  proof
    fix w assume "w \<in> set (py_slice off lmt (sort_desc rr_created_at (filter ?P rows)))"
    with py_slice_set have "w \<in> set (sort_desc rr_created_at (filter ?P rows))" by (rule subsetD)
    with rd show "readable w" by simp
  qed
  note read = mapM_read_rows [OF this]
  have "map ?f (sort_desc rr_created_at (filter ?P rows)) =
      sort_desc (\<lambda>r. created_or_min (rn_created_at r)) (map ?f (filter ?P rows))"
    using rd by (intro map_sort_desc) (simp add: readable_fields(3))
  also have "map ?f (filter ?P rows) = filter (\<lambda>r. rn_thread_key r = Some t
      \<and> (st = None \<or> Some (run_status_str (rn_status r)) = st)) (map ?f rows)"
    using rd by (intro map_filter_cong) (auto simp: readable_fields(1,2))
  finally show ?thesis
    using read
    by (simp add: pg_runs_list_for_thread_def runs_list_for_thread_def getsM_def pg_runs_values py_slice_def
        take_map [symmetric] drop_map [symmetric])
qed

lemma count_list_distinct: "distinct xs \<Longrightarrow> count_list xs x \<le> 1"
  by (induction xs) (auto simp: count_list_0_iff)

lemma find_filter: "List.find P xs = (case filter P xs of [] \<Rightarrow> None | x # _ \<Rightarrow> Some x)"
  by (induction xs) auto

text \<open>At most one row is active on a thread, so the query for the active run never finds two.\<close>

lemma active_rows_le_one:
  assumes "pg_runs_inv rows"
  shows "length (filter (\<lambda>w. rr_thread_id w = Some t \<and> active_row w) rows) \<le> 1"
proof -
  have "length (filter (\<lambda>w. rr_thread_id w = Some t \<and> active_row w) rows) = count_list (live_threads (pg_runs rows)) (Some t)"
    if "list_all readable rows" for rows
    using that
    by (induction rows) (auto simp: pg_runs_def holds_thread_def readable_fields)
  moreover have "count_list (live_threads (pg_runs rows)) (Some t) \<le> 1"
    using assms by (intro count_list_distinct) (simp add: pg_runs_inv_def one_active_def)
  ultimately show ?thesis using assms by (simp add: pg_runs_inv_def)
qed

lemma pg_runs_active_refines:
  assumes "pg_runs_inv rows"
  shows "pg_runs_active_for_thread t rows = (fst (runs_active_for_thread t (pg_runs rows)), rows)"
proof -
  let ?f = "\<lambda>w. projr (run_of_row w)" and ?P = "\<lambda>w. rr_thread_id w = Some t \<and> active_row w"
  have rd: "\<forall>w \<in> set rows. readable w" using assms by (simp add: pg_runs_inv_def list_all_iff)
  have "filter (\<lambda>r. rn_thread_key r = Some t \<and> is_active (rn_status r)) (map ?f rows) = map ?f (filter ?P rows)"
    using rd by (intro map_filter_cong [symmetric]) (auto simp: readable_fields)
  then have mem: "runs_active (pg_runs rows) t = (case map ?f (filter ?P rows) of [] \<Rightarrow> None | r # _ \<Rightarrow> Some r)"
    by (simp add: runs_active_def pg_runs_values find_filter)
  consider "filter ?P rows = []" | w where "filter ?P rows = [w]"
    using active_rows_le_one [OF assms, of t] by (cases "filter ?P rows") auto
  then show ?thesis
  proof cases
    case 2
    then have "w \<in> set (filter ?P rows)" by simp
    then have "readable w" using rd by simp
    from readableD [OF this] obtain r where "run_of_row w = Inr r" by blast
    with 2 mem show ?thesis
      by (simp add: pg_runs_active_for_thread_def one_or_none_def read_option_def runs_active_for_thread_def getsM_def)
  qed (use mem in \<open>simp add: pg_runs_active_for_thread_def one_or_none_def read_option_def runs_active_for_thread_def getsM_def\<close>)
qed

subsection \<open>Every operation keeps the table well formed\<close>

lemma row_of_run_fields:
  assumes "identity_wf (rn_identity r)"
  shows "rr_thread_id (row_of_run now r) \<noteq> Some []" and "rr_id (row_of_run now r) = rn_key r"
    and "rr_thread_id (row_of_run now r) = rn_thread_key r" and "readable (row_of_run now r)"
proof -
  show "rr_thread_id (row_of_run now r) \<noteq> Some []" and "rr_id (row_of_run now r) = rn_key r"
    and "rr_thread_id (row_of_run now r) = rn_thread_key r"
    using assms by (auto simp: row_of_run_def Let_def identity_wf_def thread_key_def classed_def split: option.splits)
  then show "readable (row_of_run now r)" using run_row_roundtrip [OF assms] by (simp add: readable_def)
qed

lemma pg_runs_create_preserves:
  assumes "identity_wf (rn_identity r)"
  shows "preserves pg_runs_inv (pg_runs_create now r)"
proof (rule preservesI)
  fix rows assume inv: "pg_runs_inv rows"
  note f = row_of_run_fields [OF assms, of now]
  let ?w = "row_of_run now r"
  have w: "projr (run_of_row ?w) = stamped now r" by (simp add: run_row_roundtrip [OF assms])
  have "pg_runs_inv (rows @ [?w])"
    if "\<not> list_ex (\<lambda>x. rr_id x = rr_id ?w) rows" "\<not> index_conflict ?w rows"
  proof -
    have "Some t \<notin> set (live_threads (pg_runs rows))" if "holds_thread (stamped now r)" "rn_thread_key r = Some t" for t
      using inv that \<open>\<not> index_conflict ?w rows\<close> \<open>\<not> list_ex _ rows\<close> f w readable_fields(4) [OF f(4)]
      by (auto simp: pg_live pg_runs_inv_def index_conflict_def holds_thread_def list_ex_iff)
    moreover have "rn_thread_key r \<noteq> None" if "holds_thread (stamped now r)"
      using that by (simp add: holds_thread_def)
    ultimately have "one_active (pg_runs (rows @ [?w]))"
      using inv f w by (auto simp: pg_runs_inv_def pg_runs_def one_active_def)
    moreover have "map_of (pg_runs rows) (rn_key r) = None"
      using that(1) f(2) by (auto simp: pg_runs_find find_None_iff list_ex_iff)
    then have "pg_runs (rows @ [?w]) = AList.update (rn_key r) (stamped now r) (pg_runs rows)"
      using f(2) w by (simp add: dict_update_new) (simp add: pg_runs_def)
    then have "keyed_by rn_key (pg_runs (rows @ [?w]))"
      using inv keyed_by_update [of rn_key "pg_runs rows" "rn_key r" "stamped now r"] by (simp add: pg_runs_inv_def)
    ultimately show ?thesis using inv f(4) by (simp add: pg_runs_inv_def)
  qed
  then show "pg_runs_inv (snd (pg_runs_create now r rows))"
    using inv by (auto simp: pg_runs_create_def transaction_def Let_def)
qed

lemma pg_runs_update_preserves: "preserves pg_runs_inv (pg_runs_update now r)"
proof (rule preservesI)
  fix rows assume inv: "pg_runs_inv rows"
  show "pg_runs_inv (snd (pg_runs_update now r rows))"
  proof (cases "List.find (\<lambda>w. rr_id w = rn_key r) rows")
    case (Some w)
    show ?thesis
    proof (cases "index_conflict (change_run_row now r w) rows")
      case False
      then show ?thesis using pg_runs_update_spec [OF inv Some] by fastforce
    qed (use inv Some in \<open>simp add: pg_runs_update_def transaction_def\<close>)
  qed (use inv in \<open>simp add: pg_runs_update_def transaction_def\<close>)
qed

datatype run_write = RCreate datetime Run | RUpdate datetime Run | RDelete string

definition apply_write :: "run_write \<Rightarrow> run_table \<Rightarrow> run_table" where
  "apply_write op rows = (case op of
     RCreate now r \<Rightarrow> snd (pg_runs_create now r rows)
   | RUpdate now r \<Rightarrow> snd (pg_runs_update now r rows)
   | RDelete k \<Rightarrow> snd (pg_runs_delete k rows))"

definition write_ok :: "run_write \<Rightarrow> bool" where
  "write_ok op = (case op of RCreate _ r \<Rightarrow> identity_wf (rn_identity r) | _ \<Rightarrow> True)"

lemma pg_writes_inv:
  assumes "list_all write_ok ops" and "pg_runs_inv rows"
  shows "pg_runs_inv (fold apply_write ops rows)"
  using assms
proof (induction ops arbitrary: rows)
  case (Cons op ops)
  have "pg_runs_inv (apply_write op rows)"
    using Cons.prems preserves_state [OF pg_runs_create_preserves] preserves_state [OF pg_runs_update_preserves]
      pg_runs_delete_refines(3)
    by (auto simp: apply_write_def write_ok_def split: run_write.splits)
  with Cons show ?case by simp
qed simp

subsection \<open>Assistants and threads\<close>

text \<open>
  \<open>versions\<close> builds an assistant by position: the configuration arrives as the description, the context as
  the configuration and the metadata as the context.
\<close>

lemma to_assistant_shifts:
  assumes "read_assistant w v = Inr a" and "to_assistant w v = Inr b"
  shows "as_description b = JObj (as_config a)" and "as_config b = as_context a" and "as_context b = as_metadata a"
    and "as_metadata b = []"
  using assms by (cases "parse_id AssistantId (ar_id w)"; auto simp: read_assistant_def to_assistant_def)+

text \<open>
  The two assistant tables: one row per assistant, one version row per number, and the active version of
  every assistant is there.
\<close>

definition pg_assistants_inv :: "AssistantTables \<Rightarrow> bool" where
  "pg_assistants_inv s \<longleftrightarrow> distinct (map ar_id (at_rows s))
     \<and> distinct (map (\<lambda>v. (vr_assistant_id v, vr_version v)) (at_versions s))
     \<and> list_all (\<lambda>v. vr_id v = version_id (vr_assistant_id v) (vr_version v)) (at_versions s)
     \<and> list_all (\<lambda>w. (ar_id w, ar_active_version w) \<in> set (map (\<lambda>v. (vr_assistant_id v, vr_version v)) (at_versions s)))
          (at_rows s)"

lemma transaction_preserves: "preserves I m \<Longrightarrow> preserves I (transaction m)"
  by (auto simp: preserves_iff transaction_def split: prod.splits sum.splits)

lemma pg_assistants_get_state [simp]: "snd (pg_assistants_get k s) = s"
  by (simp add: pg_assistants_get_def)

lemma pg_assistants_create_inv: "preserves pg_assistants_inv (pg_assistants_create app a)"
proof (rule preservesI)
  fix s assume "pg_assistants_inv s"
  then show "pg_assistants_inv (snd (pg_assistants_create app a s))"
    by (auto simp: pg_assistants_create_def Let_def prog_defs transaction_def insert_assistant_def insert_version_def
        pg_assistants_inv_def list_all_iff list_ex_iff image_iff)
qed

lemma pg_assistants_delete_inv: "preserves pg_assistants_inv (pg_assistants_delete app k)"
proof (rule preservesI)
  fix s assume "pg_assistants_inv s"
  then show "pg_assistants_inv (snd (pg_assistants_delete app k s))"
    by (auto simp: pg_assistants_delete_def prog_defs transaction_def pg_assistants_inv_def list_all_iff image_iff
        distinct_map_filter)
qed

text \<open>\<open>SELECT max(version) + 1\<close> is fresh.\<close>

definition next_version :: "string \<Rightarrow> AssistantTables \<Rightarrow> int" where
  "next_version k s = fold max (map vr_version (filter (\<lambda>v. vr_assistant_id v = k) (at_versions s))) 0 + 1"

lemma fold_max_ge: "(n :: int) \<le> fold max ns n \<and> (\<forall>x \<in> set ns. x \<le> fold max ns n)"
proof (induction ns arbitrary: n)
  case (Cons m ns)
  from Cons.IH [of "max m n"] show ?case by auto
qed simp

lemma next_version_fresh: "v \<in> set (at_versions s) \<Longrightarrow> vr_assistant_id v = k \<Longrightarrow> vr_version v < next_version k s"
  using fold_max_ge [where n = 0 and ns = "map vr_version (filter (\<lambda>v. vr_assistant_id v = k) (at_versions s))"]
  by (fastforce simp: next_version_def)

definition new_version :: "string \<Rightarrow> int \<Rightarrow> obj \<Rightarrow> obj \<Rightarrow> obj \<Rightarrow> AssistantVersionRow" where
  "new_version k n cfg ctx md = \<lparr> vr_id = version_id k n, vr_assistant_id = k, vr_version = n,
     vr_config = cfg, vr_context = ctx, vr_metadata = md \<rparr>"

lemma int_str_inj: "int_str m = int_str n \<Longrightarrow> m = n"
proof -
  assume "int_str m = int_str n"
  with parse_int_str [where r = "[]" and i = m] parse_int_str [where r = "[]" and i = n]
  show "m = n" by (simp add: follows_def)
qed

lemma version_id_inj:
  assumes "version_id k m = version_id l n"
  shows "k = l \<and> m = n"
proof -
  have nocolon: "CHR '':'' \<notin> set (int_str i)" for i
    using int_str_token(1) [of i] by (auto simp: number_token_def list_all_iff number_char_def is_digit_def)
  have "takeWhile (\<lambda>c. c \<noteq> CHR '':'') (rev (version_id j i)) = rev (int_str i)" for j i
    using nocolon [of i] by (auto simp: version_id_def takeWhile_append2 takeWhile_tail)
  then have "rev (int_str m) = rev (int_str n)" using assms by metis
  then have "m = n" using int_str_inj by simp
  with assms show ?thesis by (simp add: version_id_def)
qed

definition after_update :: "string \<Rightarrow> string \<Rightarrow> AssistantVersionRow \<Rightarrow> AssistantTables \<Rightarrow> AssistantTables" where
  "after_update k g v s = s \<lparr> at_versions := at_versions s @ [v],
     at_rows := map (\<lambda>w. if ar_id w = k then w \<lparr> ar_graph_id := g, ar_active_version := vr_version v \<rparr> else w)
       (at_rows s) \<rparr>"

text \<open>An update adds a version with the next number, keeps the older ones and makes it active.\<close>

lemma pg_assistants_update_spec:
  assumes "pg_assistants_inv s" and "own_row app k s = Some w"
    and "jsonb (as_config a) = Inr cfg" and "jsonb (as_context a) = Inr ctx" and "jsonb (named_metadata a) = Inr md"
  shows "pg_assistants_update jsonb app k a s =
      pg_assistants_get k (after_update k (as_graph_id a) (new_version k (next_version k s) cfg ctx md) s)"
proof -
  have "\<not> list_ex (\<lambda>x. vr_id x = version_id k (next_version k s)
      \<or> (vr_assistant_id x = k \<and> vr_version x = next_version k s)) (at_versions s)"
    using assms(1) next_version_fresh [of _ s k]
    by (fastforce simp: list_ex_iff pg_assistants_inv_def list_all_iff dest: version_id_inj)
  then show ?thesis
    using assms(2-5)
    by (simp add: pg_assistants_update_def prog_defs transaction_def next_version_def [symmetric] insert_version_def
        set_row_def after_update_def new_version_def cong: if_cong)
qed

lemma find_map_same:
  "(\<And>x. key (h x) = key x) \<Longrightarrow> List.find (\<lambda>x. key x = k) (map h xs) = map_option h (List.find (\<lambda>x. key x = k) xs)"
  by (induction xs) auto

lemma after_update_get:
  assumes "find_assistant k s = Some w" and "vr_version v = next_version k s" and "vr_assistant_id v = k"
  shows "pg_assistants_get k (after_update k g v s) =
      (read_assistant (w \<lparr> ar_graph_id := g, ar_active_version := next_version k s \<rparr>) v, after_update k g v s)"
proof -
  have w: "ar_id w = k" using assms(1) by (auto simp: find_assistant_def dest: find_SomeD)
  have "find_assistant k (after_update k g v s) = Some (w \<lparr> ar_graph_id := g, ar_active_version := next_version k s \<rparr>)"
    using assms w by (simp add: find_assistant_def after_update_def find_map_same [where key = ar_id])
  moreover have "filter (\<lambda>x. vr_assistant_id x = k \<and> vr_version x = next_version k s) (at_versions s) = []"
    using next_version_fresh [of _ s k] by (fastforce simp: filter_empty_conv)
  ultimately show ?thesis
    using assms by (simp add: pg_assistants_get_def after_update_def one_or_none_def)
qed

lemma after_update_inv:
  assumes "pg_assistants_inv s"
  shows "pg_assistants_inv (after_update k g (new_version k (next_version k s) cfg ctx md) s)"
  using assms next_version_fresh [of _ s k]
  by (fastforce simp: pg_assistants_inv_def after_update_def new_version_def list_all_iff comp_def if_distrib cong: if_cong)

lemma pg_assistants_update_inv: "preserves pg_assistants_inv (pg_assistants_update jsonb app k a)"
  unfolding pg_assistants_update_def
proof (intro preserves_then transaction_preserves preserves_bind preserves_gets)
  show "preserves pg_assistants_inv (pg_assistants_get k)" by (simp add: preserves_iff)
  fix row
  show "preserves pg_assistants_inv (if row = None then raise (assistant_missing k)
       else bindM (getsM (\<lambda>s. fold max (map vr_version (filter (\<lambda>v. vr_assistant_id v = k) (at_versions s))) 0 + 1)) (\<lambda>version.
         bindM (liftE (jsonb (as_config a))) (\<lambda>cfg.
         bindM (liftE (jsonb (as_context a))) (\<lambda>ctx.
         bindM (liftE (jsonb (named_metadata a))) (\<lambda>md.
         thenM (insert_version \<lparr> vr_id = version_id k version, vr_assistant_id = k, vr_version = version,
              vr_config = cfg, vr_context = ctx, vr_metadata = md \<rparr>)
         (set_row k (\<lambda>w. w \<lparr> ar_graph_id := as_graph_id a, ar_active_version := version \<rparr>)))))))"
    using after_update_inv [of _ k "as_graph_id a"]
    by (auto simp: preserves_iff prog_defs next_version_def [symmetric] insert_version_def set_row_def
        after_update_def new_version_def split: sum.splits cong: if_cong)
qed

lemma pg_assistants_set_latest_inv: "preserves pg_assistants_inv (pg_assistants_set_latest app k version)"
proof (rule preservesI)
  fix s assume inv: "pg_assistants_inv s"
  let ?s = "s \<lparr> at_rows := map (\<lambda>w. if ar_id w = k then w \<lparr> ar_active_version := version \<rparr> else w) (at_rows s) \<rparr>"
  have "pg_assistants_inv ?s" if "List.find (\<lambda>v. vr_id v = version_id k version) (at_versions s) = Some v" for v
  proof -
    have "v \<in> set (at_versions s)" "vr_id v = version_id k version" using find_SomeD [OF that] by auto
    then have "(k, version) \<in> (\<lambda>v. (vr_assistant_id v, vr_version v)) ` set (at_versions s)"
      using inv by (intro rev_image_eqI [of v]) (auto simp: pg_assistants_inv_def list_all_iff dest: version_id_inj)
    with inv show ?thesis by (auto simp: pg_assistants_inv_def list_all_iff comp_def if_distrib cong: if_cong)
  qed
  with inv show "pg_assistants_inv (snd (pg_assistants_set_latest app k version s))"
    by (auto simp: pg_assistants_set_latest_def prog_defs transaction_def set_row_def)
qed

text \<open>What an update leaves: the assistant read back is the one given, under the next version number, and
  the older versions are all kept.\<close>

lemma named_metadata_read:
  assumes "map_of (as_metadata a) ''name'' = None"
  shows "get_null (named_metadata a) ''name'' = as_name a"
    and "AList.delete ''name'' (named_metadata a) = as_metadata a"
  using assms by (simp_all add: named_metadata_def get_or_def AList.delete_update_same map_of_eq_None_iff)

lemma own_rowD: "own_row app k s = Some w \<Longrightarrow> find_assistant k s = Some w \<and> ar_id w = k"
  by (auto simp: own_row_def find_assistant_def split: option.splits if_splits dest: find_SomeD)

lemma pg_assistants_update_read:
  assumes "pg_assistants_inv s" and "own_row app k s = Some w" and "parse_id AssistantId k = Inr i"
    and "map_of (as_metadata a) ''name'' = None"
  shows "\<exists>s'. pg_assistants_update Inr app k a s =
      (Inr \<lparr> as_assistant_id = i, as_graph_id = as_graph_id a, as_version = next_version k s, as_name = as_name a,
         as_description = JNull, as_config = as_config a, as_context = as_context a, as_metadata = as_metadata a,
         as_created_at = None, as_updated_at = None \<rparr>, s')
    \<and> at_versions s' = at_versions s @
        [new_version k (next_version k s) (as_config a) (as_context a) (named_metadata a)]"
proof -
  let ?v = "new_version k (next_version k s) (as_config a) (as_context a) (named_metadata a)"
  have "pg_assistants_update Inr app k a s = pg_assistants_get k (after_update k (as_graph_id a) ?v s)"
    by (rule pg_assistants_update_spec [OF assms(1,2)]) simp_all
  also have "\<dots> = (read_assistant (w \<lparr> ar_graph_id := as_graph_id a, ar_active_version := next_version k s \<rparr>) ?v,
      after_update k (as_graph_id a) ?v s)"
    using own_rowD [OF assms(2)] by (intro after_update_get) (simp_all add: new_version_def)
  finally show ?thesis
    using own_rowD [OF assms(2)] assms(3) named_metadata_read [OF assms(4)]
    by (simp add: read_assistant_def new_version_def after_update_def)
qed

end
