(* ===== verification/Worker_Service.thy ===== *)
theory Worker_Service
  imports Grpc_Worker Postgres_Refinement Kafka_Dispatch
begin

section \<open>The worker processes\<close>

text \<open>
  \<^verbatim>\<open>services/worker/main.py\<close> and \<^verbatim>\<open>services/all/main.py\<close>: what a worker does with a command it received from
  Kafka, on the Postgres tables of runs and threads.  The nested functions of \<open>_serve\<close> are programs on
  one state record that holds the tables, the queue, the semaphore and the clock.  The stream of an
  adapter is its drafts and the exception it ends with, as in the runtime service.  The remote call
  \<open>StreamEvents\<close> is a parameter: \<open>Some (n, e)\<close> when it fails with \<open>e\<close> after taking \<open>n\<close> events.
  Starting and stopping the servers is not modelled.
\<close>

subsection \<open>State\<close>

record Worker =
  wk_runs :: run_table
  wk_threads :: thread_table
  wk_queue :: AioKafkaQueue
  wk_slots :: int
  wk_sent :: "ProtoEvent list"
  wk_clock :: "nat \<Rightarrow> datetime"
  wk_clock_ix :: nat

type_synonym 'a wkr = "(Worker, exc, 'a) prog"

definition wk_now :: "datetime wkr" where
  "wk_now = (\<lambda>w. (Inr (wk_clock w (wk_clock_ix w)), w \<lparr> wk_clock_ix := Suc (wk_clock_ix w) \<rparr>))"

abbreviation wk_on_runs :: "(run_table, exc, 'a) prog \<Rightarrow> 'a wkr" where
  "wk_on_runs \<equiv> zoomM wk_runs (\<lambda>c. wk_runs_update (\<lambda>_. c))"

abbreviation wk_on_threads :: "(thread_table, exc, 'a) prog \<Rightarrow> 'a wkr" where
  "wk_on_threads \<equiv> zoomM wk_threads (\<lambda>c. wk_threads_update (\<lambda>_. c))"

abbreviation wk_on_queue :: "'a aio \<Rightarrow> 'a wkr" where
  "wk_on_queue \<equiv> zoomM wk_queue (\<lambda>c. wk_queue_update (\<lambda>_. c))"

text \<open>\<open>rs.update(f(now))\<close> and \<open>thread = ts.get(t); ts.update(f(thread, now))\<close>; the database has its own clock.\<close>

definition wk_update_run :: "(datetime \<Rightarrow> exc + Run) \<Rightarrow> unit wkr" where
  "wk_update_run f = bindM wk_now (\<lambda>n. bindM (liftE (f n)) (\<lambda>r. bindM wk_now (\<lambda>db.
     bindM (wk_on_runs (pg_runs_update db r)) (\<lambda>_. ret ()))))"

definition wk_update_thread :: "string \<Rightarrow> (Thread \<Rightarrow> datetime \<Rightarrow> Thread) \<Rightarrow> unit wkr" where
  "wk_update_thread k f = bindM (wk_on_threads (pg_threads_get k)) (\<lambda>t. bindM wk_now (\<lambda>n. bindM wk_now (\<lambda>db.
     bindM (wk_on_threads (pg_threads_update db (f t n))) (\<lambda>_. ret ()))))"

definition worker_terminal_types :: "runtime_event_type list" where
  "worker_terminal_types = [RUN_COMPLETED, RUN_FAILED, RUN_CANCELLED, RUN_INTERRUPTED]"

definition final_statuses :: "run_status list" where
  "final_statuses = [SUCCESS, ERROR, TIMEOUT, CANCELLED, INTERRUPTED]"

definition identity_to_proto :: "ExecutionIdentity \<Rightarrow> ProtoIdentity" where
  "identity_to_proto i =
     \<lparr> pi_workspace_id = id_value (workspace_id (scope i)), pi_project_id = id_value (project_id (scope i)),
       pi_application_id = id_value (application_id (scope i)), pi_revision_id = id_value (revision_id (scope i)),
       pi_deployment_id = id_value (deployment_id (scope i)), pi_assistant_id = id_value (assistant_id i),
       pi_thread_id = (case thread_key i of None \<Rightarrow> [] | Some t \<Rightarrow> t), pi_run_id = run_key i,
       pi_attempt_id = id_value (attempt_id i) \<rparr>"

subsection \<open>Reacting to the events of a run (worker/main.py)\<close>

text \<open>\<open>result\<close> is what a completed run stores.\<close>

definition wk_settle_run :: "RuntimeEventDraft \<Rightarrow> json \<Rightarrow> Run \<Rightarrow> datetime \<Rightarrow> exc + Run" where
  "wk_settle_run d result current n =
     (if ev_is (dr_type d) RUN_COMPLETED then complete current result n
      else if ev_is (dr_type d) RUN_CANCELLED then cancel current n
      else if ev_is (dr_type d) RUN_INTERRUPTED then interrupted_run current n
      else fail current (make_run_error ''FRAMEWORK_EXECUTION_FAILED'' (py_str (dr_data d)) False None) n)"

definition wk_settle_thread :: "RuntimeEventDraft \<Rightarrow> Thread \<Rightarrow> datetime \<Rightarrow> Thread" where
  "wk_settle_thread d t n = (if ev_is (dr_type d) RUN_INTERRUPTED then mark_interrupted t n else mark_idle t n)"

definition wk_settle :: "string \<Rightarrow> RuntimeEventDraft \<Rightarrow> json \<Rightarrow> unit wkr" where
  "wk_settle k d result = bindM (wk_on_runs (pg_runs_get k)) (\<lambda>current.
     thenM (wk_update_run (wk_settle_run d result current))
       (case rn_thread_key current of None \<Rightarrow> ret () | Some t \<Rightarrow> wk_update_thread t (wk_settle_thread d)))"

definition maybe_take_action :: "Run \<Rightarrow> RuntimeEventDraft \<Rightarrow> unit wkr" where
  "maybe_take_action run d =
     (if ev_is (dr_type d) STATE_VALUES then ret ()
      else if \<not> ev_in (dr_type d) worker_terminal_types then ret ()
      else wk_settle (rn_key run) d (dr_data d))"

definition fail_if_not_done :: "string \<Rightarrow> exc \<Rightarrow> unit wkr" where
  "fail_if_not_done k e = bindM (wk_on_runs (pg_runs_get k)) (\<lambda>current.
     whenM (rn_status current \<notin> set final_statuses)
       (wk_update_run (fail current (make_run_error ''EXECUTION_FAILED'' (exc_str e) False None))))"

definition mark_idle_if_needed :: "string \<Rightarrow> unit wkr" where
  "mark_idle_if_needed k = bindM (wk_on_runs (pg_runs_get k)) (\<lambda>current.
     case rn_thread_key current of None \<Rightarrow> ret () | Some t \<Rightarrow> wk_update_thread t mark_idle)"

definition stream_end :: "exc option \<Rightarrow> unit wkr" where
  "stream_end ending = (case ending of None \<Rightarrow> ret () | Some e \<Rightarrow> raise e)"

definition on_exception :: "(exc \<Rightarrow> unit wkr) \<Rightarrow> exc \<Rightarrow> unit wkr" where
  "on_exception h e = (if is_exception e then h e else raise e)"

definition stream_local :: "RunCommandReceipt \<Rightarrow> Run \<Rightarrow> Adapter \<Rightarrow> unit wkr" where
  "stream_local receipt run a = (let rq = rc_request (rp_command receipt) in
     thenM (catchM (thenM (forM (maybe_take_action run) (fst (ad_stream a rq))) (stream_end (snd (ad_stream a rq))))
       (on_exception (fail_if_not_done (rn_key run))))
     (mark_idle_if_needed (rn_key run)))"

text \<open>
  The generator handed to the remote call.  It returns whether it ran to its end; when the call has failed
  it stays suspended at its last event, whose effect on the tables is then missing.
\<close>

definition send_proto :: "(int \<Rightarrow> (rat \<times> string) option) \<Rightarrow> ProtoIdentity \<Rightarrow> nat \<Rightarrow> RuntimeEventDraft \<Rightarrow> unit wkr" where
  "send_proto dbl i n d = bindM wk_now (\<lambda>now. bindM (liftE (proto_event dbl i now (int n) d)) (\<lambda>p.
     modifyM (\<lambda>w. w \<lparr> wk_sent := wk_sent w @ [p] \<rparr>)))"

fun grpc_drafts ::
  "(int \<Rightarrow> (rat \<times> string) option) \<Rightarrow> Run \<Rightarrow> nat option \<Rightarrow> nat \<Rightarrow> RuntimeEventDraft list \<Rightarrow> exc option \<Rightarrow> bool wkr" where
  "grpc_drafts dbl run taken n [] ending = thenM (stream_end ending) (ret True)"
| "grpc_drafts dbl run taken n (d # ds) ending =
     thenM (send_proto dbl (identity_to_proto (rn_identity run)) n d)
       (if taken = Some (Suc n) then ret False
        else thenM (maybe_take_action run d) (grpc_drafts dbl run taken (Suc n) ds ending))"

definition stream_via_grpc ::
  "(int \<Rightarrow> (rat \<times> string) option) \<Rightarrow> (nat \<times> exc) option \<Rightarrow> RunCommandReceipt \<Rightarrow> Run \<Rightarrow> Adapter \<Rightarrow> unit wkr" where
  "stream_via_grpc dbl rpc receipt run a = (let rq = rc_request (rp_command receipt) in
     thenM (if map_option fst rpc = Some 0 then ret False
       else catchM (grpc_drafts dbl run (map_option fst rpc) 0 (fst (ad_stream a rq)) (snd (ad_stream a rq)))
         (\<lambda>e. thenM (on_exception (fail_if_not_done (rn_key run)) e) (ret True)))
     (thenM (case rpc of None \<Rightarrow> ret () | Some (_, e) \<Rightarrow> raise e)
     (mark_idle_if_needed (rn_key run))))"

definition sem_acquire :: "bool wkr" where
  "sem_acquire = (\<lambda>w. if 0 < wk_slots w then (Inr True, w \<lparr> wk_slots := wk_slots w - 1 \<rparr>) else (Inr False, w))"

definition sem_release :: "unit wkr" where
  "sem_release = modifyM (\<lambda>w. w \<lparr> wk_slots := wk_slots w + 1 \<rparr>)"

text \<open>\<open>gateway\<close>: \<open>None\<close> without a gateway channel.\<close>

definition handle_receipt ::
  "(int \<Rightarrow> (rat \<times> string) option) \<Rightarrow> (nat \<times> exc) option option \<Rightarrow> (string, Adapter) pydict \<Rightarrow> RunCommandReceipt \<Rightarrow> unit wkr" where
  "handle_receipt dbl gateway adapters receipt =
     bindM (wk_on_runs (pg_runs_get (run_key (rp_identity receipt)))) (\<lambda>run.
      if rn_status run \<noteq> PENDING then wk_on_queue (aio_acknowledge receipt)
      else thenM (wk_update_run (mark_running run))
        (case map_of adapters (id_value (assistant_id (rp_identity receipt))) of
           None \<Rightarrow> wk_on_queue (aio_acknowledge receipt)
         | Some a \<Rightarrow>
             thenM (case gateway of Some rpc \<Rightarrow> stream_via_grpc dbl rpc receipt run a
                     | None \<Rightarrow> stream_local receipt run a)
             (wk_on_queue (aio_acknowledge receipt))))"

definition process_receipt ::
  "(int \<Rightarrow> (rat \<times> string) option) \<Rightarrow> (nat \<times> exc) option option \<Rightarrow> (string, Adapter) pydict \<Rightarrow> RunCommandReceipt \<Rightarrow> unit wkr" where
  "process_receipt dbl gateway adapters receipt = finallyM (handle_receipt dbl gateway adapters receipt) sem_release"

subsection \<open>The single-process variant (all/main.py)\<close>

text \<open>The loop carries the last state value and whether a terminal event was seen.\<close>

definition all_draft :: "string \<Rightarrow> RuntimeEventDraft \<Rightarrow> json \<times> bool \<Rightarrow> (json \<times> bool) wkr" where
  "all_draft k d acc =
     (let last_result = (if ev_is (dr_type d) STATE_VALUES then dr_data d else fst acc) in
      if ev_in (dr_type d) worker_terminal_types
      then thenM (wk_settle k d last_result) (ret (last_result, True))
      else ret (last_result, snd acc))"

fun all_drafts ::
  "(int \<Rightarrow> (rat \<times> string) option) \<Rightarrow> ProtoIdentity \<Rightarrow> string \<Rightarrow> nat option \<Rightarrow> nat \<Rightarrow> RuntimeEventDraft list \<Rightarrow> exc option \<Rightarrow>
   json \<times> bool \<Rightarrow> bool wkr" where
  "all_drafts dbl i k taken n [] ending acc =
     thenM (stream_end ending)
     (thenM (whenM (\<not> snd acc) (bindM (wk_on_runs (pg_runs_get k)) (\<lambda>current.
        wk_update_run (complete current (fst acc)))))
     (thenM (mark_idle_if_needed k) (ret True)))"
| "all_drafts dbl i k taken n (d # ds) ending acc =
     thenM (send_proto dbl i n d)
       (if taken = Some (Suc n) then ret False
        else bindM (all_draft k d acc) (all_drafts dbl i k taken (Suc n) ds ending))"

definition send_events_to_gateway ::
  "(int \<Rightarrow> (rat \<times> string) option) \<Rightarrow> (nat \<times> exc) option \<Rightarrow> RunCommandReceipt \<Rightarrow> Adapter \<Rightarrow> unit wkr" where
  "send_events_to_gateway dbl rpc receipt a = (let rq = rc_request (rp_command receipt); k = run_key (rp_identity receipt) in
     thenM (if map_option fst rpc = Some 0 then ret False
       else catchM (all_drafts dbl (identity_to_proto (rp_identity receipt)) k (map_option fst rpc) 0
           (fst (ad_stream a rq)) (snd (ad_stream a rq)) (JNull, False))
         (\<lambda>e. thenM (on_exception (fail_if_not_done k) e) (ret True)))
     (case rpc of None \<Rightarrow> ret () | Some (_, e) \<Rightarrow> raise e))"

definition handle_receipt_all ::
  "(int \<Rightarrow> (rat \<times> string) option) \<Rightarrow> (nat \<times> exc) option \<Rightarrow> Adapter \<Rightarrow> RunCommandReceipt \<Rightarrow> unit wkr" where
  "handle_receipt_all dbl rpc a receipt =
     bindM (wk_on_runs (pg_runs_get (run_key (rp_identity receipt)))) (\<lambda>run.
      if rn_status run \<noteq> PENDING then wk_on_queue (aio_acknowledge receipt)
      else thenM (wk_update_run (mark_running run))
        (thenM (send_events_to_gateway dbl rpc receipt a) (wk_on_queue (aio_acknowledge receipt))))"

definition process_receipt_all ::
  "(int \<Rightarrow> (rat \<times> string) option) \<Rightarrow> (nat \<times> exc) option \<Rightarrow> Adapter \<Rightarrow> RunCommandReceipt \<Rightarrow> unit wkr" where
  "process_receipt_all dbl rpc a receipt = finallyM (handle_receipt_all dbl rpc a receipt) sem_release"

subsection \<open>The loop over the queue\<close>

text \<open>One turn of \<open>_execution_loop\<close>, given what \<open>receive\<close> gives: a task is spawned, the turn waits for the
  semaphore, the failure is passed over, or the loop is left.\<close>

datatype loop_turn = Spawned RunCommandReceipt | WaitsForSlot RunCommandReceipt | PassedOver | LoopLeft "exc option"

definition execution_turn :: "exc + RunCommandReceipt \<Rightarrow> loop_turn wkr" where
  "execution_turn got = (case got of
     Inr receipt \<Rightarrow> bindM sem_acquire (\<lambda>ok. ret (if ok then Spawned receipt else WaitsForSlot receipt))
   | Inl CancelledError \<Rightarrow> ret (LoopLeft None)
   | Inl (RuntimeFailureError c m b d) \<Rightarrow> ret (if c = QUEUE_CLOSED then LoopLeft None else PassedOver)
   | Inl e \<Rightarrow> ret (LoopLeft (Some e)))"

fun execution_loop :: "(exc + RunCommandReceipt) list \<Rightarrow> RunCommandReceipt list \<Rightarrow> (RunCommandReceipt list \<times> exc option) wkr" where
  "execution_loop [] spawned = ret (spawned, None)"
| "execution_loop (got # rest) spawned = bindM (execution_turn got) (\<lambda>t. case t of
     Spawned r \<Rightarrow> execution_loop rest (spawned @ [r])
   | WaitsForSlot r \<Rightarrow> ret (spawned, None)
   | PassedOver \<Rightarrow> execution_loop rest spawned
   | LoopLeft e \<Rightarrow> ret (spawned, e))"

subsection \<open>Registration, heartbeat and entry points\<close>

text \<open>\<open>_register_with_gateway\<close>: \<open>posts n\<close> is the outcome of the \<open>n\<close>-th post, \<open>None\<close> on success, and
  \<open>retried\<close> tells the client's and the system's errors from others.  The result is the number of posts.\<close>

fun post_attempts :: "(exc \<Rightarrow> bool) \<Rightarrow> (nat \<Rightarrow> exc option) \<Rightarrow> string \<Rightarrow> nat \<Rightarrow> nat \<Rightarrow> exc + nat" where
  "post_attempts retried posts url attempt 0 = Inr attempt"
| "post_attempts retried posts url attempt (Suc left) = (case posts attempt of
     None \<Rightarrow> Inr (Suc attempt)
   | Some e \<Rightarrow> if \<not> retried e then Inl e
       else if attempt \<ge> 9 then Inl (RuntimeError (''worker registration failed: '' @ url))
       else post_attempts retried posts url (Suc attempt) left)"

definition register_with_gateway :: "(exc \<Rightarrow> bool) \<Rightarrow> (nat \<Rightarrow> exc option) \<Rightarrow> string option \<Rightarrow> exc + nat" where
  "register_with_gateway retried posts url = (case url of
     Some (c # cs) \<Rightarrow> post_attempts retried posts (c # cs) 0 10 | _ \<Rightarrow> Inr 0)"

definition env_or :: "(string, string) pydict \<Rightarrow> string \<Rightarrow> string \<Rightarrow> string" where
  "env_or env k d = (case map_of env k of Some v \<Rightarrow> v | None \<Rightarrow> d)"

definition capabilities_dict :: "AdapterCapabilities \<Rightarrow> obj" where
  "capabilities_dict c =
     [(''streaming'', JBool (cap_streaming c)), (''cancellation'', JBool (cap_cancellation c)),
      (''history'', JBool (cap_history c)), (''checkpoint'', JBool (cap_checkpoint c)),
      (''state_management'', JBool (cap_state_management c)), (''interrupt'', JBool (cap_interrupt c)),
      (''resume'', JBool (cap_resume c)), (''fork'', JBool (cap_fork c)), (''custom_http'', JBool (cap_custom_http c)),
      (''a2a'', JBool (cap_a2a c)), (''subagents'', JBool (cap_subagents c))]"

definition registration_payload ::
  "(string, string) pydict \<Rightarrow> string \<Rightarrow> string \<Rightarrow> string \<Rightarrow> AdapterManifest \<Rightarrow> obj" where
  "registration_payload env grpc_host grpc_port graph m =
     (let instance_id = env_or env ''UR_INSTANCE_ID'' ''worker''; app = env_or env ''UR_APPLICATION_ID'' ''default'' in
      [(''worker_id'', JStr instance_id), (''pod_name'', JStr (env_or env ''HOSTNAME'' instance_id)),
       (''target'', JStr (env_or env ''UR_WORKER_ADVERTISE_TARGET'' (grpc_host @ '':'' @ grpc_port))),
       (''application_id'', JStr app), (''workspace_key'', JStr (env_or env ''UR_WORKSPACE_KEY'' ''default'')),
       (''app_version'', JStr (env_or env ''ARTIFACT_VERSION'' ''unknown'')),
       (''alembic_version'', JStr (env_or env ''ARTIFACT_VERSION'' ''unknown'')),
       (''run_topic'', JStr (case env_or env ''UR_RUN_TOPIC'' [] of
          [] \<Rightarrow> run_topic_for (env_or env ''UR_TOPIC_PREFIX'' ''rt'') app 100 | t \<Rightarrow> t)),
       (''graph_id'', JStr graph),
       (''manifest'', JObj [(''adapter_id'', JStr (mf_adapter_id m)), (''adapter_version'', JStr (mf_adapter_version m)),
          (''profiles'', JArr (map JStr (supported_profiles m))),
          (''capabilities'', JObj (capabilities_dict (mf_capabilities m)))])])"

record WorkerRow =
  wrow_id :: string
  wrow_worker_id :: string
  wrow_deployment_id :: string
  wrow_status :: string
  wrow_updated_at :: datetime

text \<open>\<open>INSERT ... ON CONFLICT (worker_id) DO UPDATE\<close>.\<close>

definition heartbeat :: "datetime \<Rightarrow> string \<Rightarrow> string \<Rightarrow> WorkerRow list \<Rightarrow> WorkerRow list" where
  "heartbeat now wid app rows =
     (if list_ex (\<lambda>w. wrow_worker_id w = wid) rows
      then map (\<lambda>w. if wrow_worker_id w = wid then w \<lparr> wrow_status := ''active'', wrow_updated_at := now \<rparr> else w) rows
      else rows @ [\<lparr> wrow_id = wid, wrow_worker_id = wid, wrow_deployment_id = app, wrow_status = ''active'',
             wrow_updated_at = now \<rparr>])"

definition entrypoints :: "(string, string) pydict \<Rightarrow> exc + string list" where
  "entrypoints env = (case (case env_or env ''UR_APPLICATION_ENTRYPOINTS'' [] of
       [] \<Rightarrow> env_or env ''UR_APPLICATION_ENTRYPOINT'' [] | raw \<Rightarrow> raw) of
     [] \<Rightarrow> Inl (RuntimeError ''UR_APPLICATION_ENTRYPOINT or UR_APPLICATION_ENTRYPOINTS is required'')
   | raw \<Rightarrow> Inr (filter (\<lambda>x. x \<noteq> []) (map py_strip (split_on CHR '','' raw))))"

subsection \<open>What no command can break\<close>

text \<open>
  A property of the worker's state that ignores threads, queue, clock and sent events and that an update of
  a run keeps, is kept by everything a worker does with a command, whatever the adapter streams and
  however the gateway's call ends.
\<close>

locale worker_invariant =
  fixes I :: "Worker \<Rightarrow> bool"
  assumes frame: "I w \<Longrightarrow> I (w \<lparr> wk_clock_ix := n \<rparr>)" "I w \<Longrightarrow> I (w \<lparr> wk_threads := ts \<rparr>)"
      "I w \<Longrightarrow> I (w \<lparr> wk_queue := q \<rparr>)" "I w \<Longrightarrow> I (w \<lparr> wk_sent := ps \<rparr>)" "I w \<Longrightarrow> I (w \<lparr> wk_runs := wk_runs w \<rparr>)"
    and runs: "I w \<Longrightarrow> I (w \<lparr> wk_runs := snd (pg_runs_update db r (wk_runs w)) \<rparr>)"
begin

lemma now_keeps: "preserves I wk_now"
  by (simp add: preserves_iff wk_now_def frame)

lemma threads_keep: "preserves I (wk_on_threads m)"
  by (auto simp: preserves_iff zoomM_def frame split: prod.splits)

lemma queue_keeps: "preserves I (wk_on_queue m)"
  by (auto simp: preserves_iff zoomM_def frame split: prod.splits)

lemma get_keeps: "preserves I (wk_on_runs (pg_runs_get k))"
  by (auto simp: preserves_iff zoomM_def pg_runs_get_def frame(5) split: prod.splits)

lemma update_keeps: "preserves I (wk_on_runs (pg_runs_update db r))"
  using runs by (auto simp: preserves_iff zoomM_def split: prod.splits) (metis snd_conv)

lemma update_run_keeps: "preserves I (wk_update_run f)"
  unfolding wk_update_run_def by (intro preserves_bind now_keeps preserves_liftE update_keeps preserves_ret)

lemma update_thread_keeps: "preserves I (wk_update_thread k f)"
  unfolding wk_update_thread_def by (intro preserves_bind now_keeps threads_keep preserves_ret)

lemma thread_case_keeps:
  "preserves I (case x of None \<Rightarrow> ret () | Some t \<Rightarrow> wk_update_thread t f)"
  by (cases x) (auto intro: preserves_ret update_thread_keeps)

lemma settle_keeps: "preserves I (wk_settle k d result)"
  unfolding wk_settle_def by (intro preserves_bind preserves_then get_keeps update_run_keeps thread_case_keeps)

lemma action_keeps: "preserves I (maybe_take_action run d)"
  unfolding maybe_take_action_def by (intro hoare_if preserves_ret settle_keeps)

lemma fail_keeps: "preserves I (fail_if_not_done k e)"
  unfolding fail_if_not_done_def by (intro preserves_bind get_keeps preserves_when update_run_keeps)

lemma idle_keeps: "preserves I (mark_idle_if_needed k)"
  unfolding mark_idle_if_needed_def by (intro preserves_bind get_keeps thread_case_keeps)

lemma end_keeps: "preserves I (stream_end e)"
  by (cases e) (auto simp: stream_end_def intro: preserves_ret preserves_raise)

lemma except_keeps: "preserves I (on_exception (fail_if_not_done k) e)"
  unfolding on_exception_def by (intro hoare_if fail_keeps preserves_raise)

lemma send_keeps: "preserves I (send_proto dbl i n d)"
proof -
  have "preserves I (modifyM (\<lambda>w. w \<lparr> wk_sent := wk_sent w @ [p] \<rparr>))" for p
    by (simp add: preserves_iff modifyM_def frame)
  then show ?thesis unfolding send_proto_def by (intro preserves_bind now_keeps preserves_liftE)
qed

lemma local_keeps: "preserves I (stream_local receipt run a)"
  unfolding stream_local_def Let_def
  by (intro preserves_then preserves_catch preserves_forM action_keeps end_keeps except_keeps idle_keeps)

lemma grpc_drafts_keep: "preserves I (grpc_drafts dbl run taken n ds ending)"
  by (induction ds arbitrary: n) (auto intro!: preserves_then preserves_ret end_keeps send_keeps action_keeps)

lemma rpc_keeps: "preserves I (case rpc of None \<Rightarrow> ret () | Some (n, e) \<Rightarrow> raise e)"
  by (cases rpc) (auto intro: preserves_ret preserves_raise)

lemma grpc_keeps: "preserves I (stream_via_grpc dbl rpc receipt run a)"
  unfolding stream_via_grpc_def Let_def
  by (intro preserves_then hoare_if preserves_ret preserves_catch grpc_drafts_keep except_keeps rpc_keeps idle_keeps)

lemma handle_keeps: "preserves I (handle_receipt dbl gateway adapters receipt)"
  unfolding handle_receipt_def
  by (intro preserves_bind hoare_if preserves_then get_keeps queue_keeps update_run_keeps)
    (auto split: option.splits intro!: preserves_then queue_keeps grpc_keeps local_keeps)

lemma all_drafts_keep: "preserves I (all_drafts dbl i k taken n ds ending acc)"
proof (induction ds arbitrary: n acc)
  case (Cons d ds)
  have "preserves I (all_draft k d acc)"
    unfolding all_draft_def Let_def by (intro hoare_if preserves_then preserves_ret settle_keeps)
  with Cons show ?case by (auto intro!: preserves_then preserves_bind preserves_ret send_keeps)
qed (auto intro!: preserves_then preserves_bind preserves_when preserves_ret end_keeps get_keeps update_run_keeps idle_keeps)

lemma handle_all_keeps: "preserves I (handle_receipt_all dbl rpc a receipt)"
  unfolding handle_receipt_all_def send_events_to_gateway_def Let_def
  by (intro preserves_bind hoare_if preserves_then preserves_ret preserves_catch get_keeps queue_keeps
      update_run_keeps all_drafts_keep except_keeps rpc_keeps)

end

interpretation tables_inv: worker_invariant "\<lambda>w. pg_runs_inv (wk_runs w)"
  using preserves_state [OF pg_runs_update_preserves] by unfold_locales auto

interpretation slots_inv: worker_invariant "\<lambda>w. wk_slots w = n" for n
  by unfold_locales auto

text \<open>The ids of the runs and everything but status, result, error and time of the rows stay.\<close>

interpretation ids_inv: worker_invariant "\<lambda>w. map rr_id (wk_runs w) = ids" for ids
proof (unfold_locales, goal_cases)
  case (6 w db r)
  have "rr_id (change_run_row db r x) = rr_id x" for x by (simp add: change_run_row_def Let_def)
  then have "map rr_id (snd (pg_runs_update db r rows)) = map rr_id rows" for rows
    by (auto simp: pg_runs_update_def transaction_def split: option.splits)
  with 6 show ?case by simp
qed auto

lemma process_receipt_slots: "wk_slots (snd (process_receipt dbl gateway adapters receipt w)) = wk_slots w + 1"
proof -
  have "wk_slots (snd (handle_receipt dbl gateway adapters receipt w)) = wk_slots w"
    using preserves_state [OF slots_inv.handle_keeps] by blast
  then show ?thesis by (auto simp: process_receipt_def finallyM_def sem_release_def modifyM_def split: prod.splits sum.splits)
qed

subsection \<open>One update\<close>

lemma active_keeps_index:
  assumes "pg_runs_inv rows" and "List.find (\<lambda>x. rr_id x = k) rows = Some w" and "active_row w"
    and "rr_id w' = rr_id w" and "rr_thread_id w' = rr_thread_id w"
  shows "\<not> index_conflict w' rows"
proof
  assume c: "index_conflict w' rows"
  then obtain t where t: "rr_thread_id w = Some t" using assms(5) by (auto simp: index_conflict_def)
  obtain x where x: "x \<in> set rows" "rr_id x \<noteq> rr_id w" "active_row x" "rr_thread_id x = Some t"
    using c t assms(4,5) by (auto simp: index_conflict_def list_ex_iff)
  let ?f = "filter (\<lambda>w. rr_thread_id w = Some t \<and> active_row w) rows"
  have "x \<in> set ?f" "w \<in> set ?f" "x \<noteq> w" using x t find_row [OF assms(2)] assms(3) by auto
  moreover have "length ?f \<le> 1" by (rule active_rows_le_one [OF assms(1)])
  ultimately show False by (cases ?f) auto
qed

definition stored_run :: "Worker \<Rightarrow> string \<Rightarrow> Run option" where
  "stored_run w k = map_of (pg_runs (wk_runs w)) k"

definition thread_status_in :: "Worker \<Rightarrow> string \<Rightarrow> string option" where
  "thread_status_in w t = map_option tr_status (List.find (\<lambda>x. tr_id x = t) (wk_threads w))"

lemma wk_get_run:
  assumes "pg_runs_inv (wk_runs w)" and "stored_run w k = Some r"
  shows "wk_on_runs (pg_runs_get k) w = (Inr r, w)"
  using assms pg_runs_get_refines [OF assms(1), of k]
  by (simp add: zoomM_def runs_get_def stored_run_def)

lemma wk_update_run_ok:
  assumes "pg_runs_inv (wk_runs w)" and "stored_run w k = Some r0" and "is_active (rn_status r0)"
    and "f (wk_clock w (wk_clock_ix w)) = Inr r" and "rn_key r = k"
  shows "\<exists>u rows. wk_update_run f w = (Inr (), w \<lparr> wk_clock_ix := Suc (Suc (wk_clock_ix w)), wk_runs := rows \<rparr>)
    \<and> pg_runs_inv rows \<and> map_of (pg_runs rows) k = Some (updated_run r u r0)"
proof -
  let ?db = "wk_clock w (Suc (wk_clock_ix w))"
  obtain x where x: "List.find (\<lambda>x. rr_id x = k) (wk_runs w) = Some x" "projr (run_of_row x) = r0"
    using assms(2) by (auto simp: stored_run_def pg_runs_find)
  have rd: "readable x" using assms(1) find_row [OF x(1)] by (auto simp: pg_runs_inv_def list_all_iff)
  have act: "active_row x" using readable_fields(4) [OF rd] x(2) assms(3) by simp
  obtain r1 where "run_of_row x = Inr r1" using readableD [OF rd] by auto
  from change_run_row_read [OF this, of ?db r]
  have "\<not> index_conflict (change_run_row ?db r x) (wk_runs w)"
    by (intro active_keeps_index [OF assms(1) x(1) act]) auto
  with x assms(5) obtain u rows where "pg_runs_update ?db r (wk_runs w) = (Inr r, rows)" "pg_runs_inv rows"
      "pg_runs rows = AList.update k (updated_run r u r0) (pg_runs (wk_runs w))"
    using pg_runs_update_spec [OF assms(1), of r x ?db] by auto
  then show ?thesis using assms(4) by (intro exI) (auto simp: wk_update_run_def prog_defs wk_now_def)
qed

lemma change_thread_row_fields:
  "tr_id (change_thread_row db t x) = tr_id x"
  "tr_status (change_thread_row db t x) = thread_status_str (th_status t)"
proof -
  let ?w = "x \<lparr> tr_status := thread_status_str (th_status t), tr_metadata := th_metadata t \<rparr>"
  show "tr_id (change_thread_row db t x) = tr_id x" by (simp add: change_thread_row_def Let_def)
  show "tr_status (change_thread_row db t x) = thread_status_str (th_status t)"
  proof (cases "?w = x")
    case True
    then have "change_thread_row db t x = x" by (simp add: change_thread_row_def Let_def)
    moreover have "thread_status_str (th_status t) = tr_status x" using arg_cong [OF True, of tr_status] by simp
    ultimately show ?thesis by simp
  qed (simp add: change_thread_row_def Let_def)
qed

lemma wk_update_thread_ok:
  assumes "List.find (\<lambda>x. tr_id x = t) (wk_threads w) = Some row" and "thread_of_row row = Inr th"
    and "\<And>n. th_key (f th n) = t \<and> th_status (f th n) = st"
  shows "\<exists>w'. wk_update_thread t f w = (Inr (), w') \<and> wk_runs w' = wk_runs w \<and> wk_queue w' = wk_queue w
    \<and> wk_slots w' = wk_slots w \<and> thread_status_in w' t = Some (thread_status_str st)
    \<and> (\<exists>row'. List.find (\<lambda>x. tr_id x = t) (wk_threads w') = Some row' \<and> \<not> isl (thread_of_row row'))"
proof -
  let ?n = "wk_clock w (wk_clock_ix w)" and ?db = "wk_clock w (Suc (wk_clock_ix w))"
  let ?c = "change_thread_row ?db (f th ?n)"
  have row: "row \<in> set (wk_threads w)" "tr_id row = t" using find_SomeD [OF assms(1)] by auto
  have ex: "list_ex (\<lambda>x. tr_id x = t) (wk_threads w)" using row by (auto simp: list_ex_iff)
  have c: "tr_id (?c x) = tr_id x" "tr_status (?c x) = thread_status_str st" for x
    using assms(3) [of ?n] by (simp_all add: change_thread_row_fields)
  have "List.find (\<lambda>x. tr_id x = t) (map (\<lambda>x. if tr_id x = t then ?c x else x) (wk_threads w)) =
      Some (?c row)"
    using find_map_same [where key = tr_id and h = "\<lambda>x. if tr_id x = t then ?c x else x" and k = t and xs = "wk_threads w"]
      c(1) assms(1) row(2) by simp
  moreover have "\<not> isl (thread_of_row (?c row))"
    using assms(2) c [of row]
    by (cases "parse_id ThreadId (tr_id row)") (auto simp: thread_of_row_def)
  ultimately show ?thesis
    using assms(1,2) assms(3) [of ?n] ex c(2)
    by (simp add: wk_update_thread_def prog_defs wk_now_def pg_threads_get_def pg_threads_update_def transaction_def
        thread_status_in_def cong: if_cong)
qed

subsection \<open>One command\<close>

text \<open>A worker is ready for a command: its run is pending, its thread, if any, is there, and its lease is
  held and the commit will succeed.\<close>

definition thread_there :: "Worker \<Rightarrow> string option \<Rightarrow> bool" where
  "thread_there w x \<longleftrightarrow> (case x of None \<Rightarrow> True
     | Some t \<Rightarrow> (case List.find (\<lambda>x. tr_id x = t) (wk_threads w) of None \<Rightarrow> False
         | Some row \<Rightarrow> \<not> isl (thread_of_row row)))"

lemma thread_there_same: "wk_threads w' = wk_threads w \<Longrightarrow> thread_there w' x = thread_there w x"
  by (simp add: thread_there_def cong: option.case_cong)

lemma thread_thereD:
  assumes "thread_there w (Some t)"
  shows "\<exists>row th. List.find (\<lambda>x. tr_id x = t) (wk_threads w) = Some row \<and> thread_of_row row = Inr th \<and> th_key th = t"
proof -
  obtain row th where row: "List.find (\<lambda>x. tr_id x = t) (wk_threads w) = Some row" "thread_of_row row = Inr th"
    using assms by (auto simp: thread_there_def split: option.splits) (metis sum.collapse(2))
  moreover have "th_key th = t"
    using find_SomeD [OF row(1)] row(2)
    by (cases "thread_status_of (tr_status row)") (auto simp: thread_of_row_def dest!: parse_id_InrD split: sum.splits)
  ultimately show ?thesis by blast
qed

definition wk_ready :: "Worker \<Rightarrow> RunCommandReceipt \<Rightarrow> Run \<Rightarrow> bool" where
  "wk_ready w receipt run \<longleftrightarrow> pg_runs_inv (wk_runs w) \<and> stored_run w (run_key (rp_identity receipt)) = Some run
     \<and> rn_status run = PENDING
     \<and> thread_there w (rn_thread_key run)"

definition lease_held :: "Worker \<Rightarrow> RunCommandReceipt \<Rightarrow> bool" where
  "lease_held w receipt \<longleftrightarrow> map_of (aq_leases (wk_queue w)) (id_value (rp_lease_id receipt)) \<noteq> None
     \<and> aq_consumer (wk_queue w) \<and> aq_io (wk_queue w) (aq_calls (wk_queue w)) = None"

lemma acknowledge_held:
  assumes "lease_held w receipt"
  shows "\<exists>q. wk_on_queue (aio_acknowledge receipt) w = (Inr (), w \<lparr> wk_queue := q \<rparr>)
    \<and> map_of (aq_leases q) (id_value (rp_lease_id receipt)) = None
    \<and> length (aq_commits q) = Suc (length (aq_commits (wk_queue w)))"
  using assms
  by (auto simp: lease_held_def prog_defs aio_acknowledge_def aio_pop_def aio_commit_def client_call_def Let_def)

text \<open>A run that is not pending any more is acknowledged and nothing else happens: a command that is
  delivered twice runs once.\<close>

lemma redelivered_command:
  assumes "pg_runs_inv (wk_runs w)" and "stored_run w (run_key (rp_identity receipt)) = Some run"
    and "rn_status run \<noteq> PENDING" and "lease_held w receipt"
  shows "\<exists>q. process_receipt dbl gateway adapters receipt w = (Inr (), w \<lparr> wk_queue := q, wk_slots := wk_slots w + 1 \<rparr>)"
proof -
  obtain q where q: "wk_on_queue (aio_acknowledge receipt) w = (Inr (), w \<lparr> wk_queue := q \<rparr>)"
    using acknowledge_held [OF assms(4)] by blast
  have "handle_receipt dbl gateway adapters receipt w = (Inr (), w \<lparr> wk_queue := q \<rparr>)"
    using wk_get_run [OF assms(1,2)] assms(3) q by (simp add: handle_receipt_def bindM_def)
  then show ?thesis by (intro exI [of _ q]) (simp add: process_receipt_def prog_defs sem_release_def)
qed

lemma mark_running_pending: "rn_status r = PENDING \<Longrightarrow> \<exists>r'. mark_running r n = Inr r' \<and> rn_status r' = RUNNING
   \<and> rn_identity r' = rn_identity r"
  by (auto simp: mark_running_def run_change_def terminal_statuses_def)

lemma stored_run_key: "pg_runs_inv (wk_runs w) \<Longrightarrow> stored_run w k = Some r \<Longrightarrow> rn_key r = k"
  by (auto simp: stored_run_def pg_runs_inv_def keyed_by_def list_all_iff dest: map_of_SomeD)

lemma wk_start_run:
  assumes "wk_ready w receipt run"
  shows "\<exists>w1 r1. wk_update_run (mark_running run) w = (Inr (), w1) \<and> pg_runs_inv (wk_runs w1)
    \<and> stored_run w1 (run_key (rp_identity receipt)) = Some r1 \<and> rn_status r1 = RUNNING
    \<and> rn_identity r1 = rn_identity run \<and> wk_threads w1 = wk_threads w \<and> wk_queue w1 = wk_queue w
    \<and> wk_slots w1 = wk_slots w"
proof -
  let ?k = "run_key (rp_identity receipt)" and ?n = "wk_clock w (wk_clock_ix w)"
  have r: "pg_runs_inv (wk_runs w)" "stored_run w ?k = Some run" "rn_status run = PENDING"
    using assms by (auto simp: wk_ready_def)
  obtain r' where r': "mark_running run ?n = Inr r'" "rn_status r' = RUNNING" "rn_identity r' = rn_identity run"
    using mark_running_pending [OF r(3)] by blast
  have key: "rn_key run = ?k" using r(1,2) by (rule stored_run_key)
  obtain u rows where "wk_update_run (mark_running run) w = (Inr (), w \<lparr> wk_clock_ix := Suc (Suc (wk_clock_ix w)), wk_runs := rows \<rparr>)"
    "pg_runs_inv rows" "map_of (pg_runs rows) ?k = Some (updated_run r' u run)"
    using wk_update_run_ok [of w ?k run "mark_running run" r'] r r' key by (auto simp: active_statuses_def)
  then show ?thesis using r' by (intro exI) (auto simp: stored_run_def updated_run_def)
qed

text \<open>The frame of a command that is executed here: the run is started, streamed and the command acknowledged.\<close>

lemma process_local:
  assumes "wk_ready w receipt run" and "lease_held w receipt"
    and "map_of adapters (id_value (assistant_id (rp_identity receipt))) = Some a"
    and "wk_update_run (mark_running run) w = (Inr (), w1)"
    and "stream_local receipt run a w1 = (Inr (), w2)" and "wk_queue w2 = wk_queue w"
  shows "\<exists>q. process_receipt dbl None adapters receipt w = (Inr (), w2 \<lparr> wk_queue := q, wk_slots := wk_slots w2 + 1 \<rparr>)
    \<and> length (aq_commits q) = Suc (length (aq_commits (wk_queue w)))"
proof -
  have r: "pg_runs_inv (wk_runs w)" "stored_run w (run_key (rp_identity receipt)) = Some run" "rn_status run = PENDING"
    using assms(1) by (auto simp: wk_ready_def)
  obtain q where q: "wk_on_queue (aio_acknowledge receipt) w2 = (Inr (), w2 \<lparr> wk_queue := q \<rparr>)"
    "length (aq_commits q) = Suc (length (aq_commits (wk_queue w)))"
    using acknowledge_held [of w2 receipt] assms(2,6) by (auto simp: lease_held_def)
  have "handle_receipt dbl None adapters receipt w = (Inr (), w2 \<lparr> wk_queue := q \<rparr>)"
    using wk_get_run [OF r(1,2)] r(3) assms(3-5) q(1)
    by (simp add: handle_receipt_def bindM_def thenM_def)
  with q(2) show ?thesis
    by (intro exI [of _ q]) (simp add: process_receipt_def prog_defs sem_release_def)
qed

text \<open>Drafts that are not terminal leave the tables alone.\<close>

lemma plain_drafts:
  assumes "list_all (\<lambda>d. \<not> ev_in (dr_type d) worker_terminal_types) ds"
  shows "forM (maybe_take_action run) ds w = (Inr (), w)"
  using assms by (induction ds) (simp_all add: maybe_take_action_def prog_defs)

lemma idle_thread:
  assumes "pg_runs_inv (wk_runs w)" and "stored_run w k = Some r"
    and "thread_there w (rn_thread_key r)"
  shows "\<exists>w'. mark_idle_if_needed k w = (Inr (), w') \<and> wk_runs w' = wk_runs w \<and> wk_queue w' = wk_queue w
    \<and> wk_slots w' = wk_slots w
    \<and> (\<forall>t. rn_thread_key r = Some t \<longrightarrow> thread_status_in w' t = Some ''idle'')"
proof (cases "rn_thread_key r")
  case None
  then show ?thesis using wk_get_run [OF assms(1,2)] by (simp add: mark_idle_if_needed_def bindM_def ret_def)
next
  case (Some t)
  then obtain row th where row: "List.find (\<lambda>x. tr_id x = t) (wk_threads w) = Some row" "thread_of_row row = Inr th"
    and "th_key th = t"
    using thread_thereD assms(3) by metis
  then have "th_key (mark_idle th n) = t \<and> th_status (mark_idle th n) = T_IDLE" for n
    by (simp add: mark_idle_def thread_transition_def)
  with wk_update_thread_ok [where f = mark_idle and st = T_IDLE, OF row] Some show ?thesis
    using wk_get_run [OF assms(1,2)] by (auto simp: mark_idle_if_needed_def bindM_def)
qed

text \<open>
  A stream that ends without a terminal event: the worker acknowledges the command and makes the thread
  idle, but nothing settles the run, which stays running for ever.
\<close>

lemma worker_leaves_running:
  assumes "wk_ready w receipt run" and "lease_held w receipt"
    and "map_of adapters (id_value (assistant_id (rp_identity receipt))) = Some a"
    and "ad_stream a (rc_request (rp_command receipt)) = (ds, None)"
    and "list_all (\<lambda>d. \<not> ev_in (dr_type d) worker_terminal_types) ds"
  shows "\<exists>w' r'. process_receipt dbl None adapters receipt w = (Inr (), w')
    \<and> stored_run w' (run_key (rp_identity receipt)) = Some r' \<and> rn_status r' = RUNNING
    \<and> (\<forall>t. rn_thread_key run = Some t \<longrightarrow> thread_status_in w' t = Some ''idle'')
    \<and> length (aq_commits (wk_queue w')) = Suc (length (aq_commits (wk_queue w)))"
proof -
  let ?k = "run_key (rp_identity receipt)"
  obtain w1 r1 where w1: "wk_update_run (mark_running run) w = (Inr (), w1)" "pg_runs_inv (wk_runs w1)"
    "stored_run w1 ?k = Some r1" "rn_status r1 = RUNNING" "rn_identity r1 = rn_identity run"
    "wk_threads w1 = wk_threads w" "wk_queue w1 = wk_queue w"
    using wk_start_run [OF assms(1)] by blast
  have r: "pg_runs_inv (wk_runs w)" "stored_run w ?k = Some run" "rn_status run = PENDING"
    using assms(1) by (auto simp: wk_ready_def)
  have key: "rn_key run = ?k" using r(1,2) by (rule stored_run_key)
  have "thread_there w1 (rn_thread_key r1)"
    using assms(1) w1(5) thread_there_same [OF w1(6)] by (simp add: wk_ready_def)
  from idle_thread [OF w1(2,3) this] obtain w2 where w2: "mark_idle_if_needed ?k w1 = (Inr (), w2)"
    "wk_runs w2 = wk_runs w1" "wk_queue w2 = wk_queue w" "\<forall>t. rn_thread_key run = Some t \<longrightarrow> thread_status_in w2 t = Some ''idle''"
    using w1(5,7) by auto
  have local: "stream_local receipt run a w1 = (Inr (), w2)"
    using w2(1) assms(4,5) key by (simp add: stream_local_def Let_def prog_defs plain_drafts stream_end_def)
  obtain q where "process_receipt dbl None adapters receipt w = (Inr (), w2 \<lparr> wk_queue := q, wk_slots := wk_slots w2 + 1 \<rparr>)"
    and q: "length (aq_commits q) = Suc (length (aq_commits (wk_queue w)))"
    using process_local [OF assms(1-3) w1(1) local w2(3)] by blast
  then show ?thesis using w1(3,4) w2(2,4) q by (intro exI) (auto simp: stored_run_def thread_status_in_def)
qed

text \<open>A stream whose only terminal event, at its end, says that the run completed.\<close>

lemma forM_append: "forM f (xs @ ys) = thenM (forM f xs) (forM f ys)"
proof (induction xs)
  case (Cons x xs)
  then show ?case by (auto simp: prog_defs fun_eq_iff split: prod.splits sum.splits)
qed (auto simp: prog_defs)

lemma forM_single: "forM f [x] s = (case f x s of (Inr _, s') \<Rightarrow> (Inr (), s') | (Inl e, s') \<Rightarrow> (Inl e, s'))"
  by (simp add: prog_defs split: prod.splits sum.splits)

lemma settle_completed:
  assumes "pg_runs_inv (wk_runs w)" and "stored_run w k = Some r" and "rn_status r = RUNNING"
    and "ev_is (dr_type d) RUN_COMPLETED"
    and "thread_there w (rn_thread_key r)"
  shows "\<exists>w' r'. wk_settle k d result w = (Inr (), w') \<and> pg_runs_inv (wk_runs w') \<and> stored_run w' k = Some r'
    \<and> rn_status r' = SUCCESS \<and> rn_result r' = result \<and> rn_identity r' = rn_identity r \<and> wk_queue w' = wk_queue w
    \<and> (\<forall>t. rn_thread_key r = Some t \<longrightarrow> thread_status_in w' t = Some ''idle'') \<and> thread_there w' (rn_thread_key r)"
proof -
  let ?n = "wk_clock w (wk_clock_ix w)"
  have key: "rn_key r = k" using assms(1,2) by (rule stored_run_key)
  obtain c where c: "complete r result ?n = Inr c" "rn_status c = SUCCESS" "rn_result c = result" "rn_identity c = rn_identity r"
    using assms(3) by (auto simp: complete_def run_change_def terminal_statuses_def)
  have "wk_settle_run d result r ?n = Inr c" using c assms(4) by (simp add: wk_settle_run_def)
  then obtain u rows where u: "wk_update_run (wk_settle_run d result r) w =
      (Inr (), w \<lparr> wk_clock_ix := Suc (Suc (wk_clock_ix w)), wk_runs := rows \<rparr>)" "pg_runs_inv rows"
      "map_of (pg_runs rows) k = Some (updated_run c u r)"
    using wk_update_run_ok [of w k r "wk_settle_run d result r" c] assms(1-3) c key by (auto simp: active_statuses_def)
  let ?w = "w \<lparr> wk_clock_ix := Suc (Suc (wk_clock_ix w)), wk_runs := rows \<rparr>"
  have "\<exists>w'. (case rn_thread_key r of None \<Rightarrow> ret () | Some t \<Rightarrow> wk_update_thread t (wk_settle_thread d)) ?w = (Inr (), w')
    \<and> wk_runs w' = rows \<and> wk_queue w' = wk_queue w
    \<and> (\<forall>t. rn_thread_key r = Some t \<longrightarrow> thread_status_in w' t = Some ''idle'') \<and> thread_there w' (rn_thread_key r)"
  proof (cases "rn_thread_key r")
    case (Some t)
    then obtain row th where row: "List.find (\<lambda>x. tr_id x = t) (wk_threads ?w) = Some row" "thread_of_row row = Inr th"
      and "th_key th = t"
      using thread_thereD [of ?w t] assms(5) by (auto simp: thread_there_def)
    moreover have "\<not> ev_is (dr_type d) RUN_INTERRUPTED" using assms(4) by (auto simp: ev_is_def)
    ultimately have "th_key (wk_settle_thread d th n) = t \<and> th_status (wk_settle_thread d th n) = T_IDLE" for n
      by (simp add: wk_settle_thread_def mark_idle_def thread_transition_def)
    with wk_update_thread_ok [where f = "wk_settle_thread d" and st = T_IDLE, OF row] Some show ?thesis
      by (auto simp: thread_there_def)
  qed (simp add: ret_def thread_there_def)
  then show ?thesis
    using wk_get_run [OF assms(1,2)] u c by (auto simp: wk_settle_def bindM_def thenM_def stored_run_def updated_run_def)
qed

lemma worker_completes_run:
  assumes "wk_ready w receipt run" and "lease_held w receipt"
    and "map_of adapters (id_value (assistant_id (rp_identity receipt))) = Some a"
    and "ad_stream a (rc_request (rp_command receipt)) = (ds @ [d], None)"
    and "list_all (\<lambda>d. \<not> ev_in (dr_type d) worker_terminal_types) ds" and "dr_type d = Ev RUN_COMPLETED"
  shows "\<exists>w' r'. process_receipt dbl None adapters receipt w = (Inr (), w')
    \<and> stored_run w' (run_key (rp_identity receipt)) = Some r' \<and> rn_status r' = SUCCESS \<and> rn_result r' = dr_data d
    \<and> (\<forall>t. rn_thread_key run = Some t \<longrightarrow> thread_status_in w' t = Some ''idle'')
    \<and> length (aq_commits (wk_queue w')) = Suc (length (aq_commits (wk_queue w)))"
proof -
  let ?k = "run_key (rp_identity receipt)"
  obtain w1 r1 where w1: "wk_update_run (mark_running run) w = (Inr (), w1)" "pg_runs_inv (wk_runs w1)"
    "stored_run w1 ?k = Some r1" "rn_status r1 = RUNNING" "rn_identity r1 = rn_identity run"
    "wk_threads w1 = wk_threads w" "wk_queue w1 = wk_queue w"
    using wk_start_run [OF assms(1)] by blast
  have r: "pg_runs_inv (wk_runs w)" "stored_run w ?k = Some run" "rn_status run = PENDING"
    using assms(1) by (auto simp: wk_ready_def)
  have key: "rn_key run = ?k" using r(1,2) by (rule stored_run_key)
  have "thread_there w1 (rn_thread_key r1)"
    using assms(1) w1(5) thread_there_same [OF w1(6)] by (simp add: wk_ready_def)
  moreover have d: "ev_is (dr_type d) RUN_COMPLETED" using assms(6) by (simp add: ev_is_def)
  ultimately obtain w2 r2 where w2: "wk_settle ?k d (dr_data d) w1 = (Inr (), w2)" "pg_runs_inv (wk_runs w2)"
    "stored_run w2 ?k = Some r2" "rn_status r2 = SUCCESS" "rn_result r2 = dr_data d" "rn_identity r2 = rn_identity run"
    "wk_queue w2 = wk_queue w" "thread_there w2 (rn_thread_key r2)"
    using settle_completed [OF w1(2-4), of d "dr_data d"] w1(5,7) by auto
  obtain w3 where w3: "mark_idle_if_needed ?k w2 = (Inr (), w3)" "wk_runs w3 = wk_runs w2" "wk_queue w3 = wk_queue w"
    "\<forall>t. rn_thread_key run = Some t \<longrightarrow> thread_status_in w3 t = Some ''idle''"
    using idle_thread [OF w2(2,3,8)] w2(6,7) by auto
  have "maybe_take_action run d w1 = (Inr (), w2)"
    using w2(1) assms(6) key by (simp add: maybe_take_action_def ev_is_def ev_in_def worker_terminal_types_def)
  then have "forM (maybe_take_action run) (ds @ [d]) w1 = (Inr (), w2)"
    using plain_drafts [OF assms(5)] by (simp add: forM_append thenM_def bindM_def ret_def)
  then have local: "stream_local receipt run a w1 = (Inr (), w3)"
    using w3(1) assms(4) key by (simp add: stream_local_def Let_def prog_defs stream_end_def)
  obtain q where "process_receipt dbl None adapters receipt w = (Inr (), w3 \<lparr> wk_queue := q, wk_slots := wk_slots w3 + 1 \<rparr>)"
    and q: "length (aq_commits q) = Suc (length (aq_commits (wk_queue w)))"
    using process_local [OF assms(1-3) w1(1) local w3(3)] by blast
  then show ?thesis using w2(3-5) w3(2,4) q by (intro exI) (auto simp: stored_run_def thread_status_in_def)
qed

text \<open>A command for an assistant without an adapter: the run is started, acknowledged and abandoned.\<close>

lemma worker_abandons_run:
  assumes "wk_ready w receipt run" and "lease_held w receipt"
    and "map_of adapters (id_value (assistant_id (rp_identity receipt))) = None"
  shows "\<exists>w' r'. process_receipt dbl gateway adapters receipt w = (Inr (), w')
    \<and> stored_run w' (run_key (rp_identity receipt)) = Some r' \<and> rn_status r' = RUNNING
    \<and> length (aq_commits (wk_queue w')) = Suc (length (aq_commits (wk_queue w)))"
proof -
  let ?k = "run_key (rp_identity receipt)"
  have r: "pg_runs_inv (wk_runs w)" "stored_run w ?k = Some run" "rn_status run = PENDING"
    using assms(1) by (auto simp: wk_ready_def)
  obtain w1 r1 where w1: "wk_update_run (mark_running run) w = (Inr (), w1)"
    "stored_run w1 ?k = Some r1" "rn_status r1 = RUNNING" "wk_queue w1 = wk_queue w"
    using wk_start_run [OF assms(1)] by blast
  obtain q where q: "wk_on_queue (aio_acknowledge receipt) w1 = (Inr (), w1 \<lparr> wk_queue := q \<rparr>)"
    "length (aq_commits q) = Suc (length (aq_commits (wk_queue w)))"
    using acknowledge_held [of w1 receipt] assms(2) w1(4) by (auto simp: lease_held_def)
  have "handle_receipt dbl gateway adapters receipt w = (Inr (), w1 \<lparr> wk_queue := q \<rparr>)"
    using wk_get_run [OF r(1,2)] r(3) w1(1) assms(3) q(1) by (simp add: handle_receipt_def bindM_def thenM_def)
  then have "process_receipt dbl gateway adapters receipt w = (Inr (), w1 \<lparr> wk_queue := q, wk_slots := wk_slots w1 + 1 \<rparr>)"
    by (simp add: process_receipt_def prog_defs sem_release_def)
  then show ?thesis using w1(2,3) q(2) by (intro exI) (auto simp: stored_run_def)
qed

subsection \<open>Identities, registration and heartbeats\<close>

lemma identity_proto_roundtrip: "identity_wf i \<Longrightarrow> identity_from_proto (identity_to_proto i) = Inr i"
  by (cases "thread_id i")
    (auto simp: identity_from_proto_def identity_to_proto_def bindM_def liftE_def ret_def identity_wf_def
      parse_id_classed proto_thread_def thread_key_def classed_def)

text \<open>At most ten posts are made, and the worker is registered only when one of them succeeded.\<close>

lemma post_attempts_spec:
  "post_attempts retried posts url n m = Inr k \<Longrightarrow> n + m = 10 \<Longrightarrow> 0 < m \<Longrightarrow>
   n < k \<and> k \<le> 10 \<and> posts (k - 1) = None \<and> (\<forall>j. n \<le> j \<and> j < k - 1 \<longrightarrow> (\<exists>e. posts j = Some e \<and> retried e))"
proof (induction m arbitrary: n)
  case (Suc m)
  show ?case
  proof (cases "posts n")
    case (Some e)
    then have e: "retried e" "n < 9" "post_attempts retried posts url (Suc n) m = Inr k"
      using Suc.prems by (auto split: if_splits)
    then have "0 < m" using Suc.prems by simp
    with e Suc.IH [of "Suc n"] Suc.prems
    have "Suc n < k \<and> k \<le> 10 \<and> posts (k - 1) = None
        \<and> (\<forall>j. Suc n \<le> j \<and> j < k - 1 \<longrightarrow> (\<exists>e. posts j = Some e \<and> retried e))" by simp
    with Some e(1) show ?thesis by (metis Suc_lessD le_eq_less_or_eq Suc_leI)
  qed (use Suc.prems in auto)
qed simp

lemma heartbeat_rows:
  "distinct (map wrow_worker_id rows) \<Longrightarrow> distinct (map wrow_worker_id (heartbeat now wid app rows))"
  "\<exists>w \<in> set (heartbeat now wid app rows). wrow_worker_id w = wid \<and> wrow_status w = ''active'' \<and> wrow_updated_at w = now"
proof -
  show "distinct (map wrow_worker_id (heartbeat now wid app rows))" if "distinct (map wrow_worker_id rows)"
    using that by (auto simp: heartbeat_def list_ex_iff comp_def if_distrib cong: if_cong)
  show "\<exists>w \<in> set (heartbeat now wid app rows). wrow_worker_id w = wid \<and> wrow_status w = ''active'' \<and> wrow_updated_at w = now"
  proof (cases "list_ex (\<lambda>w. wrow_worker_id w = wid) rows")
    case True
    then obtain w where "w \<in> set rows" "wrow_worker_id w = wid" by (auto simp: list_ex_iff)
    then have "w \<lparr> wrow_status := ''active'', wrow_updated_at := now \<rparr> \<in> set (heartbeat now wid app rows)"
      using True by (auto simp: heartbeat_def)
    then show ?thesis using \<open>wrow_worker_id w = wid\<close> by (intro bexI) simp_all
  qed (simp add: heartbeat_def)
qed

end
