(* ===== verification/Postgres_Events.thy ===== *)
theory Postgres_Events
  imports Memory_Events Postgres_Repositories "HOL-Library.Sublist"
begin

section \<open>The Postgres event journal\<close>

text \<open>
  \<^verbatim>\<open>adapters/postgres/events.py\<close>.  The row class it imports is missing from \<^verbatim>\<open>models.py\<close>, so the row
  has exactly the columns the journal writes, and the constraints of its table are the parameter
  \<open>conflict\<close>.  An append holds the advisory lock of its run for the length of its transaction, so the
  appends of a run are serial.  The last part shows that the table keeps the contract of the in-memory
  journal, except that an event comes back with its type as text.
\<close>

record RuntimeEventRow =
  er_id :: string
  er_run_id :: string
  er_event_id :: string
  er_sequence :: int
  er_event_type :: string
  er_timestamp :: datetime
  er_identity_json :: obj
  er_namespace :: "string list"
  er_data :: json
  er_trace :: obj
  er_native :: obj

type_synonym event_table = "RuntimeEventRow list"

subsection \<open>append\<close>

definition row_identity :: "ExecutionIdentity \<Rightarrow> obj" where
  "row_identity i =
     [(''workspace_id'', JStr (id_value (workspace_id (scope i)))),
      (''project_id'', JStr (id_value (project_id (scope i)))),
      (''application_id'', JStr (id_value (application_id (scope i)))),
      (''revision_id'', JStr (id_value (revision_id (scope i)))),
      (''deployment_id'', JStr (id_value (deployment_id (scope i)))),
      (''assistant_id'', JStr (id_value (assistant_id i))),
      (''thread_id'', opt_str (thread_key i)),
      (''run_id'', JStr (id_value (run_id i))),
      (''attempt_id'', JStr (id_value (attempt_id i)))]"

definition row_of_event :: "RuntimeEvent \<Rightarrow> RuntimeEventRow" where
  "row_of_event e =
     \<lparr> er_id = id_value (ev_event_id e), er_run_id = run_key (ev_identity e), er_event_id = id_value (ev_event_id e),
       er_sequence = ev_sequence e, er_event_type = ev_str (ev_type e), er_timestamp = ev_timestamp e,
       er_identity_json = row_identity (ev_identity e), er_namespace = ev_namespace e, er_data = ev_data e,
       er_trace = [(''trace_id'', opt_str (trace_id (ev_trace e))), (''span_id'', opt_str (span_id (ev_trace e)))],
       er_native = ev_native e \<rparr>"

text \<open>\<open>SELECT max(sequence)\<close>: null on no rows.\<close>

definition max_sequence :: "string \<Rightarrow> event_table \<Rightarrow> int option" where
  "max_sequence k rows = (case map er_sequence (filter (\<lambda>w. er_run_id w = k) rows) of
     [] \<Rightarrow> None | n # ns \<Rightarrow> Some (fold max ns n))"

definition next_sequence :: "string \<Rightarrow> event_table \<Rightarrow> int" where
  "next_sequence k rows = (case max_sequence k rows of Some n \<Rightarrow> n | None \<Rightarrow> -1) + 1"

definition append_attempt ::
  "(RuntimeEventRow \<Rightarrow> event_table \<Rightarrow> bool) \<Rightarrow> datetime \<Rightarrow> string \<Rightarrow> RuntimeEventDraft \<Rightarrow> (event_table, exc, RuntimeEvent) prog" where
  "append_attempt conflict now new_id d = transaction (
     bindM (getsM (next_sequence (run_key (dr_identity d)))) (\<lambda>sequence.
     bindM (liftE (parse_id EventId new_id)) (\<lambda>i.
     let event = \<lparr> ev_event_id = i, ev_sequence = sequence, ev_timestamp = now, ev_identity = dr_identity d,
           ev_type = dr_type d, ev_namespace = dr_namespace d, ev_data = dr_data d, ev_native = dr_native d,
           ev_trace = \<lparr> trace_id = None, span_id = None \<rparr>, ev_schema_version = 1 \<rparr>
     in (\<lambda>rows. if conflict (row_of_event event) rows then (Inl integrity_error, rows)
         else (Inr event, rows @ [row_of_event event])))))"

text \<open>The loop over \<open>range(3)\<close>, with the attempts that remain; \<open>fresh\<close> gives each attempt its clock and
  its identifier.\<close>

fun append_tries ::
  "(RuntimeEventRow \<Rightarrow> event_table \<Rightarrow> bool) \<Rightarrow> (nat \<Rightarrow> datetime \<times> string) \<Rightarrow> RuntimeEventDraft \<Rightarrow> nat \<Rightarrow>
   (event_table, exc, RuntimeEvent) prog" where
  "append_tries conflict fresh d 0 = raise (RuntimeError ''event append retry exhausted'')"
| "append_tries conflict fresh d (Suc n) =
     catchM (append_attempt conflict (fst (fresh n)) (snd (fresh n)) d)
       (\<lambda>e. if e = integrity_error \<and> n \<noteq> 0 then append_tries conflict fresh d n else raise e)"

definition pg_append ::
  "(RuntimeEventRow \<Rightarrow> event_table \<Rightarrow> bool) \<Rightarrow> (nat \<Rightarrow> datetime \<times> string) \<Rightarrow> RuntimeEventDraft \<Rightarrow>
   (event_table, exc, RuntimeEvent) prog" where
  "pg_append conflict fresh d = append_tries conflict fresh d 3"

subsection \<open>replay and subscribe\<close>

definition row_id :: "(string \<Rightarrow> typed_id) \<Rightarrow> obj \<Rightarrow> string \<Rightarrow> exc + typed_id" where
  "row_id cls raw k = (case map_of raw k of None \<Rightarrow> Inl (KeyError k) | Some v \<Rightarrow> parse_id cls (py_str v))"

definition row_thread :: "obj \<Rightarrow> exc + typed_id option" where
  "row_thread raw = (let v = get_null raw ''thread_id'' in
     if truthy v then map_sum id Some (parse_id ThreadId (py_str v)) else Inr None)"

text \<open>A trace entry is a text or null.\<close>

definition trace_entry :: "json \<Rightarrow> string option" where
  "trace_entry v = (case v of JStr s \<Rightarrow> Some s | _ \<Rightarrow> None)"

definition to_event :: "RuntimeEventRow \<Rightarrow> exc + RuntimeEvent" where
  "to_event w = (let raw = er_identity_json w in fst (
     bindM (liftE (row_id WorkspaceId raw ''workspace_id'')) (\<lambda>ws.
     bindM (liftE (row_id ProjectId raw ''project_id'')) (\<lambda>pr.
     bindM (liftE (row_id ApplicationId raw ''application_id'')) (\<lambda>ap.
     bindM (liftE (row_id RevisionId raw ''revision_id'')) (\<lambda>rv.
     bindM (liftE (row_id DeploymentId raw ''deployment_id'')) (\<lambda>dp.
     bindM (liftE (row_id AssistantId raw ''assistant_id'')) (\<lambda>asst.
     bindM (liftE (row_id RunId raw ''run_id'')) (\<lambda>rn.
     bindM (liftE (row_id AttemptId raw ''attempt_id'')) (\<lambda>att.
     bindM (liftE (row_thread raw)) (\<lambda>thr.
     bindM (liftE (parse_id EventId (er_event_id w))) (\<lambda>i.
     ret \<lparr> ev_event_id = i, ev_sequence = er_sequence w, ev_timestamp = er_timestamp w,
           ev_identity = \<lparr> scope = \<lparr> workspace_id = ws, project_id = pr, application_id = ap, revision_id = rv,
             deployment_id = dp \<rparr>, assistant_id = asst, run_id = rn, attempt_id = att, thread_id = thr \<rparr>,
           ev_type = EvText (er_event_type w), ev_namespace = er_namespace w, ev_data = er_data w,
           ev_native = er_native w,
           ev_trace = \<lparr> trace_id = trace_entry (get_null (er_trace w) ''trace_id''),
             span_id = trace_entry (get_null (er_trace w) ''span_id'') \<rparr>,
           ev_schema_version = 1 \<rparr>)))))))))) ()))"

definition pg_replay :: "string \<Rightarrow> int \<Rightarrow> (event_table, exc, RuntimeEvent list) prog" where
  "pg_replay k after = (\<lambda>rows.
     (fst (mapM (\<lambda>w. liftE (to_event w))
        (sort_key er_sequence (filter (\<lambda>w. er_run_id w = k \<and> er_sequence w > after) rows)) ()), rows))"

text \<open>\<open>subscribe\<close> as a poll: what one turn of its loop yields, the new cursor, and whether it returns.
  The caller supplies the table at each turn.\<close>

definition terminal_texts :: "string list" where
  "terminal_texts = [''run.completed'', ''run.cancelled'', ''run.failed'', ''run.timeout'', ''run.interrupted'']"

definition pg_poll :: "string \<Rightarrow> int \<Rightarrow> event_table \<Rightarrow> exc + (RuntimeEvent list \<times> int \<times> bool)" where
  "pg_poll k cursor rows = (case fst (pg_replay k cursor rows) of
     Inl e \<Rightarrow> Inl e
   | Inr [] \<Rightarrow> Inr ([], cursor, False)
   | Inr es \<Rightarrow> Inr (es, ev_sequence (last es), ev_str (ev_type (last es)) \<in> set terminal_texts))"

fun pg_subscribe :: "string \<Rightarrow> int \<Rightarrow> event_table list \<Rightarrow> RuntimeEvent list" where
  "pg_subscribe k cursor [] = []"
| "pg_subscribe k cursor (rows # later) = (case pg_poll k cursor rows of
     Inl _ \<Rightarrow> []
   | Inr (es, cursor', done) \<Rightarrow> es @ (if done then [] else pg_subscribe k cursor' later))"

subsection \<open>The table keeps the journal's contract\<close>

definition stored_event :: "RuntimeEvent \<Rightarrow> RuntimeEvent" where
  "stored_event e = e \<lparr> ev_type := EvText (ev_str (ev_type e)) \<rparr>"

lemma trace_entry_opt [simp]: "trace_entry (opt_str x) = x"
  by (cases x) (simp_all add: trace_entry_def opt_str_def)

lemma row_thread_identity:
  assumes "identity_wf i"
  shows "row_thread (row_identity i) = Inr (thread_id i)"
  using assms
  by (cases "thread_id i")
    (auto simp: row_thread_def row_identity_def get_or_def thread_key_def opt_str_def identity_wf_def classed_def
      parse_id_def py_str_def Let_def)

lemma parse_classed_id: "classed cls x \<Longrightarrow> parse_id cls (id_value x) = Inr x"
  by (auto simp: classed_def parse_id_def)

lemma event_roundtrip:
  assumes "identity_wf (ev_identity e)" and "classed EventId (ev_event_id e)" and "ev_schema_version e = 1"
  shows "to_event (row_of_event e) = Inr (stored_event e)"
proof -
  let ?i = "ev_identity e"
  have "row_id WorkspaceId (row_identity ?i) ''workspace_id'' = Inr (workspace_id (scope ?i))"
    "row_id ProjectId (row_identity ?i) ''project_id'' = Inr (project_id (scope ?i))"
    "row_id ApplicationId (row_identity ?i) ''application_id'' = Inr (application_id (scope ?i))"
    "row_id RevisionId (row_identity ?i) ''revision_id'' = Inr (revision_id (scope ?i))"
    "row_id DeploymentId (row_identity ?i) ''deployment_id'' = Inr (deployment_id (scope ?i))"
    "row_id AssistantId (row_identity ?i) ''assistant_id'' = Inr (assistant_id ?i)"
    "row_id RunId (row_identity ?i) ''run_id'' = Inr (run_id ?i)"
    "row_id AttemptId (row_identity ?i) ''attempt_id'' = Inr (attempt_id ?i)"
    using assms(1)
    by (simp_all add: identity_wf_def row_id_def row_identity_def py_str_def parse_classed_id)
  moreover have "parse_id EventId (id_value (ev_event_id e)) = Inr (ev_event_id e)"
    using assms(2) by (auto simp: classed_def parse_id_def)
  ultimately show ?thesis
    using row_thread_identity [OF assms(1)] assms(3)
    by (simp add: to_event_def row_of_event_def Let_def bindM_def liftE_def ret_def stored_event_def get_or_def)
qed

definition event_readable :: "RuntimeEventRow \<Rightarrow> bool" where
  "event_readable w \<longleftrightarrow> \<not> isl (to_event w)"

definition pg_log :: "event_table \<Rightarrow> string \<Rightarrow> RuntimeEvent list" where
  "pg_log rows k = map (\<lambda>w. projr (to_event w)) (filter (\<lambda>w. er_run_id w = k) rows)"

definition pg_events_inv :: "event_table \<Rightarrow> bool" where
  "pg_events_inv rows \<longleftrightarrow> list_all event_readable rows \<and> (\<forall>k. numbered (pg_log rows k))"

lemma to_event_sequence: "to_event w = Inr e \<Longrightarrow> ev_sequence e = er_sequence w"
  by (auto simp: to_event_def Let_def bindM_def liftE_def ret_def split: sum.splits prod.splits)

lemma readable_sequence: "event_readable w \<Longrightarrow> ev_sequence (projr (to_event w)) = er_sequence w"
  using to_event_sequence by (cases "to_event w") (auto simp: event_readable_def)

lemma log_sequences:
  assumes "pg_events_inv rows"
  shows "map er_sequence (filter (\<lambda>w. er_run_id w = k) rows) = map int [0..<length (pg_log rows k)]"
proof -
  have "map er_sequence (filter (\<lambda>w. er_run_id w = k) rows) = map ev_sequence (pg_log rows k)"
    using assms by (auto simp: pg_events_inv_def pg_log_def list_all_iff readable_sequence)
  then show ?thesis using assms by (simp add: pg_events_inv_def numbered_def)
qed

lemma fold_max_sequence: "fold max (map int [Suc m..<n]) (int m) = (if m < n then int n - 1 else int m)"
  by (induction n) auto

lemma next_sequence_length: "pg_events_inv rows \<Longrightarrow> next_sequence k rows = int (length (pg_log rows k))"
proof (cases "length (pg_log rows k)")
  case (Suc m)
  assume inv: "pg_events_inv rows"
  show ?thesis
    unfolding next_sequence_def max_sequence_def log_sequences [OF inv] Suc
    using fold_max_sequence [of 0 "Suc m"] by (simp add: upt_conv_Cons del: upt_Suc)
qed (simp add: next_sequence_def max_sequence_def log_sequences)

lemma append_attempt_spec:
  assumes "pg_events_inv rows" and "identity_wf (dr_identity d)" and "append_attempt conflict now i d rows = (Inr e, rows')"
  shows "rows' = rows @ [row_of_event e] \<and> ev_sequence e = int (length (pg_log rows (run_key (dr_identity d))))
    \<and> ev_type e = dr_type d \<and> ev_data e = dr_data d \<and> ev_identity e = dr_identity d
    \<and> to_event (row_of_event e) = Inr (stored_event e)"
  using assms(3) next_sequence_length [OF assms(1)] event_roundtrip [of e] assms(2)
  by (auto simp: append_attempt_def transaction_def prog_defs Let_def parse_id_def classed_def split: if_splits)

lemma pg_log_snoc:
  assumes "to_event (row_of_event e) = Inr (stored_event e)"
  shows "pg_log (rows @ [row_of_event e]) = (pg_log rows)(run_key (ev_identity e) :=
    pg_log rows (run_key (ev_identity e)) @ [stored_event e])"
proof -
  have "er_run_id (row_of_event e) = run_key (ev_identity e)" by (simp add: row_of_event_def)
  with assms show ?thesis by (auto simp: pg_log_def fun_eq_iff)
qed

lemma append_attempt_inv:
  assumes "pg_events_inv rows" and "identity_wf (dr_identity d)" and "append_attempt conflict now i d rows = (Inr e, rows')"
  shows "pg_events_inv rows'"
proof -
  note a = append_attempt_spec [OF assms]
  then have "event_readable (row_of_event e)" by (simp add: event_readable_def)
  with a assms(1) show ?thesis
    by (auto simp: pg_events_inv_def pg_log_snoc numbered_snoc stored_event_def)
qed

text \<open>A result of the loop is a result of one of its attempts, on the table as it was.\<close>

lemma append_attempt_rollback: "append_attempt conflict now i d rows = (Inl e, rows') \<Longrightarrow> rows' = rows"
  by (auto simp: append_attempt_def transaction_def split: prod.splits sum.splits)

lemma append_tries_attempt:
  "append_tries conflict fresh d n rows = (Inr e, rows') \<Longrightarrow>
   \<exists>m. append_attempt conflict (fst (fresh m)) (snd (fresh m)) d rows = (Inr e, rows')"
proof (induction n)
  case (Suc n)
  then show ?case
    by (cases "append_attempt conflict (fst (fresh n)) (snd (fresh n)) d rows")
      (auto simp: catchM_def raise_def split: sum.splits if_splits dest: append_attempt_rollback)
qed (simp add: raise_def)

text \<open>The statement after the loop is never reached: the third conflict is raised as it is.\<close>

lemma append_not_exhausted: "fst (append_tries conflict fresh d (Suc n) rows) \<noteq> Inl (RuntimeError ''event append retry exhausted'')"
proof (induction n)
  case 0
  then show ?case
    by (auto simp: catchM_def raise_def append_attempt_def transaction_def prog_defs Let_def parse_id_def integrity_error_def)
next
  case (Suc n)
  obtain r s where a: "append_attempt conflict (fst (fresh (Suc n))) (snd (fresh (Suc n))) d rows = (r, s)" by fastforce
  show ?case
  proof (cases r)
    case (Inl e)
    with a have "s = rows" by (simp add: append_attempt_rollback)
    moreover have "e \<noteq> RuntimeError ''event append retry exhausted''"
      using a Inl
      by (auto simp: append_attempt_def transaction_def prog_defs Let_def parse_id_def integrity_error_def split: if_splits)
    ultimately show ?thesis
      using a Inl Suc unfolding append_tries.simps(2) [of _ _ _ "Suc n"] by (simp add: catchM_def raise_def del: append_tries.simps)
  qed (use a in \<open>simp add: catchM_def\<close>)
qed

lemma mapM_read_events:
  assumes "list_all event_readable ws"
  shows "fst (mapM (\<lambda>w. liftE (to_event w)) ws ()) = Inr (map (\<lambda>w. projr (to_event w)) ws)"
proof -
  have "mapM (\<lambda>w. liftE (to_event w)) ws () = (Inr (map (\<lambda>w. projr (to_event w)) ws), ())"
    using assms
  proof (induction ws)
    case (Cons w ws)
    then obtain e where "to_event w = Inr e" by (cases "to_event w") (auto simp: event_readable_def)
    with Cons show ?case by (simp add: bindM_def liftE_def ret_def)
  qed (simp add: ret_def)
  then show ?thesis by simp
qed

text \<open>The table without a lower bound on the cursor: the events after it, in order.\<close>

lemma pg_replay_events:
  assumes "pg_events_inv rows"
  shows "pg_replay k n rows = (Inr (filter (\<lambda>e. n < ev_sequence e) (pg_log rows k)), rows)"
proof -
  let ?ws = "filter (\<lambda>w. er_run_id w = k) rows"
  have rd: "\<forall>w \<in> set ?ws. event_readable w" using assms by (simp add: pg_events_inv_def list_all_iff)
  have split: "filter (\<lambda>w. er_run_id w = k \<and> n < er_sequence w) rows = filter (\<lambda>w. n < er_sequence w) ?ws"
    by (simp add: conj_commute)
  have "sorted (map er_sequence ?ws)"
    unfolding log_sequences [OF assms] by (simp add: sorted_map)
  then have "sorted (map er_sequence (filter (\<lambda>w. n < er_sequence w) ?ws))" by (rule sorted_filter)
  then have sorted: "sort_key er_sequence (filter (\<lambda>w. n < er_sequence w) ?ws) = filter (\<lambda>w. n < er_sequence w) ?ws"
    by (rule sort_key_id_if_sorted)
  have "map (\<lambda>w. projr (to_event w)) (filter (\<lambda>w. n < er_sequence w) ?ws) = filter (\<lambda>e. n < ev_sequence e) (pg_log rows k)"
    unfolding pg_log_def filter_map comp_def
    using rd by (intro arg_cong [where f = "map _"] filter_cong) (simp_all add: readable_sequence)
  moreover have "list_all event_readable (filter (\<lambda>w. n < er_sequence w) ?ws)" using rd by (simp add: list_all_iff)
  ultimately show ?thesis unfolding pg_replay_def split sorted by (simp only: mapM_read_events)
qed

interpretation pg_journal: event_log "\<lambda>now i. pg_append conflict (\<lambda>_. (now, i))" pg_replay pg_log
  pg_events_inv stored_event "\<lambda>d. identity_wf (dr_identity d)" for conflict
proof (unfold_locales, goal_cases)
  case (1 s d now i e s')
  then have "append_attempt conflict now i d s = (Inr e, s')"
    by (auto simp: pg_append_def dest: append_tries_attempt)
  from append_attempt_spec [OF 1(1,2) this] append_attempt_inv [OF 1(1,2) this] show ?case
    by (auto simp: pg_log_snoc)
next
  case (2 s k)
  then show ?case by (simp add: pg_events_inv_def)
next
  case (3 s n k)
  then show ?case by (simp add: pg_replay_events numbered_filter pg_events_inv_def)
qed

text \<open>
  A subscriber that polls while the log grows yields the log from its cursor on, each event once and in
  order; it may stop early only after a terminal event.
\<close>

definition grows :: "string \<Rightarrow> event_table list \<Rightarrow> bool" where
  "grows k ts \<longleftrightarrow> list_all pg_events_inv ts \<and> sorted_wrt (\<lambda>a b. prefix (pg_log a k) (pg_log b k)) ts"

lemma pg_poll_events:
  assumes "pg_events_inv rows" and "c \<le> length (pg_log rows k)"
  shows "\<exists>stop. pg_poll k (int c - 1) rows = Inr (drop c (pg_log rows k), int (length (pg_log rows k)) - 1, stop)
    \<and> (stop \<longrightarrow> drop c (pg_log rows k) \<noteq> [] \<and> ev_str (ev_type (last (pg_log rows k))) \<in> set terminal_texts)"
proof -
  let ?l = "pg_log rows k"
  have nb: "numbered ?l" using assms(1) by (simp add: pg_events_inv_def)
  have r: "pg_replay k (int c - 1) rows = (Inr (drop c ?l), rows)"
    using pg_replay_events [OF assms(1)] numbered_filter [OF nb, of "int c - 1"] by simp
  show ?thesis
  proof (cases "drop c ?l")
    case Nil
    with assms(2) have "length ?l = c" by simp
    with Nil r show ?thesis by (intro exI [of _ False]) (simp add: pg_poll_def)
  next
    case (Cons e es)
    then have "c < length ?l" by (metis drop_eq_Nil2 list.distinct(1) not_le)
    then have "last (drop c ?l) = last ?l" and ne: "?l \<noteq> []" by (auto simp: last_drop)
    moreover have "ev_sequence (last ?l) = int (length ?l) - 1"
      using numbered_nth [OF nb, of "length ?l - 1"] ne by (simp add: last_conv_nth of_nat_diff Suc_le_eq)
    ultimately show ?thesis using r Cons by (simp add: pg_poll_def)
  qed
qed

lemma pg_subscribe_spec:
  assumes "grows k (rows # later)" and "c \<le> length (pg_log rows k)"
  shows "\<exists>m. pg_subscribe k (int c - 1) (rows # later) = drop c (take m (pg_log (last (rows # later)) k)) \<and> c \<le> m
    \<and> (m < length (pg_log (last (rows # later)) k) \<longrightarrow>
         c < m \<and> ev_str (ev_type (pg_log (last (rows # later)) k ! (m - 1))) \<in> set terminal_texts)"
  using assms
proof (induction later arbitrary: rows c)
  case Nil
  obtain stop where "pg_poll k (int c - 1) rows = Inr (drop c (pg_log rows k), int (length (pg_log rows k)) - 1, stop)"
    using pg_poll_events [of rows c k] Nil.prems by (auto simp: grows_def)
  with Nil show ?case by (intro exI [of _ "length (pg_log rows k)"]) simp
next
  case (Cons nxt later)
  let ?l = "pg_log rows k" and ?z = "pg_log (last (nxt # later)) k"
  obtain stop where p: "pg_poll k (int c - 1) rows = Inr (drop c ?l, int (length ?l) - 1, stop)"
    and st: "stop \<longrightarrow> drop c ?l \<noteq> [] \<and> ev_str (ev_type (last ?l)) \<in> set terminal_texts"
  proof -
    have "pg_events_inv rows" using Cons.prems(1) by (simp add: grows_def)
    from pg_poll_events [OF this Cons.prems(2)] that show thesis by blast
  qed
  have g: "grows k (nxt # later)" "prefix ?l (pg_log nxt k)" "prefix ?l ?z"
    using Cons.prems by (auto simp: grows_def)
  then obtain z where z: "?z = ?l @ z" by (auto simp: prefix_def)
  show ?case
  proof (cases stop)
    case True
    then have "c < length ?l" "?l \<noteq> []" using st by auto
    with True st p z show ?thesis
      by (intro exI [of _ "length ?l"]) (auto simp: last_conv_nth nth_append)
  next
    case False
    obtain m where m: "pg_subscribe k (int (length ?l) - 1) (nxt # later) = drop (length ?l) (take m ?z)" "length ?l \<le> m"
      "m < length ?z \<longrightarrow> length ?l < m \<and> ev_str (ev_type (?z ! (m - 1))) \<in> set terminal_texts"
      using Cons.IH [OF g(1), of "length ?l"] g(2) by (auto simp: prefix_length_le)
    have "drop c ?l @ drop (length ?l) (take m ?z) = drop c (take m ?z)"
      using z m(2) Cons.prems(2) by simp
    with False p m Cons.prems(2) show ?thesis by (intro exI [of _ m]) auto
  qed
qed

lemma append_tries_rollback: "append_tries conflict fresh d n rows = (Inl e, rows') \<Longrightarrow> rows' = rows"
proof (induction n)
  case (Suc n)
  then show ?case
    by (cases "append_attempt conflict (fst (fresh n)) (snd (fresh n)) d rows")
      (auto simp: catchM_def raise_def split: sum.splits if_splits dest: append_attempt_rollback)
qed (simp add: raise_def)

text \<open>An append, also one that fails, keeps the table well formed, and a log only grows.\<close>

lemma pg_append_grows:
  assumes "pg_events_inv rows" and "identity_wf (dr_identity d)"
  shows "pg_events_inv (snd (pg_append conflict fresh d rows))
    \<and> prefix (pg_log rows k) (pg_log (snd (pg_append conflict fresh d rows)) k)"
proof (cases "pg_append conflict fresh d rows")
  case (Pair r rows')
  show ?thesis
  proof (cases r)
    case (Inl e)
    then have "rows' = rows" using Pair unfolding pg_append_def by (intro append_tries_rollback) simp
    then show ?thesis using Pair assms by simp
  next
    case (Inr e)
    then obtain m where m: "append_attempt conflict (fst (fresh m)) (snd (fresh m)) d rows = (Inr e, rows')"
      using Pair append_tries_attempt unfolding pg_append_def by blast
    then show ?thesis
      using Pair append_attempt_inv [OF assms m] append_attempt_spec [OF assms m] by (auto simp: pg_log_snoc)
  qed
qed

end
