(* ===== verification/Postgres_Schema.thy ===== *)
theory Postgres_Schema
  imports Configuration_Store "HOL-Library.Word"
begin

section \<open>Schema names, advisory locks and migration\<close>

text \<open>
  \<^verbatim>\<open>adapters/postgres/schema.py\<close>, \<^verbatim>\<open>locks.py\<close>, \<^verbatim>\<open>migration.py\<close>, \<^verbatim>\<open>database.py\<close> and the connection part of
  \<^verbatim>\<open>langgraph.py\<close>.  The lock key of a migration is a signed 64-bit integer taken from a SHA-256 digest; the
  names of schemas and the statement that pins a connection to them are texts of letters, digits and
  underscores, so that nothing of an application's key reaches the database as SQL.
\<close>

subsection \<open>Schema names (schema.py)\<close>

definition is_lower :: "char \<Rightarrow> bool" where
  "is_lower c \<longleftrightarrow> 97 \<le> (of_char c :: nat) \<and> (of_char c :: nat) \<le> 122"

definition is_upper :: "char \<Rightarrow> bool" where
  "is_upper c \<longleftrightarrow> 65 \<le> (of_char c :: nat) \<and> (of_char c :: nat) \<le> 90"

text \<open>\<open>^[a-z][a-z0-9_]{0,62}$\<close>, the whole text.\<close>

definition sql_identifier :: "string \<Rightarrow> bool" where
  "sql_identifier s \<longleftrightarrow> (case s of [] \<Rightarrow> False
     | c # cs \<Rightarrow> is_lower c \<and> length cs \<le> 62 \<and> list_all (\<lambda>x. is_lower x \<or> is_digit x \<or> x = CHR ''_'') cs)"

record SchemaNames =
  sn_prefix :: string

definition schema_names :: "string \<Rightarrow> exc + SchemaNames" where
  "schema_names prefix =
     (if sql_identifier prefix then Inr \<lparr> sn_prefix = prefix \<rparr>
      else Inl (ValueError ''schema prefix must be a lowercase SQL identifier''))"

definition default_schemas :: SchemaNames where
  "default_schemas = \<lparr> sn_prefix = ''rt'' \<rparr>"

definition core_schema :: "SchemaNames \<Rightarrow> string" where
  "core_schema s = sn_prefix s @ ''_core''"

definition execution_schema :: "SchemaNames \<Rightarrow> string" where
  "execution_schema s = sn_prefix s @ ''_exec''"

definition application_schema :: "SchemaNames \<Rightarrow> string \<Rightarrow> string \<Rightarrow> string \<Rightarrow> string \<Rightarrow> exc + string" where
  "application_schema s kind workspace_key application_key environment =
     (if sql_identifier workspace_key \<and> sql_identifier application_key \<and> sql_identifier environment
      then Inr (sn_prefix s @ ''_'' @ kind @ ''_'' @ workspace_key @ ''_'' @ application_key @ ''_'' @ environment)
      else Inl (ValueError ''schema keys must be lowercase SQL identifiers''))"

definition framework_state :: "SchemaNames \<Rightarrow> string \<Rightarrow> string \<Rightarrow> string \<Rightarrow> exc + string" where
  "framework_state s = application_schema s ''s''"

definition application_state :: "SchemaNames \<Rightarrow> string \<Rightarrow> string \<Rightarrow> string \<Rightarrow> exc + string" where
  "application_state s = application_schema s ''a''"

subsection \<open>Lock keys (locks.py)\<close>

definition from_bytes :: "int list \<Rightarrow> int" where
  "from_bytes bs = fold (\<lambda>b v. v * 256 + b) bs 0"

definition migration_lock_key :: "string \<Rightarrow> string \<Rightarrow> string \<Rightarrow> int" where
  "migration_lock_key app_id environment category =
     (let material = app_id @ environment @ category;
          unsigned = from_bytes (take 8 (sha256 material))
      in if unsigned \<ge> push_bit 63 1 then unsigned - push_bit 64 1 else unsigned)"

subsection \<open>Search paths (database.py)\<close>

text \<open>\<open>str.isidentifier\<close> and \<open>str.islower\<close> on ASCII texts.\<close>

definition py_isidentifier :: "string \<Rightarrow> bool" where
  "py_isidentifier s \<longleftrightarrow> (case s of [] \<Rightarrow> False
     | c # cs \<Rightarrow> (is_lower c \<or> is_upper c \<or> c = CHR ''_'')
        \<and> list_all (\<lambda>x. is_lower x \<or> is_upper x \<or> is_digit x \<or> x = CHR ''_'') cs)"

definition py_islower :: "string \<Rightarrow> bool" where
  "py_islower s \<longleftrightarrow> list_ex is_lower s \<and> \<not> list_ex is_upper s"

definition is_safe_search_path :: "string \<Rightarrow> bool" where
  "is_safe_search_path path \<longleftrightarrow> list_all (\<lambda>part. py_isidentifier part \<and> py_islower part) (split_on CHR '','' path)"

definition quoted :: "string \<Rightarrow> string" where
  "quoted part = [CHR 0x22] @ part @ [CHR 0x22]"

definition set_search_path :: "string \<Rightarrow> string" where
  "set_search_path path = ''SET search_path TO '' @ join '','' (map quoted (split_on CHR '','' path))"

text \<open>An engine is its options and the statement every new connection runs; the driver's pool is not
  modelled.\<close>

record Engine =
  en_url :: string
  en_pool_size :: int
  en_max_overflow :: int
  en_on_connect :: "string option"

definition create_engine :: "string \<Rightarrow> string option \<Rightarrow> int \<Rightarrow> int \<Rightarrow> exc + Engine" where
  "create_engine url search_path pool_size max_overflow =
     (case search_path of
        None \<Rightarrow> Inr \<lparr> en_url = url, en_pool_size = pool_size, en_max_overflow = max_overflow, en_on_connect = None \<rparr>
      | Some path \<Rightarrow>
          if is_safe_search_path path
          then Inr \<lparr> en_url = url, en_pool_size = pool_size, en_max_overflow = max_overflow,
                 en_on_connect = Some (set_search_path path) \<rparr>
          else Inl (ValueError ''search_path must contain lowercase SQL identifiers''))"

definition create_application_engine ::
  "string \<Rightarrow> string \<Rightarrow> string \<Rightarrow> string \<Rightarrow> SchemaNames \<Rightarrow> int \<Rightarrow> int \<Rightarrow> exc + Engine" where
  "create_application_engine url workspace_key application_key environment schemas pool_size max_overflow =
     (case application_state schemas workspace_key application_key environment of
        Inl e \<Rightarrow> Inl e | Inr schema \<Rightarrow> create_engine url (Some (schema @ '',public'')) pool_size max_overflow)"

definition create_framework_state_engine ::
  "string \<Rightarrow> string \<Rightarrow> string \<Rightarrow> string \<Rightarrow> SchemaNames \<Rightarrow> int \<Rightarrow> int \<Rightarrow> exc + Engine" where
  "create_framework_state_engine url workspace_key application_key environment schemas pool_size max_overflow =
     (case framework_state schemas workspace_key application_key environment of
        Inl e \<Rightarrow> Inl e | Inr schema \<Rightarrow> create_engine url (Some (schema @ '',public'')) pool_size max_overflow)"

subsection \<open>Migration (database.py, migration.py, langgraph.py)\<close>

text \<open>The database as the migration sees it: the advisory locks other sessions hold, the schemas, and
  whether the tables exist.  Locks taken by the code itself are returned with its result.\<close>

record Database =
  db_foreign_locks :: "int list"
  db_own_locks :: "int list"
  db_schemas :: "string list"
  db_tables :: bool

definition create_schema :: "string \<Rightarrow> (Database, exc, unit) prog" where
  "create_schema n = modifyM (\<lambda>db. if n \<in> set (db_schemas db) then db else db \<lparr> db_schemas := db_schemas db @ [n] \<rparr>)"

definition create_schemas :: "SchemaNames \<Rightarrow> (Database, exc, unit) prog" where
  "create_schemas s = transaction (thenM (create_schema (core_schema s)) (create_schema (execution_schema s)))"

text \<open>The tables of \<^verbatim>\<open>models.py\<close> live in the default schemas; creating them needs those schemas.\<close>

definition create_all :: "(Database, exc, unit) prog" where
  "create_all = (\<lambda>db.
     if core_schema default_schemas \<in> set (db_schemas db) \<and> execution_schema default_schemas \<in> set (db_schemas db)
     then (Inr (), db \<lparr> db_tables := True \<rparr>) else (Inl (FrameworkError ''InvalidSchemaName''), db))"

definition create_platform_tables :: "(Database, exc, unit) prog" where
  "create_platform_tables = thenM (create_schemas default_schemas) (transaction create_all)"

definition migrate_platform :: "string \<Rightarrow> string \<Rightarrow> SchemaNames \<Rightarrow> (Database, exc, bool) prog" where
  "migrate_platform app_id environment schemas =
     (let lock_key = migration_lock_key app_id environment ''platform'' in
      transaction (bindM (getsM (\<lambda>db. lock_key \<notin> set (db_foreign_locks db))) (\<lambda>acquired.
        if \<not> acquired then ret False
        else thenM (create_schema (core_schema schemas)) (thenM (create_schema (execution_schema schemas))
          (thenM create_all (ret True))))))"

text \<open>The session lock: waiting for another session is not a result, so the caller supplies a database in
  which the lock is free; the lock is given back also when the body raises.\<close>

definition session_lock :: "int \<Rightarrow> (Database, exc, 'a) prog \<Rightarrow> (Database, exc, 'a) prog" where
  "session_lock key body = thenM (modifyM (\<lambda>db. db \<lparr> db_own_locks := key # db_own_locks db \<rparr>))
     (finallyM body (modifyM (\<lambda>db. db \<lparr> db_own_locks := remove1 key (db_own_locks db) \<rparr>)))"

definition advisory_migration_session_lock ::
  "string \<Rightarrow> string \<Rightarrow> string \<Rightarrow> (Database, exc, 'a) prog \<Rightarrow> (Database, exc, 'a) prog" where
  "advisory_migration_session_lock app_id environment category =
     session_lock (migration_lock_key app_id environment category)"

text \<open>The transaction's lock is given back at its end, whether it commits or rolls back.\<close>

definition advisory_migration_lock ::
  "string \<Rightarrow> string \<Rightarrow> string \<Rightarrow> (Database, exc, 'a) prog \<Rightarrow> (Database, exc, 'a) prog" where
  "advisory_migration_lock app_id environment category body =
     session_lock (migration_lock_key app_id environment category) (transaction body)"

text \<open>\<open>str.replace(old, new, 1)\<close>.\<close>

fun replace_first :: "string \<Rightarrow> string \<Rightarrow> string \<Rightarrow> string" where
  "replace_first old new [] = (if old = [] then new else [])"
| "replace_first old new (c # cs) =
     (if is_prefix old (c # cs) then new @ drop (length old) (c # cs) else c # replace_first old new cs)"

text \<open>\<open>render url options\<close> is the URL library's rendering of the URL with the query parameter \<open>options\<close>.\<close>

definition database_url_for_search_path ::
  "(string \<Rightarrow> string \<Rightarrow> exc + string) \<Rightarrow> string \<Rightarrow> string \<Rightarrow> exc + string" where
  "database_url_for_search_path render url schema =
     (if \<not> py_isidentifier schema \<or> py_lower schema \<noteq> schema
      then Inl (ValueError ''framework state schema must be a lowercase SQL identifier'')
      else map_sum id (\<lambda>rendered. replace_first ''options=-c+search_path'' ''options=-c%20search_path''
             (replace_first ''postgresql+psycopg://'' ''postgresql://'' rendered))
             (render url (''-c search_path='' @ schema @ '',public'')))"

text \<open>\<open>saver_setup\<close> and \<open>store_setup\<close> are the framework's own migrations.\<close>

definition managed_langgraph_persistence ::
  "(string \<Rightarrow> string \<Rightarrow> exc + string) \<Rightarrow> (Database, exc, unit) prog \<Rightarrow> (Database, exc, unit) prog \<Rightarrow>
   string \<Rightarrow> string \<Rightarrow> string \<Rightarrow> string \<Rightarrow> string \<Rightarrow> SchemaNames \<Rightarrow> (Database, exc, string) prog" where
  "managed_langgraph_persistence render saver_setup store_setup url app_id environment workspace_key
     application_key schemas =
     bindM (liftE (framework_state schemas workspace_key application_key environment)) (\<lambda>state_schema.
     bindM (liftE (database_url_for_search_path render url state_schema)) (\<lambda>state_url.
     thenM (transaction (create_schema state_schema))
     (thenM (advisory_migration_session_lock app_id environment ''framework-state'' (thenM saver_setup store_setup))
     (ret state_url))))"

subsection \<open>The lock key fits the database's integer\<close>

lemma from_bytes_snoc: "from_bytes (bs @ [b]) = from_bytes bs * 256 + b"
  by (simp add: from_bytes_def)

lemma from_bytes_range:
  assumes "\<forall>b \<in> set bs. 0 \<le> b \<and> b < 256"
  shows "0 \<le> from_bytes bs \<and> from_bytes bs < 256 ^ length bs"
  using assms
proof (induction bs rule: rev_induct)
  case (snoc b bs)
  then have "0 \<le> from_bytes bs" "from_bytes bs + 1 \<le> 256 ^ length bs" "0 \<le> b" "b < 256" by auto
  then show ?case by (simp add: from_bytes_snoc)
qed (simp add: from_bytes_def)

lemma sint_word64:
  assumes "0 \<le> v" and "v < 2 ^ 64"
  shows "sint (word_of_int v :: 64 word) = (if v \<ge> 2 ^ 63 then v - 2 ^ 64 else v)"
proof -
  have s: "sint (word_of_int v :: 64 word) = (v + 2 ^ 63) mod 2 ^ 64 - 2 ^ 63"
    by (simp add: sint_uint uint_word_of_int) (simp add: signed_take_bit_eq_take_bit_shift take_bit_eq_mod mod_add_left_eq)
  show ?thesis
  proof (cases "v \<ge> 2 ^ 63")
    case True
    have "(v + 2 ^ 63) mod 2 ^ 64 = ((v - 2 ^ 63) + 2 ^ 64) mod 2 ^ 64" by (simp add: add.commute)
    also have "\<dots> = v - 2 ^ 63" using True assms by (simp only: mod_add_self2) (rule mod_pos_pos_trivial; simp)
    finally show ?thesis using True s by simp
  next
    case False
    then have "(v + 2 ^ 63) mod 2 ^ 64 = v + 2 ^ 63" using assms by (intro mod_pos_pos_trivial) simp_all
    then show ?thesis using False s by simp
  qed
qed

lemma lock_key_word:
  "migration_lock_key a e c = sint (word_of_int (from_bytes (take 8 (sha256 (a @ e @ c)))) :: 64 word)"
proof -
  have "0 \<le> from_bytes (take 8 (sha256 (a @ e @ c))) \<and> from_bytes (take 8 (sha256 (a @ e @ c))) < 256 ^ 8"
    using from_bytes_range [of "take 8 (sha256 (a @ e @ c))"] sha256_bytes sha256_length
    by (auto dest!: in_set_takeD)
  then show ?thesis by (simp add: migration_lock_key_def Let_def sint_word64)
qed

lemma lock_key_range: "- (2 ^ 63) \<le> migration_lock_key a e c \<and> migration_lock_key a e c < 2 ^ 63"
  unfolding lock_key_word
  using sint_greater_eq [of "word_of_int (from_bytes (take 8 (sha256 (a @ e @ c)))) :: 64 word"]
    sint_less [of "word_of_int (from_bytes (take 8 (sha256 (a @ e @ c)))) :: 64 word"]
  by simp

text \<open>The three parts are joined without a separator.\<close>

lemma lock_key_ambiguous: "a @ e = a' @ e' \<Longrightarrow> migration_lock_key a e c = migration_lock_key a' e' c"
  by (simp add: migration_lock_key_def flip: append_assoc)

subsection \<open>Names and search paths\<close>

definition safe_char :: "char \<Rightarrow> bool" where
  "safe_char c \<longleftrightarrow> is_lower c \<or> is_digit c \<or> c = CHR ''_''"

lemma safe_char_facts: "safe_char c \<Longrightarrow> c \<noteq> CHR 0x22 \<and> c \<noteq> CHR '','' \<and> \<not> is_upper c"
  by (auto simp: safe_char_def is_lower_def is_digit_def is_upper_def)

lemma sql_identifier_chars: "sql_identifier s \<Longrightarrow> s \<noteq> [] \<and> is_lower (hd s) \<and> list_all safe_char s"
  by (auto simp: sql_identifier_def safe_char_def list_all_iff split: list.splits)

lemma application_schema_chars:
  assumes "application_schema s kind w a e = Inr n" and "sql_identifier (sn_prefix s)" and "list_all safe_char kind"
  shows "n \<noteq> [] \<and> is_lower (hd n) \<and> list_all safe_char n"
  using assms sql_identifier_chars
  by (auto simp: application_schema_def safe_char_def split: if_splits)

lemma part_ok:
  assumes "n \<noteq> []" and "is_lower (hd n)" and "list_all safe_char n"
  shows "py_isidentifier n \<and> py_islower n"
  using assms safe_char_facts
  by (cases n) (auto simp: py_isidentifier_def py_islower_def safe_char_def list_all_iff list_ex_iff)

text \<open>Every part of an accepted search path is free of quotes, so the statement has exactly the quotes
  that \<open>set_search_path\<close> writes.\<close>

lemma isidentifier_no_quote: "py_isidentifier p \<Longrightarrow> CHR 0x22 \<notin> set p"
  by (auto simp: py_isidentifier_def list_all_iff is_lower_def is_upper_def is_digit_def split: list.splits)

lemma search_path_quotes:
  assumes "is_safe_search_path path"
  shows "count_list (set_search_path path) (CHR 0x22) = 2 * length (split_on CHR '','' path)"
proof -
  have j: "count_list (join '','' (map quoted ps)) (CHR 0x22) = 2 * length ps"
    if "\<forall>p \<in> set ps. CHR 0x22 \<notin> set p" for ps
    using that
  proof (induction ps)
    case (Cons p ps)
    then show ?case by (cases ps) (auto simp: quoted_def count_list_0_iff)
  qed simp
  have "\<forall>p \<in> set (split_on CHR '','' path). CHR 0x22 \<notin> set p"
    using assms isidentifier_no_quote by (auto simp: is_safe_search_path_def list_all_iff)
  from j [OF this] show ?thesis by (simp add: set_search_path_def)
qed

lemma public_ok: "py_isidentifier ''public'' \<and> py_islower ''public''"
  by code_simp

text \<open>Whatever keys pass the check of the names, the engine accepts the search path made of them.\<close>

lemma application_engine_accepts:
  assumes "sql_identifier (sn_prefix s)" and "sql_identifier w" and "sql_identifier a" and "sql_identifier e"
  shows "\<exists>n. application_state s w a e = Inr n \<and> create_application_engine url w a e s p m =
      Inr \<lparr> en_url = url, en_pool_size = p, en_max_overflow = m,
            en_on_connect = Some (''SET search_path TO '' @ quoted n @ '','' @ quoted ''public'') \<rparr>"
proof -
  obtain n where n: "application_state s w a e = Inr n" "application_schema s ''a'' w a e = Inr n"
    using assms by (auto simp: application_state_def application_schema_def)
  have "list_all safe_char ''a''" by code_simp
  from application_schema_chars [OF n(2) assms(1) this]
  have c: "n \<noteq> []" "is_lower (hd n)" "list_all safe_char n" by auto
  have "CHR '','' \<notin> set n" using c(3) safe_char_facts by (auto simp: list_all_iff)
  then have "split_on CHR '','' (n @ '',public'') = [n, ''public'']"
    using split_on_append [of "CHR '',''" n "''public''"] by simp
  then show ?thesis
    using n(1) part_ok [OF c] public_ok
    by (simp add: create_application_engine_def create_engine_def is_safe_search_path_def set_search_path_def)
qed

text \<open>Different keys can give the same schema.\<close>

lemma schema_collision:
  "application_state default_schemas ''a_b'' ''c'' ''dev'' = application_state default_schemas ''a'' ''b_c'' ''dev''"
  by code_simp

subsection \<open>Migration\<close>

lemma migrate_platform_default:
  assumes "migration_lock_key app env ''platform'' \<notin> set (db_foreign_locks db)"
  shows "\<exists>db'. migrate_platform app env default_schemas db = (Inr True, db') \<and> db_tables db'
    \<and> set (db_schemas db') = set (db_schemas db) \<union> {''rt_core'', ''rt_exec''}"
  using assms
  by (auto simp: migrate_platform_def Let_def transaction_def prog_defs create_schema_def create_all_def default_schemas_def
      core_schema_def execution_schema_def)

lemma migrate_platform_busy:
  "migration_lock_key app env ''platform'' \<in> set (db_foreign_locks db) \<Longrightarrow>
   migrate_platform app env schemas db = (Inr False, db)"
  by (simp add: migrate_platform_def Let_def transaction_def prog_defs)

text \<open>With another prefix the schemas of the tables are missing, and the whole migration is undone.\<close>

lemma migrate_platform_other_prefix:
  assumes "migration_lock_key app env ''platform'' \<notin> set (db_foreign_locks db)" and "db_schemas db = []"
    and "sn_prefix schemas \<noteq> ''rt''"
  shows "migrate_platform app env schemas db = (Inl (FrameworkError ''InvalidSchemaName''), db)"
  using assms
  by (simp add: migrate_platform_def Let_def transaction_def prog_defs create_schema_def create_all_def default_schemas_def
      core_schema_def execution_schema_def)

definition keeps_locks :: "(Database, exc, 'a) prog \<Rightarrow> bool" where
  "keeps_locks m \<longleftrightarrow> (\<forall>db. db_own_locks (snd (m db)) = db_own_locks db)"

lemma session_lock_released:
  assumes "keeps_locks body"
  shows "keeps_locks (session_lock key body)"
  unfolding keeps_locks_def
proof
  fix db :: Database
  let ?db = "db \<lparr> db_own_locks := key # db_own_locks db \<rparr>"
  obtain r db' where b: "body ?db = (r, db')" by fastforce
  then have "db_own_locks db' = key # db_own_locks db"
    using assms [unfolded keeps_locks_def, rule_format, of ?db] by simp
  with b show "db_own_locks (snd (session_lock key body db)) = db_own_locks db"
    by (simp add: session_lock_def prog_defs split: sum.splits)
qed

end
