(* ===== verification/Runtime_Execution.thy ===== *)
theory Runtime_Execution
  imports Runtime_Service
begin

section \<open>What an execution does\<close>

text \<open>
  The outcome of \<open>_execute_receipt\<close> for every way an adapter's stream can end, the interleaving of an
  execution with the requests that arrive while it waits for the adapter, and the sequences of
  operations of the local runtime.
\<close>

subsection \<open>How the pieces run\<close>

text \<open>States that differ in the journal, the clock and the identifiers only.\<close>

definition quiet :: "Service \<Rightarrow> Service \<Rightarrow> bool" where
  "quiet s s' \<longleftrightarrow> sv_threads s' = sv_threads s \<and> sv_runs s' = sv_runs s \<and> sv_commands s' = sv_commands s
     \<and> sv_journal_on s' = sv_journal_on s \<and> sv_active_adapters s' = sv_active_adapters s
     \<and> sv_outbox s' = sv_outbox s \<and> sv_adapters s' = sv_adapters s \<and> sv_capacity s' = sv_capacity s
     \<and> sv_clock s' = sv_clock s \<and> sv_ids s' = sv_ids s \<and> sv_worker s' = sv_worker s
     \<and> sv_outbox_on s' = sv_outbox_on s \<and> sv_capacity_on s' = sv_capacity_on s
     \<and> sv_replay_on s' = sv_replay_on s \<and> sv_subscription_on s' = sv_subscription_on s"

lemma quiet_refl [simp]: "quiet s s"
  by (simp add: quiet_def)

lemma quiet_trans: "quiet a b \<Longrightarrow> quiet b c \<Longrightarrow> quiet a c"
  by (simp add: quiet_def)

text \<open>The events that journal the drafts.\<close>

definition records :: "RuntimeEventDraft \<Rightarrow> RuntimeEvent \<Rightarrow> bool" where
  "records d e \<longleftrightarrow> ev_type e = dr_type d \<and> ev_data e = dr_data d \<and> ev_identity e = dr_identity d
     \<and> ev_namespace e = dr_namespace d \<and> ev_native e = dr_native d"

abbreviation log_of :: "Service \<Rightarrow> string \<Rightarrow> RuntimeEvent list" where
  "log_of s \<equiv> events_of (sv_journal s)"

lemma svc_append_run:
  assumes "sv_journal_on s"
  obtains e s' where "svc_append d s = (Inr e, s')" and "records d e" and "quiet s s'"
    and "log_of s' = (log_of s)(run_key (dr_identity d) := log_of s (run_key (dr_identity d)) @ [e])"
proof -
  let ?i = "sv_ids s (sv_id_ix s)" and ?n = "sv_clock s (sv_clock_ix s)"
  obtain e j where e: "e = make_event (sv_journal s) ?n ?i d"
    and j: "j = snd (journal_append ?n ?i d (sv_journal s))" by blast
  have "journal_append ?n ?i d (sv_journal s) = (Inr e, j)"
    by (rule prod_eqI) (simp_all add: e j journal_append_result)
  then have "svc_append d s = (Inr e, s \<lparr> sv_id_ix := Suc (sv_id_ix s),
      sv_clock_ix := Suc (sv_clock_ix s), sv_journal := j \<rparr>)"
    using assms by (simp add: svc_append_def prog_defs svc_new_id_def svc_now_def)
  moreover have "records d e" by (simp add: records_def make_event_def e)
  ultimately show ?thesis using that by (simp add: quiet_def journal_append_log j e)
qed

lemma svc_update_run_run:
  assumes "f (sv_clock s (sv_clock_ix s)) = Inr r" and "map_of (sv_runs s) (rn_key r) = Some old"
  shows "svc_update_run f s = (Inr (), s \<lparr> sv_clock_ix := Suc (sv_clock_ix s),
    sv_runs := AList.update (rn_key r) r (sv_runs s) \<rparr>)"
  using assms by (simp add: svc_update_run_def prog_defs svc_now_def runs_update_def)

lemma svc_update_thread_run:
  assumes "map_of (sv_threads s) k = Some t" and "\<And>n. th_key (f t n) = k"
  shows "svc_update_thread k f s = (Inr (), s \<lparr> sv_clock_ix := Suc (sv_clock_ix s),
    sv_threads := AList.update k (f t (sv_clock s (sv_clock_ix s))) (sv_threads s) \<rparr>)"
  using assms by (simp add: svc_update_thread_def prog_defs svc_now_def threads_defs)

lemma runs_get_run: "map_of (sv_runs s) k = Some r \<Longrightarrow> on_runs (runs_get k) s = (Inr r, s)"
  by (simp add: zoomM_def runs_get_def)

lemma threads_get_run: "map_of (sv_threads s) k = Some r \<Longrightarrow> on_threads (threads_get k) s = (Inr r, s)"
  by (simp add: zoomM_def threads_get_def)

subsection \<open>Streams without a terminal event\<close>

definition plain :: "RuntimeEventDraft \<Rightarrow> bool" where
  "plain d \<longleftrightarrow> \<not> ev_in (dr_type d) terminal_events"

definition last_value :: "json \<Rightarrow> RuntimeEventDraft list \<Rightarrow> json" where
  "last_value = foldl (\<lambda>v d. if ev_is (dr_type d) STATE_VALUES then dr_data d else v)"

lemma last_value_simps [simp]:
  "last_value v [] = v"
  "last_value v (d # ds) = last_value (if ev_is (dr_type d) STATE_VALUES then dr_data d else v) ds"
  by (simp_all add: last_value_def)

lemma execute_plain:
  assumes "sv_journal_on s" and "list_all plain ds" and "list_all (\<lambda>d. run_key (dr_identity d) = k) ds"
  shows "\<exists>s' es. execute_drafts run ds (v, b) s = (Inr (last_value v ds, b), s') \<and> quiet s s'
    \<and> list_all2 records ds es \<and> log_of s' = (log_of s)(k := log_of s k @ es)"
  using assms
proof (induction ds arbitrary: s v)
  case Nil
  then show ?case by (auto simp: ret_def)
next
  case (Cons d ds)
  from svc_append_run [OF Cons.prems(1), of d] obtain e s1 where
    s1: "svc_append d s = (Inr e, s1)" "records d e" "quiet s s1"
      "log_of s1 = (log_of s)(k := log_of s k @ [e])" using Cons.prems(3) by auto
  let ?v = "if ev_is (dr_type d) STATE_VALUES then dr_data d else v"
  have step: "execute_draft run d (v, b) s = (Inr (?v, b), s1)"
    using s1(1,2) Cons.prems(2)
    by (simp add: execute_draft_def bindM_def Let_def records_def plain_def ret_def)
  have "sv_journal_on s1" using Cons.prems(1) s1(3) by (simp add: quiet_def)
  with Cons obtain s' es where "execute_drafts run ds (?v, b) s1 = (Inr (last_value ?v ds, b), s')"
    "quiet s1 s'" "list_all2 records ds es" "log_of s' = (log_of s1)(k := log_of s1 k @ es)"
    by fastforce
  with step s1 quiet_trans show ?case
    by (intro exI [of _ s'] exI [of _ "e # es"]) (auto simp: bindM_def)
qed

text \<open>The journal of one run has grown by the events that record the drafts; no other run's has.\<close>

definition grown :: "Service \<Rightarrow> string \<Rightarrow> RuntimeEventDraft list \<Rightarrow> Service \<Rightarrow> bool" where
  "grown s k ds m \<longleftrightarrow> (\<exists>es. list_all2 records ds es \<and> log_of m = (log_of s)(k := log_of s k @ es))"

lemma grown_start: "sv_journal m = sv_journal s \<Longrightarrow> grown s k [] m"
  by (simp add: grown_def)

lemma grown_frame: "grown s k ds m \<Longrightarrow> sv_journal m' = sv_journal m \<Longrightarrow> grown s k ds m'"
  by (simp add: grown_def)

lemma grown_more:
  assumes "grown s k ds m" and "list_all2 records ds' es" and "log_of m' = (log_of m)(k := log_of m k @ es)"
  shows "grown s k (ds @ ds') m'"
proof -
  from assms(1) obtain es' where "list_all2 records ds es'" "log_of m = (log_of s)(k := log_of s k @ es')"
    by (auto simp: grown_def)
  with assms(2,3) have "list_all2 records (ds @ ds') (es' @ es)"
    "log_of m' = (log_of s)(k := log_of s k @ es' @ es)" by (auto intro: list_all2_appendI)
  then show ?thesis unfolding grown_def by blast
qed

subsection \<open>The outcome of an execution\<close>

abbreviation rp_run_key :: "RunCommandReceipt \<Rightarrow> string" where
  "rp_run_key rp \<equiv> run_key (rq_identity (rc_request (rp_command rp)))"

text \<open>A command that is about to be executed: its run is pending, its lease is active and its thread,
  if it has one, exists.\<close>

definition ready :: "Service \<Rightarrow> RunCommandReceipt \<Rightarrow> Run \<Rightarrow> bool" where
  "ready s rp run \<longleftrightarrow> svc_wf s \<and> sv_journal_on s \<and> map_of (sv_runs s) (rp_run_key rp) = Some run
     \<and> rn_status run = PENDING \<and> queue_active (sv_commands s) rp
     \<and> (case rn_thread_key run of None \<Rightarrow> True | Some t \<Rightarrow> map_of (sv_threads s) t \<noteq> None)"

text \<open>What an execution leaves behind: the run has become \<open>r\<close>, no other run has changed, its journal
  has grown by the drafts, its thread is no longer busy and no other thread has changed, the command
  is settled and the adapter is no longer registered.\<close>

definition outcome ::
  "Service \<Rightarrow> RunCommandReceipt \<Rightarrow> Run \<Rightarrow> Run \<Rightarrow> RuntimeEventDraft list \<Rightarrow> Service \<Rightarrow> bool" where
  "outcome s rp run r ds s' \<longleftrightarrow>
     map_of (sv_runs s') = (map_of (sv_runs s))(rn_key run \<mapsto> r) \<and> rn_identity r = rn_identity run
     \<and> grown s (rn_key run) ds s'
     \<and> (case rn_thread_key run of
          None \<Rightarrow> sv_threads s' = sv_threads s
        | Some t \<Rightarrow> \<exists>th. map_of (sv_threads s') = (map_of (sv_threads s))(t \<mapsto> th) \<and> th_status th \<noteq> T_BUSY)
     \<and> sv_commands s' = settled (id_value (rp_lease_id rp)) (sv_commands s)
     \<and> sv_active_adapters s' = AList.delete (rn_key run) (sv_active_adapters s)"

lemma readyD:
  assumes "ready s rp run"
  shows "rn_key run = rp_run_key rp" and "map_of (sv_runs s) (rn_key run) = Some run"
    and "queue_inv (sv_commands s)" and "keyed_by th_key (sv_threads s)"
    and "\<exists>l. map_of (pq_leases (sv_commands s)) (id_value (rp_lease_id rp)) = Some l"
proof -
  show k: "rn_key run = rp_run_key rp"
    using assms keyed_byD [of rn_key "sv_runs s"] by (force simp: ready_def svc_wf_def)
  show "map_of (sv_runs s) (rn_key run) = Some run" unfolding k using assms by (simp add: ready_def)
  show "queue_inv (sv_commands s)" "keyed_by th_key (sv_threads s)"
    using assms by (simp_all add: ready_def svc_wf_def)
  show "\<exists>l. map_of (pq_leases (sv_commands s)) (id_value (rp_lease_id rp)) = Some l"
    using assms by (auto simp: ready_def queue_active_def)
qed

text \<open>The state in which the last step of an execution starts: \<open>current\<close> is the run's record, the
  threads are \<open>ths\<close> and the journal has grown by \<open>ds\<close>.\<close>

definition midway ::
  "Service \<Rightarrow> Run \<Rightarrow> Run \<Rightarrow> thread_repo \<Rightarrow> RuntimeEventDraft list \<Rightarrow> Service \<Rightarrow> bool" where
  "midway s run current ths ds m \<longleftrightarrow> sv_journal_on m \<and> sv_threads m = ths
     \<and> map_of (sv_runs m) = (map_of (sv_runs s))(rn_key run \<mapsto> current)
     \<and> rn_identity current = rn_identity run
     \<and> grown s (rn_key run) ds m
     \<and> sv_commands m = sv_commands s
     \<and> AList.delete (rn_key run) (sv_active_adapters m) = AList.delete (rn_key run) (sv_active_adapters s)"

lemma midway_start:
  assumes "ready s rp run"
  shows "\<exists>m current. svc_update_run (mark_running run)
      (s \<lparr> sv_active_adapters := AList.update (rn_key run) a (sv_active_adapters s) \<rparr>) = (Inr (), m)
    \<and> midway s run current (sv_threads s) [] m \<and> rn_status current = RUNNING"
proof -
  let ?s = "s \<lparr> sv_active_adapters := AList.update (rn_key run) a (sv_active_adapters s) \<rparr>"
  have "rn_status run = PENDING" using assms by (simp add: ready_def)
  then obtain r where r: "mark_running run (sv_clock ?s (sv_clock_ix ?s)) = Inr r"
    by (simp add: mark_running_def run_change_def terminal_statuses_def)
  have id: "rn_identity r = rn_identity run" "rn_status r = RUNNING"
    using run_ops_identity(1) [OF r] run_ops_status(1) [OF r] by auto
  have "map_of (sv_runs ?s) (rn_key r) = Some run" using readyD(2) [OF assms] id by simp
  from svc_update_run_run [where s = ?s and f = "mark_running run", OF r this] id assms show ?thesis
    by (auto simp: midway_def ready_def map_of_update_fun AList.delete_update_same grown_start)
qed

lemma midway_plain:
  assumes "midway s run current ths ds m" and "list_all plain ds'"
    and "list_all (\<lambda>d. run_key (dr_identity d) = rn_key run) ds'"
  shows "\<exists>m'. execute_drafts run ds' (v, b) m = (Inr (last_value v ds', b), m')
    \<and> midway s run current ths (ds @ ds') m'"
proof -
  have "sv_journal_on m" using assms(1) by (simp add: midway_def)
  from execute_plain [OF this assms(2,3)] obtain m' es where
    m': "execute_drafts run ds' (v, b) m = (Inr (last_value v ds', b), m')" "quiet m m'"
      "list_all2 records ds' es" "log_of m' = (log_of m)(rn_key run := log_of m (rn_key run) @ es)"
    by blast
  with assms(1) have "midway s run current ths (ds @ ds') m'"
    by (auto simp: midway_def quiet_def intro: grown_more)
  with m' show ?thesis by blast
qed

lemma midway_append:
  assumes "midway s run current ths ds m" and "run_key (dr_identity d) = rn_key run"
  shows "\<exists>e m'. svc_append d m = (Inr e, m') \<and> records d e \<and> midway s run current ths (ds @ [d]) m'"
proof -
  have "sv_journal_on m" using assms(1) by (simp add: midway_def)
  from svc_append_run [OF this, of d] obtain e m' where
    m': "svc_append d m = (Inr e, m')" "records d e" "quiet m m'"
      "log_of m' = (log_of m)(rn_key run := log_of m (rn_key run) @ [e])" using assms(2) by auto
  with assms(1) have "midway s run current ths (ds @ [d]) m'"
    using grown_more [of s "rn_key run" ds m "[d]" "[e]" m'] by (simp add: midway_def quiet_def)
  with m' show ?thesis by blast
qed

lemma midway_get:
  "midway s run current ths ds m \<Longrightarrow> on_runs (runs_get (rn_key run)) m = (Inr current, m)"
  by (rule runs_get_run) (simp add: midway_def)

lemma midway_update:
  assumes "midway s run current ths ds m" and "f (sv_clock m (sv_clock_ix m)) = Inr r"
    and "rn_identity r = rn_identity run"
  shows "\<exists>m'. svc_update_run f m = (Inr (), m') \<and> midway s run r ths ds m'"
proof -
  have "map_of (sv_runs m) (rn_key r) = Some current" using assms by (simp add: midway_def)
  from svc_update_run_run [where s = m and f = f, OF assms(2) this] assms(1,3) show ?thesis
    by (auto simp: midway_def map_of_update_fun intro: grown_frame)
qed

text \<open>The \<open>finally\<close> block turns a state midway into an outcome.\<close>

lemma midway_finally:
  assumes "ready s rp run" and "midway s run r ths ds m"
    and "case rn_thread_key run of None \<Rightarrow> ths = sv_threads s
      | Some t \<Rightarrow> \<exists>th. map_of ths = (map_of (sv_threads s))(t \<mapsto> th) \<and> th_key th = t"
  shows "\<exists>s'. execute_finally run rp m = (Inr (), s') \<and> outcome s rp run r ds s'"
proof -
  obtain l where l: "map_of (pq_leases (sv_commands s)) (id_value (rp_lease_id rp)) = Some l"
    using readyD(5) [OF assms(1)] by blast
  let ?m1 = "m \<lparr> sv_active_adapters := AList.delete (rn_key run) (sv_active_adapters m) \<rparr>"
  have ack: "queue_acknowledge rp (sv_commands s) = (Inr (), settled (id_value (rp_lease_id rp)) (sv_commands s))"
    by (rule queue_acknowledge_run [OF readyD(3) [OF assms(1)] l])
  have cmd: "sv_commands m = sv_commands s" using assms(2) by (simp add: midway_def)
  show ?thesis
  proof (cases "rn_thread_key run")
    case None
    with assms(2,3) ack cmd show ?thesis
      by (auto simp: execute_finally_def prog_defs outcome_def midway_def intro: grown_frame)
  next
    case (Some t)
    with assms(3) obtain th where th: "map_of ths = (map_of (sv_threads s))(t \<mapsto> th)" "th_key th = t" by auto
    have tm: "map_of (sv_threads m) t = Some th" using assms(2) th by (simp add: midway_def)
    show ?thesis
    proof (cases "th_status th = T_BUSY")
      case True
      let ?n = "sv_clock m (sv_clock_ix m)"
      have "map_of (AList.update t (mark_idle th ?n) (sv_threads m)) = (map_of (sv_threads s))(t \<mapsto> mark_idle th ?n)"
        using assms(2) th by (simp add: midway_def map_of_update_fun)
      with Some True assms(2) th tm ack cmd show ?thesis
        by (auto simp: execute_finally_def prog_defs outcome_def midway_def threads_defs svc_now_def
            intro: grown_frame)
    next
      case False
      with Some assms(2) th tm ack cmd show ?thesis
        by (auto simp: execute_finally_def prog_defs outcome_def midway_def threads_defs
            intro: grown_frame)
    qed
  qed
qed

lemma ready_threads:
  assumes "ready s rp run"
  shows "case rn_thread_key run of None \<Rightarrow> sv_threads s = sv_threads s
      | Some t \<Rightarrow> \<exists>th. map_of (sv_threads s) = (map_of (sv_threads s))(t \<mapsto> th) \<and> th_key th = t"
proof (cases "rn_thread_key run")
  case (Some t)
  with assms obtain th where "map_of (sv_threads s) t = Some th" by (auto simp: ready_def)
  with keyed_byD [OF readyD(4) [OF assms] this] Some show ?thesis by (auto intro!: exI [of _ th])
qed simp

lemma midway_settle_thread:
  assumes "ready s rp run" and "midway s run r (sv_threads s) ds m"
  shows "\<exists>m' ths. (case rn_thread_key run of None \<Rightarrow> ret ()
      | Some t \<Rightarrow> svc_update_thread t (settle_thread e)) m = (Inr (), m')
    \<and> midway s run r ths ds m'
    \<and> (case rn_thread_key run of None \<Rightarrow> ths = sv_threads s
      | Some t \<Rightarrow> \<exists>th. map_of ths = (map_of (sv_threads s))(t \<mapsto> th) \<and> th_key th = t)"
proof (cases "rn_thread_key run")
  case None
  with assms(2) show ?thesis by (auto simp: ret_def)
next
  case (Some t)
  with assms(1) obtain th where th: "map_of (sv_threads s) t = Some th" by (auto simp: ready_def)
  have "th_key th = t" using keyed_byD [OF readyD(4) [OF assms(1)] th] by simp
  then have key: "th_key (settle_thread e th n) = t" for n by (simp add: settle_thread_def)
  have tm: "map_of (sv_threads m) t = Some th" using assms(2) th by (simp add: midway_def)
  let ?ths = "AList.update t (settle_thread e th (sv_clock m (sv_clock_ix m))) (sv_threads s)"
  have "svc_update_thread t (settle_thread e) m =
      (Inr (), m \<lparr> sv_clock_ix := Suc (sv_clock_ix m), sv_threads := ?ths \<rparr>)"
    using svc_update_thread_run [where f = "settle_thread e", OF tm key] assms(2) by (simp add: midway_def)
  moreover have "midway s run r ?ths ds (m \<lparr> sv_clock_ix := Suc (sv_clock_ix m), sv_threads := ?ths \<rparr>)"
    using assms(2) by (auto simp: midway_def intro: grown_frame)
  moreover have "map_of ?ths = (map_of (sv_threads s))(t \<mapsto> settle_thread e th (sv_clock m (sv_clock_ix m)))"
    by (rule map_of_update_fun)
  ultimately show ?thesis using Some key by auto
qed

lemma execute_receipt_unfold:
  assumes "ready s rp run"
  shows "execute_receipt rp a s = execute_guard run rp
    (thenM (svc_update_run (mark_running run))
       (bindM (execute_drafts run (fst (ad_stream a (rc_request (rp_command rp)))) (JNull, False))
         (execute_end run (snd (ad_stream a (rc_request (rp_command rp)))))))
    (s \<lparr> sv_active_adapters := AList.update (rn_key run) a (sv_active_adapters s) \<rparr>)"
  using assms
  by (simp add: ready_def execute_receipt_def Let_def bindM_def thenM_def zoomM_def runs_get_def modifyM_def)

abbreviation stream_of :: "RunCommandReceipt \<Rightarrow> Adapter \<Rightarrow> RuntimeEventDraft list \<times> exc option" where
  "stream_of rp a \<equiv> ad_stream a (rc_request (rp_command rp))"

definition own_drafts :: "Run \<Rightarrow> RuntimeEventDraft list \<Rightarrow> bool" where
  "own_drafts run ds \<longleftrightarrow> list_all (\<lambda>d. run_key (dr_identity d) = rn_key run) ds"

text \<open>All executions start alike: the run is marked running and the plain drafts are journalled.\<close>

lemma execute_prefix:
  assumes "ready s rp run" and "list_all plain ds" and "own_drafts run ds"
  obtains m current where "midway s run current (sv_threads s) ds m" and "rn_status current = RUNNING"
    and "\<And>ds'. fst (stream_of rp a) = ds @ ds' \<Longrightarrow> execute_receipt rp a s =
      execute_guard run rp (bindM (execute_drafts run ds' (last_value JNull ds, False))
        (execute_end run (snd (stream_of rp a)))) m"
proof -
  from midway_start [OF assms(1), of a] obtain m0 current where
    m0: "svc_update_run (mark_running run)
      (s \<lparr> sv_active_adapters := AList.update (rn_key run) a (sv_active_adapters s) \<rparr>) = (Inr (), m0)"
      "midway s run current (sv_threads s) [] m0" "rn_status current = RUNNING" by blast
  from midway_plain [OF m0(2) assms(2) assms(3) [unfolded own_drafts_def], of JNull False] obtain m where
    m: "execute_drafts run ds (JNull, False) m0 = (Inr (last_value JNull ds, False), m)"
      "midway s run current (sv_threads s) ds m" by auto
  have app: "execute_drafts run (xs @ ys) acc = bindM (execute_drafts run xs acc) (execute_drafts run ys)"
    for xs ys acc
    by (induction xs arbitrary: acc) (auto simp: prog_defs fun_eq_iff split: sum.splits prod.splits)
  show ?thesis
    by (rule that [OF m(2) m0(3)])
      (simp add: execute_receipt_unfold [OF assms(1)] execute_guard_def finallyM_def catchM_def
        thenM_def bindM_def m0(1) app m(1))
qed

theorem execute_exhausted:
  assumes "ready s rp run" and "stream_of rp a = (ds, None)" and "list_all plain ds" and "own_drafts run ds"
  shows "\<exists>s' r. execute_receipt rp a s = (Inr (), s') \<and> outcome s rp run r ds s'
    \<and> rn_status r = SUCCESS \<and> rn_result r = last_value JNull ds"
proof -
  obtain m current where m: "midway s run current (sv_threads s) ds m" "rn_status current = RUNNING"
    "\<And>ds'. fst (stream_of rp a) = ds @ ds' \<Longrightarrow> execute_receipt rp a s =
      execute_guard run rp (bindM (execute_drafts run ds' (last_value JNull ds, False))
        (execute_end run (snd (stream_of rp a)))) m"
    by (rule execute_prefix [OF assms(1,3,4)]) blast
  obtain r where r: "complete current (last_value JNull ds) (sv_clock m (sv_clock_ix m)) = Inr r"
    using m(2) by (simp add: complete_def run_change_def terminal_statuses_def)
  have rr: "rn_status r = SUCCESS" "rn_result r = last_value JNull ds" "rn_identity r = rn_identity run"
    using r m(1,2) run_ops_identity(2) [OF r]
    by (auto simp: complete_def run_change_def terminal_statuses_def midway_def)
  obtain m' where m': "svc_update_run (complete current (last_value JNull ds)) m = (Inr (), m')"
    "midway s run r (sv_threads s) ds m'"
    using midway_update [where f = "complete current (last_value JNull ds)", OF m(1) r rr(3)] by blast
  obtain s' where s': "execute_finally run rp m' = (Inr (), s')" "outcome s rp run r ds s'"
    using midway_finally [OF assms(1) m'(2) ready_threads [OF assms(1)]] by blast
  have "execute_receipt rp a s = (Inr (), s')"
    using m(3) [of "[]"] m' s' midway_get [OF m(1)] assms(2)
    by (simp add: prog_defs execute_end_def execute_guard_def)
  with s' rr show ?thesis by blast
qed

text \<open>A stream whose last event is terminal: the run and its thread take the state of that event before
  the stream ends.\<close>

definition settled_status :: "runtime_event_type \<Rightarrow> run_status" where
  "settled_status ty = (if ty = RUN_COMPLETED then SUCCESS else if ty = RUN_CANCELLED then CANCELLED
     else if ty = RUN_INTERRUPTED then INTERRUPTED else ERROR)"

lemma settle_run_Inr:
  assumes "rn_status current = RUNNING" and "ev_type e = Ev ty"
  shows "\<exists>r. settle_run e v current n = Inr r \<and> rn_status r = settled_status ty
    \<and> rn_identity r = rn_identity current \<and> (ty = RUN_COMPLETED \<longrightarrow> rn_result r = v)"
  using assms
  by (simp add: settle_run_def settled_status_def complete_def cancel_def fail_def interrupted_run_def
      run_change_def terminal_statuses_def)

lemma terminal_prefix:
  assumes "ready s rp run" and "fst (stream_of rp a) = ds @ [d]" and "list_all plain ds"
    and "own_drafts run (ds @ [d])" and "dr_type d = Ev ty" and "ty \<in> set terminal_events"
  obtains m r ths where "midway s run r ths (ds @ [d]) m"
    and "case rn_thread_key run of None \<Rightarrow> ths = sv_threads s
      | Some t \<Rightarrow> \<exists>th. map_of ths = (map_of (sv_threads s))(t \<mapsto> th) \<and> th_key th = t"
    and "rn_status r = settled_status ty" and "ty = RUN_COMPLETED \<longrightarrow> rn_result r = last_value JNull ds"
    and "execute_receipt rp a s =
      execute_guard run rp (execute_end run (snd (stream_of rp a)) (last_value JNull ds, True)) m"
proof -
  have own: "own_drafts run ds" "run_key (dr_identity d) = rn_key run"
    using assms(4) by (simp_all add: own_drafts_def)
  let ?v = "last_value JNull ds"
  obtain m current where m: "midway s run current (sv_threads s) ds m" "rn_status current = RUNNING"
    "\<And>ds'. fst (stream_of rp a) = ds @ ds' \<Longrightarrow> execute_receipt rp a s =
      execute_guard run rp (bindM (execute_drafts run ds' (?v, False))
        (execute_end run (snd (stream_of rp a)))) m"
    by (rule execute_prefix [OF assms(1,3) own(1)]) blast
  obtain e m1 where e: "svc_append d m = (Inr e, m1)" "records d e"
    "midway s run current (sv_threads s) (ds @ [d]) m1"
    using midway_append [OF m(1) own(2)] by blast
  have ty: "ev_type e = Ev ty" using e(2) assms(5) by (simp add: records_def)
  have sv: "\<not> ev_is (ev_type e) STATE_VALUES" using ty assms(6) by (auto simp: terminal_events_def)
  obtain r where r: "settle_run e ?v current (sv_clock m1 (sv_clock_ix m1)) = Inr r"
    "rn_status r = settled_status ty" "rn_identity r = rn_identity current"
    "ty = RUN_COMPLETED \<longrightarrow> rn_result r = ?v"
    using settle_run_Inr [OF m(2) ty] by blast
  have cid: "rn_identity current = rn_identity run" using m(1) by (simp add: midway_def)
  obtain m2 where m2: "svc_update_run (settle_run e ?v current) m1 = (Inr (), m2)"
    "midway s run r (sv_threads s) (ds @ [d]) m2"
    using midway_update [where f = "settle_run e ?v current", OF e(3) r(1)] r(3) cid by auto
  obtain m3 ths where m3: "(case rn_thread_key current of None \<Rightarrow> ret ()
      | Some t \<Rightarrow> svc_update_thread t (settle_thread e)) m2 = (Inr (), m3)"
    "midway s run r ths (ds @ [d]) m3"
    "case rn_thread_key run of None \<Rightarrow> ths = sv_threads s
      | Some t \<Rightarrow> \<exists>th. map_of ths = (map_of (sv_threads s))(t \<mapsto> th) \<and> th_key th = t"
    using midway_settle_thread [OF assms(1) m2(2), of e] unfolding cid by blast
  have "execute_draft run d (?v, False) m = (Inr (?v, True), m3)"
    using e(1) ty sv assms(6) midway_get [OF e(3)] m2(1) m3(1)
    by (simp add: execute_draft_def prog_defs Let_def)
  then have "execute_receipt rp a s =
      execute_guard run rp (execute_end run (snd (stream_of rp a)) (?v, True)) m3"
    using m(3) [OF assms(2)] by (simp add: prog_defs execute_guard_def)
  with that [OF m3(2,3) r(2,4)] show ?thesis by blast
qed

theorem execute_terminal:
  assumes "ready s rp run" and "stream_of rp a = (ds @ [d], None)" and "list_all plain ds"
    and "own_drafts run (ds @ [d])" and "dr_type d = Ev ty" and "ty \<in> set terminal_events"
  shows "\<exists>s' r. execute_receipt rp a s = (Inr (), s') \<and> outcome s rp run r (ds @ [d]) s'
    \<and> rn_status r = settled_status ty \<and> (ty = RUN_COMPLETED \<longrightarrow> rn_result r = last_value JNull ds)"
proof -
  have "fst (stream_of rp a) = ds @ [d]" using assms(2) by simp
  from terminal_prefix [OF assms(1) this assms(3-6)] obtain m r ths where
    m: "midway s run r ths (ds @ [d]) m" "case rn_thread_key run of None \<Rightarrow> ths = sv_threads s
      | Some t \<Rightarrow> \<exists>th. map_of ths = (map_of (sv_threads s))(t \<mapsto> th) \<and> th_key th = t"
    "rn_status r = settled_status ty" "ty = RUN_COMPLETED \<longrightarrow> rn_result r = last_value JNull ds"
    "execute_receipt rp a s =
      execute_guard run rp (execute_end run (snd (stream_of rp a)) (last_value JNull ds, True)) m" by blast
  obtain s' where s': "execute_finally run rp m = (Inr (), s')" "outcome s rp run r (ds @ [d]) s'"
    using midway_finally [OF assms(1) m(1,2)] by blast
  have "execute_receipt rp a s = (Inr (), s')"
    using m(5) s' assms(2) by (simp add: prog_defs execute_end_def execute_guard_def)
  with s' m show ?thesis by blast
qed

text \<open>A stream that announces its failure or cancellation and then raises: the run is settled once, no
  second event follows, and only a failure goes on to the caller.\<close>

theorem execute_terminal_raises:
  assumes "ready s rp run" and "stream_of rp a = (ds @ [d], Some e)" and "list_all plain ds"
    and "own_drafts run (ds @ [d])" and "dr_type d = Ev ty" and "ty \<in> set terminal_events"
    and "if is_exception e then ty = RUN_FAILED else ty = RUN_CANCELLED"
  shows "\<exists>s' r. execute_receipt rp a s = (if is_exception e then Inl e else Inr (), s')
    \<and> outcome s rp run r (ds @ [d]) s' \<and> rn_status r = settled_status ty"
proof -
  have "fst (stream_of rp a) = ds @ [d]" using assms(2) by simp
  from terminal_prefix [OF assms(1) this assms(3-6)] obtain m r ths where
    m: "midway s run r ths (ds @ [d]) m" "case rn_thread_key run of None \<Rightarrow> ths = sv_threads s
      | Some t \<Rightarrow> \<exists>th. map_of ths = (map_of (sv_threads s))(t \<mapsto> th) \<and> th_key th = t"
    "rn_status r = settled_status ty"
    "execute_receipt rp a s =
      execute_guard run rp (execute_end run (snd (stream_of rp a)) (last_value JNull ds, True)) m" by blast
  obtain s' where s': "execute_finally run rp m = (Inr (), s')" "outcome s rp run r (ds @ [d]) s'"
    using midway_finally [OF assms(1) m(1,2)] by blast
  have "execute_except run (rc_request (rp_command rp)) e m = (if is_exception e then Inl e else Inr (), m)"
    using midway_get [OF m(1)] m(3) assms(7)
    by (auto simp: execute_except_def prog_defs settled_status_def terminal_statuses_def is_exception_def)
  then have "execute_receipt rp a s = (if is_exception e then Inl e else Inr (), s')"
    using m(4) s' assms(2) by (simp add: prog_defs execute_end_def execute_guard_def)
  with s' m show ?thesis by blast
qed

text \<open>A stream that raises: the failure is journalled and recorded, and the exception goes on.\<close>

theorem execute_raises:
  assumes "ready s rp run" and "stream_of rp a = (ds, Some e)" and "list_all plain ds"
    and "own_drafts run ds" and "is_exception e"
  shows "\<exists>s' r. execute_receipt rp a s = (Inl e, s')
    \<and> outcome s rp run r (ds @ [make_draft (rq_identity (rc_request (rp_command rp))) RUN_FAILED
         (JObj [(''error'', JStr (exc_str e))])]) s'
    \<and> rn_status r = ERROR \<and> rn_error r = Some (framework_failure (exc_str e))"
proof -
  obtain m current where m: "midway s run current (sv_threads s) ds m" "rn_status current = RUNNING"
    "\<And>ds'. fst (stream_of rp a) = ds @ ds' \<Longrightarrow> execute_receipt rp a s =
      execute_guard run rp (bindM (execute_drafts run ds' (last_value JNull ds, False))
        (execute_end run (snd (stream_of rp a)))) m"
    by (rule execute_prefix [OF assms(1,3,4)]) blast
  let ?d = "make_draft (rq_identity (rc_request (rp_command rp))) RUN_FAILED (JObj [(''error'', JStr (exc_str e))])"
  have "run_key (dr_identity ?d) = rn_key run" using readyD(1) [OF assms(1)] by (simp add: make_draft_def)
  from midway_append [OF m(1) this] obtain ev m1 where m1: "svc_append ?d m = (Inr ev, m1)"
    "midway s run current (sv_threads s) (ds @ [?d]) m1" by blast
  let ?f = "fail current (framework_failure (exc_str e))"
  obtain r where r: "?f (sv_clock m1 (sv_clock_ix m1)) = Inr r"
    using m(2) by (simp add: fail_def run_change_def terminal_statuses_def)
  have rr: "rn_status r = ERROR" "rn_error r = Some (framework_failure (exc_str e))"
    "rn_identity r = rn_identity run"
    using r m(1,2) run_ops_identity(3) [OF r]
    by (auto simp: fail_def run_change_def terminal_statuses_def midway_def)
  obtain m2 where m2: "svc_update_run ?f m1 = (Inr (), m2)" "midway s run r (sv_threads s) (ds @ [?d]) m2"
    using midway_update [where f = ?f, OF m1(2) r rr(3)] by blast
  obtain s' where s': "execute_finally run rp m2 = (Inr (), s')" "outcome s rp run r (ds @ [?d]) s'"
    using midway_finally [OF assms(1) m2(2) ready_threads [OF assms(1)]] by blast
  have "execute_receipt rp a s = (Inl e, s')"
    using m(3) [of "[]"] m m1 m2 s' midway_get [OF m(1)] assms(2,5)
    by (simp add: prog_defs execute_end_def execute_guard_def execute_except_def is_exception_def
        terminal_statuses_def)
  with s' rr show ?thesis by blast
qed

text \<open>A stream that is cancelled: the run is cancelled and the cancellation is not passed on.\<close>

theorem execute_cancelled:
  assumes "ready s rp run" and "stream_of rp a = (ds, Some CancelledError)" and "list_all plain ds"
    and "own_drafts run ds"
  shows "\<exists>s' r. execute_receipt rp a s = (Inr (), s')
    \<and> outcome s rp run r (ds @ [make_draft (rq_identity (rc_request (rp_command rp))) RUN_CANCELLED JNull]) s'
    \<and> rn_status r = CANCELLED"
proof -
  obtain m current where m: "midway s run current (sv_threads s) ds m" "rn_status current = RUNNING"
    "\<And>ds'. fst (stream_of rp a) = ds @ ds' \<Longrightarrow> execute_receipt rp a s =
      execute_guard run rp (bindM (execute_drafts run ds' (last_value JNull ds, False))
        (execute_end run (snd (stream_of rp a)))) m"
    by (rule execute_prefix [OF assms(1,3,4)]) blast
  let ?d = "make_draft (rq_identity (rc_request (rp_command rp))) RUN_CANCELLED JNull"
  have "run_key (dr_identity ?d) = rn_key run" using readyD(1) [OF assms(1)] by (simp add: make_draft_def)
  from midway_append [OF m(1) this] obtain ev m1 where m1: "svc_append ?d m = (Inr ev, m1)"
    "midway s run current (sv_threads s) (ds @ [?d]) m1" by blast
  obtain r where r: "cancel current (sv_clock m1 (sv_clock_ix m1)) = Inr r"
    using m(2) by (simp add: cancel_def run_change_def terminal_statuses_def)
  have rr: "rn_status r = CANCELLED" "rn_identity r = rn_identity run"
    using m(1) run_ops_identity(4) [OF r] run_ops_status(4) [OF r] by (auto simp: midway_def)
  obtain m2 where m2: "svc_update_run (cancel current) m1 = (Inr (), m2)"
    "midway s run r (sv_threads s) (ds @ [?d]) m2"
    using midway_update [where f = "cancel current", OF m1(2) r rr(2)] by blast
  obtain s' where s': "execute_finally run rp m2 = (Inr (), s')" "outcome s rp run r (ds @ [?d]) s'"
    using midway_finally [OF assms(1) m2(2) ready_threads [OF assms(1)]] by blast
  have "execute_receipt rp a s = (Inr (), s')"
    using m(3) [of "[]"] m m1 m2 s' midway_get [OF m(1)] assms(2)
    by (simp add: prog_defs execute_end_def execute_guard_def execute_except_def)
  with s' rr show ?thesis by blast
qed

end
