(* ===== verification/Runtime_Steps.thy ===== *)
theory Runtime_Steps
  imports Runtime_Execution
begin

section \<open>Interleavings of the local runtime\<close>

text \<open>
  The worker executes one command at a time and waits for the adapter between two drafts; meanwhile
  requests are served.  A state is the service and the execution in flight, if there is one; the
  relation \<open>svc_step\<close> has one rule per atomic section of the code.  The theory shows which invariants
  hold in every reachable state and that a terminal status is final.
\<close>

record Flight =
  fl_run :: Run
  fl_receipt :: RunCommandReceipt
  fl_acc :: "json \<times> bool"

type_synonym sys = "Service \<times> Flight option"

text \<open>The first section of \<open>_execute_receipt\<close>, up to the first draft.\<close>

definition begin_execution :: "RunCommandReceipt \<Rightarrow> Adapter \<Rightarrow> Service \<Rightarrow> sys" where
  "begin_execution rp a s =
     (case on_runs (runs_get (rp_run_key rp)) s of
        (Inl e, s1) \<Rightarrow> (s1, None)
      | (Inr run, s1) \<Rightarrow>
          if rn_status run \<noteq> PENDING then (snd (on_commands (queue_acknowledge rp) s1), None)
          else let s2 = s1 \<lparr> sv_active_adapters := AList.update (rn_key run) a (sv_active_adapters s1) \<rparr>
               in case svc_update_run (mark_running run) s2 of
                    (Inr _, s3) \<Rightarrow> (s3, Some \<lparr> fl_run = run, fl_receipt = rp, fl_acc = (JNull, False) \<rparr>)
                  | (Inl e, s3) \<Rightarrow> (snd (execute_guard run rp (raise e) s3), None))"

text \<open>One draft arrives: the loop body runs; if it raises, the handlers run and the execution ends.\<close>

definition draft_arrives :: "RuntimeEventDraft \<Rightarrow> Flight \<Rightarrow> Service \<Rightarrow> sys" where
  "draft_arrives d f s =
     (case execute_draft (fl_run f) d (fl_acc f) s of
        (Inr acc, s1) \<Rightarrow> (s1, Some (f \<lparr> fl_acc := acc \<rparr>))
      | (Inl e, s1) \<Rightarrow> (snd (execute_guard (fl_run f) (fl_receipt f) (raise e) s1), None))"

definition stream_ends :: "exc option \<Rightarrow> Flight \<Rightarrow> Service \<Rightarrow> sys" where
  "stream_ends x f s =
     (snd (execute_guard (fl_run f) (fl_receipt f) (execute_end (fl_run f) x (fl_acc f)) s), None)"

inductive svc_step :: "(RuntimeEventDraft \<Rightarrow> bool) \<Rightarrow> sys \<Rightarrow> sys \<Rightarrow> bool" for allowed where
  thread_created: "svc_step allowed (s, f) (snd (create_thread t md s), f)"
| run_started: "svc_step allowed (s, f) (snd (start_run b rq s), f)"
| run_cancelled: "svc_step allowed (s, f) (snd (cancel_run k s), f)"
| run_resumed: "svc_step allowed (s, f) (snd (resume_run rq s), f)"
| adapter_registered: "svc_step allowed (s, f) (s \<lparr> sv_adapters := AList.update k a (sv_adapters s) \<rparr>, f)"
| received: "svc_receive s = (Inr (Some (Some rp)), s') \<Longrightarrow>
    map_of (sv_adapters s') (id_value (assistant_id (rp_identity rp))) = Some a \<Longrightarrow>
    svc_step allowed (s, None) (begin_execution rp a s')"
| drafted: "allowed d \<Longrightarrow> svc_step allowed (s, Some f) (draft_arrives d f s)"
| ended: "svc_step allowed (s, Some f) (stream_ends x f s)"

text \<open>Run to its end without interruption, the sections are \<^const>\<open>execute_receipt\<close>.\<close>

fun run_flight :: "RuntimeEventDraft list \<Rightarrow> exc option \<Rightarrow> sys \<Rightarrow> sys" where
  "run_flight ds x (s, None) = (s, None)"
| "run_flight [] x (s, Some f) = stream_ends x f s"
| "run_flight (d # ds) x (s, Some f) = run_flight ds x (draft_arrives d f s)"

lemma guard_raise:
  "m s = (Inl e, s1) \<Longrightarrow> execute_guard run rp m s = execute_guard run rp (raise e) s1"
  by (simp add: execute_guard_def finallyM_def catchM_def raise_def)

lemma run_flight_drafts:
  "fst (run_flight ds x (s, Some \<lparr> fl_run = run, fl_receipt = rp, fl_acc = acc \<rparr>)) =
     snd (execute_guard run rp (bindM (execute_drafts run ds acc) (execute_end run x)) s)"
proof (induction ds arbitrary: acc s)
  case Nil
  then show ?case
    by (simp add: stream_ends_def execute_guard_def finallyM_def catchM_def bindM_def ret_def)
next
  case (Cons d ds)
  show ?case
  proof (cases "execute_draft run d acc s")
    case (Pair r s1)
    show ?thesis
    proof (cases r)
      case (Inl e)
      with Pair have "bindM (execute_drafts run (d # ds) acc) (execute_end run x) s = (Inl e, s1)"
        by (simp add: bindM_def)
      from guard_raise [where m = "bindM (execute_drafts run (d # ds) acc) (execute_end run x)", OF this]
      show ?thesis using Inl Pair by (simp add: draft_arrives_def)
    next
      case (Inr acc')
      then have "execute_guard run rp (bindM (execute_drafts run (d # ds) acc) (execute_end run x)) s =
          execute_guard run rp (bindM (execute_drafts run ds acc') (execute_end run x)) s1"
        using Pair by (simp add: execute_guard_def finallyM_def catchM_def bindM_def)
      with Cons [where acc = acc' and s = s1] Inr Pair show ?thesis by (simp add: draft_arrives_def)
    qed
  qed
qed

lemma run_flight_None [simp]: "run_flight ds x (s, None) = (s, None)"
  by simp

theorem flight_is_execute_receipt:
  "fst (run_flight (fst (stream_of rp a)) (snd (stream_of rp a)) (begin_execution rp a s)) =
     snd (execute_receipt rp a s)"
proof -
  obtain r s1 where g: "on_runs (runs_get (rp_run_key rp)) s = (r, s1)" by fastforce
  show ?thesis
  proof (cases r)
    case (Inl e)
    with g show ?thesis by (simp add: begin_execution_def execute_receipt_def Let_def bindM_def)
  next
    case (Inr run)
    show ?thesis
    proof (cases "rn_status run = PENDING")
      case False
      with g Inr show ?thesis
        by (simp add: begin_execution_def execute_receipt_def Let_def bindM_def)
    next
      case True
      let ?s2 = "s1 \<lparr> sv_active_adapters := AList.update (rn_key run) a (sv_active_adapters s1) \<rparr>"
      let ?rest = "bindM (execute_drafts run (fst (stream_of rp a)) (JNull, False))
          (execute_end run (snd (stream_of rp a)))"
      have exe: "execute_receipt rp a s =
          execute_guard run rp (thenM (svc_update_run (mark_running run)) ?rest) ?s2"
        using g Inr True by (simp add: execute_receipt_def Let_def bindM_def thenM_def modifyM_def)
      obtain r2 s3 where u: "svc_update_run (mark_running run) ?s2 = (r2, s3)" by fastforce
      show ?thesis
      proof (cases r2)
        case (Inl e)
        then have "thenM (svc_update_run (mark_running run)) ?rest ?s2 = (Inl e, s3)"
          using u by (simp add: thenM_def bindM_def)
        from guard_raise [where m = "thenM (svc_update_run (mark_running run)) ?rest", OF this]
        show ?thesis using exe g Inr True u Inl by (simp add: begin_execution_def Let_def)
      next
        case (Inr w)
        then have "execute_guard run rp (thenM (svc_update_run (mark_running run)) ?rest) ?s2 =
            execute_guard run rp ?rest s3"
          using u by (simp add: execute_guard_def finallyM_def catchM_def thenM_def bindM_def)
        with exe g \<open>r = Inr run\<close> True u Inr run_flight_drafts show ?thesis
          by (simp add: begin_execution_def Let_def)
      qed
    qed
  qed
qed

subsection \<open>Invariants of every reachable state\<close>

text \<open>A property that all atomic sections keep holds along every step.\<close>

lemma svc_step_preserves:
  assumes "svc_step allowed (s, f) (s', f')" and "I s"
    and "\<And>t md. preserves I (create_thread t md)" and "\<And>b rq. preserves I (start_run b rq)"
    and "\<And>k. preserves I (cancel_run k)" and "\<And>rq. preserves I (resume_run rq)"
    and "\<And>s g. I s \<Longrightarrow> I (s \<lparr> sv_adapters := g \<rparr>)"
    and "preserves I svc_receive" and "\<And>rp a s. I s \<Longrightarrow> I (fst (begin_execution rp a s))"
    and "\<And>d fl s. allowed d \<Longrightarrow> I s \<Longrightarrow> I (fst (draft_arrives d fl s))"
    and "\<And>x fl s. I s \<Longrightarrow> I (fst (stream_ends x fl s))"
  shows "I s'"
  using assms(1)
proof (cases rule: svc_step.cases)
  case (received rp s'' a)
  with assms(2,8) have "I s''" using preserves_state by fastforce
  with assms(9) received show ?thesis by (metis fst_conv)
next
  case (drafted d fl)
  with assms(2,10) show ?thesis by (metis fst_conv)
next
  case (ended fl x)
  with assms(2,11) show ?thesis by (metis fst_conv)
qed (use assms(2-7) in \<open>auto simp: preserves_iff\<close>)

lemma guard_preserves:
  assumes "preserves I m" and "\<And>e. preserves I (execute_except run rq e)" and "preserves I (execute_finally run rp)"
    and "rq = rc_request (rp_command rp)"
  shows "preserves I (execute_guard run rp m)"
  using assms by (simp add: execute_guard_def preserves_finally preserves_catch)

lemma svc_wf_begin: "svc_wf s \<Longrightarrow> svc_wf (fst (begin_execution rp a s))"
proof -
  assume s: "svc_wf s"
  obtain r s1 where g: "on_runs (runs_get (rp_run_key rp)) s = (r, s1)" by fastforce
  then have s1: "svc_wf s1" using preserves_state [OF svc_wf_stores(4) s] by (metis snd_conv)
  have s2: "svc_wf (s1 \<lparr> sv_active_adapters := x \<rparr>)" for x
    using s1 by (simp add: svc_wf_def ids_ok_def)
  have g1: "preserves svc_wf (execute_guard run rp (raise e))" for run e
    by (intro guard_preserves [OF _ _ _ refl] svc_wf_execute_parts preserves_raise)
  show ?thesis
  proof (cases r)
    case (Inr run)
    obtain r2 s3 where u: "svc_update_run (mark_running run)
        (s1 \<lparr> sv_active_adapters := AList.update (rn_key run) a (sv_active_adapters s1) \<rparr>) = (r2, s3)" by fastforce
    then have "svc_wf s3" using preserves_state [OF svc_wf_updates(1) s2] by (metis snd_conv)
    with g Inr u preserves_state [OF g1] preserves_state [OF svc_wf_ack s1] show ?thesis
      by (simp add: begin_execution_def Let_def split: sum.splits)
  qed (use g s1 in \<open>simp add: begin_execution_def\<close>)
qed

lemma svc_wf_draft: "svc_wf s \<Longrightarrow> svc_wf (fst (draft_arrives d f s))"
proof -
  assume s: "svc_wf s"
  obtain r s1 where x: "execute_draft (fl_run f) d (fl_acc f) s = (r, s1)" by fastforce
  then have "svc_wf s1" using preserves_state [OF svc_wf_execute_draft s] by (metis snd_conv)
  moreover have "preserves svc_wf (execute_guard run rp (raise e))" for run rp e
    by (intro guard_preserves [OF _ _ _ refl] svc_wf_execute_parts preserves_raise)
  ultimately show ?thesis using x preserves_state
    by (fastforce simp: draft_arrives_def split: sum.splits)
qed

lemma svc_wf_ends: "svc_wf s \<Longrightarrow> svc_wf (fst (stream_ends x f s))"
  unfolding stream_ends_def fst_conv
  by (rule preserves_state, intro guard_preserves [OF _ _ _ refl] svc_wf_execute_parts)

lemma svc_wf_adapters [simp]: "svc_wf (s \<lparr> sv_adapters := g \<rparr>) = svc_wf s"
  by (simp add: svc_wf_def ids_ok_def)

lemma svc_step_wf:
  assumes "svc_step allowed (s, f) (s', f')" and "svc_wf s"
  shows "svc_wf s'"
  by (rule svc_step_preserves [where I = svc_wf, OF assms])
    (simp_all add: svc_wf_create_thread svc_wf_start_run svc_wf_cancel_run svc_wf_resume_run
      svc_wf_receive svc_wf_begin svc_wf_draft svc_wf_ends)

subsection \<open>A terminal status is final\<close>

definition fixed :: "string \<Rightarrow> run_status \<Rightarrow> run_repo \<Rightarrow> bool" where
  "fixed k st d \<longleftrightarrow> keyed_by rn_key d \<and> map_option rn_status (map_of d k) = Some st"

lemma fixed_update:
  assumes "rn_key r = k \<Longrightarrow> rn_status r = st"
  shows "preserves (fixed k st) (runs_update r)"
  using assms by (intro preservesI) (auto simp: fixed_def runs_update_def keyed_by_update map_of_update_fun)

lemma fixed_create: "preserves (fixed k st) (runs_create r)"
  by (rule preservesI)
    (auto simp: fixed_def runs_create_def keyed_by_update map_of_update_fun split: option.splits)

lemma run_change_terminal:
  "complete r v n = Inr r' \<Longrightarrow> is_terminal (rn_status r) \<Longrightarrow> rn_status r' = rn_status r"
  "fail r er n = Inr r' \<Longrightarrow> is_terminal (rn_status r) \<Longrightarrow> rn_status r' = rn_status r"
  "cancel r n = Inr r' \<Longrightarrow> is_terminal (rn_status r) \<Longrightarrow> rn_status r' = rn_status r"
  "mark_running r n = Inr r' \<Longrightarrow> is_terminal (rn_status r) \<Longrightarrow> rn_status r' = rn_status r"
  by (auto simp: run_ops run_change_def split: if_splits)

text \<open>An update of the record that was just read keeps a terminal status.\<close>

definition read_ok :: "string \<Rightarrow> run_status \<Rightarrow> string \<Rightarrow> Run \<Rightarrow> bool" where
  "read_ok k st key r \<longleftrightarrow> rn_key r = key \<and> (key = k \<longrightarrow> rn_status r = st)"

lemma fixed_get:
  assumes "\<And>r. read_ok k st key r \<Longrightarrow> preserves (runs_only (fixed k st)) (m r)"
  shows "preserves (runs_only (fixed k st)) (bindM (on_runs (runs_get key)) m)"
  using assms
  by (rule preserves_bind_get [where Q = "read_ok k st key", rotated])
    (auto simp: fixed_def read_ok_def dest: keyed_byD)

lemma fixed_update_run:
  assumes "read_ok k st key old" and "is_terminal st"
    and "\<And>n r. f n = Inr r \<Longrightarrow> rn_identity r = rn_identity old"
    and "\<And>n r. f n = Inr r \<Longrightarrow> is_terminal (rn_status old) \<Longrightarrow> rn_status r = rn_status old"
  shows "preserves (runs_only (fixed k st)) (svc_update_run f)"
  using assms by (intro update_run_preserves fixed_update) (auto simp: read_ok_def)

lemma fixed_run_ops:
  assumes "read_ok k st key r" and "is_terminal st"
  shows "preserves (runs_only (fixed k st)) (svc_update_run (complete r v))"
    and "preserves (runs_only (fixed k st)) (svc_update_run (fail r er))"
    and "preserves (runs_only (fixed k st)) (svc_update_run (cancel r))"
    and "preserves (runs_only (fixed k st)) (svc_update_run (mark_running r))"
  by (rule fixed_update_run [OF assms], erule run_ops_identity, erule (1) run_change_terminal)+

lemma settle_run_terminal:
  assumes "settle_run e v r n = Inr r'" and "is_terminal (rn_status r)" and "\<not> ev_is (ev_type e) RUN_INTERRUPTED"
  shows "rn_status r' = rn_status r"
proof -
  from assms(1,3) consider "complete r v n = Inr r'" | "cancel r n = Inr r'"
    | "fail r (framework_failure (py_str (ev_data e))) n = Inr r'"
    unfolding settle_run_def by metis
  then show ?thesis using assms(2) by cases (auto dest: run_change_terminal)
qed

lemma fixed_settle:
  assumes "read_ok k st key r" and "is_terminal st" and "\<not> ev_is (ev_type e) RUN_INTERRUPTED"
  shows "preserves (runs_only (fixed k st)) (svc_update_run (settle_run e v r))"
  by (rule fixed_update_run [OF assms(1,2)])
    (erule settle_run_identity, erule (1) settle_run_terminal [OF _ _ assms(3)])

text \<open>The sections of an execution keep the status of every other run, and of this run once it is
  terminal, unless the adapter reports an interrupt.\<close>

lemma svc_append_type: "hoare P (svc_append d) (\<lambda>e _. ev_type e = dr_type d) (\<lambda>_ _. True)"
proof (rule hoareI)
  fix s e s' assume "svc_append d s = (Inr e, s')"
  then show "ev_type e = dr_type d"
    by (cases "sv_journal_on s")
      (auto simp: svc_append_def prog_defs svc_new_id_def svc_now_def journal_append_def Let_def make_event_def)
qed simp

lemma preserves_bind_append:
  assumes "preserves I (svc_append d)" and "\<And>e. ev_type e = dr_type d \<Longrightarrow> preserves I (m e)"
  shows "preserves I (bindM (svc_append d) m)"
proof (rule preservesI)
  fix s assume s: "I s"
  obtain r s1 where r: "svc_append d s = (r, s1)" by fastforce
  then have s1: "I s1" using preserves_state [OF assms(1) s] by (metis snd_conv)
  show "I (snd (bindM (svc_append d) m s))"
  proof (cases r)
    case (Inl e)
    with r s1 show ?thesis by (simp add: bindM_def)
  next
    case (Inr e)
    with r hoareD_Inr [OF svc_append_type [of "\<lambda>_. True"]] have "ev_type e = dr_type d" by blast
    from preserves_state [OF assms(2) [OF this] s1] Inr r show ?thesis by (simp add: bindM_def)
  qed
qed

lemma fixed_draft:
  assumes "is_terminal st" and "\<not> ev_is (dr_type d) RUN_INTERRUPTED"
  shows "preserves (runs_only (fixed k st)) (execute_draft run d acc)"
  unfolding execute_draft_def Let_def
proof (intro preserves_bind_append runs_frame_append hoare_if fixed_get preserves_then preserves_ret, goal_cases)
  case (1 e r)
  with assms show ?case by (intro fixed_settle) auto
qed (auto intro!: hoare_intros split: option.splits)

lemma fixed_except: "is_terminal st \<Longrightarrow> preserves (runs_only (fixed k st)) (execute_except run rq e)"
  unfolding execute_except_def
  by (intro fixed_get hoare_if preserves_when preserves_then preserves_raise
      preserves_bind [OF runs_frame_append(1)] fixed_run_ops)

lemma fixed_end: "is_terminal st \<Longrightarrow> preserves (runs_only (fixed k st)) (execute_end run x acc)"
  by (auto simp: execute_end_def intro!: preserves_raise preserves_when fixed_get fixed_run_ops
      split: option.splits)

lemma fixed_guard:
  assumes "is_terminal st" and "preserves (runs_only (fixed k st)) m"
  shows "preserves (runs_only (fixed k st)) (execute_guard run rp m)"
  using assms by (intro guard_preserves [OF _ _ _ refl] fixed_except reserved_finally)

lemma preserves_bind_create:
  assumes "preserves P (runs_create r)" and "\<And>d. P d \<Longrightarrow> map_of d (rn_key r) = None \<Longrightarrow> Q"
    and "Q \<Longrightarrow> preserves (runs_only P) (m r)"
  shows "preserves (runs_only P) (bindM (on_runs (runs_create r)) m)"
proof (rule preservesI)
  fix s assume s: "runs_only P s"
  obtain x d where x: "runs_create r (sv_runs s) = (x, d)" by fastforce
  then have d: "P d" using preserves_state [OF assms(1)] s by (metis runs_only_def snd_conv)
  show "runs_only P (snd (bindM (on_runs (runs_create r)) m s))"
  proof (cases x)
    case (Inl e)
    with x d show ?thesis by (simp add: prog_defs runs_only_def)
  next
    case (Inr r')
    with x have "map_of (sv_runs s) (rn_key r) = None" "r' = r"
      by (auto simp: runs_create_def split: if_splits option.splits)
    with s have Q "r' = r" using assms(2) by (auto simp: runs_only_def)
    moreover have "runs_only P (s \<lparr> sv_runs := d \<rparr>)" using d by (simp add: runs_only_def)
    ultimately show ?thesis
      using preserves_state [OF assms(3), of "s \<lparr> sv_runs := d \<rparr>"] x Inr by (simp add: prog_defs)
  qed
qed

lemma fixed_start_run: "is_terminal st \<Longrightarrow> preserves (runs_only (fixed k st)) (start_run b rq)"
  unfolding start_run_def
proof (intro preserves_bind [OF runs_frame(1)] preserves_then [OF runs_frame_append(4)], goal_cases)
  case (1 now)
  let ?r = "new_run rq now"
  show ?case
  proof (rule preserves_bind_create [where Q = "rn_key ?r \<noteq> k", OF fixed_create])
    show "fixed k st d \<Longrightarrow> map_of d (rn_key ?r) = None \<Longrightarrow> rn_key ?r \<noteq> k" for d
      by (auto simp: fixed_def)
    assume "rn_key ?r \<noteq> k"
    then have "read_ok k st (rn_key ?r) ?r" by (simp add: read_ok_def)
    with 1 have "preserves (runs_only (fixed k st)) (svc_update_run (fail ?r e))" for e
      by (intro fixed_run_ops)
    then show "preserves (runs_only (fixed k st)) (thenM (catchM (hand_over b rq now)
        (\<lambda>e. if is_exception e then thenM (start_failed rq ?r) (raise e) else raise e)) (ret ?r))"
      by (auto simp: start_failed_def intro!: hoare_intros split: option.splits)
  qed
qed

lemma fixed_cancel_run: "is_terminal st \<Longrightarrow> preserves (runs_only (fixed k st)) (cancel_run key)"
  unfolding cancel_run_def
proof (intro fixed_get hoare_if preserves_bind [OF preserves_gets]
    preserves_then [OF _ preserves_bind [OF runs_frame(1)]] preserves_bind_liftE preserves_then
    preserves_bind [OF runs_zoom], goal_cases)
  case (3 r a n r')
  then have "rn_identity r' = rn_identity r" by (intro run_ops_identity)
  with 3 show ?case by (intro fixed_update) (auto simp: read_ok_def)
qed (auto intro!: hoare_intros split: option.splits)

lemma fixed_other:
  "preserves (runs_only (fixed k st)) (resume_run rq)"
  "preserves (runs_only (fixed k st)) (create_thread t md)"
  "preserves (runs_only (fixed k st)) svc_receive"
  by (auto simp: resume_run_def create_thread_def svc_receive_def intro!: hoare_intros
      split: option.splits exc.splits)

lemma fixed_ends: "is_terminal st \<Longrightarrow> runs_only (fixed k st) s \<Longrightarrow> runs_only (fixed k st) (fst (stream_ends x f s))"
  unfolding stream_ends_def fst_conv by (rule preserves_state) (intro fixed_guard fixed_end)

lemma fixed_arrives:
  assumes "is_terminal st" and "\<not> ev_is (dr_type d) RUN_INTERRUPTED" and "runs_only (fixed k st) s"
  shows "runs_only (fixed k st) (fst (draft_arrives d f s))"
proof -
  obtain r s1 where x: "execute_draft (fl_run f) d (fl_acc f) s = (r, s1)" by fastforce
  then have s1: "runs_only (fixed k st) s1"
    using preserves_state [OF fixed_draft [OF assms(1,2)] assms(3)] by (metis snd_conv)
  from preserves_state [OF fixed_guard [OF assms(1) preserves_raise] s1] s1 x show ?thesis
    by (simp add: draft_arrives_def split: sum.splits)
qed

lemma fixed_begin:
  assumes "is_terminal st" and "runs_only (fixed k st) s"
  shows "runs_only (fixed k st) (fst (begin_execution rp a s))"
proof -
  let ?k = "rp_run_key rp"
  show ?thesis
  proof (cases "map_of (sv_runs s) ?k")
    case None
    with assms(2) show ?thesis by (simp add: begin_execution_def zoomM_def runs_get_def)
  next
    case (Some run)
    then have read: "read_ok k st ?k run"
      using assms(2) by (auto simp: runs_only_def fixed_def read_ok_def dest: keyed_byD)
    let ?s = "s \<lparr> sv_active_adapters := AList.update (rn_key run) a (sv_active_adapters s) \<rparr>"
    obtain r s1 where u: "svc_update_run (mark_running run) ?s = (r, s1)" by fastforce
    have "runs_only (fixed k st) ?s" using assms(2) by (simp add: runs_only_def)
    from preserves_state [OF fixed_run_ops(4) [OF read assms(1)] this] u
    have s1: "runs_only (fixed k st) s1" by simp
    from preserves_state [OF fixed_guard [OF assms(1) preserves_raise] s1]
      preserves_state [OF runs_frame(4) assms(2)] s1 u Some show ?thesis
      by (auto simp: begin_execution_def runs_get_run Let_def split: sum.splits)
  qed
qed

lemma svc_step_fixed:
  assumes "svc_step allowed (s, f) (s', f')" and "runs_only (fixed k st) s" and "is_terminal st"
    and "\<And>d. allowed d \<Longrightarrow> \<not> ev_is (dr_type d) RUN_INTERRUPTED"
  shows "runs_only (fixed k st) s'"
proof (rule svc_step_preserves [where I = "runs_only (fixed k st)", OF assms(1,2)], goal_cases)
  case 5
  then show ?case by (simp add: runs_only_def)
qed (use assms(3,4) in \<open>simp_all add: fixed_other fixed_start_run fixed_cancel_run fixed_begin
    fixed_arrives fixed_ends\<close>)

subsection \<open>One active run per thread, in every interleaving without interrupts\<close>

abbreviation runs_ok :: "Service \<Rightarrow> bool" where
  "runs_ok \<equiv> runs_only runs_inv"

lemma runs_ok_conj:
  assumes "preserves (runs_only (keyed_by rn_key)) m" and "preserves (runs_only one_active) m"
  shows "preserves runs_ok m"
  using assms unfolding preserves_iff runs_only_def by blast

lemma keyed_updates:
  "preserves (runs_only (keyed_by rn_key)) (svc_update_run f)"
  "preserves (runs_only (keyed_by rn_key)) (start_run b rq)"
  "preserves (runs_only (keyed_by rn_key)) (cancel_run k)"
  "preserves (runs_only (keyed_by rn_key)) (execute_draft run d acc)"
  "preserves (runs_only (keyed_by rn_key)) (execute_end run x acc)"
  "preserves (runs_only (keyed_by rn_key)) (execute_except run rq e)"
proof -
  have u: "preserves (runs_only (keyed_by rn_key)) (on_runs (runs_update r))"
    "preserves (runs_only (keyed_by rn_key)) (on_runs (runs_create r))" for r
    by (intro runs_zoom keyed_store_ops)+
  then show upd: "preserves (runs_only (keyed_by rn_key)) (svc_update_run f)" for f
    by (auto simp: svc_update_run_def intro!: hoare_intros)
  from u upd show "preserves (runs_only (keyed_by rn_key)) (start_run b rq)"
    "preserves (runs_only (keyed_by rn_key)) (cancel_run k)"
    "preserves (runs_only (keyed_by rn_key)) (execute_draft run d acc)"
    "preserves (runs_only (keyed_by rn_key)) (execute_end run x acc)"
    "preserves (runs_only (keyed_by rn_key)) (execute_except run rq e)"
    by (auto simp: start_run_def start_failed_def cancel_run_def execute_draft_def Let_def
        execute_end_def execute_except_def intro!: hoare_intros split: option.splits)
qed

lemma settle_not_active:
  assumes "settle_run e v r n = Inr r'" and "\<not> ev_is (ev_type e) RUN_INTERRUPTED"
  shows "\<not> is_active (rn_status r')"
proof -
  from assms consider "complete r v n = Inr r'" | "cancel r n = Inr r'"
    | "fail r (framework_failure (py_str (ev_data e))) n = Inr r'"
    unfolding settle_run_def by metis
  then show ?thesis by cases (auto dest: settled_not_active)
qed

lemma one_active_draft:
  assumes "\<not> ev_is (dr_type d) RUN_INTERRUPTED"
  shows "preserves (runs_only one_active) (execute_draft run d acc)"
  unfolding execute_draft_def Let_def
proof (intro preserves_bind_append runs_frame_append hoare_if preserves_bind [OF runs_get_preserves]
    preserves_then preserves_ret, goal_cases)
  case (1 e r)
  with assms show ?case by (intro update_run_one_active) (auto dest: settle_not_active)
qed (auto intro!: hoare_intros split: option.splits)

lemma one_active_sections:
  "preserves (runs_only one_active) (execute_end run x acc)"
  "preserves (runs_only one_active) (execute_except run rq e)"
proof -
  have "preserves (runs_only one_active) (svc_update_run (complete r v))"
    "preserves (runs_only one_active) (svc_update_run (cancel r))"
    "preserves (runs_only one_active) (svc_update_run (fail r er))" for r v er
    by (auto intro!: update_run_one_active dest: settled_not_active)
  then show "preserves (runs_only one_active) (execute_end run x acc)"
    "preserves (runs_only one_active) (execute_except run rq e)"
    by (auto simp: execute_end_def execute_except_def intro!: hoare_intros split: option.splits)
qed

lemma runs_ok_guard:
  assumes "preserves runs_ok m"
  shows "preserves runs_ok (execute_guard run rp m)"
  by (rule guard_preserves [OF assms _ _ refl])
    (intro reserved_finally runs_ok_conj keyed_updates one_active_sections)+

lemma runs_ok_ends: "runs_ok s \<Longrightarrow> runs_ok (fst (stream_ends x f s))"
  unfolding stream_ends_def fst_conv
  by (rule preserves_state [OF runs_ok_guard [OF runs_ok_conj [OF keyed_updates(5) one_active_sections(1)]]])

lemma runs_ok_arrives:
  assumes "\<not> ev_is (dr_type d) RUN_INTERRUPTED" and "runs_ok s"
  shows "runs_ok (fst (draft_arrives d f s))"
proof -
  obtain r s1 where x: "execute_draft (fl_run f) d (fl_acc f) s = (r, s1)" by fastforce
  have "preserves runs_ok (execute_draft (fl_run f) d (fl_acc f))"
    using assms(1) by (intro runs_ok_conj keyed_updates one_active_draft)
  from preserves_state [OF this assms(2)] x have s1: "runs_ok s1" by simp
  from preserves_state [OF runs_ok_guard [OF preserves_raise] s1] s1 x show ?thesis
    by (simp add: draft_arrives_def split: sum.splits)
qed

lemma runs_ok_begin:
  assumes "runs_ok s"
  shows "runs_ok (fst (begin_execution rp a s))"
proof -
  let ?k = "rp_run_key rp"
  show ?thesis
  proof (cases "map_of (sv_runs s) ?k")
    case None
    with assms show ?thesis by (simp add: begin_execution_def zoomM_def runs_get_def)
  next
    case (Some run)
    show ?thesis
    proof (cases "rn_status run = PENDING")
      case False
      with preserves_state [OF runs_frame(4) assms] Some show ?thesis
        by (simp add: begin_execution_def runs_get_run)
    next
      case True
      let ?s = "s \<lparr> sv_active_adapters := AList.update (rn_key run) a (sv_active_adapters s) \<rparr>"
      obtain r where r: "mark_running run (sv_clock ?s (sv_clock_ix ?s)) = Inr r"
        using True by (simp add: mark_running_def run_change_def terminal_statuses_def)
      have id: "rn_identity r = rn_identity run" by (rule run_ops_identity(1) [OF r])
      have key: "rn_key run = ?k"
        using Some assms keyed_byD [of rn_key "sv_runs s" ?k run] by (simp add: runs_only_def)
      have "one_active (AList.update ?k r (sv_runs s))"
        using assms Some id True by (intro one_active_update [of _ _ run]) (auto simp: runs_only_def active_statuses_def)
      moreover have "keyed_by rn_key (AList.update ?k r (sv_runs s))"
        using assms id key by (intro keyed_by_update) (auto simp: runs_only_def)
      moreover have "svc_update_run (mark_running run) ?s = (Inr (), ?s \<lparr> sv_clock_ix := Suc (sv_clock_ix ?s),
          sv_runs := AList.update (rn_key r) r (sv_runs ?s) \<rparr>)"
        using id key Some by (intro svc_update_run_run [where old = run] r) simp
      ultimately show ?thesis
        using True Some id key by (simp add: begin_execution_def runs_get_run Let_def runs_only_def)
    qed
  qed
qed

lemma svc_step_runs_ok:
  assumes "svc_step allowed (s, f) (s', f')" and "runs_ok s"
    and "\<And>d. allowed d \<Longrightarrow> \<not> ev_is (dr_type d) RUN_INTERRUPTED"
  shows "runs_ok s'"
proof (rule svc_step_preserves [where I = runs_ok, OF assms(1,2)], goal_cases)
  case 5
  then show ?case by (simp add: runs_only_def)
next
  case (2 b rq)
  then show ?case by (intro runs_ok_conj keyed_updates one_active_start_run)
next
  case (3 k)
  then show ?case by (intro runs_ok_conj keyed_updates one_active_cancel_run)
next
  case 1
  then show ?case by (auto simp: create_thread_def intro!: hoare_intros split: option.splits)
next
  case 4
  then show ?case by (auto simp: resume_run_def intro!: hoare_intros)
next
  case 6
  then show ?case by (auto simp: svc_receive_def intro!: hoare_intros split: exc.splits)
qed (use assms(3) in \<open>simp_all add: runs_ok_begin runs_ok_arrives runs_ok_ends\<close>)

lemma new_queue_leases: "pq_leases (new_queue l n) = []"
  by (simp add: new_queue_def)

lemma local_runtime_initial:
  assumes "create_local_runtime m clock ids = Inr s" and "inj ids"
  shows "svc_wf s" and "runs_ok s"
  using assms
  by (auto simp: create_local_runtime_def svc_wf_def ids_ok_def runs_only_def one_active_def
      new_queue_inv new_queue_leases split: sum.splits dest: new_journal_inv)

lemma reachable_wf:
  assumes "create_local_runtime m clock ids = Inr s0" and "inj ids"
    and "(svc_step allowed)\<^sup>*\<^sup>* (s0, None) s"
  shows "svc_wf (fst s)"
  using assms(3)
proof (induction rule: rtranclp_induct)
  case base
  then show ?case using local_runtime_initial [OF assms(1,2)] by simp
next
  case (step y z)
  then show ?case using svc_step_wf [of allowed "fst y" "snd y" "fst z" "snd z"] by simp
qed

lemma reachable_runs_ok:
  assumes "create_local_runtime m clock ids = Inr s0" and "inj ids"
    and "(svc_step (\<lambda>d. \<not> ev_is (dr_type d) RUN_INTERRUPTED))\<^sup>*\<^sup>* (s0, None) s"
  shows "runs_ok (fst s)"
  using assms(3)
proof (induction rule: rtranclp_induct)
  case base
  then show ?case using local_runtime_initial [OF assms(1,2)] by simp
next
  case (step y z)
  then show ?case
    using svc_step_runs_ok [of "\<lambda>d. \<not> ev_is (dr_type d) RUN_INTERRUPTED" "fst y" "snd y" "fst z" "snd z"]
    by simp
qed

end
