(* ===== verification/Runtime_Requests.thy ===== *)
theory Runtime_Requests
  imports Runtime_Execution
begin

section \<open>What the requests do\<close>

text \<open>
  The functional behaviour of \<open>start_run\<close>, \<open>cancel_run\<close> and \<open>resume_run\<close> on every branch, and the whole
  life of a run from the request to the end of its execution.
\<close>

lemma svc_append_if_run:
  assumes "sv_journal_on s"
  obtains e s' where "svc_append_if d s = (Inr (), s')" and "records d e" and "quiet s s'"
    and "log_of s' = (log_of s)(run_key (dr_identity d) := log_of s (run_key (dr_identity d)) @ [e])"
proof -
  obtain e s' where "svc_append d s = (Inr e, s')" "records d e" "quiet s s'"
    "log_of s' = (log_of s)(run_key (dr_identity d) := log_of s (run_key (dr_identity d)) @ [e])"
    by (rule svc_append_run [OF assms])
  with assms that show ?thesis by (simp add: svc_append_if_def prog_defs)
qed

definition queued_draft :: "ExecutionRequest \<Rightarrow> RuntimeEventDraft" where
  "queued_draft rq = make_draft (rq_identity rq) RUN_QUEUED
     (JObj [(''assistant_id'', JStr (id_value (assistant_id (rq_identity rq))))])"

abbreviation rq_run_key :: "ExecutionRequest \<Rightarrow> string" where
  "rq_run_key rq \<equiv> run_key (rq_identity rq)"

abbreviation rq_thread_key :: "ExecutionRequest \<Rightarrow> string option" where
  "rq_thread_key rq \<equiv> thread_key (rq_identity rq)"

subsection \<open>start_run\<close>

text \<open>The thread, if any, exists and is not busy, and neither the run nor an active run on the thread
  exists.\<close>

definition startable :: "Service \<Rightarrow> ExecutionRequest \<Rightarrow> bool" where
  "startable s rq \<longleftrightarrow> map_of (sv_runs s) (rq_run_key rq) = None
     \<and> (case rq_thread_key rq of None \<Rightarrow> True
        | Some t \<Rightarrow> runs_active (sv_runs s) t = None
            \<and> (case map_of (sv_threads s) t of None \<Rightarrow> False | Some th \<Rightarrow> th_status th \<noteq> T_BUSY))"

text \<open>What a started run has changed before its command is handed over.\<close>

definition threads_taken :: "Service \<Rightarrow> ExecutionRequest \<Rightarrow> thread_status \<Rightarrow> Service \<Rightarrow> bool" where
  "threads_taken s rq st s' \<longleftrightarrow> (case rq_thread_key rq of
       None \<Rightarrow> sv_threads s' = sv_threads s
     | Some t \<Rightarrow> \<exists>th. map_of (sv_threads s') = (map_of (sv_threads s))(t \<mapsto> th) \<and> th_status th = st)"

lemma take_thread_run:
  assumes "keyed_by th_key (sv_threads s)" and "startable s rq"
  shows "\<exists>ths. take_thread rq n s = (Inr (), s \<lparr> sv_threads := ths \<rparr>)
    \<and> threads_taken s rq T_BUSY (s \<lparr> sv_threads := ths \<rparr>)
    \<and> (\<forall>t. rq_thread_key rq = Some t \<longrightarrow> (\<exists>th. map_of ths t = Some th \<and> th_key th = t))"
proof (cases "rq_thread_key rq")
  case None
  then show ?thesis by (intro exI [of _ "sv_threads s"]) (simp add: take_thread_def ret_def threads_taken_def)
next
  case (Some t)
  with assms(2) obtain th where th: "map_of (sv_threads s) t = Some th" "th_status th \<noteq> T_BUSY"
    by (auto simp: startable_def split: option.splits)
  moreover have "th_key th = t" using keyed_byD [OF assms(1) th(1)] by simp
  ultimately show ?thesis
    using Some by (intro exI [of _ "AList.update t (mark_busy th n) (sv_threads s)"])
      (auto simp: take_thread_def prog_defs threads_defs threads_taken_def map_of_update_fun
        intro: exI [of _ "mark_busy th n"])
qed

definition started :: "Service \<Rightarrow> ExecutionRequest \<Rightarrow> Run \<Rightarrow> Service \<Rightarrow> bool" where
  "started s rq r s' \<longleftrightarrow> rn_identity r = rq_identity rq \<and> rn_status r = PENDING \<and> rn_metadata r = rq_metadata rq
     \<and> sv_runs s' = AList.update (rq_run_key rq) r (sv_runs s)
     \<and> threads_taken s rq T_BUSY s'
     \<and> grown s (rq_run_key rq) [queued_draft rq] s'
     \<and> (\<exists>c. rc_identity c = rq_identity rq \<and> rc_request c = rq \<and> rc_priority c = rq_priority rq
            \<and> sv_commands s' = pq_enqueue c 0 (sv_commands s))
     \<and> sv_active_adapters s' = sv_active_adapters s \<and> sv_adapters s' = sv_adapters s
     \<and> sv_capacity s' = sv_capacity s \<and> sv_capacity_on s' = sv_capacity_on s
     \<and> sv_journal_on s' = sv_journal_on s"

text \<open>The state in which the command is handed over.\<close>

definition created_state :: "Service \<Rightarrow> ExecutionRequest \<Rightarrow> datetime \<Rightarrow> thread_repo \<Rightarrow> Service" where
  "created_state s rq n ths = s \<lparr> sv_clock_ix := Suc (sv_clock_ix s), sv_threads := ths,
     sv_runs := AList.update (rq_run_key rq) (new_run rq n) (sv_runs s) \<rparr>"

lemma start_run_created:
  assumes "keyed_by th_key (sv_threads s)" and "startable s rq"
  obtains n ths where "threads_taken s rq T_BUSY (created_state s rq n ths)"
    and "\<forall>t. rq_thread_key rq = Some t \<longrightarrow> (\<exists>th. map_of ths t = Some th \<and> th_key th = t)"
    and "start_run b rq s = thenM (catchM (hand_over b rq n)
        (\<lambda>e. if is_exception e then thenM (start_failed rq (new_run rq n)) (raise e) else raise e))
      (ret (new_run rq n)) (created_state s rq n ths)"
proof -
  let ?n = "sv_clock s (sv_clock_ix s)"
  let ?s = "s \<lparr> sv_clock_ix := Suc (sv_clock_ix s) \<rparr>"
  have "startable ?s rq" "keyed_by th_key (sv_threads ?s)"
    using assms by (simp_all add: startable_def cong: option.case_cong)
  from take_thread_run [OF this(2,1), of ?n] obtain ths where
    ths: "take_thread rq ?n ?s = (Inr (), ?s \<lparr> sv_threads := ths \<rparr>)"
      "threads_taken s rq T_BUSY (created_state s rq ?n ths)"
      "\<forall>t. rq_thread_key rq = Some t \<longrightarrow> (\<exists>th. map_of ths t = Some th \<and> th_key th = t)"
    by (auto simp: threads_taken_def created_state_def cong: option.case_cong)
  have k: "rn_key (new_run rq ?n) = rq_run_key rq" "rn_thread_key (new_run rq ?n) = rq_thread_key rq"
    by (simp_all add: new_run_def)
  have cr: "runs_create (new_run rq ?n) (sv_runs s) =
      (Inr (new_run rq ?n), AList.update (rq_run_key rq) (new_run rq ?n) (sv_runs s))"
    using assms(2) k by (auto simp: runs_create_def startable_def split: option.splits)
  have "start_run b rq s = thenM (catchM (hand_over b rq ?n)
        (\<lambda>e. if is_exception e then thenM (start_failed rq (new_run rq ?n)) (raise e) else raise e))
      (ret (new_run rq ?n)) (created_state s rq ?n ths)"
    using ths(1) cr by (simp add: start_run_def bindM_def svc_now_def thenM_def zoomM_def created_state_def)
  with that ths(2,3) show ?thesis by blast
qed

theorem start_run_queues:
  assumes "keyed_by th_key (sv_threads s)" and "startable s rq" and "sv_journal_on s"
    and "\<not> sv_outbox_on s" and "\<not> pq_closed (sv_commands s)"
  shows "\<exists>r s'. start_run False rq s = (Inr r, s') \<and> started s rq r s'"
proof -
  obtain n ths where taken: "threads_taken s rq T_BUSY (created_state s rq n ths)"
    and run: "start_run False rq s = thenM (catchM (hand_over False rq n)
        (\<lambda>e. if is_exception e then thenM (start_failed rq (new_run rq n)) (raise e) else raise e))
      (ret (new_run rq n)) (created_state s rq n ths)"
    by (rule start_run_created [OF assms(1,2)])
  let ?s1 = "created_state s rq n ths"
  have "sv_journal_on ?s1" using assms(3) by (simp add: created_state_def)
  then obtain e s2 where s2: "svc_append_if (queued_draft rq) ?s1 = (Inr (), s2)"
    "records (queued_draft rq) e" "quiet ?s1 s2"
    "log_of s2 = (log_of ?s1)(rq_run_key rq := log_of ?s1 (rq_run_key rq) @ [e])"
    by (rule svc_append_if_run [of _ "queued_draft rq"]) (auto simp: queued_draft_def make_draft_def)
  let ?c = "make_command (rq_identity rq) rq n (sv_ids s2 (sv_id_ix s2))"
  let ?s3 = "s2 \<lparr> sv_id_ix := Suc (sv_id_ix s2), sv_commands := pq_enqueue ?c 0 (sv_commands s2) \<rparr>"
  have own: "sv_outbox_on s2 = sv_outbox_on s" "sv_commands s2 = sv_commands s"
    using s2(1,3) by (auto simp: quiet_def created_state_def)
  have "hand_over False rq n ?s1 = (Inr (), ?s3)"
    using s2(1) own assms(4,5)
    by (simp add: hand_over_def queued_draft_def [symmetric] prog_defs svc_new_id_def queue_publish_def)
  then have "start_run False rq s = (Inr (new_run rq n), ?s3)"
    unfolding run by (simp add: thenM_def bindM_def catchM_def ret_def)
  moreover have "grown s (rq_run_key rq) [queued_draft rq] ?s3"
    using s2(2,4) by (auto simp: grown_def created_state_def intro!: exI [of _ "[e]"])
  moreover have "threads_taken s rq T_BUSY ?s3"
    using taken s2(3) by (simp add: threads_taken_def quiet_def cong: option.case_cong)
  moreover have "sv_runs s2 = AList.update (rq_run_key rq) (new_run rq n) (sv_runs s)"
    "sv_active_adapters s2 = sv_active_adapters s" "sv_adapters s2 = sv_adapters s"
    "sv_capacity s2 = sv_capacity s" "sv_journal_on s2 = sv_journal_on s"
    "sv_capacity_on s2 = sv_capacity_on s"
    using s2(3) by (simp_all add: quiet_def created_state_def)
  ultimately show ?thesis
    using own by (auto simp: started_def new_run_def intro!: exI [of _ ?c]) (simp_all add: make_command_def)
qed

text \<open>The refusals.\<close>

lemma start_run_unknown_thread:
  assumes "rq_thread_key rq = Some t" and "map_of (sv_threads s) t = None"
  shows "start_run b rq s = (Inl (thread_missing t), s \<lparr> sv_clock_ix := Suc (sv_clock_ix s) \<rparr>)"
  using assms by (simp add: start_run_def take_thread_def prog_defs svc_now_def threads_get_def)

lemma start_run_busy_thread:
  assumes "rq_thread_key rq = Some t" and "map_of (sv_threads s) t = Some th" and "th_status th = T_BUSY"
  shows "start_run b rq s = (Inl (runtime_failure THREAD_BUSY (''thread is busy: '' @ t)),
    s \<lparr> sv_clock_ix := Suc (sv_clock_ix s) \<rparr>)"
  using assms by (simp add: start_run_def take_thread_def prog_defs svc_now_def threads_get_def)

lemma start_run_duplicate:
  assumes "rq_thread_key rq = None" and "map_of (sv_runs s) (rq_run_key rq) = Some r"
  shows "start_run b rq s = (Inl (runtime_failure INVALID_EXECUTION_INPUT ''run already exists''),
    s \<lparr> sv_clock_ix := Suc (sv_clock_ix s) \<rparr>)"
  using assms
  by (simp add: start_run_def take_thread_def prog_defs svc_now_def runs_create_def new_run_def)

text \<open>The thread is marked busy before the run is created and outside of the \<open>try\<close>: when the creation
  is refused, the thread stays busy although no run was started.\<close>

lemma start_run_conflict:
  assumes "keyed_by th_key (sv_threads s)" and "rq_thread_key rq = Some t"
    and "map_of (sv_threads s) t = Some th" and "th_status th \<noteq> T_BUSY"
    and "map_of (sv_runs s) (rq_run_key rq) = None" and "runs_active (sv_runs s) t \<noteq> None"
  shows "\<exists>s'. start_run b rq s =
      (Inl (runtime_failure THREAD_BUSY (''thread already has an active run: '' @ t)), s')
    \<and> sv_runs s' = sv_runs s \<and> (\<exists>th'. map_of (sv_threads s') t = Some th' \<and> th_status th' = T_BUSY)"
proof -
  have "th_key th = t" using keyed_byD [OF assms(1,3)] by simp
  then show ?thesis
    using assms(2-6)
    by (simp add: start_run_def take_thread_def prog_defs svc_now_def threads_defs runs_create_def
        new_run_def)
qed

lemma start_run_queue_closed:
  assumes "keyed_by th_key (sv_threads s)" and "startable s rq" and "sv_journal_on s"
    and "\<not> sv_outbox_on s" and "pq_closed (sv_commands s)"
  shows "\<exists>s' r. start_run False rq s =
      (Inl (runtime_failure QUEUE_CLOSED ''run command queue is closed''), s')
    \<and> map_of (sv_runs s') = (map_of (sv_runs s))(rq_run_key rq \<mapsto> r)
    \<and> rn_status r = ERROR \<and> rn_error r = Some queue_failed \<and> threads_taken s rq T_ERROR s'
    \<and> sv_commands s' = sv_commands s"
proof -
  obtain n ths where taken: "threads_taken s rq T_BUSY (created_state s rq n ths)"
    and thr: "\<forall>t. rq_thread_key rq = Some t \<longrightarrow> (\<exists>th. map_of ths t = Some th \<and> th_key th = t)"
    and run: "start_run False rq s = thenM (catchM (hand_over False rq n)
        (\<lambda>e. if is_exception e then thenM (start_failed rq (new_run rq n)) (raise e) else raise e))
      (ret (new_run rq n)) (created_state s rq n ths)"
    by (rule start_run_created [OF assms(1,2)])
  let ?s1 = "created_state s rq n ths" and ?e = "runtime_failure QUEUE_CLOSED ''run command queue is closed''"
  have "sv_journal_on ?s1" using assms(3) by (simp add: created_state_def)
  then obtain e s2 where s2: "svc_append_if (queued_draft rq) ?s1 = (Inr (), s2)" "quiet ?s1 s2"
    by (rule svc_append_if_run [of _ "queued_draft rq"])
  let ?s3 = "s2 \<lparr> sv_id_ix := Suc (sv_id_ix s2) \<rparr>"
  have own: "sv_outbox_on s2 = sv_outbox_on s" "sv_commands s2 = sv_commands s" "sv_threads s2 = ths"
    "sv_runs s2 = AList.update (rq_run_key rq) (new_run rq n) (sv_runs s)"
    using s2 by (auto simp: quiet_def created_state_def)
  have "hand_over False rq n ?s1 = (Inl ?e, ?s3)"
    using s2(1) own assms(4,5)
    by (simp add: hand_over_def queued_draft_def [symmetric] prog_defs svc_new_id_def queue_publish_def)
  then have start: "start_run False rq s = thenM (start_failed rq (new_run rq n)) (raise ?e) ?s3"
    unfolding run by (simp add: thenM_def bindM_def catchM_def raise_def split: prod.splits sum.splits)
  obtain r where r: "fail (new_run rq n) queue_failed (sv_clock ?s3 (sv_clock_ix ?s3)) = Inr r"
    by (simp add: fail_def run_change_def new_run_def terminal_statuses_def)
  have rr: "rn_identity r = rq_identity rq" "rn_status r = ERROR" "rn_error r = Some queue_failed"
    using r by (auto simp: fail_def run_change_def new_run_def terminal_statuses_def)
  let ?s4 = "?s3 \<lparr> sv_clock_ix := Suc (sv_clock_ix ?s3), sv_runs := AList.update (rq_run_key rq) r (sv_runs ?s3) \<rparr>"
  have upd: "svc_update_run (fail (new_run rq n) queue_failed) ?s3 = (Inr (), ?s4)"
    using svc_update_run_run [where s = ?s3 and f = "fail (new_run rq n) queue_failed", OF r] own rr(1)
    by simp
  have runs: "map_of (sv_runs ?s4) = (map_of (sv_runs s))(rq_run_key rq \<mapsto> r)"
    using own by (simp add: map_of_update_fun)
  show ?thesis
  proof (cases "rq_thread_key rq")
    case None
    then have "start_run False rq s = (Inl ?e, ?s4)"
      using start upd by (simp add: start_failed_def thenM_def bindM_def ret_def raise_def)
    with None taken runs rr own show ?thesis
      by (auto simp: threads_taken_def created_state_def intro: exI [of _ r])
  next
    case (Some t)
    with thr obtain th where th: "map_of ths t = Some th" "th_key th = t" by blast
    then have "map_of (sv_threads ?s4) t = Some th" "\<And>n. th_key (mark_error th n) = t" using own by simp_all
    from svc_update_thread_run [where f = mark_error, OF this] have
      "start_run False rq s = (Inl ?e, ?s4 \<lparr> sv_clock_ix := Suc (sv_clock_ix ?s4),
         sv_threads := AList.update t (mark_error th (sv_clock ?s4 (sv_clock_ix ?s4))) (sv_threads ?s4) \<rparr>)"
      using start upd Some by (simp add: start_failed_def thenM_def bindM_def raise_def)
    with Some taken runs rr own show ?thesis
      by (auto simp: threads_taken_def created_state_def map_of_update_fun
          intro: exI [of _ r] intro!: exI [of _ "mark_error th (sv_clock s2 (Suc (sv_clock_ix s2)))"])
  qed
qed

subsection \<open>cancel_run\<close>

lemma cancel_run_missing:
  "map_of (sv_runs s) k = None \<Longrightarrow> cancel_run k s = (Inl (run_missing k), s)"
  by (simp add: cancel_run_def prog_defs runs_get_def)

lemma cancel_run_terminal:
  "map_of (sv_runs s) k = Some r \<Longrightarrow> is_terminal (rn_status r) \<Longrightarrow> cancel_run k s = (Inr r, s)"
  by (simp add: cancel_run_def prog_defs runs_get_def)

definition cancelled_draft :: "Run \<Rightarrow> RuntimeEventDraft" where
  "cancelled_draft r = make_draft (rn_identity r) RUN_CANCELLED
     (JObj [(''run_id'', JStr (rn_key r)), (''status'', JStr ''cancelled'')])"

definition cancellable :: "Service \<Rightarrow> Run \<Rightarrow> bool" where
  "cancellable s r \<longleftrightarrow> svc_wf s \<and> sv_journal_on s \<and> map_of (sv_runs s) (rn_key r) = Some r
     \<and> is_active (rn_status r)
     \<and> (case map_of (sv_active_adapters s) (rn_key r) of None \<Rightarrow> True
        | Some a \<Rightarrow> ad_cancel a (default_request (rn_identity r)) = None)
     \<and> (case rn_thread_key r of None \<Rightarrow> True | Some t \<Rightarrow> map_of (sv_threads s) t \<noteq> None)"

lemma cancel_run_active:
  assumes "cancellable s r"
  shows "\<exists>s' r'. cancel_run (rn_key r) s = (Inr r', s') \<and> rn_status r' = CANCELLED
    \<and> rn_identity r' = rn_identity r
    \<and> map_of (sv_runs s') = (map_of (sv_runs s))(rn_key r \<mapsto> r')
    \<and> grown s (rn_key r) [cancelled_draft r] s' \<and> sv_commands s' = sv_commands s
    \<and> (case rn_thread_key r of None \<Rightarrow> sv_threads s' = sv_threads s
       | Some t \<Rightarrow> \<exists>th. map_of (sv_threads s') = (map_of (sv_threads s))(t \<mapsto> th) \<and> th_status th = T_IDLE)"
proof -
  let ?n = "sv_clock s (sv_clock_ix s)"
  have c: "svc_wf s" "sv_journal_on s" "map_of (sv_runs s) (rn_key r) = Some r" "\<not> is_terminal (rn_status r)"
    using assms by (auto simp: cancellable_def active_iff_not_terminal)
  have adapter: "(case map_of (sv_active_adapters s) (rn_key r) of None \<Rightarrow> ret ()
      | Some a \<Rightarrow> (case ad_cancel a (default_request (rn_identity r)) of None \<Rightarrow> ret () | Some e \<Rightarrow> raise e)) s
      = (Inr (), s)"
    using assms by (auto simp: cancellable_def ret_def split: option.splits)
  obtain r' where r': "cancel r ?n = Inr r'"
    using c(4) by (cases "cancel r ?n") (auto simp: cancel_def run_change_def split: if_splits)
  have rr: "rn_status r' = CANCELLED" "rn_identity r' = rn_identity r"
    using run_ops_status(4) [OF r'] run_ops_identity(4) [OF r'] by auto
  let ?s1 = "s \<lparr> sv_clock_ix := Suc (sv_clock_ix s), sv_runs := AList.update (rn_key r) r' (sv_runs s) \<rparr>"
  let ?upd = "case rn_thread_key r of None \<Rightarrow> ret () | Some t \<Rightarrow> svc_update_thread t mark_idle"
  obtain s2 where s2: "?upd ?s1 = (Inr (), s2)" "s2 = ?s1 \<lparr> sv_clock_ix := sv_clock_ix s2, sv_threads := sv_threads s2 \<rparr>"
    "case rn_thread_key r of None \<Rightarrow> sv_threads s2 = sv_threads s
       | Some t \<Rightarrow> \<exists>th. map_of (sv_threads s2) = (map_of (sv_threads s))(t \<mapsto> th) \<and> th_status th = T_IDLE"
  proof (cases "rn_thread_key r")
    case None
    then show ?thesis by (intro that [of ?s1]) (simp_all add: ret_def)
  next
    case (Some t)
    with assms obtain th where th: "map_of (sv_threads s) t = Some th" by (auto simp: cancellable_def)
    have "th_key th = t" using keyed_byD [OF _ th, of th_key] c(1) by (simp add: svc_wf_def)
    then have "map_of (sv_threads ?s1) t = Some th" "\<And>n. th_key (mark_idle th n) = t" using th by simp_all
    from svc_update_thread_run [where f = mark_idle, OF this] Some show ?thesis
      by (intro that) (auto simp: map_of_update_fun intro: exI [of _ "mark_idle th (sv_clock s (Suc (sv_clock_ix s)))"])
  qed
  have f: "sv_journal_on s2" "sv_journal s2 = sv_journal s" "sv_commands s2 = sv_commands s"
    "sv_runs s2 = AList.update (rn_key r) r' (sv_runs s)"
    using c(2) by (subst s2(2), simp)+
  obtain e s3 where s3: "svc_append_if (cancelled_draft r) s2 = (Inr (), s3)" "records (cancelled_draft r) e"
    "quiet s2 s3" "log_of s3 = (log_of s2)(rn_key r := log_of s2 (rn_key r) @ [e])"
    by (rule svc_append_if_run [OF f(1), of "cancelled_draft r"]) (auto simp: cancelled_draft_def make_draft_def)
  have "cancel_run (rn_key r) s = (Inr r', s3)"
    using c(3,4) adapter r' rr s2(1) s3(1)
    by (simp add: cancel_run_def prog_defs runs_get_def runs_update_def svc_now_def cancelled_draft_def)
  moreover have "grown s (rn_key r) [cancelled_draft r] s3"
    using s3(2,4) f(2) by (auto simp: grown_def intro!: exI [of _ "[e]"])
  ultimately show ?thesis
    using rr f s2(3) s3(3) by (auto simp: quiet_def map_of_update_fun cong: option.case_cong)
qed

subsection \<open>Duplicate deliveries and resumed runs\<close>

text \<open>A command whose run is not pending is acknowledged and does nothing else.\<close>

lemma execute_not_pending:
  assumes "map_of (sv_runs s) (rp_run_key rp) = Some run" and "rn_status run \<noteq> PENDING"
  shows "execute_receipt rp a s = on_commands (queue_acknowledge rp) s"
  using assms by (simp add: execute_receipt_def Let_def bindM_def runs_get_run)

lemma resume_run_not_interrupted:
  assumes "map_of (sv_runs s) (rq_run_key rq) = Some run" and "rn_status run \<noteq> INTERRUPTED"
  shows "resume_run rq s = (Inl (runtime_failure INVALID_EXECUTION_INPUT ''run is not interrupted''), s)"
  using assms by (simp add: resume_run_def bindM_def runs_get_run raise_def)

text \<open>\<open>resume_run\<close> queues a command but leaves the run interrupted, and the worker executes pending runs
  only: whatever adapter handles the command, the run stays as it is and nothing is journalled.\<close>

lemma resume_run_ignored:
  assumes "svc_wf s" and "map_of (sv_runs s) (rq_run_key rq) = Some run" and "resume_run rq s = (Inr r, s')"
    and "rc_request (rp_command rp) = rq"
  shows "rn_status r = INTERRUPTED" and "sv_runs s' = sv_runs s"
    and "execute_receipt rp a s' = on_commands (queue_acknowledge rp) s'"
    and "sv_runs (snd (execute_receipt rp a s')) = sv_runs s"
proof -
  have st: "rn_status run = INTERRUPTED" and "r = run"
    using assms(2,3)
    by (auto simp: resume_run_def prog_defs runs_get_def svc_now_def svc_new_id_def split: if_splits prod.splits sum.splits)
  then show "rn_status r = INTERRUPTED" by simp
  have "preserves (runs_only (\<lambda>d. d = sv_runs s)) (resume_run rq)"
    by (auto simp: resume_run_def intro!: hoare_intros)
  from preserves_state [OF this, of s] assms(3) show runs: "sv_runs s' = sv_runs s"
    by (simp add: runs_only_def)
  show exe: "execute_receipt rp a s' = on_commands (queue_acknowledge rp) s'"
    by (rule execute_not_pending [of _ _ run]) (use assms(2,4) runs st in auto)
  from preserves_state [OF runs_frame(4) [where P = "\<lambda>d. d = sv_runs s"], of s' "queue_acknowledge rp"] runs
  show "sv_runs (snd (execute_receipt rp a s')) = sv_runs s"
    unfolding exe by (simp add: runs_only_def)
qed

subsection \<open>The life of a run\<close>

text \<open>A worker round on a queue with exactly one command.\<close>

definition capacity_free :: "Service \<Rightarrow> bool" where
  "capacity_free s \<longleftrightarrow> sv_capacity_on s \<longrightarrow> \<not> ec_draining (sv_capacity s) \<and> 0 < ec_semaphore (sv_capacity s)"

lemma with_slot_run:
  assumes "capacity_free s"
    and "\<And>c. m (s \<lparr> sv_capacity := c \<rparr>) = (Inr (), g c)"
  shows "\<exists>c c'. with_slot m s = (Inr True, (g c) \<lparr> sv_capacity := c' \<rparr>)"
proof (cases "sv_capacity_on s")
  case False
  with assms(2) [of "sv_capacity s"] show ?thesis
    by (intro exI [of _ "sv_capacity s"] exI [of _ "sv_capacity (g (sv_capacity s))"])
      (simp add: with_slot_def prog_defs)
next
  case True
  with assms show ?thesis
    by (auto simp: capacity_free_def with_slot_def prog_defs slot_defs)
qed

lemma svc_receive_single:
  assumes "svc_wf s" and "pq_queue (sv_commands s) = [x]"
  obtains rp q where "svc_receive s = (Inr (Some (Some rp)), s \<lparr> sv_id_ix := Suc (sv_id_ix s),
      sv_clock_ix := Suc (sv_clock_ix s), sv_commands := q \<rparr>)"
    and "rp_command rp = qc_command x" and "queue_active q rp" and "pq_queue q = []"
proof -
  let ?i = "sv_ids s (sv_id_ix s)" and ?n = "sv_clock s (sv_clock_ix s)"
  let ?rp = "\<lparr> rp_command = qc_command x, rp_lease_id = LeaseId ?i,
     rp_delivery_count = qc_delivery_count x + 1, rp_leased_at = ?n,
     rp_lease_expires_at = ?n + seconds (pq_lease_seconds (sv_commands s)) \<rparr>"
  let ?q = "(sv_commands s) \<lparr> pq_queue := [], pq_leases := AList.update ?i (x, ?rp) (pq_leases (sv_commands s)) \<rparr>"
  have "queue_receive ?n ?i (sv_commands s) = (Inr (Some ?rp), ?q)"
    using assms(2) by (simp add: queue_receive_def Let_def)
  then show ?thesis
    by (intro that [of ?rp ?q])
      (simp_all add: svc_receive_def prog_defs svc_new_id_def svc_now_def queue_active_def)
qed

theorem run_lifecycle:
  assumes "svc_wf s" and "startable s rq" and "sv_journal_on s" and "\<not> sv_outbox_on s"
    and "\<not> pq_closed (sv_commands s)" and "pq_queue (sv_commands s) = []" and "capacity_free s"
    and "map_of (sv_adapters s) (id_value (assistant_id (rq_identity rq))) = Some a"
    and "ad_stream a rq = (ds, None)" and "list_all plain ds"
    and "list_all (\<lambda>d. run_key (dr_identity d) = rq_run_key rq) ds"
  shows "\<exists>r s1 s2 r'. start_run False rq s = (Inr r, s1) \<and> rn_status r = PENDING
    \<and> consume_once s1 = (Inr (Some True), s2)
    \<and> map_of (sv_runs s2) = (map_of (sv_runs s))(rq_run_key rq \<mapsto> r')
    \<and> rn_status r' = SUCCESS \<and> rn_result r' = last_value JNull ds
    \<and> grown s (rq_run_key rq) (queued_draft rq # ds) s2
    \<and> pq_queue (sv_commands s2) = []
    \<and> (\<forall>t. rq_thread_key rq = Some t \<longrightarrow>
         (\<exists>th. map_of (sv_threads s2) t = Some th \<and> th_status th \<noteq> T_BUSY))"
proof -
  obtain r s1 where start: "start_run False rq s = (Inr r, s1)" "started s rq r s1"
    using start_run_queues [OF _ assms(2-5)] assms(1) by (auto simp: svc_wf_def)
  have wf1: "svc_wf s1" using preserves_state [OF svc_wf_start_run assms(1), of False rq] start(1) by simp
  obtain c where c: "rc_identity c = rq_identity rq" "rc_request c = rq" "sv_commands s1 = pq_enqueue c 0 (sv_commands s)"
    using start(2) by (auto simp: started_def)
  then obtain x where x: "pq_queue (sv_commands s1) = [x]" "qc_command x = c"
    using assms(6) by (auto simp: pq_enqueue_def pq_put_def)
  obtain rp q where rcv: "svc_receive s1 = (Inr (Some (Some rp)), s1 \<lparr> sv_id_ix := Suc (sv_id_ix s1),
      sv_clock_ix := Suc (sv_clock_ix s1), sv_commands := q \<rparr>)" (is "_ = (_, ?s2)")
    and rp: "rp_command rp = qc_command x" "queue_active q rp" "pq_queue q = []"
    by (rule svc_receive_single [OF wf1 x(1)])
  have wf2: "svc_wf ?s2" using preserves_state [OF svc_wf_receive wf1] rcv by simp
  have ident: "rn_identity r = rq_identity rq" "rn_status r = PENDING" using start(2) by (auto simp: started_def)
  have ready: "ready (?s2 \<lparr> sv_capacity := cp \<rparr>) rp r" for cp
    using wf2 start(2) assms(3) rp x c ident
    by (auto simp: ready_def started_def svc_wf_def ids_ok_def threads_taken_def split: option.splits)
  have "\<exists>s3. execute_receipt rp a (?s2 \<lparr> sv_capacity := cp \<rparr>) = (Inr (), s3)
      \<and> (\<exists>r'. outcome (?s2 \<lparr> sv_capacity := cp \<rparr>) rp r r' ds s3 \<and> rn_status r' = SUCCESS \<and> rn_result r' = last_value JNull ds)" for cp
    using execute_exhausted [OF ready, of a ds] assms(9-11) rp x c ident by (auto simp: own_drafts_def)
  then obtain g where g: "\<And>cp. execute_receipt rp a (?s2 \<lparr> sv_capacity := cp \<rparr>) = (Inr (), g cp)"
    "\<And>cp. \<exists>r'. outcome (?s2 \<lparr> sv_capacity := cp \<rparr>) rp r r' ds (g cp) \<and> rn_status r' = SUCCESS \<and> rn_result r' = last_value JNull ds"
    by metis
  have free: "capacity_free ?s2"
    using assms(7) start by (auto simp: capacity_free_def started_def)
  obtain cp cp' where slot: "with_slot (execute_receipt rp a) ?s2 = (Inr True, (g cp) \<lparr> sv_capacity := cp' \<rparr>)"
    using with_slot_run [where m = "execute_receipt rp a" and g = g, OF free g(1)] by blast
  have ad: "svc_adapter (id_value (assistant_id (rp_identity rp))) ?s2 = (Inr a, ?s2)"
    using assms(8) start(2) rp(1) x(2) c(1) by (simp add: svc_adapter_def zoomM_def registry_get_def started_def)
  have consume: "consume_once s1 = (Inr (Some True), (g cp) \<lparr> sv_capacity := cp' \<rparr>)"
    using rcv ad slot by (simp add: consume_once_def bindM_def ret_def)
  obtain r' where r': "outcome (?s2 \<lparr> sv_capacity := cp \<rparr>) rp r r' ds (g cp)" "rn_status r' = SUCCESS"
    "rn_result r' = last_value JNull ds" using g(2) by blast
  have "map_of (sv_runs (g cp)) = (map_of (sv_runs s))(rq_run_key rq \<mapsto> r')"
    using r'(1) start(2) ident by (simp add: outcome_def started_def map_of_update_fun)
  moreover have "pq_queue (sv_commands (g cp)) = []"
    using r'(1) rp(3) by (simp add: outcome_def)
  moreover have "grown s (rq_run_key rq) (queued_draft rq # ds) (g cp)"
  proof -
    from r'(1) ident obtain es where "list_all2 records ds es"
      "log_of (g cp) = (log_of s1)(rq_run_key rq := log_of s1 (rq_run_key rq) @ es)"
      by (auto simp: outcome_def grown_def)
    moreover have "grown s (rq_run_key rq) [queued_draft rq] s1" using start(2) by (simp add: started_def)
    ultimately show ?thesis using grown_more [of s "rq_run_key rq" "[queued_draft rq]" s1 ds es "g cp"] by simp
  qed
  moreover have "\<exists>th. map_of (sv_threads (g cp)) t = Some th \<and> th_status th \<noteq> T_BUSY"
    if "rq_thread_key rq = Some t" for t
    using r'(1) ident that by (auto simp: outcome_def)
  ultimately have "map_of (sv_runs (g cp)) = (map_of (sv_runs s))(rq_run_key rq \<mapsto> r')
      \<and> grown s (rq_run_key rq) (queued_draft rq # ds) ((g cp) \<lparr> sv_capacity := cp' \<rparr>)
      \<and> pq_queue (sv_commands (g cp)) = []
      \<and> (\<forall>t. rq_thread_key rq = Some t \<longrightarrow> (\<exists>th. map_of (sv_threads (g cp)) t = Some th \<and> th_status th \<noteq> T_BUSY))"
    using grown_frame by auto
  with start(1) ident(2) consume r'(2,3) show ?thesis
    by (intro exI [of _ r] exI [of _ s1] exI [of _ "(g cp) \<lparr> sv_capacity := cp' \<rparr>"] exI [of _ r']) simp
qed

end
