(* ===== verification/Runtime_Scenario.thy ===== *)
theory Runtime_Scenario
  imports Runtime_Steps Runtime_Requests
begin

section \<open>Concrete runs of the local runtime\<close>

text \<open>
  A small deployment on which the definitions are evaluated: one thread, requests on it, an adapter
  whose stream is a given list of drafts, a clock that counts and identifiers that are numbered.
\<close>

definition demo_identity :: "string \<Rightarrow> ExecutionIdentity" where
  "demo_identity r =
     \<lparr> scope = \<lparr> workspace_id = WorkspaceId ''w'', project_id = ProjectId ''p'',
         application_id = ApplicationId ''app'', revision_id = RevisionId ''1'',
         deployment_id = DeploymentId ''d'' \<rparr>,
       assistant_id = AssistantId ''graph'', run_id = RunId r, attempt_id = AttemptId ''a'',
       thread_id = Some (ThreadId ''t'') \<rparr>"

definition demo_request :: "string \<Rightarrow> ExecutionRequest" where
  "demo_request r = default_request (demo_identity r)"

definition demo_manifest :: AdapterManifest where
  "demo_manifest = \<lparr> mf_adapter_id = ''demo'', mf_adapter_version = ''1'', mf_profiles = {''langgraph''},
     mf_stream_modes = {''values''},
     mf_capabilities = \<lparr> cap_streaming = True, cap_cancellation = True, cap_history = False,
       cap_checkpoint = False, cap_state_management = False, cap_interrupt = False, cap_resume = False,
       cap_fork = False, cap_custom_http = False, cap_a2a = False, cap_subagents = False \<rparr>,
     mf_identity = \<lparr> accepts_thread_id = True, accepts_run_id = True \<rparr>,
     mf_session_affinity = AFF_NONE \<rparr>"

definition demo_adapter :: "RuntimeEventDraft list \<Rightarrow> exc option \<Rightarrow> Adapter" where
  "demo_adapter ds x = \<lparr> ad_manifest = demo_manifest, ad_stream = (\<lambda>_. (ds, x)),
     ad_cancel = (\<lambda>_. None), ad_get_state = (\<lambda>_. Inr JNull) \<rparr>"

definition demo_clock :: "nat \<Rightarrow> datetime" where
  "demo_clock n = int n"

definition demo_ids :: "nat \<Rightarrow> string" where
  "demo_ids n = ''id-'' @ nat_str n"

definition demo_start :: Service where
  "demo_start = (case create_local_runtime 8 demo_clock demo_ids of Inr s \<Rightarrow> s | Inl _ \<Rightarrow> undefined)"

definition demo_with :: "Adapter \<Rightarrow> Service" where
  "demo_with a = (let s = snd (create_thread (Some ''t'') None demo_start)
     in s \<lparr> sv_adapters := [(''graph'', a)] \<rparr>)"

lemma demo_ids_inj: "inj demo_ids"
  by (rule injI) (simp add: demo_ids_def nat_str_inj)

definition values_draft :: "string \<Rightarrow> json \<Rightarrow> RuntimeEventDraft" where
  "values_draft r v = make_draft (demo_identity r) STATE_VALUES v"

definition status_of :: "string \<Rightarrow> Service \<Rightarrow> run_status option" where
  "status_of r s = map_option rn_status (map_of (sv_runs s) r)"

lemma demo_start: "create_local_runtime 8 demo_clock demo_ids = Inr demo_start"
  by (simp add: demo_start_def create_local_runtime_def new_capacity_def new_journal_def)

lemma demo_reachable: "(svc_step P)\<^sup>*\<^sup>* (demo_start, None) (demo_with a, None)"
proof -
  let ?s = "snd (create_thread (Some ''t'') None demo_start)"
  have "sv_adapters ?s = []" by code_simp
  then have "demo_with a = ?s \<lparr> sv_adapters := AList.update ''graph'' a (sv_adapters ?s) \<rparr>"
    by (simp add: demo_with_def Let_def)
  then have "svc_step P (?s, None) (demo_with a, None)" by (simp add: adapter_registered)
  moreover have "svc_step P (demo_start, None) (?s, None)" by (rule thread_created)
  ultimately show ?thesis by (meson rtranclp.simps)
qed

lemma demo_wf: "svc_wf (demo_with a)"
  using reachable_wf [OF demo_start demo_ids_inj demo_reachable [of "\<lambda>_. True"]] by simp

text \<open>A run that waits in the queue, received by a worker.\<close>

definition demo_pending :: "Adapter \<Rightarrow> Service" where
  "demo_pending a = snd (start_run False (demo_request ''r1'') (demo_with a))"

definition demo_received :: "Adapter \<Rightarrow> Service" where
  "demo_received a = snd (svc_receive (demo_pending a))"

definition demo_receipt :: "Adapter \<Rightarrow> RunCommandReceipt" where
  "demo_receipt a = (case fst (svc_receive (demo_pending a)) of Inr (Some (Some rp)) \<Rightarrow> rp | _ \<Rightarrow> undefined)"

definition demo_run :: "Adapter \<Rightarrow> Run" where
  "demo_run a = the (map_of (sv_runs (demo_received a)) ''r1'')"

lemma demo_received_wf: "svc_wf (demo_received a)"
proof -
  have "svc_step (\<lambda>_. True) (demo_with a, None) (demo_pending a, None)"
    unfolding demo_pending_def by (rule run_started)
  then have "svc_wf (demo_pending a)"
    using reachable_wf [OF demo_start demo_ids_inj] demo_reachable [of "\<lambda>_. True" a]
    by (metis fst_conv rtranclp.simps)
  then show ?thesis
    unfolding demo_received_def by (rule preserves_state [OF svc_wf_receive])
qed

lemma demo_ready: "ready (demo_received a) (demo_receipt a) (demo_run a)"
proof -
  have "sv_journal_on (demo_received a)"
    and "map_of (sv_runs (demo_received a)) (rp_run_key (demo_receipt a)) = Some (demo_run a)"
    and "rn_status (demo_run a) = PENDING"
    and "map_of (sv_threads (demo_received a)) ''t'' \<noteq> None"
    and "rn_thread_key (demo_run a) = Some ''t''"
    and "queue_active (sv_commands (demo_received a)) (demo_receipt a)"
    by code_simp+
  with demo_received_wf show ?thesis by (simp add: ready_def)
qed

text \<open>An interrupt that arrives after the run was cancelled.\<close>

definition demo_interrupt :: RuntimeEventDraft where
  "demo_interrupt = make_draft (demo_identity ''r1'') RUN_INTERRUPTED JNull"

definition demo_flight :: "Adapter \<Rightarrow> sys" where
  "demo_flight a = begin_execution (demo_receipt a) a (demo_received a)"

definition demo_crossed :: "Adapter \<Rightarrow> sys" where
  "demo_crossed a = (case demo_flight a of (s, Some f) \<Rightarrow>
       draft_arrives demo_interrupt f (snd (start_run False (demo_request ''r2'') (snd (cancel_run ''r1'' s))))
     | sf \<Rightarrow> sf)"

lemma demo_startable: "startable (demo_with a) (demo_request ''r1'')"
  by code_simp

lemma demo_start_facts:
  "sv_journal_on (demo_with a)" "\<not> sv_outbox_on (demo_with a)" "\<not> pq_closed (sv_commands (demo_with a))"
  "pq_queue (sv_commands (demo_with a)) = []" "capacity_free (demo_with a)"
  by code_simp+

lemma demo_adapters: "sv_adapters (demo_received a) = [(''graph'', a)]"
proof -
  have "keyed_by th_key (sv_threads (demo_with a))" using demo_wf by (simp add: svc_wf_def)
  then have "sv_adapters (demo_pending a) = sv_adapters (demo_with a)"
    using start_run_queues [OF _ demo_startable] demo_start_facts
    unfolding demo_pending_def started_def by fastforce
  moreover have "preserves (\<lambda>s. sv_adapters s = x) svc_receive" for x
    by (auto simp: preserves_iff svc_receive_def svc_new_id_def svc_now_def prog_defs
        split: prod.splits sum.splits exc.splits)
  ultimately show ?thesis
    unfolding demo_received_def by (simp add: preserves_iff demo_with_def Let_def)
qed

lemma demo_flight_reachable: "(svc_step P)\<^sup>*\<^sup>* (demo_start, None) (demo_flight a)"
proof -
  have "svc_step P (demo_with a, None) (demo_pending a, None)"
    unfolding demo_pending_def by (rule run_started)
  moreover have "fst (svc_receive (demo_pending a)) = Inr (Some (Some (demo_receipt a)))"
    by code_simp
  then have "svc_receive (demo_pending a) = (Inr (Some (Some (demo_receipt a))), demo_received a)"
    by (simp add: demo_received_def prod_eq_iff)
  moreover have "id_value (assistant_id (rp_identity (demo_receipt a))) = ''graph''"
    by code_simp
  then have "map_of (sv_adapters (demo_received a)) (id_value (assistant_id (rp_identity (demo_receipt a))))
      = Some a"
    by (simp add: demo_adapters)
  ultimately show ?thesis
    using demo_reachable [of P a] received [of "demo_pending a" "demo_receipt a" "demo_received a" a P]
    unfolding demo_flight_def by (meson rtranclp.rtrancl_into_rtrancl)
qed

lemma demo_crossed_reachable: "(svc_step (\<lambda>_. True))\<^sup>*\<^sup>* (demo_start, None) (demo_crossed a)"
proof (cases "demo_flight a")
  case (Pair s f)
  let ?s1 = "snd (cancel_run ''r1'' s)"
  let ?s2 = "snd (start_run False (demo_request ''r2'') ?s1)"
  have "svc_step (\<lambda>_. True) (s, f) (?s1, f)" by (rule run_cancelled)
  moreover have "svc_step (\<lambda>_. True) (?s1, f) (?s2, f)" by (rule run_started)
  ultimately have "(svc_step (\<lambda>_. True))\<^sup>*\<^sup>* (demo_start, None) (?s2, f)"
    using demo_flight_reachable [of "\<lambda>_. True" a] Pair by (metis rtranclp.rtrancl_into_rtrancl)
  then show ?thesis
    using demo_flight_reachable [of "\<lambda>_. True" a] Pair
    by (cases f) (auto simp: demo_crossed_def intro: rtranclp.rtrancl_into_rtrancl drafted)
qed

end
