(* ===== verification/Distributed_Properties.thy ===== *)
theory Distributed_Properties
  imports Worker_Service Postgres_Events Postgres_Schema Runtime_Scenario
begin

section \<open>Properties of the distributed parts\<close>

text \<open>
  The properties of the Postgres repositories and journal, of the Kafka transport, of the worker processes
  and of the gRPC layer, each with a witness on a concrete state.
\<close>

definition demo_command :: "string \<Rightarrow> queue_priority \<Rightarrow> RunCommand" where
  "demo_command r p = \<lparr> rc_command_id = CommandId r, rc_identity = demo_identity r,
     rc_request = demo_request r, rc_priority = p, rc_available_at = 0, rc_created_at = 0 \<rparr>"

section \<open>Postgres\<close>

definition demo_pg_run :: "string \<Rightarrow> Run" where
  "demo_pg_run r = new_run (demo_request r) 0"

definition demo_rows :: run_table where
  "demo_rows = snd (pg_runs_create 0 (demo_pg_run ''r1'') [])"

lemma demo_run_wf: "r \<noteq> [] \<Longrightarrow> identity_wf (rn_identity (demo_pg_run r))"
  by (simp add: demo_pg_run_def new_run_def demo_request_def default_request_def demo_identity_def identity_wf_def classed_def)

lemma no_rows_inv: "pg_runs_inv []"
  by (simp add: pg_runs_inv_def pg_runs_def one_active_def)

lemma demo_rows_inv: "pg_runs_inv demo_rows"
  unfolding demo_rows_def by (rule preserves_state [OF pg_runs_create_preserves no_rows_inv]) (simp add: demo_run_wf)

text \<open>
  C17.  The table of runs implements the in-memory repository: read through \<open>pg_runs\<close>, getting, listing and
  deleting runs and asking for the active one give the same results, and creating a run succeeds exactly
  when the in-memory repository accepts it, with the same contents; a refusal is reported as a busy thread
  and changes nothing.
\<close>

theorem run_table_refines_repository:
  assumes "pg_runs_inv rows"
  shows "pg_runs_get k rows = (fst (runs_get k (pg_runs rows)), rows)
    \<and> pg_runs_list_for_thread t lmt off st rows = (fst (runs_list_for_thread t lmt off st (pg_runs rows)), rows)
    \<and> pg_runs_active_for_thread t rows = (fst (runs_active_for_thread t (pg_runs rows)), rows)
    \<and> fst (pg_runs_delete k rows) = fst (runs_delete k (pg_runs rows))
    \<and> pg_runs (snd (pg_runs_delete k rows)) = snd (runs_delete k (pg_runs rows))
    \<and> (identity_wf (rn_identity r) \<and> is_active (rn_status r) \<longrightarrow>
        (case runs_create (stamped now r) (pg_runs rows) of
           (Inr _, d) \<Rightarrow> \<exists>rows'. pg_runs_create now r rows = (Inr r, rows') \<and> pg_runs_inv rows' \<and> pg_runs rows' = d
         | (Inl _, _) \<Rightarrow>
             pg_runs_create now r rows = (Inl (runtime_failure THREAD_BUSY ''thread already has an active run''), rows)))"
  using pg_runs_get_refines [OF assms] pg_runs_list_refines [OF assms] pg_runs_active_refines [OF assms]
    pg_runs_delete_refines [OF assms] pg_runs_create_refines [OF assms]
  by (intro conjI impI) (blast | simp)+

theorem run_table_refines_repository_witness:
  "pg_runs_create 1 (demo_pg_run ''r2'') demo_rows =
     (Inl (runtime_failure THREAD_BUSY ''thread already has an active run''), demo_rows)
   \<and> fst (pg_runs_get ''r1'' demo_rows) = Inr (stamped 0 (demo_pg_run ''r1''))"
proof -
  have "case runs_create (stamped 1 (demo_pg_run ''r2'')) (pg_runs demo_rows) of (Inl _, _) \<Rightarrow> True | (Inr _, _) \<Rightarrow> False"
    by code_simp
  moreover have "is_active (rn_status (demo_pg_run ''r2''))" by code_simp
  moreover have "fst (runs_get ''r1'' (pg_runs demo_rows)) = Inr (stamped 0 (demo_pg_run ''r1''))" by code_simp
  ultimately show ?thesis
    using run_table_refines_repository [OF demo_rows_inv, of "''r1''" _ _ _ _ "demo_pg_run ''r2''" 1]
      demo_run_wf [of "''r2''"]
    by (cases "runs_create (stamped 1 (demo_pg_run ''r2'')) (pg_runs demo_rows)") (auto split: sum.splits)
qed

text \<open>
  C18.  Whatever runs are created, updated and deleted, in any order and with any interruption or revival,
  no thread ever has two pending, running or interrupted rows, so the query for the active run never fails.
\<close>

theorem one_active_row_per_thread:
  assumes "list_all write_ok ops"
  shows "length (filter (\<lambda>w. rr_thread_id w = Some t \<and> active_row w) (fold apply_write ops [])) \<le> 1
    \<and> fst (pg_runs_active_for_thread t (fold apply_write ops [])) \<noteq> Inl (FrameworkError ''MultipleResultsFound'')"
proof -
  have inv: "pg_runs_inv (fold apply_write ops [])" using assms no_rows_inv by (rule pg_writes_inv)
  show ?thesis
    using active_rows_le_one [OF inv] pg_runs_active_refines [OF inv, of t]
    by (simp add: runs_active_for_thread_def getsM_def)
qed

definition demo_writes :: "run_write list" where
  "demo_writes = [RCreate 0 (demo_pg_run ''r1''), RUpdate 1 (demo_pg_run ''r1'' \<lparr> rn_status := CANCELLED \<rparr>),
     RCreate 2 (demo_pg_run ''r2''), RUpdate 3 (demo_pg_run ''r1'' \<lparr> rn_status := INTERRUPTED \<rparr>)]"

theorem one_active_row_per_thread_witness:
  "length (filter (\<lambda>w. rr_thread_id w = Some ''t'' \<and> active_row w) (fold apply_write demo_writes [])) \<le> 1
    \<and> map rr_status (fold apply_write demo_writes []) = [''cancelled'', ''pending'']"
proof -
  have "list_all write_ok demo_writes" by code_simp
  moreover have "map rr_status (fold apply_write demo_writes []) = [''cancelled'', ''pending'']" by code_simp
  ultimately show ?thesis using one_active_row_per_thread [of demo_writes "''t''"] by blast
qed

text \<open>
  Updating an assistant adds a version with the next free number, keeps all older versions and reads
  back the assistant given; and reading the versions by position, as \<open>versions\<close> does, returns the
  configuration as the description, the context as the configuration and the metadata as the context.
\<close>

lemma assistant_update_versions:
  assumes "pg_assistants_inv s" and "own_row app k s = Some w" and "parse_id AssistantId k = Inr i"
    and "map_of (as_metadata a) ''name'' = None"
  shows "\<exists>s' b c. pg_assistants_update Inr app k a s = (Inr b, s') \<and> pg_assistants_inv s'
    \<and> as_version b = next_version k s \<and> as_config b = as_config a \<and> as_context b = as_context a
    \<and> as_metadata b = as_metadata a \<and> as_name b = as_name a \<and> prefix (at_versions s) (at_versions s')
    \<and> to_assistant w (last (at_versions s')) = Inr c
    \<and> as_description c = JObj (as_config a) \<and> as_config c = as_context a \<and> as_context c = as_metadata a"
proof -
  obtain s' where u: "pg_assistants_update Inr app k a s =
      (Inr \<lparr> as_assistant_id = i, as_graph_id = as_graph_id a, as_version = next_version k s, as_name = as_name a,
         as_description = JNull, as_config = as_config a, as_context = as_context a, as_metadata = as_metadata a,
         as_created_at = None, as_updated_at = None \<rparr>, s')"
    and v: "at_versions s' = at_versions s @
        [new_version k (next_version k s) (as_config a) (as_context a) (named_metadata a)]"
    using pg_assistants_update_read [OF assms] by blast
  have "pg_assistants_inv s'" using preserves_state [OF pg_assistants_update_inv assms(1)] u by (metis snd_conv)
  moreover have "ar_id w = k" using own_rowD [OF assms(2)] by simp
  then obtain c where "to_assistant w (last (at_versions s')) = Inr c" "as_description c = JObj (as_config a)"
    "as_config c = as_context a" "as_context c = as_metadata a"
    using assms(3) v named_metadata_read [OF assms(4)] by (simp add: to_assistant_def new_version_def)
  ultimately show ?thesis using u v by auto
qed





text \<open>
  A connection pinned to an application runs a statement with exactly the two schemas, each between
  quotes, whatever the keys of the application: keys that are not plain identifiers are refused, and no
  other character reaches the database.
\<close>

lemma search_path_is_quoted:
  assumes "sql_identifier (sn_prefix s)" and "create_application_engine url w a e s p m = Inr en"
  shows "\<exists>n. application_state s w a e = Inr n \<and> list_all safe_char n
    \<and> en_on_connect en = Some (''SET search_path TO '' @ quoted n @ '','' @ quoted ''public'')"
proof -
  obtain n where n: "application_state s w a e = Inr n"
    using assms(2) by (auto simp: create_application_engine_def split: sum.splits)
  then have keys: "sql_identifier w" "sql_identifier a" "sql_identifier e"
    by (auto simp: application_state_def application_schema_def split: if_splits)
  have "list_all safe_char ''a''" by code_simp
  then have "list_all safe_char n"
    using application_schema_chars [OF n [unfolded application_state_def] assms(1)] by blast
  then show ?thesis using application_engine_accepts [OF assms(1) keys, of url p m] assms(2) n by auto
qed

section \<open>Configuration\<close>

text \<open>
  The hash of a configuration does not depend on the order of its keys, at any depth: two
  configurations that differ only in that order have the same canonical text and the same hash.
\<close>

lemma config_hash_ignores_key_order:
  assumes "same_json (JObj a) (JObj b)" and "json_ok (JObj a)"
    and "config_create_revision flt i app a d = (Inr r, d1)" and "config_create_revision flt j app b e = (Inr r', e1)"
  shows "cr_config_hash r = cr_config_hash r' \<and> cr_config r = cr_config r'"
proof -
  have "canonical_json (JObj a) = canonical_json (JObj b)" using assms(1,2) by (rule canonical_same)
  with assms(3,4) show ?thesis
    by (auto simp: config_create_revision_def Let_def split: option.splits json.splits)
qed

section \<open>Kafka\<close>



text \<open>
  C21.  No command starves: in any sequence of arrivals and choices, a waiting command that has become
  old is handed out once there have been more choices than commands older than it.
\<close>

theorem no_command_starves:
  assumes "dispatcher_inv d" and "x \<in> set (dp_items d)" and "arrivals_ok os"
    and "list_all (\<lambda>t. aged t d x) (choices os)" and "length (older x d) < length (choices os)"
  shows "(di_command x, di_delivery_count x) \<in> set (run_dispatch os d)"
  using assms by (rule aged_served)

definition demo_dispatcher :: Dispatcher where
  "demo_dispatcher = (case new_dispatcher (4, 2, 1) 30 of
     Inr d \<Rightarrow> dispatcher_add (demo_command ''r1'' BATCH) 1 d | Inl _ \<Rightarrow> undefined)"

theorem no_command_starves_witness:
  "(demo_command ''r1'' BATCH, 1) \<in> set (run_dispatch
     [Arrive (demo_command ''r2'' INTERACTIVE) 1, Choose (seconds 60)] demo_dispatcher)"
proof -
  let ?x = "hd (dp_items demo_dispatcher)" and ?os = "[Arrive (demo_command ''r2'' INTERACTIVE) 1, Choose (seconds 60)]"
  have "dispatcher_inv demo_dispatcher" "?x \<in> set (dp_items demo_dispatcher)" "arrivals_ok ?os"
    "list_all (\<lambda>t. aged t demo_dispatcher ?x) (choices ?os)" "length (older ?x demo_dispatcher) < length (choices ?os)"
    "di_command ?x = demo_command ''r1'' BATCH" "di_delivery_count ?x = 1"
    by code_simp+
  then show ?thesis using no_command_starves [of demo_dispatcher ?x ?os] by simp
qed

section \<open>Workers\<close>

definition demo_thread :: Thread where
  "demo_thread = \<lparr> th_thread_id = ThreadId ''t'', th_status = T_BUSY, th_metadata = [], th_created_at = None,
     th_updated_at = None \<rparr>"

definition demo_record :: KafkaRecord where
  "demo_record = \<lparr> kr_topic = ''rt.app.runs.short_queue'', kr_partition = 0, kr_offset = 5, kr_value = [], kr_headers = [] \<rparr>"

definition demo_worker :: Worker where
  "demo_worker = \<lparr> wk_runs = demo_rows, wk_threads = snd (pg_threads_create 0 demo_thread []),
     wk_queue = (new_aio_queue ''rt'' ''app'' (\<lambda>_. None))
       \<lparr> aq_producer := True, aq_consumer := True, aq_leases := [(''l'', demo_record)] \<rparr>,
     wk_slots = 7, wk_sent = [], wk_clock = demo_clock, wk_clock_ix = 10 \<rparr>"

definition demo_delivery :: RunCommandReceipt where
  "demo_delivery = \<lparr> rp_command = demo_command ''r1'' INTERACTIVE, rp_lease_id = LeaseId ''l'', rp_delivery_count = 1,
     rp_leased_at = 0, rp_lease_expires_at = 60 \<rparr>"







text \<open>
  C24.  Whatever an adapter streams, however the gateway's call ends and whatever fails, a worker that
  handles a command keeps the table of runs well formed, with one active run per thread, adds and removes
  no run, and gives its slot back.
\<close>

theorem worker_keeps_tables:
  assumes "pg_runs_inv (wk_runs w)"
  shows "pg_runs_inv (wk_runs (snd (process_receipt dbl gateway ads receipt w)))
    \<and> map rr_id (wk_runs (snd (process_receipt dbl gateway ads receipt w))) = map rr_id (wk_runs w)
    \<and> wk_slots (snd (process_receipt dbl gateway ads receipt w)) = wk_slots w + 1"
proof -
  have same: "wk_runs (snd (process_receipt dbl gateway ads receipt w)) = wk_runs (snd (handle_receipt dbl gateway ads receipt w))"
    by (auto simp: process_receipt_def finallyM_def sem_release_def modifyM_def split: prod.splits sum.splits)
  show ?thesis
    unfolding same
    using preserves_state [OF tables_inv.handle_keeps, OF assms] preserves_state [OF ids_inv.handle_keeps, OF refl]
      process_receipt_slots by blast
qed

theorem worker_keeps_tables_witness:
  "pg_runs_inv (wk_runs (snd (process_receipt (\<lambda>i. None) None [(''graph'', demo_adapter [] (Some (RuntimeError ''x'')))]
     demo_delivery demo_worker)))"
  using worker_keeps_tables [of demo_worker] demo_rows_inv by (simp add: demo_worker_def)

section \<open>The gRPC layer\<close>










end
