(* ===== verification/LangGraph_Stream.thy ===== *)
theory LangGraph_Stream
  imports Runtime_Service
begin

section \<open>LangGraph: configuration and stream mapping\<close>

text \<open>
  Models \<^verbatim>\<open>adapters/langgraph/config_mapper.py\<close> and \<^verbatim>\<open>adapters/langgraph/stream_mapper.py\<close>: the
  configuration a graph is called with, and the translation of the chunks its stream yields into event
  drafts.  The chunks are Python objects of the framework: scalars, lists, tuples, dictionaries, and
  instances, of which the mapper only looks at a few attributes.  A key of a dictionary is a text or
  carries its \<open>str\<close> and \<open>repr\<close>.
\<close>

subsection \<open>Objects of the framework\<close>

datatype pykey = KeyText string | KeyOther string string

text \<open>An instance has the name of its class, its \<open>str\<close> and \<open>repr\<close>, its attribute \<open>value\<close> with the text
  of its \<open>id\<close> if it has both, the result of \<open>model_dump\<close> if it has that method, and the texts of the
  items it yields when iterated.\<close>

datatype pyobj =
    PNone
  | PBool bool
  | PInt int
  | PFloat rat string
  | PStr string
  | PList "pyobj list"
  | PTuple "pyobj list"
  | PDict "(pykey \<times> pyobj) list"
  | PInst string string string "(pyobj \<times> string) option" "(exc + pyobj) option" "exc + string list"

fun key_str :: "pykey \<Rightarrow> string" where
  "key_str (KeyText s) = s"
| "key_str (KeyOther s _) = s"

fun key_repr :: "pykey \<Rightarrow> string" where
  "key_repr (KeyText s) = repr_str s"
| "key_repr (KeyOther _ r) = r"

primrec obj_repr :: "pyobj \<Rightarrow> string" where
  "obj_repr PNone = ''None''"
| "obj_repr (PBool b) = (if b then ''True'' else ''False'')"
| "obj_repr (PInt i) = int_str i"
| "obj_repr (PFloat r t) = t"
| "obj_repr (PStr s) = repr_str s"
| "obj_repr (PList xs) = ''['' @ join '', '' (map obj_repr xs) @ '']''"
| "obj_repr (PTuple xs) = (case map obj_repr xs of
     [t] \<Rightarrow> ''('' @ t @ '',)'' | ts \<Rightarrow> ''('' @ join '', '' ts @ '')'')"
| "obj_repr (PDict d) =
     ''{'' @ join '', '' (map (\<lambda>(k, t). key_repr k @ '': '' @ t) (map (map_prod id obj_repr) d)) @ ''}''"
| "obj_repr (PInst _ _ r _ _ _) = r"

fun obj_str :: "pyobj \<Rightarrow> string" where
  "obj_str (PStr s) = s"
| "obj_str (PInst _ s _ _ _ _) = s"
| "obj_str v = obj_repr v"

fun type_name :: "pyobj \<Rightarrow> string" where
  "type_name PNone = ''NoneType''"
| "type_name (PBool _) = ''bool''"
| "type_name (PInt _) = ''int''"
| "type_name (PFloat _ _) = ''float''"
| "type_name (PStr _) = ''str''"
| "type_name (PList _) = ''list''"
| "type_name (PTuple _) = ''tuple''"
| "type_name (PDict _) = ''dict''"
| "type_name (PInst c _ _ _ _ _) = c"

text \<open>\<open>tuple(str(item) for item in value)\<close>.\<close>

fun str_items :: "pyobj \<Rightarrow> exc + string list" where
  "str_items (PList xs) = Inr (map obj_str xs)"
| "str_items (PTuple xs) = Inr (map obj_str xs)"
| "str_items (PStr s) = Inr (map (\<lambda>c. [c]) s)"
| "str_items (PDict d) = Inr (map (key_str \<circ> fst) d)"
| "str_items (PInst _ _ _ _ _ items) = items"
| "str_items v = Inl (TypeError (repr_str (type_name v) @ '' object is not iterable''))"

text \<open>\<open>value.get(name)\<close> of a dictionary, where \<open>None\<close> says that the key is missing or the value is no
  dictionary.\<close>

fun field_of :: "pyobj \<Rightarrow> string \<Rightarrow> pyobj option" where
  "field_of (PDict d) k = map_of d (KeyText k)"
| "field_of _ k = None"

subsection \<open>stream_mapper.py\<close>

primrec json_safe :: "pyobj \<Rightarrow> exc + json" where
  "json_safe PNone = Inr JNull"
| "json_safe (PBool b) = Inr (JBool b)"
| "json_safe (PInt i) = Inr (JInt i)"
| "json_safe (PFloat r t) = Inr (JFloat r t)"
| "json_safe (PStr s) = Inr (JStr s)"
| "json_safe (PList xs) = map_sum id JArr (collect (map json_safe xs))"
| "json_safe (PTuple xs) = map_sum id JArr (collect (map json_safe xs))"
| "json_safe (PDict d) = map_sum id (\<lambda>kvs. JObj (dict_merge [] kvs))
     (collect (map (\<lambda>(k, r). map_sum id (Pair (key_str k)) r) (map (map_prod id json_safe) d)))"
| "json_safe (PInst cls _ _ valued dumped _) =
     (case map_option (map_prod json_safe id) valued of
        Some (r, i) \<Rightarrow> map_sum id (\<lambda>v. JObj [(''value'', v), (''id'', JStr i)]) r
      | None \<Rightarrow> (case map_option (map_sum id json_safe) dumped of
          Some (Inl e) \<Rightarrow> Inl e
        | Some (Inr r) \<Rightarrow> r
        | None \<Rightarrow> Inl (TypeError (''unsupported LangGraph stream payload: '' @ cls))))"

text \<open>\<open>str(payload.get("event", "")) if isinstance(payload, dict) else ""\<close>.\<close>

definition event_name :: "pyobj \<Rightarrow> string" where
  "event_name payload = (case field_of payload ''event'' of None \<Rightarrow> '''' | Some v \<Rightarrow> obj_str v)"

definition stream_event_type :: "string \<Rightarrow> pyobj \<Rightarrow> runtime_event_type" where
  "stream_event_type mode payload =
     (if mode = ''values'' then STATE_VALUES
      else if mode = ''updates'' then STATE_UPDATES
      else if mode = ''messages'' \<or> mode = ''messages-tuple'' then MESSAGE_DELTA
      else if mode = ''custom'' then CUSTOM
      else if mode = ''checkpoints'' then CHECKPOINT_CREATED
      else if mode = ''tasks'' then
        (if is_suffix ''end'' (event_name payload) then TASK_COMPLETED else TASK_STARTED)
      else if mode = ''events'' \<or> mode = ''debug'' then
        (let n = event_name payload in
         if contains ''tool'' n \<and> is_suffix ''start'' n then TOOL_STARTED
         else if contains ''tool'' n \<and> is_suffix ''end'' n then TOOL_COMPLETED
         else if contains ''chain'' n \<and> is_suffix ''start'' n then AGENT_STARTED
         else if contains ''chain'' n \<and> is_suffix ''end'' n then AGENT_COMPLETED
         else CUSTOM)
      else CUSTOM)"

text \<open>The texts of a tuple or list whose items are all texts.\<close>

fun text_item :: "pyobj \<Rightarrow> string option" where
  "text_item (PStr s) = Some s"
| "text_item _ = None"

fun texts_of :: "pyobj \<Rightarrow> string list option" where
  "texts_of (PTuple xs) = those (map text_item xs)"
| "texts_of (PList xs) = those (map text_item xs)"
| "texts_of _ = None"

fun unpack :: "pyobj \<Rightarrow> string \<Rightarrow> exc + string \<times> string list \<times> pyobj" where
  "unpack (PDict d) default_mode =
     (case (field_of (PDict d) ''type'', field_of (PDict d) ''data'') of
        (Some t, Some v) \<Rightarrow>
          bindE (case field_of (PDict d) ''ns'' of None \<Rightarrow> Inr [] | Some n \<Rightarrow> str_items n) (\<lambda>ns.
          Inr (obj_str t, ns, v))
      | _ \<Rightarrow> Inr (default_mode, [], PDict d))"
| "unpack (PTuple [first, payload]) default_mode =
     (case texts_of first of
        Some ns \<Rightarrow> Inr (default_mode, ns, payload)
      | None \<Rightarrow> (case text_item first of
          Some mode \<Rightarrow> Inr (mode, [], payload)
        | None \<Rightarrow> Inr (default_mode, [], PTuple [first, payload])))"
| "unpack chunk default_mode = Inr (default_mode, [], chunk)"

text \<open>The body of the loop of \<open>map_stream\<close>.\<close>

definition map_chunk :: "ExecutionRequest \<Rightarrow> string \<Rightarrow> pyobj \<Rightarrow> exc + RuntimeEventDraft" where
  "map_chunk rq default_mode chunk =
     bindE (unpack chunk default_mode) (\<lambda>(mode, namespace, payload).
     bindE (case (field_of payload ''ns'', field_of payload ''data'') of
              (Some n, Some v) \<Rightarrow> bindE (str_items n) (\<lambda>ns. Inr (ns, v))
            | _ \<Rightarrow> Inr (namespace, payload)) (\<lambda>(namespace, payload).
     bindE (json_safe payload) (\<lambda>data.
     Inr \<lparr> dr_identity = rq_identity rq, dr_type = Ev (stream_event_type mode payload),
           dr_namespace = namespace, dr_data = data,
           dr_native = [(''langgraph_mode'', JStr mode), (''native_type'', JStr mode)] \<rparr>)))"

fun map_chunks ::
  "ExecutionRequest \<Rightarrow> string \<Rightarrow> pyobj list \<Rightarrow> exc option \<Rightarrow> RuntimeEventDraft list \<times> exc option" where
  "map_chunks rq m [] ending = ([], ending)"
| "map_chunks rq m (c # cs) ending = (case map_chunk rq m c of
     Inl e \<Rightarrow> ([], Some e)
   | Inr d \<Rightarrow> (let (ds, e) = map_chunks rq m cs ending in (d # ds, e)))"

definition no_mode :: exc where
  "no_mode = IndexError ''tuple index out of range''"

definition map_stream ::
  "pyobj list \<times> exc option \<Rightarrow> ExecutionRequest \<Rightarrow> RuntimeEventDraft list \<times> exc option" where
  "map_stream stream rq = (case rq_stream_modes rq of
     [] \<Rightarrow> ([], Some no_mode) | m # _ \<Rightarrow> map_chunks rq m (fst stream) (snd stream))"

subsection \<open>config_mapper.py\<close>

text \<open>\<open>dict(value)\<close>: a mapping is copied, any other iterable must yield pairs (a text of two characters
  is one).  A key that is not a text is kept under its text; a list or object cannot be a key.\<close>

definition dict_key :: "json \<Rightarrow> exc + string" where
  "dict_key k = (case k of
       JArr _ \<Rightarrow> Inl (TypeError (''unhashable type: '' @ repr_str ''list''))
     | JObj _ \<Rightarrow> Inl (TypeError (''unhashable type: '' @ repr_str ''dict''))
     | _ \<Rightarrow> Inr (py_str k))"

definition bad_length :: "nat \<Rightarrow> nat \<Rightarrow> exc" where
  "bad_length i n = ValueError (''dictionary update sequence element #'' @ nat_str i @ '' has length ''
     @ nat_str n @ ''; 2 is required'')"

fun pair_of :: "nat \<Rightarrow> json \<Rightarrow> exc + string \<times> json" where
  "pair_of i (JArr xs) = (case xs of [k, v] \<Rightarrow> bindE (dict_key k) (\<lambda>k. Inr (k, v)) | _ \<Rightarrow> Inl (bad_length i (length xs)))"
| "pair_of i (JStr s) = (case s of [a, b] \<Rightarrow> Inr ([a], JStr [b]) | _ \<Rightarrow> Inl (bad_length i (length s)))"
| "pair_of i (JObj d) = (case d of [(a, _), (b, _)] \<Rightarrow> Inr (a, JStr b) | _ \<Rightarrow> Inl (bad_length i (length d)))"
| "pair_of i _ = Inl (TypeError (''cannot convert dictionary update sequence element #'' @ nat_str i @ '' to a sequence''))"

definition json_type :: "json \<Rightarrow> string" where
  "json_type v = (case v of JNull \<Rightarrow> ''NoneType'' | JBool _ \<Rightarrow> ''bool'' | JInt _ \<Rightarrow> ''int''
     | JFloat _ _ \<Rightarrow> ''float'' | JStr _ \<Rightarrow> ''str'' | JArr _ \<Rightarrow> ''list'' | JObj _ \<Rightarrow> ''dict'')"

definition dict_of :: "json \<Rightarrow> exc + obj" where
  "dict_of v = (case v of
       JObj d \<Rightarrow> Inr d
     | JArr xs \<Rightarrow> map_sum id (dict_merge []) (collect (map (\<lambda>(i, x). pair_of i x) (List.enumerate 0 xs)))
     | JStr s \<Rightarrow> if s = [] then Inr [] else Inl (bad_length 0 1)
     | _ \<Rightarrow> Inl (TypeError (repr_str (json_type v) @ '' object is not iterable'')))"

text \<open>The checkpoints of a run without a thread are kept under its own identifier.\<close>

definition checkpoint_thread :: "ExecutionIdentity \<Rightarrow> string" where
  "checkpoint_thread i = (case thread_key i of Some t \<Rightarrow> t | None \<Rightarrow> run_key i)"

definition protected_config :: "ExecutionIdentity \<Rightarrow> obj \<Rightarrow> obj" where
  "protected_config i configurable =
     [(''thread_id'', JStr (checkpoint_thread i)),
      (''checkpoint_ns'', get_or configurable ''checkpoint_ns'' (JStr '''')),
      (''checkpoint_id'', get_null configurable ''checkpoint_id''),
      (''assistant_id'', JStr (id_value (assistant_id i))),
      (''run_id'', JStr (run_key i))]"

definition protected_metadata :: "ExecutionIdentity \<Rightarrow> obj" where
  "protected_metadata i =
     [(''runtime.workspace_id'', JStr (id_value (workspace_id (scope i)))),
      (''runtime.project_id'', JStr (id_value (project_id (scope i)))),
      (''runtime.application_id'', JStr (id_value (application_id (scope i)))),
      (''runtime.revision_id'', JStr (id_value (revision_id (scope i)))),
      (''runtime.deployment_id'', JStr (id_value (deployment_id (scope i)))),
      (''runtime.assistant_id'', JStr (id_value (assistant_id i))),
      (''runtime.thread_id'', JStr (checkpoint_thread i)),
      (''runtime.run_id'', JStr (run_key i)),
      (''runtime.attempt_id'', JStr (id_value (attempt_id i)))]"

definition map_config :: "ExecutionRequest \<Rightarrow> exc + obj" where
  "map_config rq =
     (let i = rq_identity rq; config = rq_config rq in
      bindE (dict_of (get_or config ''configurable'' (JObj []))) (\<lambda>configurable.
      bindE (dict_of (get_or config ''metadata'' (JObj []))) (\<lambda>metadata.
      Inr (AList.update ''metadata'' (JObj (dict_merge metadata (protected_metadata i)))
            (AList.update ''configurable'' (JObj (dict_merge configurable (protected_config i configurable)))
              (AList.update ''run_id'' (JStr (run_key i)) config))))))"

subsection \<open>What the mappings guarantee\<close>

text \<open>Whatever the caller puts into the configuration, the graph sees the identity of the run.\<close>

lemma dict_ok_protected [simp]: "dict_ok (protected_config i c)" "dict_ok (protected_metadata i)"
  by (simp_all add: protected_config_def protected_metadata_def)

lemma map_config_shape:
  assumes "map_config rq = Inr c"
  obtains configurable metadata where
    "dict_of (get_or (rq_config rq) ''configurable'' (JObj [])) = Inr configurable"
    "dict_of (get_or (rq_config rq) ''metadata'' (JObj [])) = Inr metadata"
    "map_of c ''run_id'' = Some (JStr (run_key (rq_identity rq)))"
    "map_of c ''configurable'' = Some (JObj (dict_merge configurable (protected_config (rq_identity rq) configurable)))"
    "map_of c ''metadata'' = Some (JObj (dict_merge metadata (protected_metadata (rq_identity rq))))"
    "\<And>k. k \<notin> {''run_id'', ''configurable'', ''metadata''} \<Longrightarrow> map_of c k = map_of (rq_config rq) k"
proof -
  from assms obtain configurable metadata where
    cm: "dict_of (get_or (rq_config rq) ''configurable'' (JObj [])) = Inr configurable"
      "dict_of (get_or (rq_config rq) ''metadata'' (JObj [])) = Inr metadata"
      "c = AList.update ''metadata'' (JObj (dict_merge metadata (protected_metadata (rq_identity rq))))
            (AList.update ''configurable''
              (JObj (dict_merge configurable (protected_config (rq_identity rq) configurable)))
              (AList.update ''run_id'' (JStr (run_key (rq_identity rq))) (rq_config rq)))"
    by (auto simp: map_config_def Let_def bindE_Inr)
  show ?thesis
    by (rule that [OF cm(1,2)]) (use cm(3) in \<open>auto simp: map_of_update_fun\<close>)
qed

lemma map_config_total:
  assumes "is_obj (get_or (rq_config rq) ''configurable'' (JObj []))"
    and "is_obj (get_or (rq_config rq) ''metadata'' (JObj []))"
  shows "\<exists>c. map_config rq = Inr c"
  using assms by (auto simp: map_config_def Let_def dict_of_def elim!: is_obj.elims)

text \<open>No chunk becomes a terminal event, and every draft carries the identity of the request.\<close>

lemma stream_event_type_plain: "\<not> ev_in (Ev (stream_event_type m p)) terminal_events"
  by (simp add: stream_event_type_def Let_def ev_in_def terminal_events_def)

lemma map_chunk_draft:
  assumes "map_chunk rq m c = Inr d"
  shows "\<not> ev_in (dr_type d) terminal_events" and "dr_identity d = rq_identity rq"
    and "\<exists>t. dr_type d = Ev t \<and> t \<noteq> INTERRUPT_CREATED"
  using assms stream_event_type_plain
  by (auto simp: map_chunk_def bindE_Inr stream_event_type_def Let_def)

lemma map_chunks_drafts:
  "d \<in> set (fst (map_chunks rq m cs e)) \<Longrightarrow> \<exists>c. map_chunk rq m c = Inr d"
  by (induction rq m cs e rule: map_chunks.induct) (auto split: sum.splits prod.splits)

lemma map_stream_drafts:
  "d \<in> set (fst (map_stream st rq)) \<Longrightarrow> \<exists>m c. map_chunk rq m c = Inr d"
  by (force simp: map_stream_def split: list.splits dest: map_chunks_drafts)

text \<open>When every chunk can be translated, the stream has one draft per chunk and the ending of the graph.\<close>

lemma map_chunks_all:
  "list_all2 (\<lambda>c d. map_chunk rq m c = Inr d) cs ds \<Longrightarrow> map_chunks rq m cs e = (ds, e)"
  by (induction cs ds rule: list_all2_induct) auto

text \<open>What leaves the mapper is JSON data with unique keys, for every object of the framework.\<close>

lemma map_sum_id_Inr: "map_sum id f r = Inr y \<longleftrightarrow> (\<exists>x. r = Inr x \<and> y = f x)"
  by (cases r) auto

lemma collect_map_Inr: "collect (map f xs) = Inr ys \<longleftrightarrow> list_all2 (\<lambda>x y. f x = Inr y) xs ys"
  by (auto simp: collect_Inr list_all2_conv_all_nth list_eq_iff_nth_eq)

lemma list_all2_origin: "list_all2 P xs ys \<Longrightarrow> y \<in> set ys \<Longrightarrow> \<exists>x \<in> set xs. P x y"
  by (induction rule: list_all2_induct) auto

abbreviation values_ok :: "obj \<Rightarrow> bool" where
  "values_ok d \<equiv> \<forall>v \<in> snd ` set d. json_ok v"

lemma values_ok_dict_merge: "values_ok d \<Longrightarrow> values_ok e \<Longrightarrow> values_ok (dict_merge d e)"
proof (induction e arbitrary: d)
  case (Cons p e)
  obtain k v where p: "p = (k, v)" by fastforce
  have "set (AList.update k v d) \<subseteq> insert (k, v) (set d)" by (induction d) auto
  with Cons.prems p have "values_ok (AList.update k v d)" by fastforce
  with Cons.IH Cons.prems p show ?case by (simp add: dict_merge_def)
qed (simp add: dict_merge_def)

lemma json_ok_obj: "json_ok (JObj d) \<longleftrightarrow> dict_ok d \<and> values_ok d"
  by (auto simp: list_all_iff)

lemma safe_items:
  assumes "\<And>x j. x \<in> set xs \<Longrightarrow> json_safe x = Inr j \<Longrightarrow> json_ok j"
    and "collect (map json_safe xs) = Inr ys"
  shows "json_ok (JArr ys)"
  using assms by (auto simp: collect_map_Inr list_all_iff dest!: list_all2_origin)

lemma json_safe_ok: "json_safe v = Inr j \<Longrightarrow> json_ok j"
proof (induction v arbitrary: j)
  case (PList xs)
  then show ?case using safe_items [of xs] by (auto simp: map_sum_id_Inr simp del: json_ok.simps)
next
  case (PTuple xs)
  then show ?case using safe_items [of xs] by (auto simp: map_sum_id_Inr simp del: json_ok.simps)
next
  case (PDict d)
  then obtain kvs where kvs: "j = JObj (dict_merge [] kvs)"
    "list_all2 (\<lambda>p q. map_sum id (Pair (key_str (fst p))) (json_safe (snd p)) = Inr q) d kvs"
    by (auto simp: map_sum_id_Inr collect_map_Inr case_prod_unfold comp_def)
  have "json_ok w" if w: "(k, w) \<in> set kvs" for k w
  proof -
    from w kvs(2) obtain p where "p \<in> set d" "json_safe (snd p) = Inr w"
      by (auto dest!: list_all2_origin simp: map_sum_id_Inr)
    then show ?thesis using PDict.IH [of p "snd p" w] by (simp add: snds.simps prod_eq_iff)
  qed
  then have "values_ok (dict_merge [] kvs)" by (intro values_ok_dict_merge) auto
  then show ?case unfolding kvs(1) json_ok_obj by simp
next
  case (PInst cls s rp valued dumped items)
  show ?case
  proof (cases valued)
    case None
    with PInst.prems obtain x where x: "dumped = Some (Inr x)" "json_safe x = Inr j"
      by (auto simp: map_sum_id_Inr split: option.splits sum.splits)
    show ?thesis by (rule PInst.IH(2) [of "Inr x" x]) (use x in auto)
  next
    case (Some p)
    then obtain v i where p: "valued = Some (v, i)" by (cases p) auto
    with PInst.prems obtain x where "json_safe v = Inr x" "j = JObj [(''value'', x), (''id'', JStr i)]"
      by (auto simp: map_sum_id_Inr)
    with PInst.IH(1) [of "(v, i)" v] p show ?thesis by auto
  qed
qed auto

end
