(* ===== verification/LangGraph_Loading.thy ===== *)
theory LangGraph_Loading
  imports LangGraph_Stream
begin

section \<open>LangGraph: detecting, loading and composing a graph\<close>

text \<open>
  Models \<^verbatim>\<open>descriptor.py\<close>, \<^verbatim>\<open>detector.py\<close>, \<^verbatim>\<open>loader.py\<close>, \<^verbatim>\<open>persistence.py\<close>, \<^verbatim>\<open>manifest.py\<close>,
  \<^verbatim>\<open>compatibility.py\<close> and the constructor of \<^verbatim>\<open>adapter.py\<close> under \<^verbatim>\<open>adapters/langgraph\<close>.  A target is
  whatever the application exports: a compiled graph, a builder with \<open>compile\<close>, or a factory to call.
  Its attributes and methods are the parameter of the model; \<open>'g\<close> is the state behind them (the
  checkpoints and the store), which only the methods of the graph change.
\<close>

subsection \<open>The objects of the application\<close>

text \<open>A checkpointer: the module of its class, and which object it is.\<close>

datatype saver = Saver string nat

fun saver_module :: "saver \<Rightarrow> string" where
  "saver_module (Saver m _) = m"

datatype graph_input = PlainInput json | ResumeInput json

datatype mode_arg = OneMode string | ManyModes "string list"

record StreamArgs =
  sa_config :: obj
  sa_stream_mode :: mode_arg
  sa_subgraphs :: bool
  sa_context :: "obj option"

record InvokeArgs =
  ia_config :: obj
  ia_context :: "obj option"

record HistoryArgs =
  ha_before :: "json option"
  ha_limit :: "json option"
  ha_filter :: "json option"

record StoreItem =
  si_namespace :: "string list"
  si_key :: string
  si_value :: json
  si_created_at :: "datetime option"
  si_updated_at :: "datetime option"
  si_score :: json

text \<open>A method that yields: the items, the exception it ends with, and the state it leaves when its
  consumer stops: after the first \<open>n\<close> items, or, for \<open>n\<close> one more than there are items, after its end.\<close>

type_synonym ('g, 'a) stream = "'g \<Rightarrow> ('a list \<times> exc option) \<times> (nat \<Rightarrow> 'g)"

record 'g Store =
  st_id :: nat
  st_aput :: "string list \<Rightarrow> string \<Rightarrow> json \<Rightarrow> json option \<Rightarrow> ('g, exc, unit) prog"
  st_aget :: "string list \<Rightarrow> string \<Rightarrow> ('g, exc, StoreItem option) prog"
  st_adelete :: "string list \<Rightarrow> string \<Rightarrow> ('g, exc, unit) prog"
  st_asearch :: "string list \<Rightarrow> json \<Rightarrow> int \<Rightarrow> int \<Rightarrow> ('g, StoreItem) stream"
  st_alist_namespaces ::
    "string list option \<Rightarrow> string list option \<Rightarrow> json \<Rightarrow> int \<Rightarrow> int \<Rightarrow> ('g, string list) stream"

record 'g GraphObject =
  go_class :: string
  go_module :: string
  go_astream :: "(graph_input \<Rightarrow> StreamArgs \<Rightarrow> ('g, pyobj) stream) option"
  go_ainvoke :: "(graph_input \<Rightarrow> InvokeArgs \<Rightarrow> ('g, exc, pyobj) prog) option"
  go_aget_state :: "(obj \<Rightarrow> ('g, exc, pyobj) prog) option"
  go_aget_state_history :: "(obj \<Rightarrow> HistoryArgs \<Rightarrow> ('g, pyobj) stream) option"
  go_aupdate_state :: "(obj \<Rightarrow> json \<Rightarrow> ('g, exc, pyobj) prog) option"
  go_get_graph :: "bool \<Rightarrow> exc + json"
  go_aget_subgraphs :: "('g, string \<times> (exc + json)) stream"
  go_checkpointer :: "saver option"
  go_store :: "'g Store option"
  go_name :: pyobj
  go_graph_id :: pyobj
  go_universal_runtime :: pyobj
  go_runtime_profile :: pyobj
  go_config :: "pyobj option"
  go_schema_method :: "string \<Rightarrow> (exc + pyobj) option"
  go_schema_attribute :: "string \<Rightarrow> exc + pyobj \<times> string list"

type_synonym 'g providers = "saver option \<times> 'g Store option"

text \<open>\<open>compile\<close> and a call, where the target has them, take the providers as keyword arguments; a
  provider that is \<open>None\<close> is not passed.\<close>

datatype 'g target =
  Target "'g GraphObject" "('g providers \<Rightarrow> exc + 'g target) option" "('g providers \<Rightarrow> exc + 'g target) option"

fun attrs :: "'g target \<Rightarrow> 'g GraphObject" where
  "attrs (Target g _ _) = g"

fun compile_of :: "'g target \<Rightarrow> ('g providers \<Rightarrow> exc + 'g target) option" where
  "compile_of (Target _ c _) = c"

fun call_of :: "'g target \<Rightarrow> ('g providers \<Rightarrow> exc + 'g target) option" where
  "call_of (Target _ _ f) = f"

subsection \<open>compatibility.py, descriptor.py and detector.py\<close>

definition is_supported_graph_object :: "'g target \<Rightarrow> bool" where
  "is_supported_graph_object t \<longleftrightarrow> go_ainvoke (attrs t) \<noteq> None \<and> go_astream (attrs t) \<noteq> None"

definition is_compiled_graph :: "'g target \<Rightarrow> bool" where
  "is_compiled_graph t \<longleftrightarrow> go_astream (attrs t) \<noteq> None \<and> go_ainvoke (attrs t) \<noteq> None"

datatype LangGraphProfile = LANGGRAPH | LANGCHAIN_AGENT | DEEPAGENTS

datatype GraphObjectKind = COMPILED | FACTORY | BUILDER | AGENT

record LangGraphDescriptor =
  de_profile :: LangGraphProfile
  de_entrypoint :: string
  de_object_kind :: GraphObjectKind
  de_graph_id :: string
  de_has_checkpointer :: bool
  de_has_store :: bool
  de_input_schema :: "pyobj option"
  de_output_schema :: "pyobj option"
  de_state_schema :: "pyobj option"
  de_config_schema :: "pyobj option"
  de_context_schema :: "pyobj option"

definition profile_of :: "string \<Rightarrow> LangGraphProfile option" where
  "profile_of s = map_of [(''langgraph'', LANGGRAPH), (''langchain-agent'', LANGCHAIN_AGENT),
     (''deepagents'', DEEPAGENTS)] s"

fun obj_truthy :: "pyobj \<Rightarrow> bool" where
  "obj_truthy PNone = False"
| "obj_truthy (PBool b) = b"
| "obj_truthy (PInt i) = (i \<noteq> 0)"
| "obj_truthy (PFloat r _) = (r \<noteq> 0)"
| "obj_truthy (PStr s) = (s \<noteq> [])"
| "obj_truthy (PList xs) = (xs \<noteq> [])"
| "obj_truthy (PTuple xs) = (xs \<noteq> [])"
| "obj_truthy (PDict d) = (d \<noteq> [])"
| "obj_truthy (PInst _ _ _ _ _ _) = True"

definition schema_method :: "string \<Rightarrow> string option" where
  "schema_method name = map_of [(''input_schema'', ''get_input_jsonschema''),
     (''output_schema'', ''get_output_jsonschema''), (''config_schema'', ''get_config_jsonschema''),
     (''context_schema'', ''get_context_jsonschema'')] name"

text \<open>The schema a method of the target returns, if it is a dictionary; what the method raises is only
  logged.\<close>

definition called_schema :: "'g GraphObject \<Rightarrow> string \<Rightarrow> pyobj option" where
  "called_schema g m = (case go_schema_method g m of Some (Inr (PDict d)) \<Rightarrow> Some (PDict d) | _ \<Rightarrow> None)"

definition attribute_schema :: "'g GraphObject \<Rightarrow> string \<Rightarrow> pyobj option" where
  "attribute_schema g name = (case go_schema_attribute g name of
       Inl _ \<Rightarrow> None
     | Inr (PNone, _) \<Rightarrow> None
     | Inr (PDict d, _) \<Rightarrow> Some (PDict d)
     | Inr (v, annotated) \<Rightarrow> Some (if annotated \<noteq> []
         then PDict [(KeyText ''fields'', PList (map PStr annotated))]
         else PDict [(KeyText ''type'', PStr (obj_repr v))]))"

definition schema_of :: "'g GraphObject \<Rightarrow> string \<Rightarrow> pyobj option" where
  "schema_of g name =
     (case Option.bind (schema_method name) (called_schema g) of
        Some s \<Rightarrow> Some s
      | None \<Rightarrow>
          (case (if name = ''state_schema'' then called_schema g ''get_input_jsonschema'' else None) of
             Some s \<Rightarrow> Some s
           | None \<Rightarrow> attribute_schema g name))"

definition export_metadata :: "'g GraphObject \<Rightarrow> (pykey \<times> pyobj) list" where
  "export_metadata g = (case go_universal_runtime g of
       PDict d \<Rightarrow> d
     | _ \<Rightarrow> if go_runtime_profile g \<noteq> PNone then [(KeyText ''profile'', go_runtime_profile g)]
         else (case Option.bind (go_config g) (\<lambda>c. field_of c ''metadata'') of
             Some (PDict d) \<Rightarrow> d
           | _ \<Rightarrow> []))"

text \<open>\<open>metadata.get(name)\<close>, where a missing key and \<open>None\<close> are the same.\<close>

definition meta_get :: "(pykey \<times> pyobj) list \<Rightarrow> string \<Rightarrow> pyobj" where
  "meta_get d k = (case map_of d (KeyText k) of None \<Rightarrow> PNone | Some v \<Rightarrow> v)"

definition profile_from_metadata :: "(pykey \<times> pyobj) list \<Rightarrow> LangGraphProfile option" where
  "profile_from_metadata d =
     (let v = (case map_of d (KeyText ''profile'') of Some v \<Rightarrow> v | None \<Rightarrow> meta_get d ''runtime_profile'') in
      if v \<noteq> PNone then profile_of (obj_str v)
      else map_of [(''deepagents'', DEEPAGENTS), (''langchain_create_agent'', LANGCHAIN_AGENT)]
        (obj_str (meta_get d ''ls_integration'')))"

definition resolved_profile :: "'g GraphObject \<Rightarrow> LangGraphProfile option \<Rightarrow> LangGraphProfile" where
  "resolved_profile g profile =
     (case profile of
        Some p \<Rightarrow> p
      | None \<Rightarrow> (case profile_from_metadata (export_metadata g) of
          Some p \<Rightarrow> p
        | None \<Rightarrow> if is_prefix ''deepagents'' (py_lower (go_module g)) then DEEPAGENTS
            else if is_prefix ''langchain'' (py_lower (go_module g)) then LANGCHAIN_AGENT
            else LANGGRAPH))"

definition detect_graph :: "'g target \<Rightarrow> string \<Rightarrow> LangGraphProfile option \<Rightarrow> LangGraphDescriptor" where
  "detect_graph t entrypoint profile =
     (let g = attrs t; compiled = is_compiled_graph t; p = resolved_profile g profile in
      \<lparr> de_profile = p, de_entrypoint = entrypoint,
        de_object_kind =
          (if compiled \<and> p \<noteq> LANGGRAPH then AGENT
           else if compiled then COMPILED else if call_of t \<noteq> None then FACTORY else BUILDER),
        de_graph_id = (if obj_truthy (go_name g) then obj_str (go_name g)
          else if obj_truthy (go_graph_id g) then obj_str (go_graph_id g) else entrypoint),
        de_has_checkpointer = (go_checkpointer g \<noteq> None), de_has_store = (go_store g \<noteq> None),
        de_input_schema = schema_of g ''input_schema'', de_output_schema = schema_of g ''output_schema'',
        de_state_schema = schema_of g ''state_schema'', de_config_schema = schema_of g ''config_schema'',
        de_context_schema = schema_of g ''context_schema'' \<rparr>)"

subsection \<open>persistence.py\<close>

datatype PersistenceProvider = MEMORY_PROVIDER | POSTGRES_PROVIDER | DISABLED_PROVIDER

record 'g PersistenceProviders =
  pp_checkpointer :: "saver option"
  pp_store :: "'g Store option"
  pp_provider :: PersistenceProvider
  pp_session_affinity :: session_affinity

text \<open>\<open>memory\<close> is a fresh \<open>InMemorySaver()\<close> and \<open>InMemoryStore()\<close>.\<close>

definition local_persistence :: "saver \<times> 'g Store \<Rightarrow> string \<Rightarrow> 'g PersistenceProviders" where
  "local_persistence memory mode =
     (if mode = ''disabled''
      then \<lparr> pp_checkpointer = None, pp_store = None, pp_provider = DISABLED_PROVIDER, pp_session_affinity = AFF_NONE \<rparr>
      else \<lparr> pp_checkpointer = Some (fst memory), pp_store = Some (snd memory), pp_provider = MEMORY_PROVIDER,
             pp_session_affinity = AFF_REQUIRED \<rparr>)"

definition postgres_persistence :: "saver \<Rightarrow> 'g Store option \<Rightarrow> 'g PersistenceProviders" where
  "postgres_persistence checkpointer store =
     \<lparr> pp_checkpointer = Some checkpointer, pp_store = store, pp_provider = POSTGRES_PROVIDER,
       pp_session_affinity = AFF_NONE \<rparr>"

definition invalid_persistence :: "string \<Rightarrow> exc" where
  "invalid_persistence message = LangGraphAdapterError LG_INVALID_PERSISTENCE message"

definition validate_persistence :: "string \<Rightarrow> bool \<Rightarrow> exc + unit" where
  "validate_persistence mode has_checkpointer =
     (if mode \<notin> {''disabled'', ''platform-managed'', ''application-managed''}
      then Inl (invalid_persistence (''unknown persistence mode: '' @ mode))
      else if mode = ''platform-managed'' \<and> has_checkpointer
      then Inl (invalid_persistence ''application supplied a checkpointer in platform-managed mode'')
      else Inr ())"

subsection \<open>loader.py\<close>

definition no_providers :: "'g providers \<Rightarrow> bool" where
  "no_providers kw \<longleftrightarrow> fst kw = None \<and> snd kw = None"

definition unexpected_keyword :: "exc \<Rightarrow> bool" where
  "unexpected_keyword e = (case e of TypeError m \<Rightarrow> contains ''unexpected keyword'' m | _ \<Rightarrow> False)"

definition compile_target :: "('g providers \<Rightarrow> exc + 'g target) \<Rightarrow> 'g providers \<Rightarrow> exc + 'g target" where
  "compile_target compile kw = (case compile kw of
       Inl e \<Rightarrow> if \<not> no_providers kw \<and> unexpected_keyword e
         then Inl (invalid_persistence ''graph builder does not accept managed persistence providers'')
         else Inl e
     | Inr g \<Rightarrow> Inr g)"

text \<open>A factory that does not take the providers is called again without them; then it must return a
  builder, which is compiled with them.\<close>

definition call_factory :: "('g providers \<Rightarrow> exc + 'g target) \<Rightarrow> 'g providers \<Rightarrow> exc + 'g target" where
  "call_factory factory kw =
     bindE (case factory kw of
              Inl e \<Rightarrow> if \<not> no_providers kw \<and> unexpected_keyword e
                then map_sum id (Pair True) (factory (None, None)) else Inl e
            | Inr r \<Rightarrow> Inr (False, r)) (\<lambda>(fallback, r).
       case compile_of r of
         Some c \<Rightarrow> compile_target c kw
       | None \<Rightarrow>
           if \<not> is_compiled_graph r
           then Inl (LangGraphAdapterError LG_INVALID_GRAPH ''factory did not return a compiled graph or graph builder'')
           else if fallback
           then Inl (invalid_persistence ''compiled factory did not accept managed persistence providers'')
           else Inr r)"

definition load_graph :: "'g target \<Rightarrow> 'g providers \<Rightarrow> exc + 'g target" where
  "load_graph t kw =
     (if is_compiled_graph t
      then if \<not> no_providers kw
        then Inl (invalid_persistence ''persistence providers must be injected by a graph factory or builder'')
        else Inr t
      else (case compile_of t of
          Some c \<Rightarrow> compile_target c kw
        | None \<Rightarrow> (case call_of t of
            Some f \<Rightarrow> call_factory f kw
          | None \<Rightarrow> Inl (LangGraphAdapterError LG_INVALID_GRAPH ''target is not a LangGraph executable''))))"

text \<open>\<open>entrypoint.split(":", 1)\<close>; the import of the module is a parameter.\<close>

definition split_entrypoint :: "string \<Rightarrow> (string \<times> string) option" where
  "split_entrypoint s = (if CHR '':'' \<in> set s
     then Some (takeWhile (\<lambda>c. c \<noteq> CHR '':'') s, tl (dropWhile (\<lambda>c. c \<noteq> CHR '':'') s)) else None)"

definition load_entrypoint ::
  "(string \<Rightarrow> string \<Rightarrow> exc + 'g target) \<Rightarrow> string \<Rightarrow> 'g providers \<Rightarrow> exc + 'g target" where
  "load_entrypoint import_attribute entrypoint kw =
     (case (case split_entrypoint entrypoint of
              None \<Rightarrow> Inl (ValueError ''not enough values to unpack (expected 2, got 1)'')
            | Some (m, a) \<Rightarrow> bindE (import_attribute m a) (\<lambda>t. load_graph t kw)) of
        Inr g \<Rightarrow> Inr g
      | Inl (LangGraphAdapterError c m) \<Rightarrow> Inl (LangGraphAdapterError c m)
      | Inl e \<Rightarrow> if is_exception e then Inl (LangGraphAdapterError LG_LOAD_FAILED (''could not load '' @ entrypoint))
          else Inl e)"

subsection \<open>manifest.py and the constructor of the adapter\<close>

definition langgraph_manifest :: "session_affinity \<Rightarrow> AdapterManifest" where
  "langgraph_manifest affinity =
     \<lparr> mf_adapter_id = ''langgraph'', mf_adapter_version = ''1'', mf_profiles = set runtime_profiles,
       mf_stream_modes = set stream_mode_names,
       mf_capabilities = \<lparr> cap_streaming = True, cap_cancellation = True, cap_history = True,
         cap_checkpoint = True, cap_state_management = True, cap_interrupt = True, cap_resume = True,
         cap_fork = False, cap_custom_http = False, cap_a2a = False, cap_subagents = True \<rparr>,
       mf_identity = \<lparr> accepts_thread_id = True, accepts_run_id = True \<rparr>, mf_session_affinity = affinity \<rparr>"

record 'g LangGraphAdapter =
  la_persistence_mode :: string
  la_providers :: "'g PersistenceProviders"
  la_graph :: "'g target"
  la_descriptor :: LangGraphDescriptor
  la_manifest :: AdapterManifest

definition manifest_for_graph ::
  "string \<Rightarrow> 'g PersistenceProviders \<Rightarrow> 'g target \<Rightarrow> LangGraphDescriptor \<Rightarrow> AdapterManifest \<Rightarrow> AdapterManifest" where
  "manifest_for_graph mode providers graph de m =
     (let g = attrs graph;
          enabled = (de_has_checkpointer de \<and> (mode \<noteq> ''disabled'' \<or> pp_provider providers \<noteq> DISABLED_PROVIDER))
      in m \<lparr> mf_session_affinity :=
               (if mode = ''application-managed'' \<and> de_has_checkpointer de
                then (case go_checkpointer g of
                    Some c \<Rightarrow> if contains ''checkpoint.memory'' (saver_module c) then AFF_REQUIRED else AFF_NONE
                  | None \<Rightarrow> AFF_NONE)
                else mf_session_affinity m),
             mf_capabilities := (mf_capabilities m)
               \<lparr> cap_cancellation := True, cap_history := enabled \<and> go_aget_state_history g \<noteq> None,
                 cap_checkpoint := enabled,
                 cap_state_management := enabled \<and> (go_aget_state g \<noteq> None \<or> go_aupdate_state g \<noteq> None),
                 cap_interrupt := enabled, cap_resume := enabled \<rparr> \<rparr>)"

definition selected_providers ::
  "saver \<times> 'g Store \<Rightarrow> string \<Rightarrow> 'g PersistenceProviders option \<Rightarrow> 'g PersistenceProviders" where
  "selected_providers memory mode providers = (case providers of
     Some p \<Rightarrow> p
   | None \<Rightarrow> if mode = ''platform-managed'' then local_persistence memory ''platform-managed''
       else local_persistence memory ''disabled'')"

definition new_langgraph_adapter ::
  "saver \<times> 'g Store \<Rightarrow> 'g target \<Rightarrow> string \<Rightarrow> 'g PersistenceProviders option \<Rightarrow> exc + 'g LangGraphAdapter" where
  "new_langgraph_adapter memory t mode providers =
     bindE (validate_persistence mode (de_has_checkpointer (detect_graph t ''<object>'' None))) (\<lambda>_.
     let selected = selected_providers memory mode providers in
     bindE (load_graph t (pp_checkpointer selected, pp_store selected)) (\<lambda>graph.
     let de = detect_graph graph ''<object>'' None in
     Inr \<lparr> la_persistence_mode = mode, la_providers = selected, la_graph = graph, la_descriptor = de,
           la_manifest = manifest_for_graph mode selected graph de
             (langgraph_manifest (pp_session_affinity selected)) \<rparr>))"

subsection \<open>What loading guarantees\<close>

text \<open>How a target that is not compiled becomes a graph that has received the providers: its builder, or
  the builder its factory returns, is compiled with them, or the factory itself takes them.\<close>

definition built_with :: "'g providers \<Rightarrow> 'g target \<Rightarrow> 'g target \<Rightarrow> bool" where
  "built_with kw t g \<longleftrightarrow>
     (\<exists>c. compile_of t = Some c \<and> c kw = Inr g)
     \<or> (\<exists>f r c. compile_of t = None \<and> call_of t = Some f \<and> f kw = Inr r \<and> compile_of r = Some c \<and> c kw = Inr g)
     \<or> (\<exists>f r c e. compile_of t = None \<and> call_of t = Some f \<and> f kw = Inl e \<and> unexpected_keyword e
          \<and> f (None, None) = Inr r \<and> compile_of r = Some c \<and> c kw = Inr g)
     \<or> (\<exists>f. compile_of t = None \<and> call_of t = Some f \<and> f kw = Inr g \<and> compile_of g = None \<and> is_compiled_graph g)"

lemma compile_target_Inr: "compile_target c kw = Inr g \<longleftrightarrow> c kw = Inr g"
  by (simp add: compile_target_def split: sum.splits)

lemma load_graph_providers:
  assumes "load_graph t kw = Inr g"
  shows "if is_compiled_graph t then g = t \<and> no_providers kw else built_with kw t g"
proof (cases "is_compiled_graph t")
  case True
  then show ?thesis using assms by (simp add: load_graph_def split: if_splits)
next
  case False
  show ?thesis
  proof (cases "compile_of t")
    case (Some c)
    then show ?thesis using False assms by (simp add: load_graph_def compile_target_Inr built_with_def)
  next
    case None
    with False assms obtain f where f: "call_of t = Some f" "call_factory f kw = Inr g"
      by (auto simp: load_graph_def split: option.splits)
    let ?first = "case f kw of Inl e \<Rightarrow> if \<not> no_providers kw \<and> unexpected_keyword e
        then map_sum id (Pair True) (f (None, None)) else Inl e | Inr r \<Rightarrow> Inr (False, r)"
    from f(2) obtain fb r where r: "?first = Inr (fb, r)" and
      fin: "(case compile_of r of Some c \<Rightarrow> compile_target c kw
        | None \<Rightarrow> if \<not> is_compiled_graph r
            then Inl (LangGraphAdapterError LG_INVALID_GRAPH ''factory did not return a compiled graph or graph builder'')
            else if fb then Inl (invalid_persistence ''compiled factory did not accept managed persistence providers'')
            else Inr r) = Inr g"
      unfolding call_factory_def bindE_Inr by auto
    have alt: "(\<exists>c. compile_of r = Some c \<and> c kw = Inr g) \<or> (compile_of r = None \<and> is_compiled_graph r \<and> \<not> fb \<and> r = g)"
      using fin by (auto simp: compile_target_Inr split: option.splits if_splits)
    from r alt f(1) None False show ?thesis
      by (simp add: built_with_def map_sum_id_Inr split: sum.splits if_splits) blast+
  qed
qed

lemma validate_persistence_Inr:
  "validate_persistence mode has = Inr () \<longleftrightarrow>
   mode \<in> {''disabled'', ''platform-managed'', ''application-managed''} \<and> \<not> (mode = ''platform-managed'' \<and> has)"
  by (auto simp: validate_persistence_def)

lemma new_adapter_parts:
  assumes "new_langgraph_adapter memory t mode providers = Inr a"
  shows "validate_persistence mode (go_checkpointer (attrs t) \<noteq> None) = Inr ()"
    and "la_providers a = selected_providers memory mode providers"
    and "load_graph t (pp_checkpointer (la_providers a), pp_store (la_providers a)) = Inr (la_graph a)"
    and "la_descriptor a = detect_graph (la_graph a) ''<object>'' None"
    and "la_persistence_mode a = mode"
    and "la_manifest a = manifest_for_graph mode (la_providers a) (la_graph a) (la_descriptor a)
      (langgraph_manifest (pp_session_affinity (la_providers a)))"
proof -
  have has: "de_has_checkpointer (detect_graph t ''<object>'' None) = (go_checkpointer (attrs t) \<noteq> None)"
    by (simp add: detect_graph_def Let_def)
  let ?p = "selected_providers memory mode providers"
  from assms obtain g where
    v: "validate_persistence mode (go_checkpointer (attrs t) \<noteq> None) = Inr ()" and
    g: "load_graph t (pp_checkpointer ?p, pp_store ?p) = Inr g" and
    a: "a = \<lparr> la_persistence_mode = mode, la_providers = ?p, la_graph = g,
      la_descriptor = detect_graph g ''<object>'' None,
      la_manifest = manifest_for_graph mode ?p g (detect_graph g ''<object>'' None)
        (langgraph_manifest (pp_session_affinity ?p)) \<rparr>"
    unfolding new_langgraph_adapter_def bindE_Inr has Let_def by auto
  show "validate_persistence mode (go_checkpointer (attrs t) \<noteq> None) = Inr ()" by (rule v)
  show "load_graph t (pp_checkpointer (la_providers a), pp_store (la_providers a)) = Inr (la_graph a)"
    using g by (simp add: a)
  show "la_providers a = ?p" "la_descriptor a = detect_graph (la_graph a) ''<object>'' None"
    "la_persistence_mode a = mode"
    "la_manifest a = manifest_for_graph mode (la_providers a) (la_graph a) (la_descriptor a)
      (langgraph_manifest (pp_session_affinity (la_providers a)))"
    by (simp_all add: a)
qed

text \<open>The capabilities the manifest announces are backed by the graph.\<close>

lemma manifest_capabilities:
  assumes "new_langgraph_adapter memory t mode providers = Inr a"
  defines "c \<equiv> mf_capabilities (la_manifest a)"
  shows "cap_checkpoint c \<Longrightarrow> go_checkpointer (attrs (la_graph a)) \<noteq> None"
    and "cap_history c \<Longrightarrow> cap_checkpoint c \<and> go_aget_state_history (attrs (la_graph a)) \<noteq> None"
    and "cap_state_management c \<Longrightarrow> cap_checkpoint c
      \<and> (go_aget_state (attrs (la_graph a)) \<noteq> None \<or> go_aupdate_state (attrs (la_graph a)) \<noteq> None)"
    and "cap_resume c = cap_checkpoint c" and "cap_interrupt c = cap_checkpoint c" and "cap_streaming c"
  using new_adapter_parts(4,6) [OF assms(1)]
  by (simp_all add: c_def manifest_for_graph_def Let_def langgraph_manifest_def detect_graph_def)

end
