(* ===== verification/LangGraph_Adapter.thy ===== *)
theory LangGraph_Adapter
  imports LangGraph_Loading Datetime Runtime_Execution
begin

section \<open>LangGraph: the operations of the adapter\<close>

text \<open>
  Models the methods of \<open>LangGraphAdapter\<close> (\<^verbatim>\<open>adapters/langgraph/adapter.py\<close>) with
  \<^verbatim>\<open>state_adapter.py\<close> and \<^verbatim>\<open>interrupt_adapter.py\<close>, and shows how a stream of the adapter drives the
  runtime service.  The state of the adapter is the dictionary of its running tasks, beside the state of
  the graph.
\<close>

record 'g LgState =
  ls_tasks :: "(string, nat) pydict"
  ls_graph :: 'g

type_synonym ('g, 'a) lg = "('g LgState, exc, 'a) prog"

abbreviation on_graph :: "('g, exc, 'a) prog \<Rightarrow> ('g, 'a) lg" where
  "on_graph \<equiv> zoomM ls_graph (\<lambda>c. ls_graph_update (\<lambda>_. c))"

definition register_task :: "string \<Rightarrow> nat option \<Rightarrow> 'g LgState \<Rightarrow> 'g LgState" where
  "register_task key task s = (case task of
     Some t \<Rightarrow> s \<lparr> ls_tasks := AList.update key t (ls_tasks s) \<rparr> | None \<Rightarrow> s)"

definition pop_task :: "string \<Rightarrow> 'g LgState \<Rightarrow> 'g LgState" where
  "pop_task key s = s \<lparr> ls_tasks := AList.delete key (ls_tasks s) \<rparr>"

abbreviation graph_of :: "'g LangGraphAdapter \<Rightarrow> 'g GraphObject" where
  "graph_of a \<equiv> attrs (la_graph a)"

text \<open>\<open>graph.name\<close> for an attribute the graph may lack.\<close>

definition method_of :: "'g GraphObject \<Rightarrow> string \<Rightarrow> 'f option \<Rightarrow> exc + 'f" where
  "method_of g name m = (case m of Some f \<Rightarrow> Inr f
     | None \<Rightarrow> Inl (AttributeError (repr_str (go_class g) @ '' object has no attribute '' @ repr_str name)))"

definition lg_payload :: "ExecutionRequest \<Rightarrow> json" where
  "lg_payload rq = (if rq_command rq \<noteq> JNull then rq_command rq else rq_input rq)"

definition lg_context :: "ExecutionRequest \<Rightarrow> obj option" where
  "lg_context rq = (if rq_context rq \<noteq> [] then Some (rq_context rq) else None)"

text \<open>\<open>isinstance(exc, TypeError) and "context" in str(exc)\<close>.\<close>

definition mentions_context :: "exc \<Rightarrow> bool" where
  "mentions_context e = (case e of TypeError m \<Rightarrow> contains ''context'' m | _ \<Rightarrow> False)"

subsection \<open>inspect, get_graph, get_subgraphs\<close>

definition lg_inspect :: "'g LangGraphAdapter \<Rightarrow> 'g target option \<Rightarrow> LangGraphDescriptor" where
  "lg_inspect a t = detect_graph (case t of None \<Rightarrow> la_graph a | Some t \<Rightarrow> t) ''<object>'' None"

definition lg_get_graph :: "'g LangGraphAdapter \<Rightarrow> bool \<Rightarrow> exc + json" where
  "lg_get_graph a xray = go_get_graph (graph_of a) xray"

text \<open>An asynchronous comprehension: the items of a method that is consumed to its end.\<close>

definition consume :: "('g, 'a) stream \<Rightarrow> ('g, exc, 'a list) prog" where
  "consume m = (\<lambda>g. let ((xs, e), left) = m g in
     (case e of Some e \<Rightarrow> Inl e | None \<Rightarrow> Inr xs, left (Suc (length xs))))"

definition lg_get_subgraphs :: "'g LangGraphAdapter \<Rightarrow> ('g, exc, obj) prog" where
  "lg_get_subgraphs a = (\<lambda>g. let ((xs, e), left) = go_aget_subgraphs (graph_of a) g in
     case collect (map (\<lambda>(ns, r). map_sum id (Pair ns) r) xs) of
       Inl x \<Rightarrow> (Inl x, left (Suc (length (takeWhile (\<lambda>(_, r). \<not> isl r) xs))))
     | Inr kvs \<Rightarrow> (case e of Some x \<Rightarrow> Inl x | None \<Rightarrow> Inr (dict_merge [] kvs), left (Suc (length xs))))"

subsection \<open>invoke and resume\<close>

text \<open>A graph that does not take a context is called again without it.\<close>

definition without_context :: "(obj option \<Rightarrow> ('g, exc, 'a) prog) \<Rightarrow> obj option \<Rightarrow> ('g, exc, 'a) prog" where
  "without_context call context =
     catchM (call context) (\<lambda>e. if mentions_context e then call None else raise e)"

definition call_ainvoke ::
  "'g LangGraphAdapter \<Rightarrow> graph_input \<Rightarrow> obj \<Rightarrow> obj option \<Rightarrow> ('g, exc, pyobj) prog" where
  "call_ainvoke a payload config context =
     bindM (liftE (method_of (graph_of a) ''ainvoke'' (go_ainvoke (graph_of a)))) (\<lambda>f.
     f payload \<lparr> ia_config = config, ia_context = context \<rparr>)"

definition lg_invoke :: "'g LangGraphAdapter \<Rightarrow> nat option \<Rightarrow> ExecutionRequest \<Rightarrow> ('g, pyobj) lg" where
  "lg_invoke a task rq =
     (let key = run_key (rq_identity rq) in
      thenM (modifyM (register_task key task))
      (bindM (liftE (map_config rq)) (\<lambda>config.
       finallyM (on_graph (without_context (call_ainvoke a (PlainInput (lg_payload rq)) config) (lg_context rq)))
         (modifyM (pop_task key)))))"

definition unsupported :: "string \<Rightarrow> exc" where
  "unsupported message = LangGraphAdapterError LG_CAPABILITY_NOT_SUPPORTED message"

definition lg_resume :: "'g LangGraphAdapter \<Rightarrow> ExecutionRequest \<Rightarrow> json \<Rightarrow> ('g, pyobj) lg" where
  "lg_resume a rq v =
     (if \<not> cap_resume (mf_capabilities (la_manifest a)) then raise (unsupported ''resume is not supported'')
      else if thread_key (rq_identity rq) = None
      then raise (LangGraphAdapterError LG_INVALID_GRAPH ''resume requires a thread'')
      else bindM (liftE (map_config rq)) (\<lambda>config.
        on_graph (without_context (call_ainvoke a (ResumeInput v) config) (lg_context rq))))"

subsection \<open>stream\<close>

definition stream_mode_arg :: "string list \<Rightarrow> exc + mode_arg" where
  "stream_mode_arg modes =
     (if length modes > 1 then Inr (ManyModes modes)
      else case modes of m # _ \<Rightarrow> Inr (OneMode m) | [] \<Rightarrow> Inl no_mode)"

definition stream_input :: "json \<Rightarrow> graph_input" where
  "stream_input payload = (case payload of
       JObj d \<Rightarrow> (case map_of d ''resume'' of Some v \<Rightarrow> ResumeInput v | None \<Rightarrow> PlainInput payload)
     | _ \<Rightarrow> PlainInput payload)"

text \<open>\<open>map_stream(self._graph.astream(payload, **kwargs), request)\<close>: a chunk that cannot be translated
  ends the iteration at that chunk.\<close>

definition call_astream ::
  "'g LangGraphAdapter \<Rightarrow> ExecutionRequest \<Rightarrow> obj \<Rightarrow> mode_arg \<Rightarrow> obj option \<Rightarrow>
   'g \<Rightarrow> (RuntimeEventDraft list \<times> exc option) \<times> 'g" where
  "call_astream a rq config modes context g =
     (case method_of (graph_of a) ''astream'' (go_astream (graph_of a)) of
        Inl e \<Rightarrow> (([], Some e), g)
      | Inr f \<Rightarrow>
          (let (chunks, left) = f (stream_input (lg_payload rq))
                 \<lparr> sa_config = config, sa_stream_mode = modes, sa_subgraphs = rq_stream_subgraphs rq, sa_context = context \<rparr> g;
               (ds, e) = map_stream chunks rq
           in ((ds, e), left (Suc (length ds)))))"

definition graph_events ::
  "'g LangGraphAdapter \<Rightarrow> ExecutionRequest \<Rightarrow> obj \<Rightarrow> mode_arg \<Rightarrow> 'g \<Rightarrow> (RuntimeEventDraft list \<times> exc option) \<times> 'g" where
  "graph_events a rq config modes g =
     (let ((ds, e), g1) = call_astream a rq config modes (lg_context rq) g in
      case e of
        Some x \<Rightarrow> if mentions_context x
          then (let ((ds2, e2), g2) = call_astream a rq config modes None g1 in ((ds @ ds2, e2), g2))
          else ((ds, e), g1)
      | None \<Rightarrow> ((ds, e), g1))"

text \<open>A state that carries an interrupt is followed by an event of its own.\<close>

definition interrupting :: "RuntimeEventDraft \<Rightarrow> bool" where
  "interrupting d \<longleftrightarrow> dr_type d = Ev STATE_VALUES
     \<and> (case dr_data d of JObj o' \<Rightarrow> map_of o' ''__interrupt__'' \<noteq> None | _ \<Rightarrow> False)"

definition announce :: "ExecutionRequest \<Rightarrow> RuntimeEventDraft \<Rightarrow> RuntimeEventDraft list" where
  "announce rq d = (if interrupting d
     then [d, \<lparr> dr_identity = rq_identity rq, dr_type = Ev INTERRUPT_CREATED, dr_namespace = dr_namespace d,
               dr_data = dr_data d, dr_native = dr_native d \<rparr>]
     else [d])"

definition run_data :: "ExecutionRequest \<Rightarrow> obj" where
  "run_data rq = [(''run_id'', JStr (run_key (rq_identity rq)))]"

definition closing :: "ExecutionRequest \<Rightarrow> RuntimeEventDraft list \<Rightarrow> exc option \<Rightarrow> RuntimeEventDraft" where
  "closing rq ds e = (case e of
       Some x \<Rightarrow> if \<not> is_exception x then make_draft (rq_identity rq) RUN_CANCELLED (JObj (run_data rq))
         else make_draft (rq_identity rq) RUN_FAILED (JObj (run_data rq @ [(''error'', JStr (exc_str x))]))
     | None \<Rightarrow> if list_ex interrupting ds then make_draft (rq_identity rq) RUN_INTERRUPTED (JObj (run_data rq))
         else make_draft (rq_identity rq) RUN_COMPLETED (JObj (run_data rq)))"

definition lg_stream ::
  "'g LangGraphAdapter \<Rightarrow> nat option \<Rightarrow> ExecutionRequest \<Rightarrow>
   'g LgState \<Rightarrow> (RuntimeEventDraft list \<times> exc option) \<times> 'g LgState" where
  "lg_stream a task rq s0 =
     (let key = run_key (rq_identity rq); s = register_task key task s0 in
      case bindE (map_config rq) (\<lambda>config. bindE (stream_mode_arg (rq_stream_modes rq)) (\<lambda>modes. Inr (config, modes))) of
        Inl e \<Rightarrow> (([], Some e), s)
      | Inr (config, modes) \<Rightarrow>
          (let ((ds, e), g) = graph_events a rq config modes (ls_graph s) in
           ((make_draft (rq_identity rq) RUN_STARTED (JObj (run_data rq))
               # concat (map (announce rq) ds) @ [closing rq ds e], e),
            pop_task key (s \<lparr> ls_graph := g \<rparr>))))"

subsection \<open>cancel\<close>

text \<open>The task that is cancelled, if any; \<open>current\<close> is the task of the caller.\<close>

definition lg_cancel :: "nat option \<Rightarrow> ExecutionRequest \<Rightarrow> ('g, nat option) lg" where
  "lg_cancel current rq = bindM (getsM ls_tasks) (\<lambda>tasks.
     case map_of tasks (run_key (rq_identity rq)) of
       None \<Rightarrow> ret None
     | Some t \<Rightarrow> if current = Some t then raise (unsupported ''a run cannot cancel itself'') else ret (Some t))"

subsection \<open>get_state, get_state_history, update_state\<close>

text \<open>\<open>except ValueError as exc: raise LangGraphAdapterError(...)\<close>.\<close>

definition needs_checkpointer :: "string \<Rightarrow> ('g, exc, 'a) prog \<Rightarrow> ('g, exc, 'a) prog" where
  "needs_checkpointer what m = catchM m (\<lambda>e. case e of
     ValueError _ \<Rightarrow> raise (unsupported (what @ '' is not available without a checkpointer'')) | _ \<Rightarrow> raise e)"

definition graph_get_state :: "'g GraphObject \<Rightarrow> obj \<Rightarrow> ('g, exc, pyobj) prog" where
  "graph_get_state g config = (case go_aget_state g of
     None \<Rightarrow> raise (unsupported ''state is not supported'')
   | Some f \<Rightarrow> needs_checkpointer ''state'' (f config))"

definition graph_get_state_history :: "'g GraphObject \<Rightarrow> obj \<Rightarrow> HistoryArgs \<Rightarrow> ('g, exc, pyobj list) prog" where
  "graph_get_state_history g config args = (case go_aget_state_history g of
     None \<Rightarrow> raise (unsupported ''state history is not supported'')
   | Some f \<Rightarrow> needs_checkpointer ''state history'' (consume (f config args)))"

definition lg_get_state :: "'g LangGraphAdapter \<Rightarrow> ExecutionRequest \<Rightarrow> ('g, exc, pyobj) prog" where
  "lg_get_state a rq =
     (if \<not> cap_state_management (mf_capabilities (la_manifest a)) then raise (unsupported ''state is not supported'')
      else bindM (liftE (map_config rq)) (graph_get_state (graph_of a)))"

text \<open>\<open>config.get(name)\<close> where \<open>None\<close> means that no argument is passed.\<close>

definition given :: "obj \<Rightarrow> string \<Rightarrow> json option" where
  "given d k = (case map_of d k of Some JNull \<Rightarrow> None | v \<Rightarrow> v)"

definition lg_get_state_history :: "'g LangGraphAdapter \<Rightarrow> ExecutionRequest \<Rightarrow> ('g, exc, pyobj list) prog" where
  "lg_get_state_history a rq =
     (if \<not> cap_history (mf_capabilities (la_manifest a)) then raise (unsupported ''state history is not supported'')
      else bindM (liftE (map_config rq)) (\<lambda>config. graph_get_state_history (graph_of a) config
        \<lparr> ha_before = given (rq_config rq) ''__history_before__'', ha_limit = given (rq_config rq) ''__history_limit__'',
          ha_filter = given (rq_config rq) ''__history_filter__'' \<rparr>))"

definition lg_update_state :: "'g LangGraphAdapter \<Rightarrow> ExecutionRequest \<Rightarrow> json \<Rightarrow> ('g, exc, pyobj) prog" where
  "lg_update_state a rq v =
     (case go_aupdate_state (graph_of a) of
        Some f \<Rightarrow>
          if \<not> cap_state_management (mf_capabilities (la_manifest a))
          then raise (unsupported ''state update is not supported'')
          else bindM (liftE (map_config rq)) (\<lambda>config. f config v)
      | None \<Rightarrow> raise (unsupported ''state update is not supported''))"

subsection \<open>The store\<close>

definition with_store :: "'g LangGraphAdapter \<Rightarrow> ('g Store \<Rightarrow> ('g, exc, 'a) prog) \<Rightarrow> ('g, exc, 'a) prog" where
  "with_store a f = (case go_store (graph_of a) of
     None \<Rightarrow> raise (unsupported ''store is not available'') | Some st \<Rightarrow> f st)"

definition lg_store_put ::
  "'g LangGraphAdapter \<Rightarrow> string list \<Rightarrow> string \<Rightarrow> json \<Rightarrow> json \<Rightarrow> ('g, exc, unit) prog" where
  "lg_store_put a namespace key v index = with_store a (\<lambda>st.
     st_aput st namespace key v (if index \<noteq> JNull then Some index else None))"

definition item_json :: "StoreItem \<Rightarrow> obj" where
  "item_json it =
     [(''namespace'', JArr (map JStr (si_namespace it))), (''key'', JStr (si_key it)), (''value'', si_value it),
      (''created_at'', opt_str (map_option isoformat (si_created_at it))),
      (''updated_at'', opt_str (map_option isoformat (si_updated_at it)))]"

definition lg_store_get :: "'g LangGraphAdapter \<Rightarrow> string list \<Rightarrow> string \<Rightarrow> ('g, exc, json) prog" where
  "lg_store_get a namespace key = with_store a (\<lambda>st. bindM (st_aget st namespace key) (\<lambda>item.
     ret (case item of None \<Rightarrow> JNull | Some it \<Rightarrow> JObj (item_json it))))"

definition lg_store_delete :: "'g LangGraphAdapter \<Rightarrow> string list \<Rightarrow> string \<Rightarrow> ('g, exc, unit) prog" where
  "lg_store_delete a namespace key = with_store a (\<lambda>st. st_adelete st namespace key)"

definition lg_store_search ::
  "'g LangGraphAdapter \<Rightarrow> string list \<Rightarrow> json \<Rightarrow> int \<Rightarrow> int \<Rightarrow> ('g, exc, obj) prog" where
  "lg_store_search a namespace_prefix flt lmt offset = with_store a (\<lambda>st.
     bindM (consume (st_asearch st namespace_prefix flt lmt offset)) (\<lambda>items.
     ret [(''items'', JArr (map (\<lambda>it. JObj (item_json it @ [(''score'', si_score it)])) items))]))"

text \<open>An empty prefix or suffix is passed as \<open>None\<close>.\<close>

definition some_names :: "string list option \<Rightarrow> string list option" where
  "some_names ns = (case ns of Some (x # xs) \<Rightarrow> Some (x # xs) | _ \<Rightarrow> None)"

definition lg_store_list_namespaces ::
  "'g LangGraphAdapter \<Rightarrow> string list option \<Rightarrow> string list option \<Rightarrow> json \<Rightarrow> int \<Rightarrow> int \<Rightarrow> ('g, exc, obj) prog" where
  "lg_store_list_namespaces a pre suf max_depth lmt offset = with_store a (\<lambda>st.
     bindM (consume (st_alist_namespaces st (some_names pre) (some_names suf) max_depth lmt offset)) (\<lambda>nss.
     ret [(''namespaces'', JArr (map (\<lambda>ns. JArr (map JStr ns)) nss))]))"

subsection \<open>The shape of a stream\<close>

text \<open>Whatever the graph does, a stream that begins announces the start of the run, then plain events,
  and ends with exactly one terminal event, which says how the stream ended.\<close>

lemma announce_drafts:
  assumes "map_chunk rq m c = Inr d" and "x \<in> set (announce rq d)"
  shows "plain x" and "dr_identity x = rq_identity rq"
  using assms map_chunk_draft [OF assms(1)]
  by (auto simp: announce_def plain_def terminal_events_def split: if_splits)

lemma call_astream_drafts:
  assumes "d \<in> set (fst (fst (call_astream a rq config modes ctx g)))"
  shows "\<exists>m c. map_chunk rq m c = Inr d"
proof -
  from assms obtain st where "d \<in> set (fst (map_stream st rq))"
    by (auto simp: call_astream_def Let_def case_prod_unfold split: sum.splits)
  then show ?thesis by (rule map_stream_drafts)
qed

lemma graph_events_drafts:
  "d \<in> set (fst (fst (graph_events a rq config modes g))) \<Longrightarrow> \<exists>m c. map_chunk rq m c = Inr d"
  using call_astream_drafts [of d a rq config modes]
  by (auto simp: graph_events_def Let_def split: prod.splits option.splits if_splits) (metis fst_conv)+

text \<open>What precedes the closing event.\<close>

definition lg_prefix :: "ExecutionRequest \<Rightarrow> RuntimeEventDraft list \<Rightarrow> RuntimeEventDraft list" where
  "lg_prefix rq ds = make_draft (rq_identity rq) RUN_STARTED (JObj (run_data rq)) # concat (map (announce rq) ds)"

lemma lg_prefix_drafts:
  assumes "\<And>d. d \<in> set ds \<Longrightarrow> \<exists>m c. map_chunk rq m c = Inr d" and "x \<in> set (lg_prefix rq ds)"
  shows "plain x \<and> dr_identity x = rq_identity rq"
proof (cases "x = make_draft (rq_identity rq) RUN_STARTED (JObj (run_data rq))")
  case True
  then show ?thesis by (simp add: make_draft_def plain_def terminal_events_def)
next
  case False
  with assms(2) obtain d where "d \<in> set ds" "x \<in> set (announce rq d)" by (auto simp: lg_prefix_def)
  with assms(1) announce_drafts show ?thesis by blast
qed

lemma closing_draft:
  "dr_identity (closing rq ds e) = rq_identity rq"
  "\<exists>ty \<in> set terminal_events. dr_type (closing rq ds e) = Ev ty"
  by (auto simp: closing_def make_draft_def terminal_events_def split: option.splits)

lemma lg_stream_shape:
  assumes "map_config rq = Inr config" and "stream_mode_arg (rq_stream_modes rq) = Inr modes"
    and "graph_events a rq config modes (ls_graph s) = ((ds, e), g)"
  shows "fst (lg_stream a task rq s) = (lg_prefix rq ds @ [closing rq ds e], e)"
    and "list_all plain (lg_prefix rq ds)"
    and "list_all (\<lambda>d. dr_identity d = rq_identity rq) (lg_prefix rq ds @ [closing rq ds e])"
proof -
  have graph: "ls_graph (register_task k task s) = ls_graph s" for k
    by (simp add: register_task_def split: option.splits)
  show "fst (lg_stream a task rq s) = (lg_prefix rq ds @ [closing rq ds e], e)"
    using assms by (simp add: lg_stream_def Let_def graph lg_prefix_def)
  have "\<exists>m c. map_chunk rq m c = Inr d" if "d \<in> set ds" for d
    using graph_events_drafts [of d a rq config modes "ls_graph s"] that assms(3) by simp
  then have "plain x \<and> dr_identity x = rq_identity rq" if "x \<in> set (lg_prefix rq ds)" for x
    using lg_prefix_drafts that by blast
  then show "list_all plain (lg_prefix rq ds)"
    and "list_all (\<lambda>d. dr_identity d = rq_identity rq) (lg_prefix rq ds @ [closing rq ds e])"
    by (auto simp: list_all_iff closing_draft)
qed

subsection \<open>A stream of the adapter drives the runtime service\<close>

lemma last_value_announced: "last_value v (concat (map (announce rq) ds)) = last_value v ds"
proof (induction ds arbitrary: v)
  case (Cons d ds)
  have "last_value v (announce rq d @ xs) = last_value (if ev_is (dr_type d) STATE_VALUES then dr_data d else v) xs" for xs
    by (simp add: announce_def)
  with Cons show ?case by simp
qed simp

lemma last_value_prefix: "last_value v (lg_prefix rq ds) = last_value v ds"
  by (simp add: lg_prefix_def last_value_announced make_draft_def)

definition ended_status :: "RuntimeEventDraft list \<Rightarrow> exc option \<Rightarrow> run_status" where
  "ended_status ds e = (case e of
       Some x \<Rightarrow> if is_exception x then ERROR else CANCELLED
     | None \<Rightarrow> if list_ex interrupting ds then INTERRUPTED else SUCCESS)"

definition ended_result :: "exc option \<Rightarrow> exc + unit" where
  "ended_result e = (case e of Some x \<Rightarrow> if is_exception x then Inl x else Inr () | None \<Rightarrow> Inr ())"

lemma closing_status:
  "dr_type (closing rq ds e) = Ev ty \<Longrightarrow> settled_status ty = ended_status ds e \<and> ty \<in> set terminal_events
    \<and> (case e of Some x \<Rightarrow> if is_exception x then ty = RUN_FAILED else ty = RUN_CANCELLED | None \<Rightarrow> True)"
  by (auto simp: closing_def ended_status_def settled_status_def make_draft_def terminal_events_def
      split: option.splits if_splits)

text \<open>The service settles the run once, by the closing event, for every behaviour of the graph.\<close>

theorem langgraph_execution:
  assumes "ready s rp run" and "rq = rc_request (rp_command rp)"
    and "ad_stream ad = (\<lambda>rq. fst (lg_stream a task rq l))"
    and "map_config rq = Inr config" and "stream_mode_arg (rq_stream_modes rq) = Inr modes"
    and "graph_events a rq config modes (ls_graph l) = ((ds, e), g)"
  shows "\<exists>s' r. execute_receipt rp ad s = (ended_result e, s')
    \<and> outcome s rp run r (lg_prefix rq ds @ [closing rq ds e]) s' \<and> rn_status r = ended_status ds e
    \<and> (ended_status ds e = SUCCESS \<longrightarrow> rn_result r = last_value JNull ds)"
proof -
  note shape = lg_stream_shape [OF assms(4,5,6)]
  have stream: "stream_of rp ad = (lg_prefix rq ds @ [closing rq ds e], e)"
    using shape(1) assms(2,3) by simp
  have key: "rn_key run = run_key (rq_identity rq)" using readyD(1) [OF assms(1)] assms(2) by simp
  have own: "own_drafts run (lg_prefix rq ds @ [closing rq ds e])"
    using shape(3) by (auto simp: own_drafts_def key list_all_iff)
  obtain ty where ty: "dr_type (closing rq ds e) = Ev ty" using closing_draft(2) by blast
  note st = closing_status [OF ty]
  show ?thesis
  proof (cases e)
    case None
    from execute_terminal [OF assms(1) stream [unfolded None] shape(2) [unfolded None] own [unfolded None]
        ty [unfolded None]] st None
    show ?thesis by (auto simp: ended_result_def settled_status_def last_value_prefix split: if_splits)
  next
    case (Some x)
    from execute_terminal_raises [OF assms(1) stream [unfolded Some] shape(2) [unfolded Some] own [unfolded Some]
        ty [unfolded Some]] st Some
    show ?thesis by (auto simp: ended_result_def ended_status_def split: if_splits)
  qed
qed

end
