(* ===== verification/Gateway_State.thy ===== *)
theory Gateway_State
  imports LangGraph_Adapter Configuration_Store Grpc_Worker
begin

section \<open>Gateway: state, payloads and responses\<close>

text \<open>
  Models the parts of \<^verbatim>\<open>services/gateway/app.py\<close> every handler shares: the state of the application
  (a local runtime, the registered workers and the queues of the event streams), the bodies of requests
  after validation (\<^verbatim>\<open>transport/http/dto.py\<close>), the JSON of answers, and the answer to a request that
  failed.  Routing, validation of bodies and encoding of answers are the web framework's.
\<close>

subsection \<open>What the gateway uses of an adapter\<close>

text \<open>A state is a snapshot with attributes, a dictionary, or another value.  The attributes are given
  as the encoder writes them.\<close>

record Snapshot =
  sn_values :: json
  sn_next :: "json list"
  sn_config :: json
  sn_metadata :: json
  sn_created_at :: json
  sn_parent_config :: json
  sn_tasks :: "json list"
  sn_interrupts :: "json list"

datatype state_value = SnapshotState Snapshot | DictState obj | OtherState json

record Schemas =
  sc_input :: json
  sc_output :: json
  sc_state :: json
  sc_config :: json
  sc_context :: json

text \<open>The methods an adapter may lack are options, as \<open>getattr(adapter, name, None)\<close> gives them.\<close>

record GwAdapter =
  ga_inspect :: "exc + Schemas"
  ga_get_state :: "ExecutionRequest \<Rightarrow> exc + state_value"
  ga_update_state :: "ExecutionRequest \<Rightarrow> json \<Rightarrow> exc + state_value"
  ga_get_state_history :: "ExecutionRequest \<Rightarrow> exc + state_value list"
  ga_get_graph :: "(bool \<Rightarrow> exc + json) option"
  ga_get_subgraphs :: "(bool \<Rightarrow> exc + json) option"
  ga_store_put :: "(json \<Rightarrow> string \<Rightarrow> json \<Rightarrow> json \<Rightarrow> exc + unit) option"
  ga_store_get :: "(string list \<Rightarrow> string \<Rightarrow> exc + json) option"
  ga_store_delete :: "(json \<Rightarrow> string \<Rightarrow> exc + unit) option"
  ga_store_search :: "(json \<Rightarrow> json \<Rightarrow> int \<Rightarrow> int \<Rightarrow> exc + json) option"
  ga_store_list_namespaces :: "(json \<Rightarrow> json \<Rightarrow> json \<Rightarrow> int \<Rightarrow> int \<Rightarrow> exc + json) option"

subsection \<open>The state of the application\<close>

text \<open>An item of the queue of an event stream: an event, or the \<open>None\<close> that ends the stream.\<close>

datatype queue_item = QEvent ProtoEvent | QEnd

record MigrationRow =
  mg_id :: string
  mg_application_id :: string
  mg_workspace_key :: string
  mg_environment :: string
  mg_app_version :: string
  mg_status :: string

record Gateway =
  gw_runtime :: Service
  gw_assistants :: assistant_repo
  gw_config :: config_repo
  gw_methods :: "string \<Rightarrow> GwAdapter"
  gw_workers :: "(string, obj) pydict"
  gw_run_queues :: "(string, nat list) pydict"
  gw_queues :: "nat \<Rightarrow> queue_item list"
  gw_next_queue :: nat
  gw_migrations :: "MigrationRow list"
  gw_environ :: "(string, string) pydict"

type_synonym 'a gw = "(Gateway, exc, 'a) prog"

abbreviation on_svc :: "'a svc \<Rightarrow> 'a gw" where
  "on_svc \<equiv> zoomM gw_runtime (\<lambda>c. gw_runtime_update (\<lambda>_. c))"

abbreviation on_assistants :: "(assistant_repo, exc, 'a) prog \<Rightarrow> 'a gw" where
  "on_assistants \<equiv> zoomM gw_assistants (\<lambda>c. gw_assistants_update (\<lambda>_. c))"

abbreviation on_config :: "(config_repo, exc, 'a) prog \<Rightarrow> 'a gw" where
  "on_config \<equiv> zoomM gw_config (\<lambda>c. gw_config_update (\<lambda>_. c))"

definition environ_get :: "string \<Rightarrow> string option gw" where
  "environ_get name = getsM (\<lambda>g. map_of (gw_environ g) name)"

text \<open>\<open>_runtime_adapter\<close>: the first adapter of the registry.\<close>

definition runtime_adapter :: "GwAdapter gw" where
  "runtime_adapter = bindM (getsM (\<lambda>g. (map fst (sv_adapters (gw_runtime g)), gw_methods g))) (\<lambda>(ids, methods).
     case ids of
       [] \<Rightarrow> raise (runtime_failure CAPABILITY_NOT_SUPPORTED ''no runtime adapter is registered for this application'')
     | i # _ \<Rightarrow> ret (methods i))"

text \<open>\<open>getattr(adapter, name, None)\<close> with the refusal when it is missing.\<close>

definition adapter_method :: "(GwAdapter \<Rightarrow> 'f option) \<Rightarrow> string \<Rightarrow> 'f gw" where
  "adapter_method sel message = bindM runtime_adapter (\<lambda>a. case sel a of
     Some f \<Rightarrow> ret f | None \<Rightarrow> raise (runtime_failure CAPABILITY_NOT_SUPPORTED message))"

subsection \<open>Request bodies\<close>

record AssistantCreate =
  ac_graph_id :: "string option"
  ac_assistant_id :: "string option"
  ac_name :: "string option"
  ac_config :: obj
  ac_context :: obj
  ac_metadata :: obj
  ac_if_exists :: "string option"
  ac_description :: "string option"

record ThreadCreate =
  tc_thread_id :: "string option"
  tc_metadata :: obj
  tc_if_exists :: "string option"

definition thread_create_default :: ThreadCreate where
  "thread_create_default = \<lparr> tc_thread_id = None, tc_metadata = [], tc_if_exists = None \<rparr>"

record RunCreate =
  pl_assistant_id :: string
  pl_input :: json
  pl_command :: json
  pl_config :: obj
  pl_context :: obj
  pl_metadata :: obj
  pl_stream_mode :: mode_arg
  pl_stream_subgraphs :: bool
  pl_priority :: string
  pl_multitask_strategy :: string
  pl_checkpoint_id :: "string option"

text \<open>\<open>json.loads(raw) if raw else {}\<close>; for some routes a text that is JSON itself is read again.\<close>

definition invalid_input :: "string \<Rightarrow> exc" where
  "invalid_input message = runtime_failure INVALID_EXECUTION_INPUT message"

definition read_body :: "(string \<Rightarrow> rat \<times> string) \<Rightarrow> bool \<Rightarrow> string \<Rightarrow> string \<Rightarrow> exc + obj" where
  "read_body flt twice what raw =
     bindE (if raw = [] then Inr (JObj [])
            else case json_loads flt raw of
              None \<Rightarrow> Inl (invalid_input ''invalid JSON body'')
            | Some (JStr s) \<Rightarrow> if twice then (case json_loads flt s of
                  None \<Rightarrow> Inl (invalid_input ''invalid JSON body'') | Some v \<Rightarrow> Inr v) else Inr (JStr s)
            | Some v \<Rightarrow> Inr v) (\<lambda>decoded.
     case decoded of JObj d \<Rightarrow> Inr d | _ \<Rightarrow> Inl (invalid_input (what @ '' body must be an object'')))"

text \<open>\<open>int(value)\<close> of a JSON value.\<close>

definition json_int :: "json \<Rightarrow> exc + int" where
  "json_int v = (case v of
       JInt i \<Rightarrow> Inr i
     | JBool b \<Rightarrow> Inr (if b then 1 else 0)
     | JFloat r _ \<Rightarrow> Inr (if 0 \<le> r then \<lfloor>r\<rfloor> else \<lceil>r\<rceil>)
     | JStr s \<Rightarrow> (case py_int s of Some i \<Rightarrow> Inr i
         | None \<Rightarrow> Inl (ValueError (''invalid literal for int() with base 10: '' @ repr_str s)))
     | _ \<Rightarrow> Inl (TypeError (''int() argument must be a string, a bytes-like object or a real number, not ''
         @ repr_str (json_type v))))"

text \<open>\<open>max(0, min(int(body.get(name, default)), 1000))\<close> and \<open>max(0, int(body.get(name, 0)))\<close>.\<close>

definition limit_of :: "obj \<Rightarrow> json \<Rightarrow> exc + nat" where
  "limit_of body dflt = bindE (json_int (get_or body ''limit'' dflt)) (\<lambda>i. Inr (nat (max 0 (min i 1000))))"

definition offset_of :: "obj \<Rightarrow> exc + nat" where
  "offset_of body = bindE (json_int (get_or body ''offset'' (JInt 0))) (\<lambda>i. Inr (nat (max 0 i)))"

subsection \<open>The JSON of answers\<close>

definition time_json :: "datetime option \<Rightarrow> json" where
  "time_json t = opt_str (map_option isoformat t)"

definition revision_payload :: "ConfigRevision \<Rightarrow> obj" where
  "revision_payload r =
     [(''application_id'', JStr (cr_application_id r)), (''revision'', JInt (cr_revision r)),
      (''config'', JObj (cr_config r)), (''config_hash'', JStr (cr_config_hash r)), (''active'', JBool (cr_active r)),
      (''config_revision_id'', opt_str (map_option id_value (cr_config_revision_id r)))]"

definition assistant_payload :: "Assistant \<Rightarrow> obj" where
  "assistant_payload a =
     [(''assistant_id'', JStr (id_value (as_assistant_id a))), (''graph_id'', JStr (as_graph_id a)),
      (''version'', JInt (as_version a)), (''name'', as_name a), (''description'', as_description a),
      (''config'', JObj (as_config a)), (''context'', JObj (as_context a)), (''metadata'', JObj (as_metadata a)),
      (''created_at'', time_json (as_created_at a)), (''updated_at'', time_json (as_updated_at a))]"

definition thread_payload :: "Thread \<Rightarrow> obj" where
  "thread_payload t =
     [(''thread_id'', JStr (th_key t)), (''status'', JStr (thread_status_str (th_status t))),
      (''metadata'', JObj (th_metadata t)), (''created_at'', time_json (th_created_at t)),
      (''updated_at'', time_json (th_updated_at t)), (''values'', JNull), (''interrupts'', JNull)]"

definition run_payload :: "Run \<Rightarrow> obj" where
  "run_payload r =
     [(''run_id'', JStr (rn_key r)), (''thread_id'', opt_str (rn_thread_key r)),
      (''assistant_id'', JStr (id_value (assistant_id (rn_identity r)))),
      (''created_at'', time_json (rn_created_at r)), (''updated_at'', time_json (rn_updated_at r)),
      (''status'', JStr (run_status_str (rn_status r))), (''metadata'', JObj (rn_metadata r)),
      (''multitask_strategy'', get_or (rn_metadata r) ''multitask_strategy'' (JStr ''reject''))]"

definition event_payload :: "RuntimeEvent \<Rightarrow> obj" where
  "event_payload e = (let i = ev_identity e in
     [(''schema_version'', JInt (ev_schema_version e)), (''event_id'', JStr (id_value (ev_event_id e))),
      (''sequence'', JInt (ev_sequence e)), (''timestamp'', JStr (isoformat (ev_timestamp e))),
      (''application_id'', JStr (id_value (application_id (scope i)))),
      (''revision_id'', JStr (id_value (revision_id (scope i)))),
      (''deployment_id'', JStr (id_value (deployment_id (scope i)))),
      (''assistant_id'', JStr (id_value (assistant_id i))), (''thread_id'', opt_str (thread_key i)),
      (''run_id'', JStr (run_key i)), (''attempt_id'', JStr (id_value (attempt_id i))),
      (''type'', JStr (ev_str (ev_type e))), (''namespace'', JArr (map JStr (ev_namespace e))),
      (''data'', ev_data e),
      (''trace'', JObj [(''trace_id'', opt_str (trace_id (ev_trace e))), (''span_id'', opt_str (span_id (ev_trace e)))]),
      (''native'', JObj (ev_native e))])"

text \<open>\<open>_native\<close>: the envelope of the native routes.\<close>

definition native :: "json \<Rightarrow> string \<Rightarrow> obj gw" where
  "native data request_id = bindM (on_svc svc_now) (\<lambda>now.
     ret [(''data'', data), (''meta'', JObj [(''request_id'', JStr request_id), (''timestamp'', JStr (isoformat now))])])"

subsection \<open>Failed requests\<close>

definition status_for :: "error_code \<Rightarrow> nat" where
  "status_for code = (case code of
       RESOURCE_NOT_FOUND \<Rightarrow> 404 | RUN_NOT_FOUND \<Rightarrow> 404 | THREAD_BUSY \<Rightarrow> 409
     | INVALID_EXECUTION_INPUT \<Rightarrow> 422 | CAPABILITY_NOT_SUPPORTED \<Rightarrow> 501 | _ \<Rightarrow> 500)"

definition error_body :: "string \<Rightarrow> string \<Rightarrow> error_code \<Rightarrow> string \<Rightarrow> bool \<Rightarrow> obj \<Rightarrow> obj" where
  "error_body path request_id code message retryable details =
     (if is_prefix ''/api/v1/'' path
      then [(''error'', JObj [(''code'', JStr (error_code_str code)), (''message'', JStr message),
              (''retryable'', JBool retryable), (''request_id'', JStr request_id), (''details'', JObj details)])]
      else [(''detail'', JStr message)])"

text \<open>The answer to a request: the handler of runtime failures, and the framework's answer to every other
  exception, which has no JSON body.\<close>

datatype answer = Answer nat "json option"

definition answer_of :: "string \<Rightarrow> string \<Rightarrow> nat \<Rightarrow> exc + json option \<Rightarrow> answer" where
  "answer_of path request_id success r = (case r of
       Inr v \<Rightarrow> Answer success v
     | Inl (RuntimeFailureError code message retryable details) \<Rightarrow>
         Answer (status_for code) (Some (JObj (error_body path request_id code message retryable details)))
     | Inl _ \<Rightarrow> Answer 500 None)"

text \<open>\<open>request.headers.get("x-request-id") or str(CommandId.new())\<close>.\<close>

definition request_id_of :: "string option \<Rightarrow> string gw" where
  "request_id_of header = (case header of
     Some (c # cs) \<Rightarrow> ret (c # cs) | _ \<Rightarrow> on_svc svc_new_id)"

end
