(* ===== verification/Gateway_Resources.thy ===== *)
theory Gateway_Resources
  imports Gateway_State
begin

section \<open>Gateway: workers, configurations, assistants and threads\<close>

text \<open>
  Models the handlers of \<^verbatim>\<open>services/gateway/app.py\<close> for the workers, the configurations of applications,
  the assistants, and the threads with their states.  A handler is a program on the state of the gateway;
  an exception it raises is answered by \<^const>\<open>answer_of\<close>.
\<close>

subsection \<open>Workers\<close>

definition text_of :: "obj \<Rightarrow> string \<Rightarrow> string \<Rightarrow> string" where
  "text_of payload name dflt = py_str (get_or payload name (JStr dflt))"

text \<open>\<open>scalar_one_or_none()\<close> and \<open>scalar_one()\<close> on a connection give the first column of a row, whose type
  is \<open>column\<close>, so that reading or writing \<open>row.status\<close> raises.\<close>

definition no_status :: "string \<Rightarrow> exc" where
  "no_status column = AttributeError (repr_str column @ '' object has no attribute '' @ repr_str ''status'')"

text \<open>The second half of \<open>register_worker\<close>: an application that has no row yet gets one, its worker is asked
  to migrate (every failure of that call is caught), and then the row is looked up again.\<close>

definition register_migration :: "string \<Rightarrow> string \<Rightarrow> string \<Rightarrow> string \<Rightarrow> obj gw" where
  "register_migration column application workspace version =
     bindM (environ_get ''UR_KAFKA_ENVIRONMENT'') (\<lambda>environment.
     let env = (case environment of Some e \<Rightarrow> e | None \<Rightarrow> ''local'') in
     bindM (getsM gw_migrations) (\<lambda>rows.
     if list_ex (\<lambda>w. mg_application_id w = application \<and> mg_workspace_key w = workspace \<and> mg_environment w = env) rows
     then raise (no_status column)
     else bindM (on_svc svc_new_id) (\<lambda>i.
       thenM (modifyM (\<lambda>g. g \<lparr> gw_migrations := gw_migrations g @
         [\<lparr> mg_id = i, mg_application_id = application, mg_workspace_key = workspace, mg_environment = env,
            mg_app_version = version, mg_status = ''migrating'' \<rparr>] \<rparr>))
       (raise (no_status column)))))"

definition register_worker :: "string \<Rightarrow> obj \<Rightarrow> obj gw" where
  "register_worker column payload =
     (let worker_id = text_of payload ''worker_id'' ''''; target = text_of payload ''target'' '''';
          application = text_of payload ''application_id'' ''''; version = text_of payload ''app_version'' '''' in
      if worker_id = [] \<or> target = [] then raise (invalid_input ''worker_id and target are required'')
      else bindM (on_svc svc_now) (\<lambda>now.
        thenM (modifyM (\<lambda>g. g \<lparr> gw_workers := AList.update worker_id
                 (AList.update ''registered_at'' (JStr (isoformat now)) payload) (gw_workers g) \<rparr>))
        (bindM (environ_get ''UR_DATABASE_URL'') (\<lambda>url.
         if url \<in> {None, Some []} \<or> application = []
         then ret [(''registered'', JBool True), (''worker_id'', JStr worker_id), (''target'', JStr target)]
         else register_migration column application (text_of payload ''workspace_key'' ''default'')
           (if version \<noteq> [] then version else text_of payload ''alembic_version'' '''')))))"

definition list_workers :: "obj list gw" where
  "list_workers = getsM (\<lambda>g. dict_values (gw_workers g))"

subsection \<open>Configurations of applications\<close>

text \<open>\<open>_validation_errors\<close>: the path and message of every error the schema validator reports.\<close>

definition validation_errors :: "(obj \<Rightarrow> (json list \<times> string) list) \<Rightarrow> obj \<Rightarrow> json list" where
  "validation_errors check payload =
     map (\<lambda>(path, message). JObj [(''path'', JArr path), (''message'', JStr message)]) (check payload)"

definition validate_config :: "(obj \<Rightarrow> (json list \<times> string) list) \<Rightarrow> string \<Rightarrow> obj \<Rightarrow> obj gw" where
  "validate_config check request_id payload =
     (let errors = validation_errors check payload in
      native (JObj [(''valid'', JBool (errors = [])), (''errors'', JArr errors)]) request_id)"

definition get_config :: "string \<Rightarrow> string \<Rightarrow> obj gw" where
  "get_config app request_id = bindM (on_config (config_get_active app)) (\<lambda>r.
     native (JObj (revision_payload r)) request_id)"

definition create_config ::
  "(obj \<Rightarrow> (json list \<times> string) list) \<Rightarrow> (string \<Rightarrow> rat \<times> string) \<Rightarrow> string \<Rightarrow> string \<Rightarrow> obj \<Rightarrow> obj gw" where
  "create_config check flt app request_id payload =
     (let errors = validation_errors check payload in
      if errors \<noteq> []
      then raise (RuntimeFailureError INVALID_EXECUTION_INPUT ''application config is invalid'' False
             [(''errors'', JArr errors)])
      else bindM (on_svc svc_new_id) (\<lambda>i. bindM (on_config (config_create_revision flt i app payload)) (\<lambda>r.
        native (JObj (revision_payload r)) request_id)))"

definition activate_config :: "string \<Rightarrow> int \<Rightarrow> string \<Rightarrow> obj gw" where
  "activate_config app n request_id = bindM (on_config (config_activate app n)) (\<lambda>r.
     native (JObj (revision_payload r)) request_id)"

subsection \<open>Assistants\<close>

text \<open>\<open>try: return get(...) except RuntimeFailure: pass unless it is another failure\<close>.\<close>

definition existing_or :: "'a gw \<Rightarrow> 'a gw \<Rightarrow> 'a gw" where
  "existing_or lookup create = catchM lookup (\<lambda>e. case e of
     RuntimeFailureError RESOURCE_NOT_FOUND _ _ _ \<Rightarrow> create | _ \<Rightarrow> raise e)"

definition or_text :: "string option \<Rightarrow> string \<Rightarrow> string" where
  "or_text x dflt = (case x of Some (c # cs) \<Rightarrow> c # cs | _ \<Rightarrow> dflt)"

definition assistant_of_payload :: "AssistantCreate \<Rightarrow> typed_id \<Rightarrow> datetime \<Rightarrow> Assistant" where
  "assistant_of_payload p i now =
     \<lparr> as_assistant_id = i, as_graph_id = or_text (ac_graph_id p) ''default'', as_version = 1,
       as_name = opt_str (ac_name p), as_description = opt_str (ac_description p), as_config = ac_config p,
       as_context = ac_context p, as_metadata = ac_metadata p, as_created_at = Some now, as_updated_at = Some now \<rparr>"

definition new_assistant :: "AssistantCreate \<Rightarrow> obj gw" where
  "new_assistant p =
     bindM (case ac_assistant_id p of
              Some (c # cs) \<Rightarrow> liftE (parse_id AssistantId (c # cs))
            | _ \<Rightarrow> bindM (on_svc svc_new_id) (\<lambda>i. ret (AssistantId i))) (\<lambda>i.
     bindM (on_svc svc_now) (\<lambda>now.
     bindM (on_assistants (assistants_create (assistant_of_payload p i now))) (\<lambda>a. ret (assistant_payload a))))"

definition create_assistant :: "AssistantCreate \<Rightarrow> obj gw" where
  "create_assistant p = (case ac_assistant_id p of
       Some (c # cs) \<Rightarrow>
         if ac_if_exists p = Some ''do_nothing''
         then existing_or (bindM (on_assistants (assistants_get (c # cs))) (\<lambda>a. ret (assistant_payload a)))
                (new_assistant p)
         else new_assistant p
     | _ \<Rightarrow> new_assistant p)"

definition count_assistants :: "obj \<Rightarrow> nat gw" where
  "count_assistants criteria = (case get_null criteria ''graph_id'' of
       JNull \<Rightarrow> on_assistants (assistants_count None)
     | JStr g \<Rightarrow> on_assistants (assistants_count (Some g))
     | _ \<Rightarrow> ret 0)"

definition assistant_versions :: "(string \<Rightarrow> rat \<times> string) \<Rightarrow> string \<Rightarrow> string \<Rightarrow> obj list gw" where
  "assistant_versions flt aid raw =
     bindM (liftE (read_body flt True ''versions'' raw)) (\<lambda>body.
     bindM (liftE (limit_of body (JInt 10))) (\<lambda>lmt.
     bindM (liftE (offset_of body)) (\<lambda>off.
     bindM (on_assistants (assistants_versions aid)) (\<lambda>vs.
     ret (map assistant_payload (py_slice off lmt vs))))))"

definition set_latest_assistant :: "string \<Rightarrow> obj \<Rightarrow> obj gw" where
  "set_latest_assistant aid payload =
     bindM (liftE (json_int (get_or payload ''version'' (JInt 0)))) (\<lambda>version.
     if version < 1 then raise (invalid_input ''version must be positive'')
     else bindM (on_assistants (assistants_set_latest aid version)) (\<lambda>a. ret (assistant_payload a)))"

text \<open>The condition of the two searches; the filter is only looked at for an item that matches so far.\<close>

definition assistant_matches :: "json \<Rightarrow> json \<Rightarrow> json \<Rightarrow> Assistant \<Rightarrow> exc + bool" where
  "assistant_matches graph_id name metadata a =
     (if (graph_id = JNull \<or> py_eq (JStr (as_graph_id a)) graph_id) \<and> (name = JNull \<or> py_eq (as_name a) name)
      then (case metadata of
          JObj d \<Rightarrow> Inr (metadata_matches d (as_metadata a))
        | v \<Rightarrow> Inl (AttributeError (repr_str (json_type v) @ '' object has no attribute '' @ repr_str ''items'')))
      else Inr False)"

fun filterE :: "('a \<Rightarrow> exc + bool) \<Rightarrow> 'a list \<Rightarrow> exc + 'a list" where
  "filterE p [] = Inr []"
| "filterE p (x # xs) = bindE (p x) (\<lambda>b. bindE (filterE p xs) (\<lambda>ys. Inr (if b then x # ys else ys)))"

definition search_assistants_get ::
  "(string \<Rightarrow> rat \<times> string) \<Rightarrow> string option \<Rightarrow> string option \<Rightarrow> string option \<Rightarrow> nat \<Rightarrow> nat \<Rightarrow> obj list gw" where
  "search_assistants_get flt graph_id name metadata lmt off =
     bindM (on_assistants assistants_all) (\<lambda>items.
     bindM (liftE (case metadata of
              Some (c # cs) \<Rightarrow> (case json_loads flt (c # cs) of
                  Some v \<Rightarrow> Inr v | None \<Rightarrow> Inl (ValueError ''invalid JSON''))
            | _ \<Rightarrow> Inr (JObj []))) (\<lambda>wanted.
     bindM (liftE (filterE (assistant_matches (opt_str graph_id) (opt_str name) wanted) items)) (\<lambda>found.
     ret (map assistant_payload (py_slice off lmt found)))))"

definition search_assistants :: "(string \<Rightarrow> rat \<times> string) \<Rightarrow> string \<Rightarrow> obj list gw" where
  "search_assistants flt raw =
     bindM (liftE (read_body flt True ''search'' raw)) (\<lambda>criteria.
     bindM (on_assistants assistants_all) (\<lambda>items.
     let metadata = get_null criteria ''metadata'' in
     bindM (liftE (filterE (assistant_matches (get_null criteria ''graph_id'') (get_null criteria ''name'')
              (if truthy metadata then metadata else JObj [])) items)) (\<lambda>found.
     ret (map assistant_payload found))))"

definition assistant_graph :: "string \<Rightarrow> bool \<Rightarrow> json gw" where
  "assistant_graph aid xray =
     thenM (on_assistants (assistants_get aid))
     (bindM (adapter_method ga_get_graph ''graph inspection is not supported'') (\<lambda>f. liftE (f xray)))"

definition assistant_subgraphs :: "string \<Rightarrow> bool \<Rightarrow> json gw" where
  "assistant_subgraphs aid xray =
     thenM (on_assistants (assistants_get aid))
     (bindM (adapter_method ga_get_subgraphs ''subgraph inspection is not supported'') (\<lambda>f. liftE (f xray)))"

definition get_assistant :: "string \<Rightarrow> obj gw" where
  "get_assistant aid = bindM (on_assistants (assistants_get aid)) (\<lambda>a. ret (assistant_payload a))"

definition updated_assistant :: "AssistantCreate \<Rightarrow> Assistant \<Rightarrow> datetime \<Rightarrow> Assistant" where
  "updated_assistant p current now =
     \<lparr> as_assistant_id = as_assistant_id current, as_graph_id = or_text (ac_graph_id p) (as_graph_id current),
       as_version = as_version current + 1,
       as_name = (case ac_name p of Some n \<Rightarrow> JStr n | None \<Rightarrow> as_name current),
       as_description = (case ac_description p of Some d \<Rightarrow> JStr d | None \<Rightarrow> as_description current),
       as_config = (if ac_config p \<noteq> [] then ac_config p else as_config current),
       as_context = (if ac_context p \<noteq> [] then ac_context p else as_context current),
       as_metadata = (if ac_metadata p \<noteq> [] then ac_metadata p else as_metadata current),
       as_created_at = as_created_at current, as_updated_at = Some now \<rparr>"

definition update_assistant :: "string \<Rightarrow> AssistantCreate \<Rightarrow> obj gw" where
  "update_assistant aid p =
     bindM (on_assistants (assistants_get aid)) (\<lambda>current.
     bindM (on_svc svc_now) (\<lambda>now.
     bindM (on_assistants (assistants_update aid (updated_assistant p current now))) (\<lambda>a. ret (assistant_payload a))))"

definition delete_assistant :: "string \<Rightarrow> unit gw" where
  "delete_assistant aid = on_assistants (assistants_delete aid)"

definition assistant_schemas :: "string \<Rightarrow> obj gw" where
  "assistant_schemas aid =
     bindM (on_assistants (assistants_get aid)) (\<lambda>a.
     bindM runtime_adapter (\<lambda>adapter. bindM (liftE (ga_inspect adapter)) (\<lambda>d.
     ret [(''graph_id'', JStr (as_graph_id a)), (''input_schema'', sc_input d), (''output_schema'', sc_output d),
          (''state_schema'', sc_state d), (''config_schema'', sc_config d), (''context_schema'', sc_context d)])))"

subsection \<open>Threads\<close>

definition gw_new_thread :: "ThreadCreate \<Rightarrow> obj gw" where
  "gw_new_thread body = bindM (on_svc (create_thread (tc_thread_id body) (Some (tc_metadata body)))) (\<lambda>t.
     ret (thread_payload t))"

definition gw_create_thread :: "ThreadCreate option \<Rightarrow> obj gw" where
  "gw_create_thread payload =
     (let body = (case payload of Some b \<Rightarrow> b | None \<Rightarrow> thread_create_default) in
      case tc_thread_id body of
        Some (c # cs) \<Rightarrow>
          if tc_if_exists body = Some ''do_nothing''
          then existing_or (bindM (on_svc (on_threads (threads_get (c # cs)))) (\<lambda>t. ret (thread_payload t)))
                 (gw_new_thread body)
          else gw_new_thread body
      | _ \<Rightarrow> gw_new_thread body)"

definition wanted_metadata :: "obj \<Rightarrow> obj option" where
  "wanted_metadata body = (case get_null body ''metadata'' of JObj d \<Rightarrow> Some d | _ \<Rightarrow> None)"

definition wanted_status :: "obj \<Rightarrow> string option" where
  "wanted_status body = (case get_null body ''status'' of JNull \<Rightarrow> None | v \<Rightarrow> Some (py_str v))"

definition search_threads :: "(string \<Rightarrow> rat \<times> string) \<Rightarrow> string \<Rightarrow> obj list gw" where
  "search_threads flt raw =
     bindM (liftE (read_body flt False ''search'' raw)) (\<lambda>body.
     bindM (liftE (limit_of body (JInt 10))) (\<lambda>lmt.
     bindM (liftE (offset_of body)) (\<lambda>off.
     bindM (on_svc (on_threads (threads_search (wanted_metadata body) (wanted_status body) lmt off))) (\<lambda>ts.
     ret (map thread_payload ts)))))"

definition count_threads :: "obj \<Rightarrow> nat gw" where
  "count_threads criteria = on_svc (on_threads (threads_count (wanted_metadata criteria) (wanted_status criteria)))"

text \<open>\<open>update_thread\<close>, which \<open>replace_thread\<close> calls; the client may ask for an answer without a body.\<close>

definition update_thread :: "string \<Rightarrow> string option \<Rightarrow> obj \<Rightarrow> obj option gw" where
  "update_thread tid prefer payload =
     bindM (on_svc (on_threads (threads_get tid))) (\<lambda>t.
     case get_null payload ''metadata'' of
       JObj m \<Rightarrow>
         bindM (on_svc svc_now) (\<lambda>now.
         bindM (on_svc (on_threads (threads_update
             (t \<lparr> th_metadata := dict_merge (th_metadata t) m, th_updated_at := Some now \<rparr>)))) (\<lambda>u.
         ret (if prefer = Some ''return=minimal'' then None else Some (thread_payload u))))
     | _ \<Rightarrow> raise (invalid_input ''metadata must be an object''))"

definition delete_thread :: "string \<Rightarrow> unit gw" where
  "delete_thread tid = on_svc (on_threads (threads_delete tid))"

definition copy_thread :: "string \<Rightarrow> unit gw" where
  "copy_thread tid =
     bindM (on_svc (on_threads (threads_get tid))) (\<lambda>source.
     bindM (on_svc (create_thread None (Some (th_metadata source)))) (\<lambda>_. ret ()))"

definition prune_threads :: "obj \<Rightarrow> obj gw" where
  "prune_threads payload = (case get_null payload ''thread_ids'' of
       JArr ids \<Rightarrow> thenM (forM (\<lambda>i. delete_thread (py_str i)) ids)
         (ret [(''pruned_count'', JInt (int (length ids)))])
     | _ \<Rightarrow> raise (invalid_input ''thread_ids must be a list''))"

definition get_thread :: "string \<Rightarrow> obj gw" where
  "get_thread tid = bindM (on_svc (on_threads (threads_get tid))) (\<lambda>t. ret (thread_payload t))"

subsection \<open>The state of a thread\<close>

definition latest_thread_run :: "string \<Rightarrow> Run gw" where
  "latest_thread_run tid =
     thenM (on_svc (on_threads (threads_get tid)))
     (bindM (on_svc (on_runs (runs_latest_for_thread tid))) (\<lambda>r. case r of
        None \<Rightarrow> raise (runtime_failure RESOURCE_NOT_FOUND ''thread has no runs'')
      | Some run \<Rightarrow> ret run))"

definition checkpoint_from_config :: "json \<Rightarrow> json" where
  "checkpoint_from_config config = (case config of
       JObj c \<Rightarrow> (case get_null c ''configurable'' of
           JObj conf \<Rightarrow>
             if get_null conf ''checkpoint_id'' = JNull \<or> get_null conf ''thread_id'' = JNull then JNull
             else JObj [(''thread_id'', JStr (py_str (get_null conf ''thread_id''))),
                        (''checkpoint_ns'', JStr (py_str (get_or conf ''checkpoint_ns'' (JStr '''')))),
                        (''checkpoint_id'', JStr (py_str (get_null conf ''checkpoint_id''))),
                        (''checkpoint_map'', get_or conf ''checkpoint_map'' (JObj []))]
         | _ \<Rightarrow> JNull)
     | _ \<Rightarrow> JNull)"

text \<open>A dictionary has an attribute \<open>values\<close> as well, its method; the branch of snapshots takes it, and the
  encoder cannot encode a method.\<close>

definition not_encodable :: exc where
  "not_encodable = FrameworkError ''jsonable_encoder''"

definition compat_state :: "state_value \<Rightarrow> exc + json" where
  "compat_state s = (case s of
       SnapshotState n \<Rightarrow> Inr (JObj
         [(''values'', sn_values n), (''next'', JArr (sn_next n)), (''checkpoint'', checkpoint_from_config (sn_config n)),
          (''metadata'', sn_metadata n), (''created_at'', sn_created_at n),
          (''parent_checkpoint'', checkpoint_from_config (sn_parent_config n)), (''tasks'', JArr (sn_tasks n)),
          (''interrupts'', JArr (sn_interrupts n))])
     | DictState d \<Rightarrow> Inl not_encodable
     | OtherState v \<Rightarrow> Inr (JObj [(''values'', v)]))"

definition with_config :: "Run \<Rightarrow> obj \<Rightarrow> ExecutionRequest" where
  "with_config run config = (default_request (rn_identity run)) \<lparr> rq_config := config \<rparr>"

definition thread_state_with :: "string \<Rightarrow> obj \<Rightarrow> json gw" where
  "thread_state_with tid config =
     bindM (latest_thread_run tid) (\<lambda>run. bindM runtime_adapter (\<lambda>a.
     liftE (bindE (ga_get_state a (with_config run config)) compat_state)))"

definition gw_get_thread_state :: "string \<Rightarrow> json gw" where
  "gw_get_thread_state tid = thread_state_with tid []"

definition get_thread_state_checkpoint :: "string \<Rightarrow> string \<Rightarrow> json gw" where
  "get_thread_state_checkpoint tid checkpoint =
     thread_state_with tid [(''configurable'', JObj [(''checkpoint_id'', JStr checkpoint)])]"

definition update_thread_state :: "string \<Rightarrow> obj \<Rightarrow> json gw" where
  "update_thread_state tid payload =
     bindM (latest_thread_run tid) (\<lambda>run. bindM runtime_adapter (\<lambda>a.
     liftE (bindE (ga_update_state a (with_config run []) (get_or payload ''values'' (JObj payload))) compat_state)))"

text \<open>\<open>checkpoint.get(...)\<close> of a checkpoint that is no object raises.\<close>

definition checkpoint_config :: "json \<Rightarrow> exc + obj" where
  "checkpoint_config checkpoint = (case checkpoint of
       JObj c \<Rightarrow> Inr [(''configurable'', JObj (filter (\<lambda>(_, v). v \<noteq> JNull)
         [(''checkpoint_ns'', get_or c ''checkpoint_ns'' (JStr '''')), (''checkpoint_id'', get_null c ''checkpoint_id''),
          (''checkpoint_map'', get_or c ''checkpoint_map'' (JObj []))]))]
     | v \<Rightarrow> Inl (AttributeError (repr_str (json_type v) @ '' object has no attribute '' @ repr_str ''get'')))"

definition get_thread_state_by_checkpoint :: "string \<Rightarrow> obj \<Rightarrow> json gw" where
  "get_thread_state_by_checkpoint tid payload =
     bindM (latest_thread_run tid) (\<lambda>run. bindM runtime_adapter (\<lambda>a.
     bindM (liftE (checkpoint_config (get_or payload ''checkpoint'' (JObj [])))) (\<lambda>config.
     liftE (bindE (ga_get_state a (with_config run config)) compat_state))))"

definition history_config :: "obj \<Rightarrow> exc + obj" where
  "history_config body =
     bindE (case map_of body ''limit'' of
              None \<Rightarrow> Inr []
            | Some v \<Rightarrow> bindE (json_int v) (\<lambda>i. Inr [(''__history_limit__'', JInt (max 0 (min i 1000)))])) (\<lambda>lmt.
     Inr ((case map_of body ''before'' of
             None \<Rightarrow> []
           | Some (JObj d) \<Rightarrow> [(''__history_before__'', JObj d)]
           | Some v \<Rightarrow> [(''__history_before__'', JObj [(''configurable'', JObj [(''checkpoint_id'', JStr (py_str v))])])])
          @ lmt
          @ (case map_of body ''metadata'' of None \<Rightarrow> [] | Some v \<Rightarrow> [(''__history_filter__'', v)])))"

definition gw_get_thread_history :: "string \<Rightarrow> obj \<Rightarrow> json gw" where
  "gw_get_thread_history tid body =
     thenM (on_svc (on_threads (threads_get tid)))
     (bindM (on_svc (on_runs (runs_latest_for_thread tid))) (\<lambda>r. case r of
        None \<Rightarrow> ret (JArr [])
      | Some run \<Rightarrow> bindM runtime_adapter (\<lambda>a. bindM (liftE (history_config body)) (\<lambda>config.
          bindM (liftE (ga_get_state_history a (with_config run config))) (\<lambda>items.
          bindM (liftE (collect (map compat_state items))) (\<lambda>js. ret (JArr js)))))))"

end
