(* ===== verification/Gateway_Runs.thy ===== *)
theory Gateway_Runs
  imports Gateway_Resources
begin

section \<open>Gateway: runs, event streams and the store\<close>

text \<open>
  Models the handlers of \<^verbatim>\<open>services/gateway/app.py\<close> that start, read, cancel, wait for and stream runs, the
  servicer that receives the events of workers (\<open>_EventIngressServicer\<close>), and the routes of the store.
\<close>

subsection \<open>_start_run\<close>

definition gateway_scope :: ApplicationScope where
  "gateway_scope = \<lparr> workspace_id = WorkspaceId ''gateway'', project_id = ProjectId ''default'',
     application_id = ApplicationId ''gateway'', revision_id = RevisionId ''active'',
     deployment_id = DeploymentId ''local'' \<rparr>"

definition gw_identity :: "typed_id \<Rightarrow> typed_id \<Rightarrow> typed_id option \<Rightarrow> ExecutionIdentity gw" where
  "gw_identity aid rid tid = bindM (on_svc svc_new_id) (\<lambda>i.
     ret \<lparr> scope = gateway_scope, assistant_id = aid, run_id = rid, attempt_id = AttemptId i, thread_id = tid \<rparr>)"

definition is_resume :: "json \<Rightarrow> bool" where
  "is_resume command = (case command of JObj d \<Rightarrow> map_of d ''resume'' \<noteq> None | _ \<Rightarrow> False)"

definition modes_of :: "mode_arg \<Rightarrow> string list" where
  "modes_of m = (case m of OneMode s \<Rightarrow> [s] | ManyModes ms \<Rightarrow> ms)"

definition priority_named :: "string \<Rightarrow> exc + queue_priority" where
  "priority_named s = (case map_of [(''interactive'', INTERACTIVE), (''normal'', NORMAL), (''batch'', BATCH)] s of
     Some p \<Rightarrow> Inr p | None \<Rightarrow> Inl (KeyError s))"

definition merged_config :: "RunCreate \<Rightarrow> exc + obj" where
  "merged_config p = (case pl_checkpoint_id p of
       None \<Rightarrow> Inr (pl_config p)
     | Some c \<Rightarrow> bindE (dict_of (get_or (pl_config p) ''configurable'' (JObj []))) (\<lambda>conf.
         Inr (AList.update ''configurable'' (JObj (AList.update ''checkpoint_id'' (JStr c) conf)) (pl_config p))))"

definition run_request :: "RunCreate \<Rightarrow> ExecutionIdentity \<Rightarrow> exc + ExecutionRequest" where
  "run_request p identity =
     bindE (merged_config p) (\<lambda>config. bindE (priority_named (pl_priority p)) (\<lambda>prio.
     Inr \<lparr> rq_identity = identity, rq_input = pl_input p, rq_command = pl_command p, rq_config = config,
           rq_context = pl_context p,
           rq_metadata = AList.update ''multitask_strategy'' (JStr (pl_multitask_strategy p)) (pl_metadata p),
           rq_stream_modes = modes_of (pl_stream_mode p), rq_stream_subgraphs = pl_stream_subgraphs p,
           rq_priority = prio, rq_timeout_seconds = 1800 \<rparr>))"

text \<open>The interrupted run a resume command continues, if there is one.\<close>

definition resumed :: "RunCreate \<Rightarrow> Run option \<Rightarrow> Run option" where
  "resumed p existing = (case existing of
       Some r \<Rightarrow> if is_resume (pl_command p) \<and> rn_status r = INTERRUPTED then Some r else None
     | None \<Rightarrow> None)"

definition gw_start_run :: "RunCreate \<Rightarrow> string option \<Rightarrow> Run gw" where
  "gw_start_run p tid =
     bindM (on_assistants (assistants_get (pl_assistant_id p))) (\<lambda>a.
     bindM (case tid of None \<Rightarrow> ret None
            | Some t \<Rightarrow> bindM (liftE (parse_id ThreadId t)) (\<lambda>i. ret (Some i))) (\<lambda>thread.
     bindM (case thread of None \<Rightarrow> ret None
            | Some i \<Rightarrow> on_svc (on_runs (runs_active_for_thread (id_value i)))) (\<lambda>existing.
     bindM (case resumed p existing of
              Some r \<Rightarrow> ret (rn_identity r)
            | None \<Rightarrow> bindM (on_svc svc_new_id) (\<lambda>r. gw_identity (as_assistant_id a) (RunId r) thread)) (\<lambda>identity.
     bindM (liftE (run_request p identity)) (\<lambda>rq.
     bindM (getsM (\<lambda>g. sv_adapters (gw_runtime g) \<noteq> [])) (\<lambda>local_adapter.
     case resumed p existing of
       Some _ \<Rightarrow> on_svc (resume_run rq)
     | None \<Rightarrow> on_svc (start_run (\<not> local_adapter) rq)))))))"

definition create_run :: "string \<Rightarrow> RunCreate \<Rightarrow> obj gw" where
  "create_run tid p = bindM (gw_start_run p (Some tid)) (\<lambda>r. ret (run_payload r))"

definition create_stateless_run :: "RunCreate \<Rightarrow> obj gw" where
  "create_stateless_run p = bindM (gw_start_run p None) (\<lambda>r. ret (run_payload r))"

text \<open>\<open>asyncio.gather\<close> without another exception handler: the first exception is raised to the caller,
  while the other tasks go on to their ends.  The tasks are run one after another.\<close>

fun gather :: "'a gw list \<Rightarrow> 'a list gw" where
  "gather [] = ret []"
| "gather (m # ms) = (\<lambda>g. let (r, g1) = m g; (rs, g2) = gather ms g1 in
     (case r of Inl e \<Rightarrow> Inl e | Inr x \<Rightarrow> map_sum id ((#) x) rs, g2))"

definition create_run_batch :: "RunCreate list \<Rightarrow> obj list gw" where
  "create_run_batch ps = bindM (gather (map (\<lambda>p. gw_start_run p None) ps)) (\<lambda>rs. ret (map run_payload rs))"

subsection \<open>Reading and cancelling runs\<close>

definition list_thread_runs :: "string \<Rightarrow> nat \<Rightarrow> nat \<Rightarrow> string option \<Rightarrow> obj list gw" where
  "list_thread_runs tid lmt off status =
     thenM (on_svc (on_threads (threads_get tid)))
     (bindM (on_svc (on_runs (runs_list_for_thread tid lmt off status))) (\<lambda>rs. ret (map run_payload rs)))"

definition get_run :: "string \<Rightarrow> obj gw" where
  "get_run rid = bindM (on_svc (on_runs (runs_get rid))) (\<lambda>r. ret (run_payload r))"

text \<open>The check every route under a thread makes.\<close>

definition thread_run :: "string \<Rightarrow> string \<Rightarrow> Run gw" where
  "thread_run tid rid = bindM (on_svc (on_runs (runs_get rid))) (\<lambda>r.
     if rn_thread_key r \<noteq> Some tid
     then raise (runtime_failure RESOURCE_NOT_FOUND ''run does not belong to thread'') else ret r)"

definition get_thread_run :: "string \<Rightarrow> string \<Rightarrow> obj gw" where
  "get_thread_run tid rid = bindM (thread_run tid rid) (\<lambda>r. ret (run_payload r))"

definition delete_thread_run :: "string \<Rightarrow> string \<Rightarrow> unit gw" where
  "delete_thread_run tid rid = thenM (thread_run tid rid) (on_svc (on_runs (runs_delete rid)))"

definition cancel_many_runs :: "obj \<Rightarrow> unit gw" where
  "cancel_many_runs payload = (case get_null payload ''run_ids'' of
       JArr ids \<Rightarrow> forM (\<lambda>i. thenM (on_svc (cancel_run (py_str i))) (ret ())) ids
     | _ \<Rightarrow> (case get_null payload ''status'' of
         JStr s \<Rightarrow> if s \<in> {''pending'', ''running'', ''all''}
           then raise (runtime_failure CAPABILITY_NOT_SUPPORTED ''bulk cancellation by status requires a run index'')
           else ret ()
       | JArr _ \<Rightarrow> raise (TypeError (''unhashable type: '' @ repr_str ''list''))
       | JObj _ \<Rightarrow> raise (TypeError (''unhashable type: '' @ repr_str ''dict''))
       | _ \<Rightarrow> ret ()))"

subsection \<open>_wait_for_run\<close>

text \<open>One round of the loop: \<open>None\<close> says that the run is still active and the loop sleeps.  The adapter is
  only asked for the state of a run that succeeded; when that is a dictionary, the answer holds its method
  \<open>values\<close>, which cannot be encoded.\<close>

definition wait_statuses :: "run_status list" where
  "wait_statuses = [SUCCESS, ERROR, TIMEOUT, CANCELLED, INTERRUPTED]"

definition wait_result :: "GwAdapter option \<Rightarrow> Run \<Rightarrow> exc + obj" where
  "wait_result adapter run =
     (case adapter of
        Some a \<Rightarrow>
          if rn_status run = SUCCESS
          then bindE (ga_get_state a (default_request (rn_identity run))) (\<lambda>st. case st of
              SnapshotState n \<Rightarrow> Inr (case sn_values n of JObj d \<Rightarrow> d | v \<Rightarrow> [(''output'', v)])
            | DictState d \<Rightarrow> Inl not_encodable
            | OtherState v \<Rightarrow> Inr (run_payload run))
          else Inr (run_payload run)
      | None \<Rightarrow> Inr (run_payload run))"

definition wait_round :: "string \<Rightarrow> GwAdapter option \<Rightarrow> obj option gw" where
  "wait_round rid adapter = bindM (on_svc (on_runs (runs_get rid))) (\<lambda>run.
     if rn_status run \<in> set wait_statuses then bindM (liftE (wait_result adapter run)) (\<lambda>d. ret (Some d))
     else ret None)"

text \<open>The loop over the states it finds each time it wakes up, for at most \<open>n\<close> rounds.\<close>

fun wait_for_run :: "nat \<Rightarrow> (nat \<Rightarrow> Gateway) \<Rightarrow> string \<Rightarrow> GwAdapter option \<Rightarrow> (exc + obj) option" where
  "wait_for_run 0 states rid adapter = None"
| "wait_for_run (Suc n) states rid adapter = (case fst (wait_round rid adapter (states 0)) of
     Inl e \<Rightarrow> Some (Inl e)
   | Inr (Some d) \<Rightarrow> Some (Inr d)
   | Inr None \<Rightarrow> wait_for_run n (\<lambda>i. states (Suc i)) rid adapter)"

text \<open>The routes that wait: which run they wait for, and with which adapter; \<open>None\<close> is an answer at once.\<close>

type_synonym waiting = "string \<times> GwAdapter option"

definition wait_stateless_run :: "RunCreate \<Rightarrow> waiting gw" where
  "wait_stateless_run p = bindM (gw_start_run p None) (\<lambda>r. ret (rn_key r, None))"

definition wait_thread_run :: "string \<Rightarrow> RunCreate \<Rightarrow> waiting gw" where
  "wait_thread_run tid p = bindM (gw_start_run p (Some tid)) (\<lambda>r. ret (rn_key r, None))"

definition join_run :: "string \<Rightarrow> string \<Rightarrow> waiting gw" where
  "join_run tid rid = bindM (thread_run tid rid) (\<lambda>r. bindM runtime_adapter (\<lambda>a. ret (rn_key r, Some a)))"

definition wait_cancelled :: "string \<Rightarrow> bool \<Rightarrow> waiting option gw" where
  "wait_cancelled rid wait =
     (if wait then bindM runtime_adapter (\<lambda>a. bindM (liftE (parse_id RunId rid)) (\<lambda>i. ret (Some (id_value i, Some a))))
      else ret None)"

definition gw_cancel_run :: "string \<Rightarrow> bool \<Rightarrow> waiting option gw" where
  "gw_cancel_run rid wait = thenM (on_svc (cancel_run rid)) (wait_cancelled rid wait)"

definition cancel_thread_run :: "string \<Rightarrow> string \<Rightarrow> bool \<Rightarrow> waiting option gw" where
  "cancel_thread_run tid rid wait =
     thenM (thread_run tid rid) (thenM (on_svc (cancel_run rid)) (wait_cancelled rid wait))"

subsection \<open>The store\<close>

definition store_message :: string where
  "store_message = ''store is not available''"

definition store_put_item :: "obj \<Rightarrow> unit gw" where
  "store_put_item payload = bindM (adapter_method ga_store_put store_message) (\<lambda>f.
     liftE (f (get_or payload ''namespace'' (JArr [])) (text_of payload ''key'' '''')
       (get_or payload ''value'' (JObj [])) (get_null payload ''index'')))"

definition store_get_item :: "string \<Rightarrow> string \<Rightarrow> json gw" where
  "store_get_item namespace key = bindM (adapter_method ga_store_get store_message) (\<lambda>f.
     liftE (f (split_on (CHR ''.'') namespace) key))"

definition store_delete_item :: "obj \<Rightarrow> unit gw" where
  "store_delete_item payload = bindM (adapter_method ga_store_delete store_message) (\<lambda>f.
     liftE (f (get_or payload ''namespace'' (JArr [])) (text_of payload ''key'' '''')))"

definition store_search_items :: "obj \<Rightarrow> json gw" where
  "store_search_items payload = bindM (adapter_method ga_store_search store_message) (\<lambda>f.
     bindM (liftE (limit_of payload (JInt 10))) (\<lambda>lmt. bindM (liftE (offset_of payload)) (\<lambda>off.
     liftE (f (get_or payload ''namespace_prefix'' (JArr [])) (get_null payload ''filter'') (int lmt) (int off)))))"

definition store_list_namespaces :: "obj \<Rightarrow> json gw" where
  "store_list_namespaces payload = bindM (adapter_method ga_store_list_namespaces store_message) (\<lambda>f.
     bindM (liftE (limit_of payload (JInt 100))) (\<lambda>lmt. bindM (liftE (offset_of payload)) (\<lambda>off.
     liftE (f (get_null payload ''prefix'') (get_null payload ''suffix'') (get_null payload ''max_depth'')
       (int lmt) (int off)))))"

end
