(* ===== verification/Gateway_Streams.thy ===== *)
theory Gateway_Streams
  imports Gateway_Runs
begin

section \<open>Gateway: event streams\<close>

text \<open>
  Models \<open>_sse_response\<close>, \<open>_event_cursor\<close>, the streaming routes and \<open>_EventIngressServicer\<close> of
  \<^verbatim>\<open>services/gateway/app.py\<close>.  A worker sends the events of a run to the servicer, which puts them into
  the queue of every stream that is open for the run; a stream turns the items of its queue into frames of
  server-sent events.
\<close>

subsection \<open>Frames\<close>

text \<open>\<open>orjson.dumps\<close>: compact text, and integers of at most 64 bits.\<close>

primrec ints_fit :: "json \<Rightarrow> bool" where
  "ints_fit JNull = True"
| "ints_fit (JBool b) = True"
| "ints_fit (JInt i) = (- (2 ^ 63) \<le> i \<and> i < 2 ^ 64)"
| "ints_fit (JFloat r t) = True"
| "ints_fit (JStr s) = True"
| "ints_fit (JArr xs) = list_all id (map ints_fit xs)"
| "ints_fit (JObj d) = list_all snd (map (map_prod id ints_fit) d)"

definition orjson_dumps :: "json \<Rightarrow> exc + string" where
  "orjson_dumps v = (if ints_fit v then Inr (json_dumps v) else Inl (TypeError ''Integer exceeds 64-bit range''))"

abbreviation newline :: char where
  "newline \<equiv> CHR 0x0A"

definition metadata_frame :: "string \<Rightarrow> string" where
  "metadata_frame rid = ''event: metadata'' @ [newline] @ ''data: '' @ json_dumps (JObj [(''run_id'', JStr rid)])
     @ [newline, newline]"

definition end_frame :: string where
  "end_frame = ''event: end'' @ [newline] @ ''data: null'' @ [newline, newline]"

definition event_frame :: "int \<Rightarrow> string \<Rightarrow> string \<Rightarrow> string" where
  "event_frame n name data = ''id: '' @ int_str n @ [newline] @ ''event: '' @ name @ [newline] @ ''data: '' @ data
     @ [newline, newline]"

subsection \<open>Opening a stream\<close>

record SseStream =
  ss_run :: string
  ss_queue :: nat
  ss_modes :: "string list"
  ss_native :: bool
  ss_after :: int
  ss_headers :: "(string, string) pydict"

definition cursor_error :: "string \<Rightarrow> exc" where
  "cursor_error message = runtime_failure STREAM_CURSOR_INVALID message"

definition sse_cursor :: "string option \<Rightarrow> int option \<Rightarrow> exc + int" where
  "sse_cursor last_event_id after =
     bindE (case after of
              Some n \<Rightarrow> Inr n
            | None \<Rightarrow> (case last_event_id of
                None \<Rightarrow> Inr (-1)
              | Some s \<Rightarrow> (case py_int s of Some n \<Rightarrow> Inr n
                  | None \<Rightarrow> Inl (cursor_error ''Last-Event-ID must be an integer'')))) (\<lambda>n.
     if n < -1 then Inl (cursor_error ''Last-Event-ID must be >= 0'') else Inr n)"

definition sse_headers :: "string \<Rightarrow> string option \<Rightarrow> (string, string) pydict" where
  "sse_headers rid tid = [(''Cache-Control'', ''no-cache''), (''X-Accel-Buffering'', ''no'')]
     @ (case tid of Some t \<Rightarrow> [(''Content-Location'', ''/threads/'' @ t @ ''/runs/'' @ rid @ ''/stream'')] | None \<Rightarrow> [])"

text \<open>Every route passes the dictionary of queues, so a stream always reads from a queue of its own.\<close>

definition sse_response ::
  "string \<Rightarrow> mode_arg \<Rightarrow> string option \<Rightarrow> bool \<Rightarrow> int option \<Rightarrow> string option \<Rightarrow> SseStream gw" where
  "sse_response rid mode last_event_id is_native after tid =
     bindM (liftE (sse_cursor last_event_id after)) (\<lambda>cursor.
     bindM (getsM gw_next_queue) (\<lambda>q.
     thenM (modifyM (\<lambda>g. g \<lparr> gw_next_queue := Suc q, gw_queues := (gw_queues g)(q := []),
              gw_run_queues := AList.update rid
                ((case map_of (gw_run_queues g) rid of Some qs \<Rightarrow> qs | None \<Rightarrow> []) @ [q]) (gw_run_queues g) \<rparr>))
     (ret \<lparr> ss_run = rid, ss_queue = q, ss_modes = modes_of mode, ss_native = is_native, ss_after = cursor,
           ss_headers = sse_headers rid tid \<rparr>)))"

subsection \<open>The frames of a stream\<close>

text \<open>What an event becomes: \<open>None\<close> says that it is skipped.\<close>

definition frame_of :: "SseStream \<Rightarrow> ProtoEvent \<Rightarrow> exc + string option" where
  "frame_of st p =
     (if pe_sequence p \<le> ss_after st then Inr None
      else let data = value_to_python (pe_data p); ntv = obj_of_struct (pe_native p) in
        if ss_native st
        then bindE (orjson_dumps (JObj [(''schema_version'', JInt 1), (''sequence'', JInt (pe_sequence p)),
                 (''run_id'', JStr (pi_run_id (pe_identity p))), (''type'', JStr (pe_type p)), (''data'', data)])) (\<lambda>t.
             Inr (Some (event_frame (pe_sequence p) (pe_type p) t)))
        else (case get_or ntv ''langgraph_mode'' (JStr ''values'') of
            JStr m \<Rightarrow>
              if m \<notin> set (ss_modes st) then Inr None
              else bindE (orjson_dumps data) (\<lambda>t. Inr (Some (event_frame (pe_sequence p)
                (m @ (if pe_namespace p \<noteq> [] then ''|'' @ join ''|'' (pe_namespace p) else [])) t)))
          | JArr _ \<Rightarrow> Inl (TypeError (''unhashable type: '' @ repr_str ''list''))
          | JObj _ \<Rightarrow> Inl (TypeError (''unhashable type: '' @ repr_str ''dict''))
          | _ \<Rightarrow> Inr None))"

text \<open>The state of the generator: still waiting for the next item, at its end, or ended by an exception.\<close>

datatype sse_end = Waiting | Finished | Broken exc

fun queue_frames :: "SseStream \<Rightarrow> queue_item list \<Rightarrow> string list \<times> sse_end" where
  "queue_frames st [] = ([], Waiting)"
| "queue_frames st (QEnd # items) = (if ss_native st then [] else [end_frame], Finished)"
| "queue_frames st (QEvent p # items) = (case frame_of st p of
     Inl e \<Rightarrow> ([], Broken e)
   | Inr None \<Rightarrow> queue_frames st items
   | Inr (Some f) \<Rightarrow> (let (fs, e) = queue_frames st items in (f # fs, e)))"

definition sse_frames :: "SseStream \<Rightarrow> queue_item list \<Rightarrow> string list \<times> sse_end" where
  "sse_frames st items = (let (fs, e) = queue_frames st items in
     ((if ss_native st then [] else [metadata_frame (ss_run st)]) @ fs, e))"

text \<open>The other generator of \<open>_sse_response\<close>, over the events of a subscription.\<close>

definition journal_frame :: "string list \<Rightarrow> bool \<Rightarrow> RuntimeEvent \<Rightarrow> exc + string option" where
  "journal_frame modes is_native e =
     (if is_native
      then bindE (orjson_dumps (JObj (event_payload e))) (\<lambda>t. Inr (Some (event_frame (ev_sequence e) (ev_str (ev_type e)) t)))
      else (case get_null (ev_native e) ''langgraph_mode'' of
          JStr m \<Rightarrow>
            if m \<notin> set modes then Inr None
            else bindE (orjson_dumps (ev_data e)) (\<lambda>t. Inr (Some (event_frame (ev_sequence e)
              (m @ (if ev_namespace e \<noteq> [] then ''|'' @ join ''|'' (ev_namespace e) else [])) t)))
        | JArr _ \<Rightarrow> Inl (TypeError (''unhashable type: '' @ repr_str ''list''))
        | JObj _ \<Rightarrow> Inl (TypeError (''unhashable type: '' @ repr_str ''dict''))
        | _ \<Rightarrow> Inr None))"

subsection \<open>The streaming routes\<close>

definition event_cursor :: "string \<Rightarrow> int gw" where
  "event_cursor rid = bindM (on_svc (on_journal (journal_replay rid (-1)))) (\<lambda>es.
     ret (fold max (map ev_sequence es) (-1)))"

definition stream_run :: "string \<Rightarrow> RunCreate \<Rightarrow> string option \<Rightarrow> SseStream gw" where
  "stream_run tid p last_event_id =
     bindM (gw_start_run p (Some tid)) (\<lambda>r.
     bindM (if is_resume (pl_command p) then bindM (event_cursor (rn_key r)) (\<lambda>n. ret (Some n)) else ret None) (\<lambda>cursor.
     sse_response (rn_key r) (pl_stream_mode p) last_event_id False cursor (Some tid)))"

definition join_stream :: "string \<Rightarrow> string \<Rightarrow> string option \<Rightarrow> string option \<Rightarrow> SseStream gw" where
  "join_stream tid rid mode last_event_id =
     bindM (thread_run tid rid) (\<lambda>r.
     sse_response (rn_key r) (OneMode (or_text mode ''values'')) last_event_id False None (Some tid))"

definition join_thread_stream :: "string \<Rightarrow> string option \<Rightarrow> string option \<Rightarrow> SseStream gw" where
  "join_thread_stream tid mode last_event_id =
     bindM (latest_thread_run tid) (\<lambda>r.
     sse_response (rn_key r) (OneMode (or_text mode ''values'')) last_event_id False None (Some tid))"

definition stream_stateless_run :: "RunCreate \<Rightarrow> string option \<Rightarrow> SseStream gw" where
  "stream_stateless_run p last_event_id =
     bindM (gw_start_run p None) (\<lambda>r. sse_response (rn_key r) (pl_stream_mode p) last_event_id False None None)"

definition native_run_events :: "string \<Rightarrow> string option \<Rightarrow> SseStream gw" where
  "native_run_events rid last_event_id =
     thenM (on_svc (on_runs (runs_get rid)))
     (bindM (liftE (parse_id RunId rid)) (\<lambda>i. sse_response (id_value i) (OneMode ''events'') last_event_id True None None))"

subsection \<open>The event ingress\<close>

definition queue_size :: nat where
  "queue_size = 10000"

text \<open>\<open>await q.put(item)\<close> for every queue of a run; \<open>None\<close> says that a queue is full and the servicer waits.\<close>

fun put_all :: "nat list \<Rightarrow> queue_item \<Rightarrow> (nat \<Rightarrow> queue_item list) \<Rightarrow> (nat \<Rightarrow> queue_item list) option" where
  "put_all [] x qs = Some qs"
| "put_all (q # ns) x qs = (if length (qs q) < queue_size then put_all ns x (qs(q := qs q @ [x])) else None)"

definition queues_for :: "Gateway \<Rightarrow> string \<Rightarrow> nat list" where
  "queues_for g rid = (case map_of (gw_run_queues g) rid of Some qs \<Rightarrow> qs | None \<Rightarrow> [])"

definition ingress_begin :: "string \<Rightarrow> Gateway \<Rightarrow> Gateway" where
  "ingress_begin rid g = (if map_of (gw_run_queues g) rid = None
     then g \<lparr> gw_run_queues := AList.update rid [] (gw_run_queues g) \<rparr> else g)"

definition ingress_event :: "string \<Rightarrow> ProtoEvent \<Rightarrow> Gateway \<Rightarrow> Gateway option" where
  "ingress_event rid p g = map_option (\<lambda>qs. g \<lparr> gw_queues := qs \<rparr>) (put_all (queues_for g rid) (QEvent p) (gw_queues g))"

definition ingress_end :: "string \<Rightarrow> Gateway \<Rightarrow> Gateway option" where
  "ingress_end rid g = map_option (\<lambda>qs. g \<lparr> gw_queues := qs, gw_run_queues := AList.delete rid (gw_run_queues g) \<rparr>)
     (put_all (queues_for g rid) QEnd (gw_queues g))"

fun ingress_events :: "string \<Rightarrow> ProtoEvent list \<Rightarrow> Gateway \<Rightarrow> Gateway option" where
  "ingress_events rid [] g = Some g"
| "ingress_events rid (p # ps) g = Option.bind (ingress_event rid p g) (ingress_events rid ps)"

text \<open>\<open>StreamEvents\<close> without interruption: the first event names the run of the whole stream.\<close>

definition ingress_stream :: "ProtoEvent list \<Rightarrow> Gateway \<Rightarrow> (string \<times> Gateway) option" where
  "ingress_stream ps g = (case ps of
       [] \<Rightarrow> Some ('''', g)
     | p # _ \<Rightarrow> (let rid = pi_run_id (pe_identity p) in
         Option.bind (ingress_events rid ps (ingress_begin rid g)) (\<lambda>g1.
         if rid = [] then Some ('''', g1) else map_option (Pair rid) (ingress_end rid g1))))"

end
