(* ===== verification/Gateway_Routes.thy ===== *)
theory Gateway_Routes
  imports Gateway_Streams Runtime_Steps
begin

section \<open>Gateway: the routes as one system\<close>

text \<open>
  The table of routes that \<open>create_app\<close> registers, as one function from requests to programs, and the
  system the gateway forms with the worker of its runtime and the event ingress.  An invariant of the
  runtime that the operations of the service keep is kept by every route; the locale \<open>runtime_invariant\<close>
  states what is needed and proves it once.
\<close>

subsection \<open>Routes\<close>

datatype http_request =
    RegisterWorker obj | ListWorkers
  | ValidateConfig string obj | GetConfig string string | CreateConfig string string obj
  | ActivateConfig string int string
  | CreateAssistant AssistantCreate | CountAssistants obj | AssistantVersions string string
  | SetLatestAssistant string obj
  | SearchAssistantsGet "string option" "string option" "string option" nat nat | SearchAssistants string
  | AssistantGraph string bool | AssistantSubgraphs string bool | GetAssistant string
  | UpdateAssistant string AssistantCreate | DeleteAssistant string | AssistantSchemas string
  | CreateThread "ThreadCreate option" | SearchThreads string | CountThreads obj
  | UpdateThread string "string option" obj | DeleteThread string | CopyThread string | PruneThreads obj
  | GetThreadState string | GetThreadStateCheckpoint string string | UpdateThreadState string obj
  | GetThreadStateByCheckpoint string obj | GetThreadHistory string obj | GetThread string
  | CreateRun string RunCreate | ListThreadRuns string nat nat "string option"
  | StreamRun string RunCreate "string option" | JoinStream string string "string option" "string option"
  | JoinThreadStream string "string option" "string option" | StreamStatelessRun RunCreate "string option"
  | CreateStatelessRun RunCreate | CreateRunBatch "RunCreate list" | NativeRunEvents string "string option"
  | WaitStatelessRun RunCreate | WaitThreadRun string RunCreate | CancelManyRuns obj | GetRun string
  | GetThreadRun string string | DeleteThreadRun string string | JoinRun string string
  | CancelRun string bool | CancelThreadRun string string bool
  | StorePut obj | StoreGet string string | StoreDelete obj | StoreSearch obj | StoreNamespaces obj

text \<open>The answer of a route: a value, no content, an event stream, or the end of a run to wait for.\<close>

datatype reply = Value json | NoContent | Events SseStream | WaitFor waiting

definition as_value :: "('a \<Rightarrow> json) \<Rightarrow> 'a gw \<Rightarrow> reply gw" where
  "as_value f m = bindM m (\<lambda>x. ret (Value (f x)))"

definition as_none :: "'a gw \<Rightarrow> reply gw" where
  "as_none m = bindM m (\<lambda>_. ret NoContent)"

definition as_events :: "SseStream gw \<Rightarrow> reply gw" where
  "as_events m = bindM m (\<lambda>st. ret (Events st))"

definition as_wait :: "waiting gw \<Rightarrow> reply gw" where
  "as_wait m = bindM m (\<lambda>w. ret (WaitFor w))"

definition as_wait_option :: "waiting option gw \<Rightarrow> reply gw" where
  "as_wait_option m = bindM m (\<lambda>w. ret (case w of Some w \<Rightarrow> WaitFor w | None \<Rightarrow> NoContent))"

abbreviation objects :: "obj list \<Rightarrow> json" where
  "objects ds \<equiv> JArr (map JObj ds)"

text \<open>What the gateway is configured with: the schema validator, the reader of float literals, and the type
  of the first column of a migration row.\<close>

record GwConfig =
  gc_check :: "obj \<Rightarrow> (json list \<times> string) list"
  gc_flt :: "string \<Rightarrow> rat \<times> string"
  gc_column :: string

fun gw_handle :: "GwConfig \<Rightarrow> http_request \<Rightarrow> reply gw" where
  "gw_handle c (RegisterWorker p) = as_value JObj (register_worker (gc_column c) p)"
| "gw_handle c ListWorkers = as_value objects list_workers"
| "gw_handle c (ValidateConfig rid p) = as_value JObj (validate_config (gc_check c) rid p)"
| "gw_handle c (GetConfig app rid) = as_value JObj (get_config app rid)"
| "gw_handle c (CreateConfig app rid p) = as_value JObj (create_config (gc_check c) (gc_flt c) app rid p)"
| "gw_handle c (ActivateConfig app n rid) = as_value JObj (activate_config app n rid)"
| "gw_handle c (CreateAssistant p) = as_value JObj (create_assistant p)"
| "gw_handle c (CountAssistants p) = as_value (JInt \<circ> int) (count_assistants p)"
| "gw_handle c (AssistantVersions a raw) = as_value objects (assistant_versions (gc_flt c) a raw)"
| "gw_handle c (SetLatestAssistant a p) = as_value JObj (set_latest_assistant a p)"
| "gw_handle c (SearchAssistantsGet g n m lmt off) = as_value objects (search_assistants_get (gc_flt c) g n m lmt off)"
| "gw_handle c (SearchAssistants raw) = as_value objects (search_assistants (gc_flt c) raw)"
| "gw_handle c (AssistantGraph a x) = as_value id (assistant_graph a x)"
| "gw_handle c (AssistantSubgraphs a x) = as_value id (assistant_subgraphs a x)"
| "gw_handle c (GetAssistant a) = as_value JObj (get_assistant a)"
| "gw_handle c (UpdateAssistant a p) = as_value JObj (update_assistant a p)"
| "gw_handle c (DeleteAssistant a) = as_none (delete_assistant a)"
| "gw_handle c (AssistantSchemas a) = as_value JObj (assistant_schemas a)"
| "gw_handle c (CreateThread p) = as_value JObj (gw_create_thread p)"
| "gw_handle c (SearchThreads raw) = as_value objects (search_threads (gc_flt c) raw)"
| "gw_handle c (CountThreads p) = as_value (JInt \<circ> int) (count_threads p)"
| "gw_handle c (UpdateThread t h p) = as_value (\<lambda>d. case d of Some d \<Rightarrow> JObj d | None \<Rightarrow> JNull) (update_thread t h p)"
| "gw_handle c (DeleteThread t) = as_none (delete_thread t)"
| "gw_handle c (CopyThread t) = as_none (copy_thread t)"
| "gw_handle c (PruneThreads p) = as_value JObj (prune_threads p)"
| "gw_handle c (GetThreadState t) = as_value id (gw_get_thread_state t)"
| "gw_handle c (GetThreadStateCheckpoint t k) = as_value id (get_thread_state_checkpoint t k)"
| "gw_handle c (UpdateThreadState t p) = as_value id (update_thread_state t p)"
| "gw_handle c (GetThreadStateByCheckpoint t p) = as_value id (get_thread_state_by_checkpoint t p)"
| "gw_handle c (GetThreadHistory t p) = as_value id (gw_get_thread_history t p)"
| "gw_handle c (GetThread t) = as_value JObj (get_thread t)"
| "gw_handle c (CreateRun t p) = as_value JObj (create_run t p)"
| "gw_handle c (ListThreadRuns t lmt off st) = as_value objects (list_thread_runs t lmt off st)"
| "gw_handle c (StreamRun t p h) = as_events (stream_run t p h)"
| "gw_handle c (JoinStream t r m h) = as_events (join_stream t r m h)"
| "gw_handle c (JoinThreadStream t m h) = as_events (join_thread_stream t m h)"
| "gw_handle c (StreamStatelessRun p h) = as_events (stream_stateless_run p h)"
| "gw_handle c (CreateStatelessRun p) = as_value JObj (create_stateless_run p)"
| "gw_handle c (CreateRunBatch ps) = as_value objects (create_run_batch ps)"
| "gw_handle c (NativeRunEvents r h) = as_events (native_run_events r h)"
| "gw_handle c (WaitStatelessRun p) = as_wait (wait_stateless_run p)"
| "gw_handle c (WaitThreadRun t p) = as_wait (wait_thread_run t p)"
| "gw_handle c (CancelManyRuns p) = as_none (cancel_many_runs p)"
| "gw_handle c (GetRun r) = as_value JObj (get_run r)"
| "gw_handle c (GetThreadRun t r) = as_value JObj (get_thread_run t r)"
| "gw_handle c (DeleteThreadRun t r) = as_none (delete_thread_run t r)"
| "gw_handle c (JoinRun t r) = as_wait (join_run t r)"
| "gw_handle c (CancelRun r w) = as_wait_option (gw_cancel_run r w)"
| "gw_handle c (CancelThreadRun t r w) = as_wait_option (cancel_thread_run t r w)"
| "gw_handle c (StorePut p) = as_none (store_put_item p)"
| "gw_handle c (StoreGet n k) = as_value id (store_get_item n k)"
| "gw_handle c (StoreDelete p) = as_none (store_delete_item p)"
| "gw_handle c (StoreSearch p) = as_value id (store_search_items p)"
| "gw_handle c (StoreNamespaces p) = as_value id (store_list_namespaces p)"

text \<open>The gateway with the execution in flight on its runtime; a step of the process itself is a request or a
  section of the worker, and the event ingress adds the calls of the workers outside.\<close>

inductive local_step :: "GwConfig \<Rightarrow> (RuntimeEventDraft \<Rightarrow> bool) \<Rightarrow> Gateway \<times> Flight option \<Rightarrow> Gateway \<times> Flight option \<Rightarrow> bool"
  for c allowed where
  requested: "local_step c allowed (g, f) (snd (gw_handle c rq g), f)"
| worked: "svc_step allowed (gw_runtime g, f) (s, f') \<Longrightarrow> local_step c allowed (g, f) (g \<lparr> gw_runtime := s \<rparr>, f')"

inductive gw_step :: "GwConfig \<Rightarrow> (RuntimeEventDraft \<Rightarrow> bool) \<Rightarrow> Gateway \<times> Flight option \<Rightarrow> Gateway \<times> Flight option \<Rightarrow> bool"
  for c allowed where
  served: "local_step c allowed x y \<Longrightarrow> gw_step c allowed x y"
| ingress_opened: "gw_step c allowed (g, f) (ingress_begin rid g, f)"
| ingress_received: "ingress_event rid p g = Some g' \<Longrightarrow> gw_step c allowed (g, f) (g', f)"
| ingress_closed: "ingress_end rid g = Some g' \<Longrightarrow> gw_step c allowed (g, f) (g', f)"

subsection \<open>Invariants of the gateway\<close>

text \<open>A program that only reads keeps everything.\<close>

lemma preserves_pure: "(\<And>s. snd (m s) = s) \<Longrightarrow> preserves I m"
  by (rule preservesI) simp

lemma zoom_pure: "(\<And>c. snd (m c) = c) \<Longrightarrow> (\<And>s. upd (sel s) s = s) \<Longrightarrow> snd (zoomM sel upd m s) = s"
  by (simp add: zoomM_def case_prod_unfold)

lemma preserves_other_zoom: "(\<And>g c. J (upd c g) = J g) \<Longrightarrow> preserves J (zoomM sel upd m)"
  by (rule preservesI) (simp add: zoomM_def case_prod_unfold)

lemma threads_count_state [simp]: "snd (threads_count md st d) = d"
  by (simp add: threads_count_def threads_search_def prog_defs)

lemma threads_get_state [simp]: "snd (threads_get k d) = d"
  by (rule threads.get_pure)

lemma journal_replay_state [simp]: "snd (journal_replay k n j) = j"
  by (simp add: journal_replay_def)

lemma preserves_gather:
  assumes "\<And>m. m \<in> set ms \<Longrightarrow> preserves J m"
  shows "preserves J (gather ms)"
  using assms
proof (induction ms)
  case (Cons m ms)
  then have "preserves J m" "preserves J (gather ms)" by auto
  then show ?case by (simp add: preserves_iff Let_def case_prod_unfold)
qed (simp add: preserves_ret)

text \<open>What an invariant of the gateway must survive: the operations that change the state.\<close>

locale gateway_invariant =
  fixes J :: "Gateway \<Rightarrow> bool"
  assumes now: "preserves J (on_svc svc_now)" and new_id: "preserves J (on_svc svc_new_id)"
    and thread_created: "preserves J (on_svc (create_thread t md))"
    and thread_updated: "preserves J (on_svc (on_threads (threads_update th)))"
    and thread_deleted: "preserves J (on_svc (on_threads (threads_delete k)))"
    and run_deleted: "preserves J (on_svc (on_runs (runs_delete k)))"
    and run_started: "preserves J (on_svc (start_run b rq))"
    and run_cancelled: "preserves J (on_svc (cancel_run k))"
    and run_resumed: "preserves J (on_svc (resume_run rq))"
    and assistants_changed: "J (g \<lparr> gw_assistants := as \<rparr>) = J g"
    and config_changed: "J (g \<lparr> gw_config := rs \<rparr>) = J g"
    and workers_changed: "J (g \<lparr> gw_workers := w \<rparr>) = J g"
    and migrations_changed: "J (g \<lparr> gw_migrations := rows \<rparr>) = J g"
    and stream_opened: "preserves J (sse_response r m h n a tid)"
begin

lemma reads:
  "preserves J (on_svc (on_threads (threads_get k)))"
  "preserves J (on_svc (on_threads (threads_search md st lmt off)))"
  "preserves J (on_svc (on_threads (threads_count md st)))"
  "preserves J (on_svc (on_runs (runs_get k)))"
  "preserves J (on_svc (on_runs (runs_latest_for_thread k)))"
  "preserves J (on_svc (on_runs (runs_active_for_thread k)))"
  "preserves J (on_svc (on_runs (runs_list_for_thread k lmt off st)))"
  "preserves J (on_svc (on_journal (journal_replay k n)))"
  by (auto intro!: preserves_pure zoom_pure simp: runs_get_state)

lemma stores: "preserves J (on_assistants m)" "preserves J (on_config m')"
  by (intro preserves_other_zoom assistants_changed config_changed)+

lemma others:
  "preserves J (environ_get n)" "preserves J runtime_adapter" "preserves J (adapter_method sel msg)"
  by (auto simp: environ_get_def runtime_adapter_def adapter_method_def
      intro!: hoare_intros split: list.splits option.splits prod.splits)

lemmas kept = now new_id thread_created thread_updated thread_deleted run_deleted run_started run_cancelled
  run_resumed stores reads others

lemma kept_existing_or: "preserves J m \<Longrightarrow> preserves J n \<Longrightarrow> preserves J (existing_or m n)"
  by (auto simp: existing_or_def intro!: hoare_intros split: exc.splits error_code.splits)

lemma kept_native: "preserves J (native v rid)"
  by (auto simp: native_def intro!: hoare_intros kept)

lemma kept_workers: "preserves J (register_worker col p)" "preserves J list_workers"
  by (auto simp: register_worker_def register_migration_def list_workers_def Let_def
      workers_changed migrations_changed intro!: hoare_intros kept split: option.splits)

lemma kept_configs:
  "preserves J (validate_config chk rid p)" "preserves J (get_config app rid)"
  "preserves J (create_config chk flt app rid p)" "preserves J (activate_config app n rid)"
  by (auto simp: validate_config_def get_config_def create_config_def activate_config_def Let_def
      intro!: hoare_intros kept kept_native)

lemma kept_assistants:
  "preserves J (create_assistant ac)" "preserves J (count_assistants p)" "preserves J (assistant_versions flt a raw)"
  "preserves J (set_latest_assistant a p)" "preserves J (search_assistants_get flt gi n m lmt off)"
  "preserves J (search_assistants flt raw)" "preserves J (assistant_graph a x)"
  "preserves J (assistant_subgraphs a x)" "preserves J (get_assistant a)" "preserves J (update_assistant a ac)"
  "preserves J (delete_assistant a)" "preserves J (assistant_schemas a)"
  by (auto simp: create_assistant_def new_assistant_def count_assistants_def assistant_versions_def
      set_latest_assistant_def search_assistants_get_def search_assistants_def assistant_graph_def
      assistant_subgraphs_def get_assistant_def update_assistant_def delete_assistant_def assistant_schemas_def Let_def
      intro!: hoare_intros kept kept_existing_or split: option.splits list.splits json.splits)

lemma kept_threads:
  "preserves J (gw_create_thread tc)" "preserves J (search_threads flt raw)" "preserves J (count_threads p)"
  "preserves J (update_thread t h p)" "preserves J (delete_thread t)" "preserves J (copy_thread t)"
  "preserves J (prune_threads p)" "preserves J (get_thread t)"
  by (auto simp: gw_create_thread_def gw_new_thread_def search_threads_def count_threads_def update_thread_def
      delete_thread_def copy_thread_def prune_threads_def get_thread_def Let_def
      intro!: hoare_intros kept kept_existing_or split: option.splits list.splits json.splits)

lemma kept_latest: "preserves J (latest_thread_run t)"
  by (auto simp: latest_thread_run_def intro!: hoare_intros kept split: option.splits)

lemma kept_states:
  "preserves J (gw_get_thread_state t)" "preserves J (get_thread_state_checkpoint t k)"
  "preserves J (update_thread_state t p)" "preserves J (get_thread_state_by_checkpoint t p)"
  "preserves J (gw_get_thread_history t p)"
  by (auto simp: gw_get_thread_state_def get_thread_state_checkpoint_def thread_state_with_def update_thread_state_def
      get_thread_state_by_checkpoint_def gw_get_thread_history_def
      intro!: hoare_intros kept kept_latest split: option.splits)

lemma kept_start: "preserves J (gw_start_run p t)"
  by (auto simp: gw_start_run_def gw_identity_def intro!: hoare_intros kept split: option.splits)

lemma kept_thread_run: "preserves J (thread_run t r)"
  by (auto simp: thread_run_def intro!: hoare_intros kept)

lemma kept_runs:
  "preserves J (create_run t p)" "preserves J (create_stateless_run p)" "preserves J (create_run_batch ps)"
  "preserves J (list_thread_runs t lmt off st)" "preserves J (get_run r)" "preserves J (get_thread_run t r)"
  "preserves J (delete_thread_run t r)" "preserves J (cancel_many_runs o')"
  "preserves J (wait_stateless_run p)" "preserves J (wait_thread_run t p)" "preserves J (join_run t r)"
  "preserves J (gw_cancel_run r w)" "preserves J (cancel_thread_run t r w)"
  by (auto simp: create_run_def create_stateless_run_def create_run_batch_def list_thread_runs_def get_run_def
      get_thread_run_def delete_thread_run_def cancel_many_runs_def wait_stateless_run_def wait_thread_run_def
      join_run_def gw_cancel_run_def cancel_thread_run_def wait_cancelled_def
      intro!: hoare_intros kept kept_start kept_thread_run preserves_gather split: option.splits json.splits)

lemma kept_streams:
  "preserves J (stream_run t p h)" "preserves J (join_stream t r m h)" "preserves J (join_thread_stream t m h)"
  "preserves J (stream_stateless_run p h)" "preserves J (native_run_events r h)"
  by (auto simp: stream_run_def event_cursor_def join_stream_def join_thread_stream_def stream_stateless_run_def
      native_run_events_def
      intro!: hoare_intros kept kept_start kept_thread_run kept_latest stream_opened)

lemma kept_store:
  "preserves J (store_put_item o')" "preserves J (store_get_item n k)" "preserves J (store_delete_item o')"
  "preserves J (store_search_items o')" "preserves J (store_list_namespaces o')"
  by (auto simp: store_put_item_def store_get_item_def store_delete_item_def store_search_items_def
      store_list_namespaces_def intro!: hoare_intros kept)

theorem kept_handle: "preserves J (gw_handle c q)"
  by (cases q)
    (simp_all add: as_value_def as_none_def as_events_def as_wait_def as_wait_option_def preserves_bind preserves_ret
      kept_workers kept_configs kept_assistants kept_threads kept_states kept_runs kept_streams kept_store)

end

text \<open>An invariant of the runtime alone.\<close>

locale runtime_invariant =
  fixes I :: "Service \<Rightarrow> bool"
  assumes svc_now_kept: "preserves I svc_now" and svc_new_id_kept: "preserves I svc_new_id"
    and create_thread_kept: "preserves I (create_thread t md)"
    and threads_update_kept: "preserves I (on_threads (threads_update th))"
    and threads_delete_kept: "preserves I (on_threads (threads_delete k))"
    and runs_delete_kept: "preserves I (on_runs (runs_delete k))"
    and start_run_kept: "preserves I (start_run b rq)"
    and cancel_run_kept: "preserves I (cancel_run k)"
    and resume_run_kept: "preserves I (resume_run rq)"

lemma preserves_on_svc: "preserves I m \<Longrightarrow> preserves (\<lambda>g. I (gw_runtime g)) (on_svc m)"
  by (rule preserves_zoom) auto

sublocale runtime_invariant \<subseteq> gw: gateway_invariant "\<lambda>g. I (gw_runtime g)"
  by unfold_locales
    (auto intro!: preserves_on_svc svc_now_kept svc_new_id_kept create_thread_kept threads_update_kept threads_delete_kept
      runs_delete_kept start_run_kept cancel_run_kept resume_run_kept hoare_intros
      simp: sse_response_def)

lemma keyed_thread_ops:
  "preserves (keyed_by th_key) (threads_update th)" "preserves (keyed_by th_key) (threads_delete k)"
  by (auto intro!: preservesI simp: threads_update_def threads_delete_def intro: keyed_by_update keyed_by_delete)

lemma runs_delete_ops: "preserves (keyed_by rn_key) (runs_delete k)" "preserves one_active (runs_delete k)"
  by (auto intro!: preservesI simp: runs_delete_def intro: keyed_by_delete one_active_delete)

interpretation wf_routes: runtime_invariant svc_wf
  by unfold_locales
    (intro svc_wf_clock svc_wf_id svc_wf_create_thread svc_wf_start_run svc_wf_cancel_run svc_wf_resume_run
      svc_wf_threads svc_wf_runs keyed_thread_ops runs_delete_ops)+

interpretation runs_routes: runtime_invariant runs_ok
proof unfold_locales
  show "preserves runs_ok (create_thread t md)" for t md
    by (auto simp: create_thread_def intro!: hoare_intros split: option.splits)
  show "preserves runs_ok (resume_run rq)" for rq by (auto simp: resume_run_def intro!: hoare_intros)
  show "preserves runs_ok (start_run b rq)" for b rq by (intro runs_ok_conj keyed_updates one_active_start_run)
  show "preserves runs_ok (cancel_run k)" for k by (intro runs_ok_conj keyed_updates one_active_cancel_run)
  show "preserves runs_ok (on_runs (runs_delete k))" for k by (intro runs_ok_conj runs_zoom runs_delete_ops)
qed (intro hoare_intros)+

text \<open>Every queue belongs to one stream of one run, and new streams get new queues.\<close>

definition all_queues :: "(string, nat list) pydict \<Rightarrow> nat list" where
  "all_queues d = concat (dict_values d)"

definition queues_ok :: "Gateway \<Rightarrow> bool" where
  "queues_ok g \<longleftrightarrow> dict_ok (gw_run_queues g) \<and> distinct (all_queues (gw_run_queues g))
     \<and> (\<forall>q \<in> set (all_queues (gw_run_queues g)). q < gw_next_queue g)"

lemma queues_ok_frame:
  "queues_ok (gw_runtime_update fr g) = queues_ok g" "queues_ok (gw_assistants_update fa g) = queues_ok g"
  "queues_ok (gw_config_update fc g) = queues_ok g" "queues_ok (gw_workers_update fw g) = queues_ok g"
  "queues_ok (gw_migrations_update fm g) = queues_ok g"
  by (simp_all add: queues_ok_def)

lemma concat_update_new:
  "set (all_queues (AList.update k ((case map_of d k of Some qs \<Rightarrow> qs | None \<Rightarrow> []) @ [q]) d))
     = insert q (set (all_queues d))"
  "distinct (all_queues d) \<Longrightarrow> q \<notin> set (all_queues d) \<Longrightarrow>
   distinct (all_queues (AList.update k ((case map_of d k of Some qs \<Rightarrow> qs | None \<Rightarrow> []) @ [q]) d))"
proof -
  show set: "set (all_queues (AList.update k ((case map_of d k of Some qs \<Rightarrow> qs | None \<Rightarrow> []) @ [q]) d))
     = insert q (set (all_queues d))" for d
    by (induction d) (auto simp: all_queues_def)
  show "distinct (all_queues d) \<Longrightarrow> q \<notin> set (all_queues d) \<Longrightarrow>
   distinct (all_queues (AList.update k ((case map_of d k of Some qs \<Rightarrow> qs | None \<Rightarrow> []) @ [q]) d))"
  proof (induction d)
    case (Cons p d)
    with set [of d] show ?case by (cases p) (auto simp: all_queues_def)
  qed (simp add: all_queues_def)
qed

lemma sse_response_run:
  "sse_response r m h n a tid g = (case sse_cursor h a of
     Inl e \<Rightarrow> (Inl e, g)
   | Inr cursor \<Rightarrow> (Inr \<lparr> ss_run = r, ss_queue = gw_next_queue g, ss_modes = modes_of m, ss_native = n,
         ss_after = cursor, ss_headers = sse_headers r tid \<rparr>,
       g \<lparr> gw_next_queue := Suc (gw_next_queue g), gw_queues := (gw_queues g)(gw_next_queue g := []),
           gw_run_queues := AList.update r (queues_for g r @ [gw_next_queue g]) (gw_run_queues g) \<rparr>))"
  by (simp add: sse_response_def prog_defs liftE_def queues_for_def split: sum.splits)

interpretation queue_routes: gateway_invariant queues_ok
proof unfold_locales
  fix r m h n a tid
  show "preserves queues_ok (sse_response r m h n a tid)"
  proof (rule preservesI)
    fix g assume g: "queues_ok g"
    then have "gw_next_queue g \<notin> set (all_queues (gw_run_queues g))"
      by (auto simp: queues_ok_def)
    with g show "queues_ok (snd (sse_response r m h n a tid g))"
      using concat_update_new [where k = r and d = "gw_run_queues g" and q = "gw_next_queue g"]
      by (auto simp: sse_response_run queues_ok_def queues_for_def less_Suc_eq split: sum.splits)
  qed
qed (auto intro!: preserves_other_zoom simp: queues_ok_frame)

lemma set_delete_values: "set (all_queues (AList.delete k d)) \<subseteq> set (all_queues d)"
  by (induction d) (auto simp: all_queues_def)

lemma distinct_delete_values: "distinct (all_queues d) \<Longrightarrow> distinct (all_queues (AList.delete k d))"
proof (induction d)
  case (Cons p d)
  with set_delete_values [of k d] show ?case by (cases p) (auto simp: all_queues_def)
qed (simp add: all_queues_def)

lemma all_queues_append [simp]: "all_queues (d @ [(k, [])]) = all_queues d"
  by (simp add: all_queues_def)

lemma queues_ok_ingress:
  "queues_ok g \<Longrightarrow> queues_ok (ingress_begin rid g)"
  "queues_ok g \<Longrightarrow> ingress_event rid p g = Some g' \<Longrightarrow> queues_ok g'"
  "queues_ok g \<Longrightarrow> ingress_end rid g = Some g' \<Longrightarrow> queues_ok g'"
  using set_delete_values [of rid "gw_run_queues g"] distinct_delete_values [of "gw_run_queues g" rid]
  by (auto simp: queues_ok_def ingress_begin_def ingress_event_def ingress_end_def dict_update_new)

subsection \<open>Every reachable state\<close>

definition gw_ok :: "Gateway \<Rightarrow> bool" where
  "gw_ok g \<longleftrightarrow> svc_wf (gw_runtime g) \<and> runs_ok (gw_runtime g) \<and> queues_ok g"

lemma ingress_runtime:
  "gw_runtime (ingress_begin rid g) = gw_runtime g"
  "ingress_event rid p g = Some g' \<Longrightarrow> gw_runtime g' = gw_runtime g"
  "ingress_end rid g = Some g' \<Longrightarrow> gw_runtime g' = gw_runtime g"
  by (auto simp: ingress_begin_def ingress_event_def ingress_end_def)

lemma local_step_ok:
  assumes "local_step c allowed (g, f) (g', f')" and "gw_ok g"
    and "\<And>d. allowed d \<Longrightarrow> \<not> ev_is (dr_type d) RUN_INTERRUPTED"
  shows "gw_ok g'"
  using assms(1)
proof (cases rule: local_step.cases)
  case (requested rq)
  with assms(2) show ?thesis
    using preserves_state [OF wf_routes.gw.kept_handle [of c rq], of g]
      preserves_state [OF runs_routes.gw.kept_handle [of c rq], of g]
      preserves_state [OF queue_routes.kept_handle [of c rq], of g]
    by (simp add: gw_ok_def)
next
  case (worked s)
  with assms(2,3) show ?thesis
    using svc_step_wf [OF worked(2)] svc_step_runs_ok [OF worked(2)] by (simp add: gw_ok_def queues_ok_frame)
qed

lemma gw_step_ok:
  assumes "gw_step c allowed (g, f) (g', f')" and "gw_ok g"
    and "\<And>d. allowed d \<Longrightarrow> \<not> ev_is (dr_type d) RUN_INTERRUPTED"
  shows "gw_ok g'"
  using assms(1)
proof (cases rule: gw_step.cases)
  case served
  with assms(2,3) show ?thesis by (blast intro: local_step_ok)
qed (use assms(2) in \<open>auto simp: gw_ok_def ingress_runtime intro: queues_ok_ingress\<close>)

lemma gw_reachable_ok:
  assumes "(gw_step c (\<lambda>d. \<not> ev_is (dr_type d) RUN_INTERRUPTED))\<^sup>*\<^sup>* (g0, f0) (g, f)" and "gw_ok g0"
  shows "gw_ok g"
  using assms
proof (induction rule: rtranclp_induct2)
  case (step g1 f1 g2 f2)
  then show ?case using gw_step_ok [OF step(2)] by blast
qed

end
