(* ===== verification/Gateway_Delivery.thy ===== *)
theory Gateway_Delivery
  imports Gateway_Routes
begin

section \<open>Gateway: what the client of a stream receives\<close>

text \<open>
  The way of an event from the ingress to the client: \<open>ingress_stream\<close> puts it into the queues of the
  run, \<open>sse_frames\<close> turns the queue into text, and a client of server-sent events reads the text back.
  The client is an abstract specification; the theorems say that it receives the selected events of
  the run, in order and unchanged, between the opening and the closing message.
\<close>

subsection \<open>The ingress and the queues\<close>

definition append_to :: "nat list \<Rightarrow> queue_item list \<Rightarrow> (nat \<Rightarrow> queue_item list) \<Rightarrow> nat \<Rightarrow> queue_item list" where
  "append_to ns xs qs = (\<lambda>q. if q \<in> set ns then qs q @ xs else qs q)"

definition room_for :: "nat list \<Rightarrow> nat \<Rightarrow> (nat \<Rightarrow> queue_item list) \<Rightarrow> bool" where
  "room_for ns n qs \<longleftrightarrow> (\<forall>q \<in> set ns. length (qs q) + n \<le> queue_size)"

lemma append_to_nil [simp]: "append_to ns [] qs = qs"
  by (auto simp: append_to_def)

lemma append_to_append [simp]: "append_to ns ys (append_to ns xs qs) = append_to ns (xs @ ys) qs"
  by (auto simp: append_to_def)

lemma put_all_room:
  assumes "distinct ns" and "room_for ns 1 qs"
  shows "put_all ns x qs = Some (append_to ns [x] qs)"
  using assms
proof (induction ns arbitrary: qs)
  case (Cons n ns)
  then have "put_all ns x (qs(n := qs n @ [x])) = Some (append_to ns [x] (qs(n := qs n @ [x])))"
    by (intro Cons.IH) (auto simp: room_for_def)
  moreover have "append_to ns [x] (qs(n := qs n @ [x])) = append_to (n # ns) [x] qs"
    using Cons.prems(1) by (auto simp: append_to_def)
  ultimately show ?case using Cons.prems(2) by (simp add: room_for_def)
qed (simp add: append_to_def)

lemma room_for_less: "room_for ns n qs \<Longrightarrow> m \<le> n \<Longrightarrow> room_for ns m qs"
  by (fastforce simp: room_for_def)

lemma room_for_append: "room_for ns (length xs + n) qs \<Longrightarrow> room_for ns n (append_to ns xs qs)"
  by (auto simp: room_for_def append_to_def)

lemma queues_for_frame [simp]: "queues_for (g \<lparr> gw_queues := qs \<rparr>) rid = queues_for g rid"
  by (simp add: queues_for_def)

lemma ingress_events_room:
  assumes "distinct (queues_for g rid)" and "room_for (queues_for g rid) (length ps) (gw_queues g)"
  shows "ingress_events rid ps g = Some (g \<lparr> gw_queues := append_to (queues_for g rid) (map QEvent ps) (gw_queues g) \<rparr>)"
  using assms
proof (induction ps arbitrary: g)
  case (Cons p ps)
  let ?g = "g \<lparr> gw_queues := append_to (queues_for g rid) [QEvent p] (gw_queues g) \<rparr>"
  have "room_for (queues_for g rid) 1 (gw_queues g)"
    using Cons.prems(2) by (rule room_for_less) simp
  then have "ingress_event rid p g = Some ?g"
    using put_all_room [OF Cons.prems(1)] by (simp add: ingress_event_def)
  moreover have "room_for (queues_for ?g rid) (length ps) (gw_queues ?g)"
    using Cons.prems(2) room_for_append [where xs = "[QEvent p]"] by simp
  ultimately show ?case using Cons.IH [of ?g] Cons.prems(1) by simp
qed simp

lemma queues_for_distinct: "queues_ok g \<Longrightarrow> distinct (queues_for g rid)"
proof -
  assume "queues_ok g"
  then have d: "distinct (concat (map snd (gw_run_queues g)))"
    by (simp add: queues_ok_def all_queues_def)
  have "distinct qs" if "map_of (gw_run_queues g) rid = Some qs" for qs
    using d map_of_SomeD [OF that] by (auto simp: distinct_concat_iff)
  then show ?thesis by (simp add: queues_for_def split: option.splits)
qed

lemma queues_for_begin [simp]:
  "queues_for (ingress_begin rid g) rid = queues_for g rid" "gw_queues (ingress_begin rid g) = gw_queues g"
  by (simp_all add: queues_for_def ingress_begin_def AList.update_conv')

text \<open>A whole stream of the ingress: the events of the run and the end, in every queue of the run and in no
  other one, when the queues have room for them.\<close>

lemma ingress_stream_room:
  assumes "queues_ok g" and "ps \<noteq> []" and "pi_run_id (pe_identity (hd ps)) = rid" and "rid \<noteq> []"
    and "room_for (queues_for g rid) (Suc (length ps)) (gw_queues g)"
  shows "\<exists>g'. ingress_stream ps g = Some (rid, g')
    \<and> gw_queues g' = append_to (queues_for g rid) (map QEvent ps @ [QEnd]) (gw_queues g)
    \<and> gw_run_queues g' = AList.delete rid (gw_run_queues (ingress_begin rid g))
    \<and> gw_runtime g' = gw_runtime g"
proof -
  let ?g = "ingress_begin rid g" and ?ns = "queues_for g rid"
  let ?qs = "append_to ?ns (map QEvent ps) (gw_queues g)"
  have d: "distinct ?ns" using assms(1) by (rule queues_for_distinct)
  have "room_for ?ns (length ps) (gw_queues g)" using assms(5) by (rule room_for_less) simp
  then have "ingress_events rid ps ?g = Some (?g \<lparr> gw_queues := ?qs \<rparr>)"
    using ingress_events_room [of ?g rid ps] d by simp
  moreover have "room_for ?ns 1 ?qs" using assms(5) by (intro room_for_append) simp
  then have "ingress_end rid (?g \<lparr> gw_queues := ?qs \<rparr>)
      = Some (?g \<lparr> gw_queues := append_to ?ns [QEnd] ?qs, gw_run_queues := AList.delete rid (gw_run_queues ?g) \<rparr>)"
    using put_all_room [OF d] by (simp add: ingress_end_def)
  ultimately show ?thesis
    using assms(2-4) by (cases ps) (simp_all add: ingress_stream_def ingress_runtime del: ingress_events.simps)
qed

subsection \<open>A client of server-sent events\<close>

text \<open>The client splits the text into lines; a line is a field, and an empty line ends a message.\<close>

definition sse_field :: "string \<Rightarrow> string \<times> string" where
  "sse_field l = (let v = drop 1 (dropWhile (\<lambda>c. c \<noteq> CHR '':'') l) in
     (takeWhile (\<lambda>c. c \<noteq> CHR '':'') l, if v \<noteq> [] \<and> hd v = CHR '' '' then tl v else v))"

fun sse_dispatch :: "(string \<times> string) list \<Rightarrow> string list \<Rightarrow> (string \<times> string) list list" where
  "sse_dispatch fs [] = []"
| "sse_dispatch fs (l # ls) = (if l = [] then fs # sse_dispatch [] ls else sse_dispatch (fs @ [sse_field l]) ls)"

definition sse_client :: "string \<Rightarrow> (string \<times> string) list list" where
  "sse_client text = sse_dispatch [] (butlast (split_on newline text))"

text \<open>The messages with their identifiers, names and decoded data.\<close>

type_synonym message = "string option \<times> string option \<times> json option"

definition sse_messages :: "(string \<Rightarrow> rat \<times> string) \<Rightarrow> string \<Rightarrow> message list" where
  "sse_messages flt text = map (\<lambda>fs. (map_of fs ''id'', map_of fs ''event'',
     Option.bind (map_of fs ''data'') (json_loads flt))) (sse_client text)"

lemma sse_client_nil [simp]: "sse_client [] = []"
  by (simp add: sse_client_def)

lemma sse_lines:
  "newline \<notin> set l \<Longrightarrow> butlast (split_on newline (l @ newline # r)) = l # butlast (split_on newline r)"
  by (simp add: split_on_append)

lemma sse_client_event:
  assumes "newline \<notin> set name" and "newline \<notin> set data"
  shows "sse_client (event_frame n name data @ r) = [(''id'', int_str n), (''event'', name), (''data'', data)] # sse_client r"
proof -
  have "newline \<notin> set (int_str n)"
    using int_str_token(1) [of n] by (auto simp: number_token_def list_all_iff number_char_def is_digit_def)
  then have "newline \<notin> set (''id: '' @ int_str n)" "newline \<notin> set (''event: '' @ name)" "newline \<notin> set (''data: '' @ data)"
    using assms by auto
  moreover have "event_frame n name data @ r = (''id: '' @ int_str n) @ newline # (''event: '' @ name) @ newline #
      (''data: '' @ data) @ newline # [] @ newline # r"
    by (simp add: event_frame_def)
  ultimately have "butlast (split_on newline (event_frame n name data @ r)) =
      (''id: '' @ int_str n) # (''event: '' @ name) # (''data: '' @ data) # [] # butlast (split_on newline r)"
    by (metis sse_lines empty_iff list.set(1))
  then show ?thesis by (simp add: sse_client_def sse_field_def)
qed

lemma sse_client_named:
  assumes "newline \<notin> set name" and "newline \<notin> set data"
  shows "sse_client (''event: '' @ name @ [newline] @ ''data: '' @ data @ [newline, newline] @ r)
    = [(''event'', name), (''data'', data)] # sse_client r"
proof -
  have "newline \<notin> set (''event: '' @ name)" "newline \<notin> set (''data: '' @ data)"
    using assms by auto
  moreover have "''event: '' @ name @ [newline] @ ''data: '' @ data @ [newline, newline] @ r
      = (''event: '' @ name) @ newline # (''data: '' @ data) @ newline # [] @ newline # r"
    by simp
  ultimately have "butlast (split_on newline (''event: '' @ name @ [newline] @ ''data: '' @ data @ [newline, newline] @ r))
      = (''event: '' @ name) # (''data: '' @ data) # [] # butlast (split_on newline r)"
    by (metis sse_lines empty_iff list.set(1))
  then show ?thesis by (simp add: sse_client_def sse_field_def)
qed

subsection \<open>JSON text has one line\<close>

lemma hex_digit_line: "n < 16 \<Longrightarrow> hex_digit n \<noteq> newline"
  using hex_val_hex_digit [of n] by (auto simp: hex_val_def)

lemma escape_char_line: "newline \<notin> set (escape_char c)"
proof -
  have "hex_digit (of_char c div 16) \<noteq> newline" if "(of_char c :: nat) < 32"
    using that by (intro hex_digit_line) simp
  then show ?thesis using hex_digit_line [of "of_char c mod 16"] by (auto simp: escape_char_def)
qed

lemma quote_line: "newline \<notin> set (quote s)"
  using escape_char_line by (auto simp: quote_def)

lemma join_line: "newline \<notin> set sep \<Longrightarrow> (\<forall>x \<in> set xs. newline \<notin> set x) \<Longrightarrow> newline \<notin> set (join sep xs)"
  by (induction sep xs rule: join.induct) auto

lemma number_token_line: "number_token t \<Longrightarrow> newline \<notin> set t"
  by (auto simp: number_token_def list_all_iff number_char_def is_digit_def)

lemma json_dumps_line: "json_wf flt v \<Longrightarrow> newline \<notin> set (json_dumps v)"
proof (induction v)
  case (JInt i)
  show ?case using number_token_line [OF int_str_token(1)] by simp
next
  case (JFloat r t)
  then show ?case using number_token_line by (simp add: float_ok_def)
next
  case (JArr xs)
  then have "\<forall>x \<in> set (map json_dumps xs). newline \<notin> set x" by (auto simp: list_all_iff)
  then show ?case using join_line [of "'',''" "map json_dumps xs"] by simp
next
  case (JObj d)
  then have "\<forall>x \<in> set (map (\<lambda>(k, t). quote k @ '':'' @ t) (map (map_prod id json_dumps) d)). newline \<notin> set x"
    using quote_line by (fastforce simp: list_all_iff)
  then show ?case using join_line [of "'',''"] by simp
qed (simp_all add: quote_line)

subsection \<open>From events to messages\<close>

definition event_mode :: "ProtoEvent \<Rightarrow> string option" where
  "event_mode p = (case get_or (obj_of_struct (pe_native p)) ''langgraph_mode'' (JStr ''values'') of
     JStr m \<Rightarrow> Some m | _ \<Rightarrow> None)"

definition event_title :: "SseStream \<Rightarrow> ProtoEvent \<Rightarrow> string" where
  "event_title st p = (if ss_native st then pe_type p
     else (case event_mode p of Some m \<Rightarrow> m | None \<Rightarrow> [])
       @ (if pe_namespace p \<noteq> [] then ''|'' @ join ''|'' (pe_namespace p) else []))"

definition event_value :: "SseStream \<Rightarrow> ProtoEvent \<Rightarrow> json" where
  "event_value st p = (if ss_native st
     then JObj [(''schema_version'', JInt 1), (''sequence'', JInt (pe_sequence p)),
       (''run_id'', JStr (pi_run_id (pe_identity p))), (''type'', JStr (pe_type p)), (''data'', value_to_python (pe_data p))]
     else value_to_python (pe_data p))"

text \<open>The events a stream passes on: those after its cursor, of the modes its client asked for.\<close>

definition selected :: "SseStream \<Rightarrow> ProtoEvent \<Rightarrow> bool" where
  "selected st p \<longleftrightarrow> ss_after st < pe_sequence p
     \<and> (ss_native st \<or> (case event_mode p of Some m \<Rightarrow> m \<in> set (ss_modes st) | None \<Rightarrow> False))"

definition message_of :: "SseStream \<Rightarrow> ProtoEvent \<Rightarrow> message" where
  "message_of st p = (Some (int_str (pe_sequence p)), Some (event_title st p), Some (event_value st p))"

definition opening_messages :: "SseStream \<Rightarrow> message list" where
  "opening_messages st = (if ss_native st then []
     else [(None, Some ''metadata'', Some (JObj [(''run_id'', JStr (ss_run st))]))])"

definition closing_messages :: "SseStream \<Rightarrow> message list" where
  "closing_messages st = (if ss_native st then [] else [(None, Some ''end'', Some JNull)])"

text \<open>Events as workers send them: a mode that is text, names without line breaks, a sequence of 64 bits, data
  with unique keys and float literals that read back.\<close>

definition clean_event :: "(string \<Rightarrow> rat \<times> string) \<Rightarrow> SseStream \<Rightarrow> ProtoEvent \<Rightarrow> bool" where
  "clean_event flt st p \<longleftrightarrow> (ss_native st \<or> event_mode p \<noteq> None) \<and> newline \<notin> set (event_title st p)
     \<and> - (2 ^ 63) \<le> pe_sequence p \<and> pe_sequence p < 2 ^ 63 \<and> json_wf flt (value_to_python (pe_data p))"

lemma ints_fit_value: "ints_fit (value_to_python v)"
  by (induction v) (auto simp: list_all_iff)

lemma orjson_value: "clean_event flt st p \<Longrightarrow> orjson_dumps (event_value st p) = Inr (json_dumps (event_value st p))"
  by (auto simp: orjson_dumps_def event_value_def clean_event_def ints_fit_value)

lemma event_value_wf: "clean_event flt st p \<Longrightarrow> json_wf flt (event_value st p)"
  by (auto simp: event_value_def clean_event_def)

definition frame_text :: "SseStream \<Rightarrow> ProtoEvent \<Rightarrow> string" where
  "frame_text st p = event_frame (pe_sequence p) (event_title st p) (json_dumps (event_value st p))"

lemma frame_of_clean:
  assumes "clean_event flt st p"
  shows "frame_of st p = Inr (if selected st p then Some (frame_text st p) else None)"
proof (cases "ss_native st")
  case True
  then show ?thesis
    using orjson_value [OF assms] by (auto simp: frame_of_def selected_def frame_text_def event_title_def event_value_def Let_def)
next
  case False
  with assms obtain m where "get_or (obj_of_struct (pe_native p)) ''langgraph_mode'' (JStr ''values'') = JStr m" "event_mode p = Some m"
    by (auto simp: clean_event_def event_mode_def split: json.splits)
  with False show ?thesis
    using orjson_value [OF assms] by (auto simp: frame_of_def selected_def frame_text_def event_title_def event_value_def Let_def)
qed

lemma queue_frames_clean:
  assumes "\<forall>p \<in> set ps. clean_event flt st p"
  shows "queue_frames st (map QEvent ps @ items)
    = (map (frame_text st) (filter (selected st) ps) @ fst (queue_frames st items), snd (queue_frames st items))"
  using assms by (induction ps) (auto simp: frame_of_clean case_prod_unfold)

lemma sse_messages_append:
  assumes "\<And>r. sse_client (a @ r) = fs # sse_client r"
  shows "sse_messages flt (a @ r) = (map_of fs ''id'', map_of fs ''event'', Option.bind (map_of fs ''data'') (json_loads flt))
    # sse_messages flt r"
  using assms [of r] by (simp add: sse_messages_def)

lemma sse_messages_frame:
  assumes "clean_event flt st p"
  shows "sse_messages flt (frame_text st p @ r) = message_of st p # sse_messages flt r"
proof -
  have wf: "json_wf flt (event_value st p)" using assms by (rule event_value_wf)
  have "sse_client (frame_text st p @ r) = [(''id'', int_str (pe_sequence p)), (''event'', event_title st p),
      (''data'', json_dumps (event_value st p))] # sse_client r" for r
    unfolding frame_text_def using assms json_dumps_line [OF wf] by (intro sse_client_event) (simp_all add: clean_event_def)
  then show ?thesis
    using json_loads_dumps [OF wf] by (simp add: sse_messages_append message_of_def)
qed

lemma sse_messages_frames:
  "\<forall>p \<in> set ps. clean_event flt st p \<Longrightarrow>
   sse_messages flt (concat (map (frame_text st) ps) @ r) = map (message_of st) ps @ sse_messages flt r"
  by (induction ps) (simp_all add: sse_messages_frame)

lemma sse_messages_nil [simp]: "sse_messages flt [] = []"
  by (simp add: sse_messages_def)

lemma sse_messages_named:
  assumes "newline \<notin> set name" and "json_wf flt v"
  shows "sse_messages flt (''event: '' @ name @ [newline] @ ''data: '' @ json_dumps v @ [newline, newline] @ r)
    = (None, Some name, Some v) # sse_messages flt r"
  using sse_client_named [OF assms(1) json_dumps_line [OF assms(2)], of r] json_loads_dumps [OF assms(2)]
  by (simp add: sse_messages_def)

lemma metadata_message:
  "sse_messages flt (metadata_frame rid @ r)
   = (None, Some ''metadata'', Some (JObj [(''run_id'', JStr rid)])) # sse_messages flt r"
  using sse_messages_named [of "''metadata''" flt "JObj [(''run_id'', JStr rid)]" r] by (simp add: metadata_frame_def)

lemma end_message: "sse_messages flt (end_frame @ r) = (None, Some ''end'', Some JNull) # sse_messages flt r"
  using sse_messages_named [of "''end''" flt JNull r] by (simp add: end_frame_def)

text \<open>What a client has read of a stream whose queue holds clean events, and at its end.\<close>

lemma client_reads:
  assumes "\<forall>p \<in> set ps. clean_event flt st p"
  shows "sse_messages flt (concat (fst (sse_frames st (map QEvent ps))))
      = opening_messages st @ map (message_of st) (filter (selected st) ps)"
    and "snd (sse_frames st (map QEvent ps)) = Waiting"
    and "sse_messages flt (concat (fst (sse_frames st (map QEvent ps @ [QEnd]))))
      = opening_messages st @ map (message_of st) (filter (selected st) ps) @ closing_messages st"
    and "snd (sse_frames st (map QEvent ps @ [QEnd])) = Finished"
proof -
  have sel: "\<forall>p \<in> set (filter (selected st) ps). clean_event flt st p" using assms by simp
  show "sse_messages flt (concat (fst (sse_frames st (map QEvent ps))))
      = opening_messages st @ map (message_of st) (filter (selected st) ps)"
    and "snd (sse_frames st (map QEvent ps)) = Waiting"
    using queue_frames_clean [OF assms, of "[]"] sse_messages_frames [OF sel, of "[]"]
    by (auto simp: sse_frames_def opening_messages_def metadata_message)
  show "sse_messages flt (concat (fst (sse_frames st (map QEvent ps @ [QEnd]))))
      = opening_messages st @ map (message_of st) (filter (selected st) ps) @ closing_messages st"
    and "snd (sse_frames st (map QEvent ps @ [QEnd])) = Finished"
    using queue_frames_clean [OF assms, of "[QEnd]"] sse_messages_frames [OF sel, of "[]"]
      sse_messages_frames [OF sel, of end_frame] end_message [of flt "[]"]
    by (auto simp: sse_frames_def opening_messages_def closing_messages_def metadata_message)
qed

subsection \<open>From the ingress to the client\<close>

lemma queues_for_opened:
  assumes "sse_response rid m h n a tid g = (Inr st, g1)"
  shows "queues_for g1 rid = queues_for g rid @ [ss_queue st]" "gw_queues g1 (ss_queue st) = []"
    and "ss_queue st = gw_next_queue g" "ss_native st = n" "ss_run st = rid" "ss_modes st = modes_of m"
    and "rid' \<noteq> rid \<Longrightarrow> queues_for g1 rid' = queues_for g rid'" "q \<noteq> ss_queue st \<Longrightarrow> gw_queues g1 q = gw_queues g q"
  using assms by (auto simp: sse_response_run queues_for_def AList.update_conv' split: sum.splits)

lemma sse_response_queues_ok:
  assumes "queues_ok g" and "sse_response rid m h n a tid g = (Inr st, g1)"
  shows "queues_ok g1"
  using preserves_state [OF queue_routes.stream_opened [of rid m h n a tid], of g] assms by simp

lemma stream_queue_filled:
  assumes "queues_ok g" and opened: "sse_response rid m h n a tid g = (Inr st, g1)"
    and "ps \<noteq> []" and "pi_run_id (pe_identity (hd ps)) = rid" and "rid \<noteq> []"
    and room: "room_for (queues_for g1 rid) (Suc (length ps)) (gw_queues g1)"
  shows "\<exists>g2. ingress_stream ps g1 = Some (rid, g2) \<and> gw_queues g2 (ss_queue st) = map QEvent ps @ [QEnd]
    \<and> (\<forall>q. q \<notin> set (queues_for g1 rid) \<longrightarrow> gw_queues g2 q = gw_queues g1 q)"
proof -
  obtain g2 where "ingress_stream ps g1 = Some (rid, g2)"
    and "gw_queues g2 = append_to (queues_for g1 rid) (map QEvent ps @ [QEnd]) (gw_queues g1)"
    using ingress_stream_room [OF sse_response_queues_ok [OF assms(1) opened] assms(3-5) room] by blast
  then show ?thesis using queues_for_opened [OF opened] by (auto simp: append_to_def)
qed

text \<open>The queues of two runs have nothing in common.\<close>

lemma distinct_concat_entries:
  assumes "distinct (concat (map snd d))" and "(r, qs) \<in> set d" and "(r', qs') \<in> set d" and "r \<noteq> r'"
  shows "set qs \<inter> set qs' = {}"
  using assms
proof (induction d)
  case (Cons x d)
  have sub: "set ys \<subseteq> set (concat (map snd d))" if "(k, ys) \<in> set d" for k ys
    using that by force
  from Cons.prems Cons.IH consider "(r, qs) = x" "(r', qs') \<in> set d" | "(r', qs') = x" "(r, qs) \<in> set d"
    | "set qs \<inter> set qs' = {}"
    by auto
  then show ?case using Cons.prems(1) sub by cases fastforce+
qed simp

lemma queues_of_runs_disjoint:
  assumes "queues_ok g" and "r \<noteq> r'"
  shows "set (queues_for g r) \<inter> set (queues_for g r') = {}"
proof -
  have "distinct (concat (map snd (gw_run_queues g)))"
    using assms(1) by (simp add: queues_ok_def all_queues_def)
  from distinct_concat_entries [OF this _ _ assms(2)] show ?thesis
    using map_of_SomeD [of "gw_run_queues g"] unfolding queues_for_def
    by (cases "map_of (gw_run_queues g) r"; cases "map_of (gw_run_queues g) r'") simp_all
qed

subsection \<open>Streams of runs that the gateway executes itself\<close>

text \<open>The worker of the local runtime puts nothing into the queues; only the ingress does.\<close>

definition unfed :: "nat \<Rightarrow> Gateway \<Rightarrow> bool" where
  "unfed q g \<longleftrightarrow> gw_queues g q = [] \<and> q < gw_next_queue g"

lemma unfed_frame:
  "unfed q (gw_runtime_update fr g) = unfed q g" "unfed q (gw_assistants_update fa g) = unfed q g"
  "unfed q (gw_config_update fc g) = unfed q g" "unfed q (gw_workers_update fw g) = unfed q g"
  "unfed q (gw_migrations_update fm g) = unfed q g"
  by (simp_all add: unfed_def)

interpretation unfed_routes: gateway_invariant "unfed q" for q
proof unfold_locales
  fix r m h n a tid
  show "preserves (unfed q) (sse_response r m h n a tid)"
    by (rule preservesI) (auto simp: sse_response_run unfed_def split: sum.splits)
qed (auto intro!: preserves_other_zoom simp: unfed_frame)

lemma local_steps_unfed:
  assumes "(local_step c allowed)\<^sup>*\<^sup>* (g, f) (g', f')" and "unfed q g"
  shows "unfed q g'"
  using assms
proof (induction rule: rtranclp_induct2)
  case (step g1 f1 g2 f2)
  from step(2) show ?case
  proof (cases rule: local_step.cases)
    case (requested rq)
    then show ?thesis using step preserves_state [OF unfed_routes.kept_handle [of q c rq], of g1] by simp
  qed (use step in \<open>simp add: unfed_frame\<close>)
qed

lemma opened_unfed:
  "queues_ok g \<Longrightarrow> sse_response rid m h n a tid g = (Inr st, g1) \<Longrightarrow> unfed (ss_queue st) g1"
  by (auto simp: sse_response_run unfed_def split: sum.splits)

subsection \<open>Waiting for the end of a run\<close>

lemma wait_round_active:
  assumes "map_of (sv_runs (gw_runtime g)) rid = Some r" and "rn_status r \<notin> set wait_statuses"
  shows "fst (wait_round rid a g) = Inr None"
  using assms by (simp add: wait_round_def prog_defs zoomM_def runs_get_def)

lemma wait_round_settled:
  assumes "map_of (sv_runs (gw_runtime g)) rid = Some r" and "rn_status r \<in> set wait_statuses"
  shows "fst (wait_round rid a g) = map_sum id Some (wait_result a r)"
  using assms by (simp add: wait_round_def prog_defs liftE_def zoomM_def runs_get_def split: sum.splits)

lemma wait_for_run_rounds:
  assumes "\<And>i. i < n \<Longrightarrow> fst (wait_round rid a (states i)) = Inr None"
    and "fst (wait_round rid a (states n)) = map_sum id Some x"
  shows "wait_for_run k states rid a = (if k \<le> n then None else Some x)"
  using assms
proof (induction k arbitrary: n states)
  case (Suc k)
  show ?case
  proof (cases n)
    case 0
    with Suc.prems(2) show ?thesis by (cases x) auto
  next
    case (Suc m)
    have "wait_for_run k (\<lambda>i. states (Suc i)) rid a = (if k \<le> m then None else Some x)"
      using Suc.prems Suc by (intro Suc.IH) auto
    with Suc Suc.prems(1) [of 0] show ?thesis by simp
  qed
qed simp

lemma put_all_other: "put_all ns x qs = Some qs' \<Longrightarrow> q \<notin> set ns \<Longrightarrow> qs' q = qs q"
  by (induction ns x qs rule: put_all.induct) (auto split: if_splits)

lemma ingress_events_other:
  assumes "ingress_events rid ps g = Some g'" and "q \<notin> set (queues_for g rid)"
  shows "gw_queues g' q = gw_queues g q \<and> queues_for g' rid = queues_for g rid"
  using assms
proof (induction ps arbitrary: g)
  case (Cons p ps)
  then obtain g1 where g1: "ingress_event rid p g = Some g1" "ingress_events rid ps g1 = Some g'"
    by (auto simp: bind_eq_Some_conv)
  then have "gw_queues g1 q = gw_queues g q \<and> queues_for g1 rid = queues_for g rid"
    using put_all_other Cons.prems(2) by (auto simp: ingress_event_def)
  with Cons.IH [OF g1(2)] Cons.prems(2) show ?case by simp
qed simp

text \<open>A stream of the ingress touches only the queues of the run that its first event names.\<close>

lemma ingress_stream_other:
  assumes "ingress_stream ps g = Some (x, g')" and "ps \<noteq> []"
    and "q \<notin> set (queues_for g (pi_run_id (pe_identity (hd ps))))"
  shows "gw_queues g' q = gw_queues g q"
proof -
  let ?r = "pi_run_id (pe_identity (hd ps))"
  obtain p ps' where ps: "ps = p # ps'" using assms(2) by (cases ps) auto
  with assms(1) obtain g1 where g1: "ingress_events ?r ps (ingress_begin ?r g) = Some g1"
    and g': "if ?r = [] then g' = g1 else ingress_end ?r g1 = Some g'"
    by (auto simp: ingress_stream_def Let_def bind_eq_Some_conv simp del: ingress_events.simps split: if_splits)
  from ingress_events_other [OF g1] assms(3)
  have "gw_queues g1 q = gw_queues g q" "queues_for g1 ?r = queues_for g ?r" by simp_all
  with g' assms(3) show ?thesis using put_all_other by (fastforce simp: ingress_end_def split: if_splits)
qed

end
