(* ===== verification/Worker_Gateway.thy ===== *)
theory Worker_Gateway
  imports Gateway_Delivery Worker_Service
begin

section \<open>From the worker to the client\<close>

text \<open>
  The composition of the two processes: the worker turns the drafts of the adapter into protobuf events and
  sends them with one call of the gateway's ingress; the gateway hands them to the stream of a client.
\<close>

subsection \<open>What the worker sends\<close>

abbreviation sent_as :: "(int \<Rightarrow> (rat \<times> string) option) \<Rightarrow> ProtoIdentity \<Rightarrow> nat \<times> RuntimeEventDraft \<Rightarrow> ProtoEvent \<Rightarrow> bool" where
  "sent_as dbl i x p \<equiv> \<exists>now. proto_event dbl i now (int (fst x)) (snd x) = Inr p"

lemma action_sent: "preserves (\<lambda>w. wk_sent w = ps) (maybe_take_action run d)"
  by (auto simp: maybe_take_action_def wk_settle_def wk_update_run_def wk_update_thread_def wk_now_def preserves_iff
      prog_defs zoomM_def liftE_def split: option.splits sum.splits prod.splits)

lemma send_proto_sent:
  assumes "send_proto dbl i n d w = (Inr u, w')"
  shows "\<exists>p. sent_as dbl i (n, d) p \<and> wk_sent w' = wk_sent w @ [p]"
  using assms by (auto simp: send_proto_def wk_now_def prog_defs liftE_def split: sum.splits)

lemma grpc_drafts_sent:
  assumes "grpc_drafts dbl run None n ds ending w = (Inr b, w')"
  shows "\<exists>ps. wk_sent w' = wk_sent w @ ps \<and> list_all2 (sent_as dbl (identity_to_proto (rn_identity run))) (enumerate n ds) ps"
  using assms
proof (induction ds arbitrary: n w)
  case (Cons d ds)
  obtain u w1 where send: "send_proto dbl (identity_to_proto (rn_identity run)) n d w = (Inr u, w1)"
    and r1: "thenM (maybe_take_action run d) (grpc_drafts dbl run None (Suc n) ds ending) w1 = (Inr b, w')"
    using Cons.prems by (auto simp: thenM_def bindM_def split: prod.splits sum.splits)
  obtain u' w2 where act: "maybe_take_action run d w1 = (Inr u', w2)"
    and r2: "grpc_drafts dbl run None (Suc n) ds ending w2 = (Inr b, w')"
    using r1 by (auto simp: thenM_def bindM_def split: prod.splits sum.splits)
  have "wk_sent w2 = wk_sent w1" using preserves_state [OF action_sent, of w1] act by (metis snd_conv)
  with Cons.IH [OF r2] send_proto_sent [OF send] show ?case by fastforce
qed (auto simp: stream_end_def prog_defs split: option.splits prod.splits)

lemma proto_eventD:
  assumes "proto_event dbl i now n d = Inr p"
  shows "pe_sequence p = n" "pe_identity p = i" "pe_namespace p = dr_namespace d"
    "python_to_value dbl (dr_data d) = Inr (pe_data p)" "struct_of dbl (dr_native d) = Inr (pe_native p)"
  using assms by (auto simp: proto_event_def bindM_def liftE_def ret_def split: sum.splits prod.splits)

text \<open>The mode of a draft survives the translation; a draft without one is sent without one and gets the
  mode \<open>values\<close> at the gateway.\<close>

definition draft_mode :: "RuntimeEventDraft \<Rightarrow> string option" where
  "draft_mode d = (case get_or (dr_native d) ''langgraph_mode'' (JStr ''values'') of JStr m \<Rightarrow> Some m | _ \<Rightarrow> None)"

lemma struct_of_lookup:
  assumes "struct_of dbl d = Inr fs"
  shows "case map_of d k of
      None \<Rightarrow> map_of (obj_of_struct fs) k = None
    | Some v \<Rightarrow> \<exists>pv. python_to_value dbl v = Inr pv \<and> map_of (obj_of_struct fs) k = Some (value_to_python pv)"
  using assms
proof (induction d arbitrary: fs)
  case (Cons x d)
  obtain k' v where x: "x = (k', v)" by (cases x)
  from Cons.prems obtain pv fs' where "python_to_value dbl v = Inr pv" "struct_of dbl d = Inr fs'" "fs = (k', pv) # fs'"
    unfolding x by (cases "python_to_value dbl v") (auto simp: struct_of_def split: sum.splits)
  moreover have "obj_of_struct ((k', pv) # fs') = (k', value_to_python pv) # obj_of_struct fs'"
    by (simp add: obj_of_struct_def)
  ultimately show ?case using Cons.IH [of fs'] x by (auto split: option.splits)
qed (simp add: struct_of_def obj_of_struct_def)

lemma event_mode_sent:
  assumes "proto_event dbl i now n d = Inr p" and "draft_mode d = Some m"
  shows "event_mode p = Some m"
proof (cases "map_of (dr_native d) ''langgraph_mode''")
  case None
  with struct_of_lookup [OF proto_eventD(5) [OF assms(1)], of "''langgraph_mode''"] assms(2) show ?thesis
    by (simp add: draft_mode_def event_mode_def get_or_def)
next
  case (Some v)
  with assms(2) have "v = JStr m" by (auto simp: draft_mode_def get_or_def split: json.splits)
  with struct_of_lookup [OF proto_eventD(5) [OF assms(1)], of "''langgraph_mode''"] Some show ?thesis
    by (auto simp: event_mode_def get_or_def)
qed

subsection \<open>What the client reads\<close>

text \<open>The drafts a stream passes on, by their numbers, and the message that carries one.\<close>

definition passed :: "SseStream \<Rightarrow> nat \<times> RuntimeEventDraft \<Rightarrow> bool" where
  "passed st x \<longleftrightarrow> ss_after st < int (fst x)
     \<and> (case draft_mode (snd x) of Some m \<Rightarrow> m \<in> set (ss_modes st) | None \<Rightarrow> False)"

definition draft_title :: "RuntimeEventDraft \<Rightarrow> string" where
  "draft_title d = (case draft_mode d of Some m \<Rightarrow> m | None \<Rightarrow> [])
     @ (if dr_namespace d \<noteq> [] then ''|'' @ join ''|'' (dr_namespace d) else [])"

definition carries :: "nat \<times> RuntimeEventDraft \<Rightarrow> message \<Rightarrow> bool" where
  "carries x msg \<longleftrightarrow> fst msg = Some (int_str (int (fst x))) \<and> fst (snd msg) = Some (draft_title (snd x))
     \<and> (case snd (snd msg) of Some v \<Rightarrow> py_eq v (dr_data (snd x)) | None \<Rightarrow> False)"

definition plain_draft :: "(int \<Rightarrow> (rat \<times> string) option) \<Rightarrow> RuntimeEventDraft \<Rightarrow> bool" where
  "plain_draft dbl d \<longleftrightarrow> draft_mode d \<noteq> None \<and> newline \<notin> set (draft_title d)
     \<and> ints_exact dbl (dr_data d) \<and> json_ok (dr_data d)"

lemma sent_draft:
  assumes "sent_as dbl i x p" and "plain_draft dbl (snd x)" and "\<not> ss_native st"
  shows "selected st p = passed st x" "carries x (message_of st p)" "event_title st p = draft_title (snd x)"
    "event_mode p \<noteq> None"
proof -
  obtain now where ev: "proto_event dbl i now (int (fst x)) (snd x) = Inr p" using assms(1) by blast
  obtain m where m: "draft_mode (snd x) = Some m" using assms(2) by (auto simp: plain_draft_def)
  note p = proto_eventD [OF ev] event_mode_sent [OF ev m]
  show "selected st p = passed st x" using p m assms(3) by (simp add: selected_def passed_def)
  show t: "event_title st p = draft_title (snd x)" using p m assms(3) by (simp add: event_title_def draft_title_def)
  show "event_mode p \<noteq> None" using p by simp
  have "py_eq (value_to_python (pe_data p)) (dr_data (snd x))"
    using python_value_roundtrip [OF p(4)] assms(2) by (simp add: plain_draft_def)
  then show "carries x (message_of st p)"
    using p(1) t assms(3) by (simp add: carries_def message_of_def event_value_def)
qed

lemma sent_drafts:
  assumes "list_all2 (sent_as dbl i) xs ps" and "\<forall>x \<in> set xs. plain_draft dbl (snd x)" and "\<not> ss_native st"
  shows "list_all2 carries (filter (passed st) xs) (map (message_of st) (filter (selected st) ps))"
  using assms
proof (induction rule: list_all2_induct)
  case (Cons x xs p ps)
  then show ?case using sent_draft [OF Cons.hyps(1), of st] by simp
qed simp

lemma sent_clean:
  assumes "list_all2 (sent_as dbl i) (enumerate n ds) ps" and "\<forall>d \<in> set ds. plain_draft dbl d" and "\<not> ss_native st"
    and "n + length ds < 2 ^ 63" and "\<forall>p \<in> set ps. json_wf flt (value_to_python (pe_data p))"
  shows "\<forall>p \<in> set ps. clean_event flt st p"
proof
  fix p assume "p \<in> set ps"
  then obtain j where j: "j < length ps" "p = ps ! j" by (auto simp: in_set_conv_nth)
  then have "j < length ds" "sent_as dbl i (n + j, ds ! j) p"
    using list_all2_nthD [OF assms(1), of j] list_all2_lengthD [OF assms(1)] by (auto simp: nth_enumerate_eq)
  moreover from this have "pe_sequence p = int (n + j)" using proto_eventD(1) by auto
  moreover have "plain_draft dbl (ds ! j)" using assms(2) \<open>j < length ds\<close> by simp
  ultimately show "clean_event flt st p"
    using sent_draft [of dbl i "(n + j, ds ! j)" p st] assms(3-5) j by (auto simp: clean_event_def plain_draft_def)
qed

theorem drafts_reach_stream:
  assumes "queues_ok g" and opened: "sse_response rid m h False a tid g = (Inr st, g1)"
    and sent: "grpc_drafts dbl run None 0 ds ending w = (Inr b, w')" and "wk_sent w = []" and "ds \<noteq> []"
    and "rn_key run = rid" and "rid \<noteq> []" and plain: "\<forall>d \<in> set ds. plain_draft dbl d"
    and room: "room_for (queues_for g1 rid) (Suc (length ds)) (gw_queues g1)"
    and wf: "\<forall>p \<in> set (wk_sent w'). json_wf flt (value_to_python (pe_data p))"
  shows "\<exists>g2 frames msgs. ingress_stream (wk_sent w') g1 = Some (rid, g2)
    \<and> sse_frames st (gw_queues g2 (ss_queue st)) = (frames, Finished)
    \<and> sse_messages flt (concat frames) = opening_messages st @ msgs @ closing_messages st
    \<and> list_all2 carries (filter (passed st) (enumerate 0 ds)) msgs"
proof -
  let ?i = "identity_to_proto (rn_identity run)" and ?ps = "wk_sent w'"
  have ps: "list_all2 (sent_as dbl ?i) (enumerate 0 ds) ?ps"
    using grpc_drafts_sent [OF sent] assms(4) by auto
  then have len: "length ?ps = length ds" by (auto dest: list_all2_lengthD)
  with assms(5) have ne: "?ps \<noteq> []" by auto
  then have "pe_identity (hd ?ps) = ?i"
    using list_all2_nthD2 [OF ps, of 0] proto_eventD(2) by (auto simp: hd_conv_nth)
  moreover have "pi_run_id ?i = rid" using assms(6) by (simp add: identity_to_proto_def)
  ultimately have "pi_run_id (pe_identity (hd ?ps)) = rid" by simp
  from stream_queue_filled [OF assms(1) opened ne this assms(7)] room len
  obtain g2 where g2: "ingress_stream ?ps g1 = Some (rid, g2)" "gw_queues g2 (ss_queue st) = map QEvent ?ps @ [QEnd]"
    by auto
  have nat: "\<not> ss_native st" using queues_for_opened(4) [OF opened] by simp
  have "length ds < 2 ^ 63"
    using room queues_for_opened(1) [OF opened] by (auto simp: room_for_def queue_size_def)
  with sent_clean [OF ps plain nat _ wf] have "\<forall>p \<in> set ?ps. clean_event flt st p" by simp
  moreover have "list_all2 carries (filter (passed st) (enumerate 0 ds)) (map (message_of st) (filter (selected st) ?ps))"
    using plain nat by (intro sent_drafts [OF ps]) (auto simp: in_set_enumerate_eq)
  ultimately show ?thesis
    using client_reads(3,4) [of ?ps flt st] g2 by (intro exI conjI) (auto intro: prod_eqI)
qed

end
