(* ===== verification/Edge_Properties.thy ===== *)
theory Edge_Properties
  imports Worker_Gateway Distributed_Properties
begin

section \<open>Properties of the gateway and of the LangGraph adapter\<close>

text \<open>
  The properties of the HTTP gateway, of its event streams and of the adapter that runs the graphs, each
  with a witness on a concrete state; the first ones compose the worker, the gateway and the client.
\<close>

subsection \<open>A gateway for the witnesses\<close>

definition demo_methods :: GwAdapter where
  "demo_methods = \<lparr> ga_inspect = Inr \<lparr> sc_input = JNull, sc_output = JNull, sc_state = JNull, sc_config = JNull, sc_context = JNull \<rparr>,
     ga_get_state = (\<lambda>_. Inr (OtherState JNull)), ga_update_state = (\<lambda>_ _. Inr (OtherState JNull)),
     ga_get_state_history = (\<lambda>_. Inr []), ga_get_graph = None, ga_get_subgraphs = None, ga_store_put = None,
     ga_store_get = None, ga_store_delete = None, ga_store_search = None, ga_store_list_namespaces = None \<rparr>"

definition demo_gateway :: "Service \<Rightarrow> Gateway" where
  "demo_gateway s = \<lparr> gw_runtime = s, gw_assistants = [], gw_config = [], gw_methods = (\<lambda>_. demo_methods),
     gw_workers = [], gw_run_queues = [], gw_queues = (\<lambda>_. []), gw_next_queue = 0, gw_migrations = [], gw_environ = [] \<rparr>"

definition demo_stream :: SseStream where
  "demo_stream = \<lparr> ss_run = ''r1'', ss_queue = 0, ss_modes = [''values''], ss_native = False, ss_after = -1,
     ss_headers = sse_headers ''r1'' None \<rparr>"

definition demo_opened :: "Service \<Rightarrow> Gateway" where
  "demo_opened s = snd (sse_response ''r1'' (OneMode ''values'') None False None None (demo_gateway s))"

lemma demo_gateway_queues: "queues_ok (demo_gateway s)"
  by (simp add: queues_ok_def demo_gateway_def all_queues_def)

lemma demo_opens:
  "sse_response ''r1'' (OneMode ''values'') None False None None (demo_gateway s) = (Inr demo_stream, demo_opened s)"
  by (simp add: demo_opened_def sse_response_run sse_cursor_def bindE_def demo_stream_def demo_gateway_def modes_of_def)

lemma demo_opened_queues: "queues_for (demo_opened s) r = (if r = ''r1'' then [0] else [])" "gw_queues (demo_opened s) q = []"
  by (simp_all add: demo_opened_def sse_response_run sse_cursor_def bindE_def demo_gateway_def queues_for_def)

section \<open>Event streams\<close>







text \<open>
  C28.  Streams are isolated: a call of the ingress for one run changes no queue of a stream of another
  run, however many streams are open, so no client receives the events of another run.
\<close>

theorem streams_are_isolated:
  assumes "queues_ok g" and "ingress_stream ps g = Some (x, g')" and "ps \<noteq> []"
    and "r \<noteq> pi_run_id (pe_identity (hd ps))" and "q \<in> set (queues_for g r)"
  shows "gw_queues g' q = gw_queues g q"
  using ingress_stream_other [OF assms(2,3)] queues_of_runs_disjoint [OF assms(1,4)] assms(5) by blast

definition demo_event :: "string \<Rightarrow> ProtoEvent" where
  "demo_event r = \<lparr> pe_type = ''state.values'', pe_sequence = 0, pe_namespace = [],
     pe_identity = identity_to_proto (demo_identity r), pe_timestamp = 0, pe_data = PbString ''x'', pe_native = [] \<rparr>"

theorem streams_are_isolated_witness:
  "\<exists>g'. ingress_stream [demo_event ''r2''] (demo_opened demo_start) = Some (''r2'', g') \<and> gw_queues g' 0 = []"
proof -
  let ?g = "demo_opened demo_start"
  have ok: "queues_ok ?g" by (rule sse_response_queues_ok [OF demo_gateway_queues demo_opens])
  have "pi_run_id (pe_identity (hd [demo_event ''r2''])) = ''r2''" by code_simp
  moreover have "room_for (queues_for ?g ''r2'') (Suc (length [demo_event ''r2''])) (gw_queues ?g)"
    by (simp add: room_for_def demo_opened_queues)
  ultimately obtain g' where g': "ingress_stream [demo_event ''r2''] ?g = Some (''r2'', g')"
    using ingress_stream_room [OF ok, of "[demo_event ''r2'']" "''r2''"] by auto
  have "0 \<in> set (queues_for ?g ''r1'')" by (simp add: demo_opened_queues)
  moreover have "''r1'' \<noteq> pi_run_id (pe_identity (hd [demo_event ''r2'']))" by code_simp
  ultimately show ?thesis
    using streams_are_isolated [OF ok g', of "''r1''" 0] g' by (simp add: demo_opened_queues)
qed

text \<open>
  C29.  The stream of a run that the gateway executes itself stays silent: whatever requests arrive and
  whatever the local worker does, up to and after the end of the run, the client has received nothing but
  the opening message and still waits.  Only the ingress feeds the queues, and every route reads from a
  queue.
\<close>

theorem local_stream_is_silent:
  assumes "queues_ok g" and "sse_response rid m h n a tid g = (Inr st, g1)"
    and "(local_step c allowed)\<^sup>*\<^sup>* (g1, f) (g2, f')"
  shows "sse_frames st (gw_queues g2 (ss_queue st)) = (if n then [] else [metadata_frame rid], Waiting)"
proof -
  have "unfed (ss_queue st) g2" using local_steps_unfed [OF assms(3) opened_unfed [OF assms(1,2)]] .
  then show ?thesis using queues_for_opened(4,5) [OF assms(2)] by (simp add: unfed_def sse_frames_def)
qed

text \<open>A run that is executed to its end by the local worker while its stream is open.\<close>

definition demo_config :: GwConfig where
  "demo_config = \<lparr> gc_check = (\<lambda>_. []), gc_flt = (\<lambda>t. (0, t)), gc_column = ''str'' \<rparr>"

theorem local_stream_is_silent_witness:
  "let g = demo_opened (demo_received (demo_adapter [values_draft ''r1'' (JInt 1)] None));
       g2 = snd (gw_handle demo_config (GetRun ''r1'') g)
   in sse_frames demo_stream (gw_queues g2 0) = ([metadata_frame ''r1''], Waiting)"
proof -
  let ?s = "demo_received (demo_adapter [values_draft ''r1'' (JInt 1)] None)"
  let ?g2 = "snd (gw_handle demo_config (GetRun ''r1'') (demo_opened ?s))"
  have "local_step demo_config (\<lambda>_. True) (demo_opened ?s, None) (?g2, None)" by (rule requested)
  then have "(local_step demo_config (\<lambda>_. True))\<^sup>*\<^sup>* (demo_opened ?s, None) (?g2, None)" by blast
  from local_stream_is_silent [OF demo_gateway_queues demo_opens this] show ?thesis
    by (simp add: demo_stream_def Let_def)
qed

text \<open>
  C30.  Waiting terminates: the loop of the waiting routes polls while the run is pending or running, and
  returns in the first round in which it finds the run settled, with the answer for that run; it never
  returns before and needs no further round.
\<close>

theorem wait_for_run_returns:
  assumes "\<forall>i < n. \<exists>r. map_of (sv_runs (gw_runtime (states i))) rid = Some r \<and> rn_status r \<in> {PENDING, RUNNING}"
    and "map_of (sv_runs (gw_runtime (states n))) rid = Some r" and "rn_status r \<notin> {PENDING, RUNNING}"
  shows "wait_for_run k states rid adapter = (if k \<le> n then None else Some (wait_result adapter r))"
proof (rule wait_for_run_rounds)
  have all: "rn_status x \<in> set wait_statuses \<longleftrightarrow> rn_status x \<notin> {PENDING, RUNNING}" for x
    by (cases "rn_status x") (simp_all add: wait_statuses_def)
  show "fst (wait_round rid adapter (states i)) = Inr None" if "i < n" for i
    using assms(1) that wait_round_active all by blast
  show "fst (wait_round rid adapter (states n)) = map_sum id Some (wait_result adapter r)"
    using wait_round_settled [OF assms(2)] assms(3) all by blast
qed

definition demo_states :: "nat \<Rightarrow> Gateway" where
  "demo_states i = demo_gateway (if i < 2 then demo_received (demo_adapter [] None)
     else snd (cancel_run ''r1'' (demo_received (demo_adapter [] None))))"

theorem wait_for_run_returns_witness:
  "\<exists>r. wait_for_run 2 demo_states ''r1'' None = None
    \<and> wait_for_run 3 demo_states ''r1'' None = Some (Inr (run_payload r)) \<and> rn_status r = CANCELLED"
proof -
  let ?s = "demo_received (demo_adapter [] None)"
  have "status_of ''r1'' ?s = Some PENDING" "status_of ''r1'' (snd (cancel_run ''r1'' ?s)) = Some CANCELLED"
    by code_simp+
  then obtain r0 r where "map_of (sv_runs ?s) ''r1'' = Some r0" "rn_status r0 = PENDING"
    and r: "map_of (sv_runs (snd (cancel_run ''r1'' ?s))) ''r1'' = Some r" "rn_status r = CANCELLED"
    by (auto simp: status_of_def)
  then have "\<forall>i < 2. \<exists>r. map_of (sv_runs (gw_runtime (demo_states i))) ''r1'' = Some r \<and> rn_status r \<in> {PENDING, RUNNING}"
    "map_of (sv_runs (gw_runtime (demo_states 2))) ''r1'' = Some r" "rn_status r \<notin> {PENDING, RUNNING}"
    by (simp_all add: demo_states_def demo_gateway_def)
  note wait = wait_for_run_returns [OF this, where adapter = None]
  show ?thesis using wait [of 2] wait [of 3] r(2) by (intro exI [of _ r]) (simp add: wait_result_def)
qed

text \<open>
  The two generators of a stream agree on the events that carry a mode; an event without one, such as
  the start or the completion of a run, is left out by the generator over the journal and sent as a state
  of mode \<open>values\<close> by the generator over the queue.
\<close>

lemma stream_generators_compared:
  assumes "\<not> ss_native st" and "ss_after st < pe_sequence p"
    and "ev_sequence e = pe_sequence p" and "ev_namespace e = pe_namespace p"
    and "ev_data e = value_to_python (pe_data p)" and "ev_native e = obj_of_struct (pe_native p)"
  shows "(map_of (ev_native e) ''langgraph_mode'' \<noteq> None \<longrightarrow> frame_of st p = journal_frame (ss_modes st) False e)
    \<and> (map_of (ev_native e) ''langgraph_mode'' = None \<longrightarrow> journal_frame (ss_modes st) False e = Inr None
        \<and> frame_of st p = Inr (if ''values'' \<in> set (ss_modes st)
            then Some (event_frame (pe_sequence p)
              (''values'' @ (if pe_namespace p \<noteq> [] then ''|'' @ join ''|'' (pe_namespace p) else []))
              (json_dumps (value_to_python (pe_data p))))
            else None))"
proof -
  have data: "orjson_dumps (value_to_python (pe_data p)) = Inr (json_dumps (value_to_python (pe_data p)))"
    by (simp add: orjson_dumps_def ints_fit_value)
  note frames = frame_of_def journal_frame_def get_or_def Let_def data
  show ?thesis
  proof (cases "map_of (obj_of_struct (pe_native p)) ''langgraph_mode''")
    case None
    with assms show ?thesis by (simp add: frames)
  next
    case (Some v)
    with assms show ?thesis by (cases v) (simp_all add: frames)
  qed
qed

section \<open>The gateway as a whole\<close>

text \<open>
  C31.  In every state the gateway reaches, by any interleaving of requests to its routes, of sections of
  the local worker and of calls of the event ingress, the tables of the runtime are well formed, every
  thread has at most one active run, and every open stream has a queue of its own (for adapters that do
  not report interrupts, which can revive a run).
\<close>

theorem gateway_reachable_states:
  assumes "create_local_runtime n clock ids = Inr s" and "inj ids" and "gw_runtime g0 = s" and "gw_run_queues g0 = []"
    and "(gw_step c (\<lambda>d. \<not> ev_is (dr_type d) RUN_INTERRUPTED))\<^sup>*\<^sup>* (g0, f0) (g, f)"
  shows "svc_wf (gw_runtime g) \<and> one_active (sv_runs (gw_runtime g)) \<and> queues_ok g
    \<and> (\<forall>r r'. r \<noteq> r' \<longrightarrow> set (queues_for g r) \<inter> set (queues_for g r') = {})"
proof -
  have "svc_wf s" using reachable_wf [OF assms(1,2) rtranclp.rtrancl_refl] by simp
  moreover have "sv_runs s = []" using assms(1) by (auto simp: create_local_runtime_def split: sum.splits)
  moreover have "queues_ok g0" using assms(4) by (simp add: queues_ok_def all_queues_def)
  ultimately have "gw_ok g0" using assms(3) by (simp add: gw_ok_def runs_only_def one_active_def)
  then have "gw_ok g" by (rule gw_reachable_ok [OF assms(5)])
  then show ?thesis using queues_of_runs_disjoint by (simp add: gw_ok_def runs_only_def)
qed

theorem gateway_reachable_states_witness:
  "let g = snd (gw_handle demo_config (CreateThread None) (demo_gateway demo_start))
   in length (sv_threads (gw_runtime g)) = 1 \<and> one_active (sv_runs (gw_runtime g)) \<and> queues_ok g"
proof -
  let ?g = "snd (gw_handle demo_config (CreateThread None) (demo_gateway demo_start))"
  let ?step = "gw_step demo_config (\<lambda>d. \<not> ev_is (dr_type d) RUN_INTERRUPTED)"
  have "?step (demo_gateway demo_start, None) (?g, None)" by (intro served requested)
  then have "?step\<^sup>*\<^sup>* (demo_gateway demo_start, None) (?g, None)" by blast
  moreover have "length (sv_threads (gw_runtime ?g)) = 1" by code_simp
  ultimately show ?thesis
    using gateway_reachable_states [OF demo_start demo_ids_inj, of "demo_gateway demo_start"]
    by (simp add: demo_gateway_def Let_def)
qed

section \<open>The LangGraph adapter\<close>

text \<open>
  C32.  A graph drives the runtime: for every behaviour of a graph (the chunks of its stream, whatever
  they are, and the way it ends), the execution settles the run exactly once, as successful,
  interrupted, failed or cancelled; the journal holds the start, the translated events in order and one
  closing event; a successful run keeps the last state of the graph as its result.
\<close>

theorem langgraph_run_outcome:
  assumes "ready s rp run" and "rq = rc_request (rp_command rp)"
    and "ad_stream ad = (\<lambda>rq. fst (lg_stream a task rq l))"
    and "map_config rq = Inr config" and "stream_mode_arg (rq_stream_modes rq) = Inr modes"
    and "graph_events a rq config modes (ls_graph l) = ((ds, e), g)"
  shows "\<exists>s' r. execute_receipt rp ad s = (ended_result e, s')
    \<and> outcome s rp run r (lg_prefix rq ds @ [closing rq ds e]) s' \<and> rn_status r = ended_status ds e
    \<and> (ended_status ds e = SUCCESS \<longrightarrow> rn_result r = last_value JNull ds)"
  using assms by (rule langgraph_execution)

definition demo_object :: "pyobj list \<Rightarrow> unit GraphObject" where
  "demo_object chunks = \<lparr> go_class = ''CompiledStateGraph'', go_module = ''langgraph.graph.state'',
     go_astream = Some (\<lambda>_ _ g. ((chunks, None), \<lambda>_. g)), go_ainvoke = Some (\<lambda>_ _ g. (Inr PNone, g)),
     go_aget_state = None, go_aget_state_history = None, go_aupdate_state = None, go_get_graph = (\<lambda>_. Inr JNull),
     go_aget_subgraphs = (\<lambda>g. (([], None), \<lambda>_. g)), go_checkpointer = None, go_store = None, go_name = PStr ''graph'',
     go_graph_id = PNone, go_universal_runtime = PNone, go_runtime_profile = PNone, go_config = None,
     go_schema_method = (\<lambda>_. None), go_schema_attribute = (\<lambda>_. Inr (PNone, [])) \<rparr>"

definition demo_memory :: "saver \<times> unit Store" where
  "demo_memory = (Saver ''langgraph.checkpoint.memory'' 0, \<lparr> st_id = 0, st_aput = (\<lambda>_ _ _ _ g. (Inr (), g)),
     st_aget = (\<lambda>_ _ g. (Inr None, g)), st_adelete = (\<lambda>_ _ g. (Inr (), g)),
     st_asearch = (\<lambda>_ _ _ _ g. (([], None), \<lambda>_. g)), st_alist_namespaces = (\<lambda>_ _ _ _ _ g. (([], None), \<lambda>_. g)) \<rparr>)"

text \<open>A builder, whose \<open>compile\<close> returns the graph with the checkpointer it was given.\<close>

definition demo_builder :: "pyobj list \<Rightarrow> unit target" where
  "demo_builder chunks = Target ((demo_object chunks) \<lparr> go_astream := None, go_ainvoke := None \<rparr>)
     (Some (\<lambda>kw. Inr (Target ((demo_object chunks) \<lparr> go_checkpointer := fst kw \<rparr>) None None))) None"

definition demo_lg :: "pyobj list \<Rightarrow> unit LangGraphAdapter" where
  "demo_lg chunks = (case new_langgraph_adapter demo_memory (demo_builder chunks) ''platform-managed'' None of
     Inr a \<Rightarrow> a | Inl _ \<Rightarrow> undefined)"

definition demo_chunk :: pyobj where
  "demo_chunk = PDict [(KeyText ''answer'', PStr ''yes'')]"

definition demo_lg_state :: "unit LgState" where
  "demo_lg_state = \<lparr> ls_tasks = [], ls_graph = () \<rparr>"

definition demo_lg_adapter :: Adapter where
  "demo_lg_adapter = (demo_adapter [] None) \<lparr> ad_stream := (\<lambda>rq. fst (lg_stream (demo_lg [demo_chunk]) (Some 1) rq demo_lg_state)) \<rparr>"

lemma demo_graph_runs:
  "\<exists>config ds g. map_config (demo_request ''r1'') = Inr config
    \<and> stream_mode_arg (rq_stream_modes (demo_request ''r1'')) = Inr (OneMode ''values'')
    \<and> graph_events (demo_lg [demo_chunk]) (demo_request ''r1'') config (OneMode ''values'') (ls_graph demo_lg_state) = ((ds, None), g)
    \<and> map dr_data ds = [JObj [(''answer'', JStr ''yes'')]] \<and> map dr_type ds = [Ev STATE_VALUES]"
proof -
  have "case map_config (demo_request ''r1'') of Inl _ \<Rightarrow> False | Inr config \<Rightarrow>
      stream_mode_arg (rq_stream_modes (demo_request ''r1'')) = Inr (OneMode ''values'')
      \<and> (case graph_events (demo_lg [demo_chunk]) (demo_request ''r1'') config (OneMode ''values'') (ls_graph demo_lg_state) of
          ((ds, e), g) \<Rightarrow> e = None \<and> map dr_data ds = [JObj [(''answer'', JStr ''yes'')]] \<and> map dr_type ds = [Ev STATE_VALUES])"
    by code_simp
  then show ?thesis by (auto split: sum.splits prod.splits)
qed

lemma demo_lg_request: "rc_request (rp_command (demo_receipt a)) = demo_request ''r1''"
  by code_simp

lemma demo_lg_stream: "ad_stream demo_lg_adapter = (\<lambda>rq. fst (lg_stream (demo_lg [demo_chunk]) (Some 1) rq demo_lg_state))"
  by (simp add: demo_lg_adapter_def)

lemma plain_values: "map dr_data ds = [JObj [(''answer'', JStr ''yes'')]] \<Longrightarrow> map dr_type ds = [Ev STATE_VALUES] \<Longrightarrow>
  \<not> list_ex interrupting ds \<and> last_value JNull ds = JObj [(''answer'', JStr ''yes'')]"
  by (cases ds) (auto simp: interrupting_def last_value_def ev_is_def)

theorem langgraph_run_outcome_witness:
  "\<exists>s' r. execute_receipt (demo_receipt demo_lg_adapter) demo_lg_adapter (demo_received demo_lg_adapter) = (Inr (), s')
    \<and> map_of (sv_runs s') ''r1'' = Some r \<and> rn_status r = SUCCESS \<and> rn_result r = JObj [(''answer'', JStr ''yes'')]"
proof -
  obtain config ds g where run: "map_config (demo_request ''r1'') = Inr config"
    "stream_mode_arg (rq_stream_modes (demo_request ''r1'')) = Inr (OneMode ''values'')"
    "graph_events (demo_lg [demo_chunk]) (demo_request ''r1'') config (OneMode ''values'') (ls_graph demo_lg_state) = ((ds, None), g)"
    and ds: "map dr_data ds = [JObj [(''answer'', JStr ''yes'')]]" "map dr_type ds = [Ev STATE_VALUES]"
    using demo_graph_runs by (elim exE conjE)
  have "rn_key (demo_run demo_lg_adapter) = ''r1''" by code_simp
  with langgraph_run_outcome [OF demo_ready demo_lg_request [symmetric] demo_lg_stream run] plain_values [OF ds]
  show ?thesis by (fastforce simp: outcome_def ended_status_def ended_result_def)
qed






text \<open>
  C35.  Managed persistence is never dropped silently: an adapter that is created has handed its
  checkpointer and store to the graph (to its builder, to the builder its factory returned, or to the
  factory), or had none to hand over; in platform-managed mode a graph that is already compiled is
  refused.  A manifest that announces checkpoints, interrupts or resumption has a graph with a
  checkpointer.
\<close>

theorem persistence_reaches_graph:
  assumes "new_langgraph_adapter memory t mode providers = Inr a"
  shows "(if is_compiled_graph t then la_graph a = t \<and> pp_checkpointer (la_providers a) = None \<and> pp_store (la_providers a) = None
      else built_with (pp_checkpointer (la_providers a), pp_store (la_providers a)) t (la_graph a))
    \<and> (mode = ''platform-managed'' \<and> providers = None \<longrightarrow>
        \<not> is_compiled_graph t \<and> go_checkpointer (attrs t) = None \<and> pp_checkpointer (la_providers a) = Some (fst memory))
    \<and> (\<forall>cap \<in> {cap_checkpoint, cap_interrupt, cap_resume, cap_history, cap_state_management}.
        cap (mf_capabilities (la_manifest a)) \<longrightarrow> go_checkpointer (attrs (la_graph a)) \<noteq> None)"
proof -
  note parts = new_adapter_parts [OF assms]
  have load: "if is_compiled_graph t then la_graph a = t \<and> pp_checkpointer (la_providers a) = None \<and> pp_store (la_providers a) = None
      else built_with (pp_checkpointer (la_providers a), pp_store (la_providers a)) t (la_graph a)"
    using load_graph_providers [OF parts(3)] by (cases "is_compiled_graph t") (simp_all add: no_providers_def)
  moreover have "\<not> is_compiled_graph t \<and> go_checkpointer (attrs t) = None \<and> pp_checkpointer (la_providers a) = Some (fst memory)"
    if m: "mode = ''platform-managed'' \<and> providers = None"
  proof -
    have "pp_checkpointer (la_providers a) = Some (fst memory)"
      using parts(2) m by (simp add: selected_providers_def local_persistence_def)
    then show ?thesis using load parts(1) m by (auto simp: validate_persistence_Inr)
  qed
  moreover have "go_checkpointer (attrs (la_graph a)) \<noteq> None"
    if "cap \<in> {cap_checkpoint, cap_interrupt, cap_resume, cap_history, cap_state_management}"
      "cap (mf_capabilities (la_manifest a))" for cap
    using manifest_capabilities [OF assms] that by auto
  ultimately show ?thesis by blast
qed

theorem persistence_reaches_graph_witness:
  "pp_checkpointer (la_providers (demo_lg [demo_chunk])) = Some (fst demo_memory)
    \<and> go_checkpointer (attrs (la_graph (demo_lg [demo_chunk]))) \<noteq> None"
proof -
  have "case new_langgraph_adapter demo_memory (demo_builder [demo_chunk]) ''platform-managed'' None of Inr _ \<Rightarrow> True | Inl _ \<Rightarrow> False"
    by code_simp
  then have a: "new_langgraph_adapter demo_memory (demo_builder [demo_chunk]) ''platform-managed'' None = Inr (demo_lg [demo_chunk])"
    by (auto simp: demo_lg_def split: sum.splits)
  moreover have "cap_checkpoint (mf_capabilities (la_manifest (demo_lg [demo_chunk])))" by code_simp
  ultimately show ?thesis using persistence_reaches_graph [OF a] by auto
qed

end
