(* ===== verification/A2A_Adapter.thy ===== *)
theory A2A_Adapter
  imports LangGraph_Adapter Runtime_Requests
begin

section \<open>A2A adapter\<close>

text \<open>
  Models \<^verbatim>\<open>adapters/a2a/\<close>: the agent card that is announced, the translation of messages into execution
  requests and of runtime events into task updates, and the executor.  What the SDK hands to the
  executor is the input; what the executor puts into the SDK's event queue is the output.
\<close>

subsection \<open>The agent card (descriptor.py, agent\_card.py)\<close>

record AgentSkillDescriptor =
  sk_skill_id :: string
  sk_name :: string
  sk_description :: string
  sk_tags :: "string list"
  sk_input_modes :: "string list"
  sk_output_modes :: "string list"

record AgentCardDescriptor =
  cd_name :: string
  cd_description :: string
  cd_version :: string
  cd_url :: string
  cd_streaming :: bool
  cd_skills :: "AgentSkillDescriptor list"

definition skill :: "string \<Rightarrow> string \<Rightarrow> string \<Rightarrow> string list \<Rightarrow> AgentSkillDescriptor" where
  "skill sid name description tags = \<lparr> sk_skill_id = sid, sk_name = name, sk_description = description, sk_tags = tags,
     sk_input_modes = [''text''], sk_output_modes = [''text''] \<rparr>"

definition descriptor_from_manifest ::
  "string \<Rightarrow> string \<Rightarrow> string \<Rightarrow> string \<Rightarrow> AdapterManifest \<Rightarrow> AgentCardDescriptor" where
  "descriptor_from_manifest name description version url manifest =
     (let c = mf_capabilities manifest; streaming = (cap_streaming c \<and> cap_a2a c) in
      \<lparr> cd_name = name, cd_description = description, cd_version = version, cd_url = url, cd_streaming = streaming,
        cd_skills = [skill ''runtime.execute'' ''Execute'' ''Execute the configured assistant.'' [''execution'']]
          @ (if streaming
             then [skill ''runtime.stream'' ''Stream execution'' ''Stream ordered execution updates.'' [''streaming'']]
             else []) \<rparr>)"

record AgentInterface =
  if_url :: string
  if_protocol_binding :: string
  if_protocol_version :: string

record AgentCard =
  card_name :: string
  card_description :: string
  card_version :: string
  card_supported_interfaces :: "AgentInterface list"
  card_streaming :: bool
  card_default_input_modes :: "string list"
  card_default_output_modes :: "string list"
  card_skills :: "AgentSkillDescriptor list"

definition build_agent_card :: "AgentCardDescriptor \<Rightarrow> AgentCard" where
  "build_agent_card d =
     \<lparr> card_name = cd_name d, card_description = cd_description d, card_version = cd_version d,
       card_supported_interfaces = [\<lparr> if_url = cd_url d, if_protocol_binding = ''HTTP+JSON'', if_protocol_version = ''1.0'' \<rparr>],
       card_streaming = cd_streaming d, card_default_input_modes = [''text'', ''application/json''],
       card_default_output_modes = [''text'', ''application/json''], card_skills = cd_skills d \<rparr>"

text \<open>The card of an assistant; \<open>assistant.name or str(assistant.assistant_id)\<close> names it.\<close>

definition assistant_card :: "Assistant \<Rightarrow> AdapterManifest \<Rightarrow> string \<Rightarrow> AgentCard" where
  "assistant_card a manifest public_url = build_agent_card (descriptor_from_manifest
     (if truthy (as_name a) then py_str (as_name a) else id_value (as_assistant_id a))
     (''UniversalRuntime assistant '' @ as_graph_id a) (int_str (as_version a)) public_url manifest)"

subsection \<open>Messages (request\_mapper.py, errors.py)\<close>

text \<open>The content of a part, by the field that is set; the content of a data part is given as
  \<open>MessageToDict\<close> returns it.\<close>

datatype part = TextPart string | DataPart json | RawPart | UrlPart | EmptyPart

record A2AMessage =
  am_message_id :: string
  am_context_id :: string
  am_parts :: "part list"

definition unsupported_part :: "string \<Rightarrow> exc" where
  "unsupported_part kind = runtime_failure CAPABILITY_NOT_SUPPORTED (''A2A message part is not supported: '' @ kind)"

definition invalid_context_id :: "string \<Rightarrow> exc" where
  "invalid_context_id value = runtime_failure INVALID_EXECUTION_INPUT (''invalid A2A context ID: '' @ value)"

fun part_value :: "part \<Rightarrow> exc + json" where
  "part_value (TextPart s) = Inr (JStr s)"
| "part_value (DataPart v) = Inr v"
| "part_value RawPart = Inl (unsupported_part ''raw'')"
| "part_value UrlPart = Inl (unsupported_part ''url'')"
| "part_value EmptyPart = Inl (unsupported_part ''unknown'')"

definition message_input :: "A2AMessage \<Rightarrow> exc + json" where
  "message_input m = bindE (collect (map part_value (am_parts m))) (\<lambda>vs.
     Inr (case vs of [v] \<Rightarrow> v | _ \<Rightarrow> JArr vs))"

definition context_thread_id :: "string option \<Rightarrow> exc + typed_id option" where
  "context_thread_id value = (case value of
       None \<Rightarrow> Inr None
     | Some v \<Rightarrow> if v = [] then Inl (invalid_context_id v)
         else (case parse_id ThreadId v of
             Inr i \<Rightarrow> Inr (Some i)
           | Inl (ValueError _) \<Rightarrow> Inl (invalid_context_id v)
           | Inl e \<Rightarrow> Inl e))"

definition a2a_scope :: ApplicationScope where
  "a2a_scope = \<lparr> workspace_id = WorkspaceId ''gateway'', project_id = ProjectId ''default'',
     application_id = ApplicationId ''gateway'', revision_id = RevisionId ''active'', deployment_id = DeploymentId ''local'' \<rparr>"

definition execution_request :: "A2AMessage \<Rightarrow> typed_id \<Rightarrow> typed_id \<Rightarrow> ApplicationScope \<Rightarrow> ExecutionRequest svc" where
  "execution_request m aid rid sc =
     bindM (liftE (context_thread_id (if am_context_id m = [] then None else Some (am_context_id m)))) (\<lambda>thread.
     bindM svc_new_id (\<lambda>attempt.
     bindM (liftE (message_input m)) (\<lambda>v.
     ret ((default_request \<lparr> scope = sc, assistant_id = aid, run_id = rid, attempt_id = AttemptId attempt, thread_id = thread \<rparr>)
       \<lparr> rq_input := v, rq_metadata := [(''a2a.message_id'', JStr (am_message_id m))],
         rq_stream_modes := [''events''], rq_priority := INTERACTIVE \<rparr>))))"

subsection \<open>Updates (status\_mapper.py, event\_mapper.py)\<close>

datatype TaskState = SUBMITTED | WORKING | INPUT_REQUIRED | COMPLETED | CANCELED | FAILED

definition task_state :: "event_type \<Rightarrow> TaskState option" where
  "task_state t = map_of [(''run.queued'', SUBMITTED), (''run.started'', WORKING), (''run.interrupted'', INPUT_REQUIRED),
     (''run.completed'', COMPLETED), (''run.cancelled'', CANCELED), (''run.failed'', FAILED), (''run.timeout'', FAILED)] (ev_str t)"

text \<open>What goes into the SDK's queue: the task, a status with the number of its event, a message.\<close>

datatype a2a_event =
    TaskEvent string string TaskState
  | StatusEvent TaskState int
  | MessageEvent string string string string

definition text_message :: "RuntimeEvent \<Rightarrow> a2a_event option" where
  "text_message e =
     (if \<not> ev_in (ev_type e) [MESSAGE_DELTA, MESSAGE_COMPLETED] then None
      else Some (MessageEvent (id_value (ev_event_id e))
        (case thread_key (ev_identity e) of Some t \<Rightarrow> t | None \<Rightarrow> [])
        (run_key (ev_identity e)) (py_str (ev_data e))))"

definition enqueue_event :: "RuntimeEvent \<Rightarrow> a2a_event list" where
  "enqueue_event e =
     (case task_state (ev_type e) of Some st \<Rightarrow> [StatusEvent st (ev_sequence e)] | None \<Rightarrow> [])
     @ (case text_message e of Some m \<Rightarrow> [m] | None \<Rightarrow> [])"

subsection \<open>The executor (server.py)\<close>

text \<open>The runtime's outbox is given to \<open>start_run\<close> when the runtime has one, as the local one does.  The
  result is the task that is announced, and the subscription whose events become the updates or the
  exception it ends with; \<open>None\<close> says that there was nothing to do.\<close>

definition attempt_of :: "'a svc \<Rightarrow> (exc + 'a) svc" where
  "attempt_of m = (\<lambda>s. case m s of (r, s') \<Rightarrow> (Inr r, s'))"

definition a2a_execute ::
  "bool \<Rightarrow> typed_id \<Rightarrow> A2AMessage option \<Rightarrow> string option \<Rightarrow> string option \<Rightarrow> (a2a_event \<times> (exc + Subscription)) option svc" where
  "a2a_execute has_outbox aid message task context = (case (message, task) of
       (Some m, Some t) \<Rightarrow>
         bindM (liftE (parse_id RunId t)) (\<lambda>rid.
         bindM (execution_request m aid rid a2a_scope) (\<lambda>rq.
         bindM (start_run has_outbox rq) (\<lambda>run.
         bindM (attempt_of (stream_live_events (rn_key run) (-1))) (\<lambda>sub.
         ret (Some (TaskEvent (rn_key run)
           (case thread_key (rq_identity rq) of Some k \<Rightarrow> k | None \<Rightarrow> (case context of Some c \<Rightarrow> c | None \<Rightarrow> [])) SUBMITTED, sub))))))
     | _ \<Rightarrow> ret None)"

definition a2a_updates :: "RuntimeEvent list \<Rightarrow> a2a_event list" where
  "a2a_updates es = concat (map enqueue_event es)"

definition a2a_cancel :: "string option \<Rightarrow> unit svc" where
  "a2a_cancel task = (case task of None \<Rightarrow> ret () | Some t \<Rightarrow> thenM (cancel_run t) (ret ()))"

definition generate_task_id :: "string svc" where
  "generate_task_id = svc_new_id"

subsection \<open>The task follows the run\<close>

definition statuses :: "a2a_event list \<Rightarrow> TaskState list" where
  "statuses us = List.map_filter (\<lambda>u. case u of StatusEvent st _ \<Rightarrow> Some st | _ \<Rightarrow> None) us"

lemma statuses_updates: "statuses (a2a_updates es) = List.map_filter task_state (map ev_type es)"
proof -
  have "statuses (enqueue_event e @ us) = (case task_state (ev_type e) of Some st \<Rightarrow> [st] | None \<Rightarrow> []) @ statuses us" for e us
    by (auto simp: enqueue_event_def text_message_def statuses_def map_filter_simps split: option.splits)
  then show ?thesis
    by (induction es) (simp_all add: a2a_updates_def statuses_def map_filter_simps split: option.splits)
qed

text \<open>The final state of a task, by the status of its run.\<close>

definition settled_task :: "run_status \<Rightarrow> TaskState" where
  "settled_task st = (case st of SUCCESS \<Rightarrow> COMPLETED | INTERRUPTED \<Rightarrow> INPUT_REQUIRED | CANCELLED \<Rightarrow> CANCELED | _ \<Rightarrow> FAILED)"

lemma stream_state: "task_state (Ev (stream_event_type m p)) = None"
  by (simp add: stream_event_type_def Let_def task_state_def)

lemma chunk_state: "map_chunk rq m c = Inr d \<Longrightarrow> task_state (dr_type d) = None"
  by (auto simp: map_chunk_def bindE_Inr stream_state)

lemma announced_states:
  assumes "\<And>d. d \<in> set ds \<Longrightarrow> \<exists>m c. map_chunk rq m c = Inr d"
  shows "List.map_filter task_state (map dr_type (concat (map (announce rq) ds))) = []"
  using assms
proof (induction ds)
  case (Cons d ds)
  then have "task_state (dr_type d) = None" using chunk_state by force
  moreover have "task_state (Ev INTERRUPT_CREATED) = None" by (simp add: task_state_def)
  ultimately show ?case using Cons by (simp add: announce_def map_filter_simps)
qed (simp add: map_filter_simps)

lemma closing_state: "task_state (dr_type (closing rq ds e)) = Some (settled_task (ended_status ds e))"
  by (auto simp: closing_def make_draft_def task_state_def settled_task_def ended_status_def split: option.splits)

lemma map_filter_append: "List.map_filter f (xs @ ys) = List.map_filter f xs @ List.map_filter f ys"
  by (simp add: List.map_filter_def)

lemma graph_task_states:
  assumes "graph_events a rq config modes g = ((ds, e), g')"
    and "map ev_type es = map dr_type (lg_prefix rq ds @ [closing rq ds e])"
  shows "statuses (a2a_updates es) = [WORKING, settled_task (ended_status ds e)]"
proof -
  have "\<exists>m c. map_chunk rq m c = Inr d" if "d \<in> set ds" for d
    using graph_events_drafts [of d a rq config modes g] assms(1) that by simp
  then have "List.map_filter task_state (map dr_type (concat (map (announce rq) ds))) = []"
    by (rule announced_states)
  moreover have "task_state (Ev RUN_STARTED) = Some WORKING" by (simp add: task_state_def)
  ultimately show ?thesis
    using assms(2) by (simp add: statuses_updates lg_prefix_def make_draft_def map_filter_simps map_filter_append closing_state)
qed

subsection \<open>The command of a task\<close>

lemma commands_frame:
  "preserves (\<lambda>s. sv_commands s = q) svc_now" "preserves (\<lambda>s. sv_commands s = q) svc_new_id"
  "preserves (\<lambda>s. sv_commands s = q) (on_threads m1)" "preserves (\<lambda>s. sv_commands s = q) (on_runs m2)"
  "preserves (\<lambda>s. sv_commands s = q) (on_journal m3)" "preserves (\<lambda>s. sv_commands s = q) (on_outbox m4)"
  by (auto simp: preserves_iff svc_now_def svc_new_id_def zoomM_def split: prod.splits)

lemma commands_frame_parts:
  "preserves (\<lambda>s. sv_commands s = q) (svc_append_if d)" "preserves (\<lambda>s. sv_commands s = q) (svc_update_run f)"
  "preserves (\<lambda>s. sv_commands s = q) (svc_update_thread k h)"
  by (auto simp: svc_append_if_def svc_append_def svc_update_run_def svc_update_thread_def intro!: hoare_intros commands_frame)

lemma start_run_outbox: "preserves (\<lambda>s. sv_commands s = q) (start_run True rq)"
  by (auto simp: start_run_def take_thread_def hand_over_def start_failed_def
      intro!: hoare_intros commands_frame commands_frame_parts split: option.splits)

lemma start_run_stored:
  assumes "start_run b rq s = (Inr r, s')"
  shows "map_of (sv_runs s') (rn_key r) = Some r \<and> rn_status r = PENDING \<and> rn_identity r = rq_identity rq"
proof -
  from assms obtain n u s1 s2 where
    create: "on_runs (runs_create (new_run rq n)) s1 = (Inr r, s2)" and
    hand: "catchM (hand_over b rq n) (\<lambda>e. if is_exception e then thenM (start_failed rq r) (raise e) else raise e) s2 = (Inr u, s')"
    by (auto simp: start_run_def thenM_def bindM_def ret_def split: prod.splits sum.splits)
  have r: "r = new_run rq n" "sv_runs s2 = AList.update (rn_key r) r (sv_runs s1)"
    using create by (auto simp: runs_create_def zoomM_def split: if_splits option.splits prod.splits)
  have "\<exists>u'. hand_over b rq n s2 = (Inr u', s')"
    using hand by (auto simp: catchM_def thenM_def bindM_def raise_def split: prod.splits sum.splits if_splits)
  then obtain u' where "hand_over b rq n s2 = (Inr u', s')" by blast
  then have "sv_runs s' = sv_runs s2"
    using preserves_state [OF runs_frame_append(5) [where P = "\<lambda>d. d = sv_runs s2"], of s2] by (simp add: runs_only_def) (metis snd_conv)
  with r show ?thesis by (simp add: new_run_def)
qed

lemma a2a_execute_run:
  assumes "a2a_execute b aid (Some m) (Some t) c s = (Inr x, s')"
  obtains rq r s0 s1 where "start_run b rq s0 = (Inr r, s1)" and "rn_key r = t" and "sv_runs s' = sv_runs s1"
    and "sv_commands s' = sv_commands s1" and "sv_commands s0 = sv_commands s"
proof -
  from assms obtain rid rq r s0 s1 y where
    rid: "parse_id RunId t = Inr rid" and req: "execution_request m aid rid a2a_scope s = (Inr rq, s0)" and
    start: "start_run b rq s0 = (Inr r, s1)" and live: "attempt_of (stream_live_events (rn_key r) (-1)) s1 = (Inr y, s')"
    by (auto simp: a2a_execute_def bindM_def liftE_def ret_def split: prod.splits sum.splits)
  have "run_key (rq_identity rq) = id_value rid" "sv_commands s0 = sv_commands s"
    using req by (auto simp: execution_request_def svc_new_id_def default_request_def bindM_def liftE_def ret_def split: sum.splits)
  moreover have "id_value rid = t" using rid by (auto simp: parse_id_def split: if_splits)
  moreover have "sv_runs s' = sv_runs s1" "sv_commands s' = sv_commands s1"
    using live by (auto simp: attempt_of_def stream_live_events_def prog_defs liftE_def zoomM_def split: prod.splits sum.splits if_splits)
  ultimately show thesis using that [OF start] start_run_stored [OF start] by simp
qed

text \<open>With an outbox, as the local runtime has one, the command of the task never gets into the queue.\<close>

lemma a2a_not_queued:
  assumes "a2a_execute True aid (Some m) (Some t) c s = (Inr x, s')"
  shows "sv_commands s' = sv_commands s \<and> (\<exists>r. map_of (sv_runs s') t = Some r \<and> rn_status r = PENDING)"
proof -
  obtain rq r s0 s1 where start: "start_run True rq s0 = (Inr r, s1)" and "rn_key r = t" "sv_runs s' = sv_runs s1"
    and cmd: "sv_commands s' = sv_commands s1" "sv_commands s0 = sv_commands s"
    by (rule a2a_execute_run [OF assms]) (rule that)
  moreover have "sv_commands s1 = sv_commands s0"
    using preserves_state [OF start_run_outbox, of s0 "sv_commands s0" rq] start by simp
  ultimately show ?thesis using start_run_stored [OF start] by auto
qed

lemma consume_waits:
  assumes "\<not> pq_closed (sv_commands s)" and "pq_queue (sv_commands s) = []"
  shows "fst (consume_once s) = Inr None \<and> sv_runs (snd (consume_once s)) = sv_runs s"
  using assms by (simp add: consume_once_def svc_receive_def svc_new_id_def svc_now_def queue_receive_def py_min_None prog_defs
      zoomM_def)

end
