(* ===== verification/Http_Proxy.thy ===== *)
theory Http_Proxy
  imports Domain
begin

section \<open>Proxy of application routes\<close>

text \<open>
  Models \<^verbatim>\<open>transport/http/forwarded_headers.py\<close>, \<^verbatim>\<open>transport/http/proxy.py\<close>, \<^verbatim>\<open>transport/http/request_context.py\<close>
  and \<^verbatim>\<open>services/gateway/custom_http_routes.py\<close>.  The HTTP client is a parameter: the outcome of a call.
\<close>

record HttpRequestContext =
  rx_request_id :: string
  rx_application_id :: string
  rx_revision_id :: "string option"
  rx_deployment_id :: "string option"
  rx_traceparent :: "string option"
  rx_tracestate :: "string option"

type_synonym headers = "(string, string) pydict"

definition forwarded_names :: "string list" where
  "forwarded_names = [''x-forwarded-host'', ''x-forwarded-proto'', ''x-forwarded-prefix'', ''x-forwarded-for'', ''forwarded'',
     ''traceparent'', ''tracestate'', ''x-request-id'']"

definition trusted_forwarded_headers :: "headers \<Rightarrow> bool \<Rightarrow> headers" where
  "trusted_forwarded_headers hs trusted =
     (if \<not> trusted then [] else filter (\<lambda>(k, _). py_lower k \<in> set forwarded_names) hs)"

record ProxyLimits =
  pl_max_request_bytes :: int
  pl_max_response_bytes :: int
  pl_timeout_seconds :: rat

definition proxy_limits :: ProxyLimits where
  "proxy_limits = \<lparr> pl_max_request_bytes = 10 * 1024 * 1024, pl_max_response_bytes = 50 * 1024 * 1024, pl_timeout_seconds = 30 \<rparr>"

abbreviation slash :: char where
  "slash \<equiv> CHR ''/''"

abbreviation lstrip_slash :: "string \<Rightarrow> string" where
  "lstrip_slash s \<equiv> dropWhile (\<lambda>c. c = slash) s"

abbreviation rstrip_slash :: "string \<Rightarrow> string" where
  "rstrip_slash s \<equiv> rev (dropWhile (\<lambda>c. c = slash) (rev s))"

definition safe_proxy_path :: "string \<Rightarrow> exc + string" where
  "safe_proxy_path path =
     (if ''..'' \<in> set (split_on slash path)
      then Inl (runtime_failure CUSTOM_HTTP_UNAVAILABLE ''path traversal is not allowed'')
      else Inr (slash # lstrip_slash path))"

record HttpCall =
  hc_method :: string
  hc_url :: string
  hc_headers :: headers
  hc_content :: string
  hc_timeout :: rat

record HttpResponse =
  hr_status :: int
  hr_headers :: headers
  hr_content :: string

datatype client_outcome = Responded HttpResponse | TimedOut | ClientFailed | OtherError exc

definition proxy_call :: "ProxyLimits \<Rightarrow> bool \<Rightarrow> string \<Rightarrow> string \<Rightarrow> string \<Rightarrow> headers \<Rightarrow> string \<Rightarrow> string \<Rightarrow> exc + HttpCall" where
  "proxy_call limits trusted target path verb hs body query =
     (if int (length body) > pl_max_request_bytes limits
      then Inl (runtime_failure CUSTOM_HTTP_RESPONSE_TOO_LARGE ''request body exceeded limit'')
      else bindE (safe_proxy_path path) (\<lambda>p.
        Inr \<lparr> hc_method = verb, hc_url = rstrip_slash target @ p @ (if query \<noteq> [] then ''?'' @ query else []),
              hc_headers = trusted_forwarded_headers hs trusted, hc_content = body, hc_timeout = pl_timeout_seconds limits \<rparr>))"

definition proxy_answer :: "ProxyLimits \<Rightarrow> client_outcome \<Rightarrow> exc + HttpResponse" where
  "proxy_answer limits r = (case r of
       TimedOut \<Rightarrow> Inl (RuntimeFailureError CUSTOM_HTTP_TIMEOUT ''custom HTTP request timed out'' True [])
     | ClientFailed \<Rightarrow> Inl (RuntimeFailureError CUSTOM_HTTP_UNAVAILABLE ''custom HTTP target is unavailable'' True [])
     | OtherError e \<Rightarrow> Inl e
     | Responded resp \<Rightarrow>
         if int (length (hr_content resp)) > pl_max_response_bytes limits
         then Inl (runtime_failure CUSTOM_HTTP_RESPONSE_TOO_LARGE ''response body exceeded limit'') else Inr resp)"

definition proxy_request ::
  "(HttpCall \<Rightarrow> client_outcome) \<Rightarrow> ProxyLimits \<Rightarrow> bool \<Rightarrow> string \<Rightarrow> string \<Rightarrow> string \<Rightarrow> headers \<Rightarrow> string \<Rightarrow> string \<Rightarrow>
   exc + HttpResponse" where
  "proxy_request client limits trusted target path verb hs body query =
     bindE (proxy_call limits trusted target path verb hs body query) (\<lambda>call. proxy_answer limits (client call))"

definition excluded_headers :: "string list" where
  "excluded_headers = [''content-length'', ''transfer-encoding'', ''connection'']"

definition custom_http ::
  "(HttpCall \<Rightarrow> client_outcome) \<Rightarrow> ProxyLimits \<Rightarrow> string \<Rightarrow> string \<Rightarrow> string \<Rightarrow> headers \<Rightarrow> string \<Rightarrow> string \<Rightarrow> exc + HttpResponse" where
  "custom_http client limits target path verb hs body query =
     bindE (proxy_request client limits True target path verb hs body query) (\<lambda>r.
     Inr (r \<lparr> hr_headers := filter (\<lambda>(k, _). py_lower k \<notin> set excluded_headers) (hr_headers r) \<rparr>))"

subsection \<open>A request stays below its target\<close>

lemma split_on_dropWhile: "set (split_on c (dropWhile (\<lambda>x. x = c) s)) \<subseteq> set (split_on c s)"
  by (induction s) auto

lemma safe_proxy_path_Inr:
  assumes "safe_proxy_path path = Inr p"
  shows "\<exists>r. p = slash # r \<and> (r = [] \<or> hd r \<noteq> slash) \<and> ''..'' \<notin> set (split_on slash p)"
proof -
  have p: "p = slash # lstrip_slash path" "''..'' \<notin> set (split_on slash path)"
    using assms by (auto simp: safe_proxy_path_def split: if_splits)
  moreover have "lstrip_slash path = [] \<or> hd (lstrip_slash path) \<noteq> slash"
    using hd_dropWhile [of "\<lambda>c. c = slash" path] by blast
  ultimately show ?thesis using split_on_dropWhile [of slash path] by auto
qed

lemma trusted_forwarded_headers_kept:
  "(k, v) \<in> set (trusted_forwarded_headers hs trusted) \<longleftrightarrow>
   trusted \<and> (k, v) \<in> set hs \<and> py_lower k \<in> set forwarded_names"
  by (auto simp: trusted_forwarded_headers_def)

lemma proxy_call_url:
  assumes "proxy_call limits trusted target path verb hs body query = Inr c"
  shows "\<exists>r. hc_url c = rstrip_slash target @ slash # r @ (if query \<noteq> [] then ''?'' @ query else [])
      \<and> (r = [] \<or> hd r \<noteq> slash) \<and> ''..'' \<notin> set (split_on slash r)"
proof -
  obtain p where p: "safe_proxy_path path = Inr p"
    and url: "hc_url c = rstrip_slash target @ p @ (if query \<noteq> [] then ''?'' @ query else [])"
    using assms by (auto simp: proxy_call_def bindE_Inr split: if_splits)
  obtain r where "p = slash # r" "r = [] \<or> hd r \<noteq> slash" "''..'' \<notin> set (split_on slash p)"
    using safe_proxy_path_Inr [OF p] by blast
  with url show ?thesis by (intro exI [of _ r]) simp
qed

lemma proxy_call_parts:
  assumes "proxy_call limits trusted target path verb hs body query = Inr c"
  shows "hc_headers c = trusted_forwarded_headers hs trusted" and "hc_method c = verb" and "hc_content c = body"
    and "int (length body) \<le> pl_max_request_bytes limits"
  using assms by (auto simp: proxy_call_def bindE_Inr split: if_splits)

text \<open>A request that is refused is never sent, and an answer that is returned is the one of the
  target, within the limit and without the headers of the connection.\<close>

lemma custom_http_Inr:
  assumes "custom_http client limits target path verb hs body query = Inr r"
  obtains c a where "proxy_call limits True target path verb hs body query = Inr c" and "client c = Responded a"
    and "int (length (hr_content a)) \<le> pl_max_response_bytes limits"
    and "hr_status r = hr_status a" and "hr_content r = hr_content a"
    and "set (hr_headers r) \<subseteq> set (hr_headers a)"
    and "\<And>k v. (k, v) \<in> set (hr_headers r) \<Longrightarrow> py_lower k \<notin> set excluded_headers"
proof -
  obtain c a where c: "proxy_call limits True target path verb hs body query = Inr c" and ans: "proxy_answer limits (client c) = Inr a"
    and r: "r = a \<lparr> hr_headers := filter (\<lambda>(k, _). py_lower k \<notin> set excluded_headers) (hr_headers a) \<rparr>"
    using assms by (auto simp: custom_http_def proxy_request_def bindE_Inr)
  have "client c = Responded a" "int (length (hr_content a)) \<le> pl_max_response_bytes limits"
    using ans by (auto simp: proxy_answer_def split: client_outcome.splits if_splits)
  with c r show thesis by (intro that) auto
qed

end
