(* ===== verification/Asgi_Application.thy ===== *)
theory Asgi_Application
  imports Http_Proxy LangGraph_Loading Postgres_Schema Json_Text
begin

section \<open>Application servers\<close>

text \<open>
  Models \<^verbatim>\<open>adapters/fastapi/\<close>: the description of an ASGI application, its discovery in a source tree
  and in a separate process, loading it, and the two middlewares around it.  The files of the tree with
  what the parser makes of them, the outcome of the process and of importing a module are inputs.
\<close>

subsection \<open>Descriptors (descriptor.py)\<close>

record RouteDescriptor =
  rd_path :: string
  rd_methods :: "string list"
  rd_name :: "string option"

record AsgiApplicationDescriptor =
  ad_entrypoint :: string
  ad_framework :: string
  ad_object_kind :: string
  ad_routes :: "RouteDescriptor list"
  ad_has_lifespan :: bool
  ad_docs_paths :: "string list"
  ad_detection_method :: string
  ad_warnings :: "string list"

definition strings_json :: "string list \<Rightarrow> json" where
  "strings_json xs = JArr (map JStr xs)"

definition route_json :: "RouteDescriptor \<Rightarrow> json" where
  "route_json r = JObj [(''path'', JStr (rd_path r)), (''methods'', strings_json (rd_methods r)), (''name'', opt_str (rd_name r))]"

definition asgi_to_json :: "AsgiApplicationDescriptor \<Rightarrow> obj" where
  "asgi_to_json d = [(''entrypoint'', JStr (ad_entrypoint d)), (''framework'', JStr (ad_framework d)),
     (''object_kind'', JStr (ad_object_kind d)), (''routes'', JArr (map route_json (ad_routes d))),
     (''has_lifespan'', JBool (ad_has_lifespan d)), (''docs_paths'', strings_json (ad_docs_paths d)),
     (''detection_method'', JStr (ad_detection_method d)), (''warnings'', strings_json (ad_warnings d))]"

text \<open>What is read of a route: its path, when it is a string, its methods and its name.\<close>

record AppRoute =
  ar_path :: "string option"
  ar_methods :: "string list option"
  ar_name :: "string option"

definition route_of :: "AppRoute \<Rightarrow> RouteDescriptor option" where
  "route_of r = map_option (\<lambda>p. \<lparr> rd_path = p, rd_methods = sort (case ar_methods r of Some ms \<Rightarrow> ms | None \<Rightarrow> []),
     rd_name = ar_name r \<rparr>) (ar_path r)"

definition describe_application :: "AppRoute list \<Rightarrow> string \<Rightarrow> bool \<Rightarrow> string \<Rightarrow> string \<Rightarrow> AsgiApplicationDescriptor" where
  "describe_application routes class_module has_router entrypoint detection =
     (let rs = List.map_filter route_of routes in
      \<lparr> ad_entrypoint = entrypoint, ad_framework = hd (split_on CHR ''.'' class_module), ad_object_kind = ''application'',
        ad_routes = rs, ad_has_lifespan = has_router,
        ad_docs_paths = filter (\<lambda>p. list_ex (\<lambda>r. rd_path r = p) rs) [''/docs'', ''/redoc'', ''/openapi.json''],
        ad_detection_method = detection, ad_warnings = [] \<rparr>)"

subsection \<open>Discovery in the sources (ast\_scanner.py)\<close>

definition ignored_parts :: "string list" where
  "ignored_parts = [''.git'', ''.venv'', ''venv'', ''node_modules'', ''__pycache__'', ''dist'', ''build'']"

text \<open>An assignment with the names among its targets, and the name of the function when its value is a
  call of a plain name; every other node of the tree.\<close>

datatype ast_node = Assign "string option list" "string option" | OtherNode

datatype source_text = Parsed "ast_node list" | SyntaxErrorAt "int option" | Unreadable exc

text \<open>A file below the root: the parts of its relative path, whether it resolves to a place below the
  root, its size and what the parser makes of it.\<close>

record SourceFile =
  sf_parts :: "string list"
  sf_inside :: bool
  sf_size :: int
  sf_text :: source_text

definition without_suffix :: "string \<Rightarrow> string" where
  "without_suffix name = (if length name > 3 then take (length name - 3) name else name)"

definition stem_parts :: "string list \<Rightarrow> string list" where
  "stem_parts parts = butlast parts @ [without_suffix (last parts)]"

definition dotted_module_name :: "string list \<Rightarrow> string" where
  "dotted_module_name parts = (let ps = stem_parts parts in join ''.'' (if last ps = ''__init__'' then butlast ps else ps))"

fun node_entrypoints :: "string \<Rightarrow> ast_node \<Rightarrow> string list" where
  "node_entrypoints m (Assign targets (Some f)) =
     (if f \<in> {''FastAPI'', ''Starlette''} then map (\<lambda>n. m @ '':'' @ n) (List.map_filter id targets) else [])"
| "node_entrypoints m _ = []"

definition path_str :: "string list \<Rightarrow> string" where
  "path_str parts = slash # join [slash] parts"

text \<open>The loop over the files, with the number of files counted so far.\<close>

fun scan_files :: "string list \<Rightarrow> int \<Rightarrow> int \<Rightarrow> int \<Rightarrow> SourceFile list \<Rightarrow> exc + string list" where
  "scan_files root_parts max_files max_bytes n [] = Inr []"
| "scan_files root_parts max_files max_bytes n (f # fs) =
     (if list_ex (\<lambda>p. p \<in> set ignored_parts) (root_parts @ sf_parts f) then scan_files root_parts max_files max_bytes n fs
      else if \<not> sf_inside f then scan_files root_parts max_files max_bytes n fs
      else if n + 1 > max_files then Inr []
      else if sf_size f > max_bytes then scan_files root_parts max_files max_bytes (n + 1) fs
      else (case sf_text f of
          Unreadable e \<Rightarrow> Inl e
        | SyntaxErrorAt line \<Rightarrow> Inl (RuntimeFailureError ASGI_SYNTAX_ERROR
            ''application source contains invalid Python syntax'' False
            [(''path'', JStr (path_str (root_parts @ sf_parts f))), (''line'', case line of Some l \<Rightarrow> JInt l | None \<Rightarrow> JNull)])
        | Parsed nodes \<Rightarrow> bindE (scan_files root_parts max_files max_bytes (n + 1) fs) (\<lambda>more.
            Inr (concat (map (node_entrypoints (dotted_module_name (sf_parts f))) nodes) @ more))))"

text \<open>\<open>tuple(dict.fromkeys(candidates))\<close> keeps the first of equal ones.\<close>

definition first_of_each :: "'a list \<Rightarrow> 'a list" where
  "first_of_each xs = rev (remdups (rev xs))"

definition discover_fastapi_entrypoints :: "string list \<Rightarrow> SourceFile list \<Rightarrow> exc + string list" where
  "discover_fastapi_entrypoints root_parts files =
     bindE (scan_files root_parts 1000 1000000 0 files) (\<lambda>cs. Inr (first_of_each cs))"

subsection \<open>Entry points (detector.py, errors.py, loader.py)\<close>

definition ident_start :: "char \<Rightarrow> bool" where
  "ident_start c \<longleftrightarrow> (let n = (of_char c :: nat) in 65 \<le> n \<and> n \<le> 90 \<or> 97 \<le> n \<and> n \<le> 122 \<or> c = CHR ''_'')"

definition ident_char :: "char \<Rightarrow> bool" where
  "ident_char c \<longleftrightarrow> ident_start c \<or> is_digit c"

text \<open>The pattern of an entry point: no character class contains the colon, so the text is split at its first.\<close>

definition entrypoint_ok :: "string \<Rightarrow> bool" where
  "entrypoint_ok s = (case split_entrypoint s of
       None \<Rightarrow> False
     | Some (m, a) \<Rightarrow> m \<noteq> [] \<and> ident_start (hd m) \<and> list_all (\<lambda>c. ident_char c \<or> c = CHR ''.'') (tl m)
         \<and> a \<noteq> [] \<and> ident_start (hd a) \<and> list_all ident_char (tl a))"

definition invalid_entrypoint :: "string \<Rightarrow> exc" where
  "invalid_entrypoint s = RuntimeFailureError CUSTOM_HTTP_ENTRYPOINT_INVALID
     ''ASGI entrypoint must use module.path:attribute syntax'' False [(''entrypoint'', JStr s)]"

definition validate_entrypoint :: "string \<Rightarrow> exc + unit" where
  "validate_entrypoint s = (if entrypoint_ok s then Inr () else Inl (invalid_entrypoint s))"

definition found_application :: "string \<Rightarrow> string \<Rightarrow> string \<Rightarrow> AsgiApplicationDescriptor" where
  "found_application entrypoint framework detection =
     \<lparr> ad_entrypoint = entrypoint, ad_framework = framework, ad_object_kind = ''application'', ad_routes = [],
       ad_has_lifespan = True, ad_docs_paths = [], ad_detection_method = detection, ad_warnings = [] \<rparr>"

text \<open>The descriptor is given as its dictionary: the one of the separate process carries whatever values
  the process printed.\<close>

definition detect_asgi_application ::
  "string list \<Rightarrow> SourceFile list \<Rightarrow> string option \<Rightarrow> (unit \<Rightarrow> exc + obj) option \<Rightarrow> exc + obj" where
  "detect_asgi_application root_parts files explicit isolated = (case explicit of
       Some (c # s) \<Rightarrow> bindE (validate_entrypoint (c # s)) (\<lambda>_. Inr (asgi_to_json (found_application (c # s) ''asgi'' ''explicit'')))
     | _ \<Rightarrow> bindE (discover_fastapi_entrypoints root_parts files) (\<lambda>cs. case cs of
           [c] \<Rightarrow> Inr (asgi_to_json (found_application c ''fastapi'' ''ast''))
         | _ # _ \<Rightarrow> Inl (RuntimeFailureError CUSTOM_HTTP_DISCOVERY_AMBIGUOUS ''multiple ASGI applications were discovered''
             False [(''candidates'', strings_json cs)])
         | [] \<Rightarrow> (case isolated of
             Some inspect \<Rightarrow> inspect ()
           | None \<Rightarrow> Inl (runtime_failure CUSTOM_HTTP_UNAVAILABLE ''no ASGI application was discovered''))))"

text \<open>Importing the module and reading the attribute: the value with whether it can be called,
  \<open>ImportError\<close> or \<open>AttributeError\<close>, or another exception of the module.\<close>

datatype 'v import_outcome = Imported 'v bool | NotImported | ImportRaised exc

definition load_asgi :: "(string \<Rightarrow> string \<Rightarrow> 'v import_outcome) \<Rightarrow> string \<Rightarrow> exc + 'v" where
  "load_asgi import_attribute s =
     (if \<not> entrypoint_ok s then Inl (invalid_entrypoint s)
      else (case split_entrypoint s of
          None \<Rightarrow> Inl (ValueError ''not enough values to unpack (expected 2, got 1)'')
        | Some (m, a) \<Rightarrow> (case import_attribute m a of
              NotImported \<Rightarrow> Inl (runtime_failure CUSTOM_HTTP_ENTRYPOINT_INVALID ''ASGI entrypoint could not be loaded'')
            | ImportRaised e \<Rightarrow> Inl e
            | Imported v callable \<Rightarrow> if callable then Inr v
                else Inl (runtime_failure CUSTOM_HTTP_ENTRYPOINT_INVALID ''ASGI entrypoint is not callable''))))"

subsection \<open>Discovery in a separate process (isolated\_inspector.py)\<close>

definition isolated_names :: "string list" where
  "isolated_names = [''app'', ''application'', ''api'', ''asgi'', ''create_app'', ''build_app'']"

definition isolated_candidates :: "string list list \<Rightarrow> string list" where
  "isolated_candidates files = concat (map (\<lambda>ps. if last ps = ''__init__'' then []
     else map (\<lambda>n. join ''.'' ps @ '':'' @ n) isolated_names) (sort (map stem_parts files)))"

text \<open>The script of the process: every candidate is tried, an exception means that it is not one.
  \<open>callable_at\<close> says whether the candidate, called first when it is a factory, can be called.\<close>

definition isolated_script :: "(string \<Rightarrow> bool) \<Rightarrow> string list \<Rightarrow> obj option" where
  "isolated_script callable_at candidates = (case filter callable_at candidates of
       [p] \<Rightarrow> Some (asgi_to_json (found_application p ''asgi'' ''isolated_import''))
     | _ \<Rightarrow> None)"

datatype process_outcome = ProcessTimeout | Exited int string

definition descriptor_fields :: "string list" where
  "descriptor_fields = [''entrypoint'', ''framework'', ''object_kind'', ''routes'', ''has_lifespan'', ''docs_paths'',
     ''detection_method'', ''warnings'']"

text \<open>\<open>AsgiApplicationDescriptor(**value)\<close>: a mapping with exactly the fields.\<close>

definition descriptor_of_json :: "json \<Rightarrow> obj option" where
  "descriptor_of_json v = (case v of
       JObj d \<Rightarrow> if set (map fst d) = set descriptor_fields then Some (map (\<lambda>k. (k, get_null d k)) descriptor_fields) else None
     | _ \<Rightarrow> None)"

definition inspect_isolated ::
  "(string \<Rightarrow> rat \<times> string) \<Rightarrow> (string list \<Rightarrow> process_outcome) \<Rightarrow> string list list \<Rightarrow> exc + obj" where
  "inspect_isolated flt run files =
     (let candidates = isolated_candidates files in
      if candidates = [] then Inl (runtime_failure CUSTOM_HTTP_UNAVAILABLE ''no isolated ASGI candidates found'')
      else (case run candidates of
          ProcessTimeout \<Rightarrow> Inl (runtime_failure CUSTOM_HTTP_TIMEOUT ''isolated ASGI inspection timed out'')
        | Exited code out \<Rightarrow>
            if code \<noteq> 0 \<or> py_strip out = []
            then Inl (RuntimeFailureError CUSTOM_HTTP_UNAVAILABLE ''isolated ASGI inspection failed'' False [(''returncode'', JInt code)])
            else if length out > 64000
            then Inl (runtime_failure CUSTOM_HTTP_RESPONSE_TOO_LARGE ''inspection output exceeded limit'')
            else (case Option.bind (json_loads flt out) descriptor_of_json of
                Some d \<Rightarrow> Inr d
              | None \<Rightarrow> Inl (runtime_failure CUSTOM_HTTP_UNAVAILABLE ''isolated inspector returned invalid JSON''))))"

subsection \<open>Middlewares (middleware.py, root\_path.py, app\_server.py)\<close>

record AsgiScope =
  sc_type :: string
  sc_headers :: "(string \<times> string) list"
  sc_root_path :: string

text \<open>The context variable is part of the state an application runs in.\<close>

record 'w asgi_state =
  av_context :: "(string, string) pydict option"
  av_world :: 'w

type_synonym 'w asgi_app = "AsgiScope \<Rightarrow> ('w asgi_state, exc, unit) prog"

definition context_names :: "string list" where
  "context_names = [''x-request-id'', ''traceparent'', ''tracestate'']"

definition request_values :: "(string \<times> string) list \<Rightarrow> (string, string) pydict" where
  "request_values hs =
     (let m = map_of (rev (map (\<lambda>(k, v). (py_lower k, v)) hs)) in
      List.map_filter (\<lambda>k. map_option (Pair k) (m k)) context_names)"

definition request_context_middleware :: "'w asgi_app \<Rightarrow> 'w asgi_app" where
  "request_context_middleware app sc =
     (if sc_type sc \<noteq> ''http'' then app sc
      else bindM (getsM av_context) (\<lambda>token.
        thenM (modifyM (\<lambda>s. s \<lparr> av_context := Some (request_values (sc_headers sc)) \<rparr>))
          (finallyM (app sc) (modifyM (\<lambda>s. s \<lparr> av_context := token \<rparr>)))))"

definition strip_by :: "('a \<Rightarrow> bool) \<Rightarrow> 'a list \<Rightarrow> 'a list" where
  "strip_by P s = rev (dropWhile P (rev (dropWhile P s)))"

definition strip_slash :: "string \<Rightarrow> string" where
  "strip_slash s = strip_by (\<lambda>c. c = slash) s"

definition normal_root_path :: "string \<Rightarrow> string" where
  "normal_root_path p = (if strip_slash p \<noteq> [] then slash # strip_slash p else [])"

definition root_path_middleware :: "string \<Rightarrow> 'w asgi_app \<Rightarrow> 'w asgi_app" where
  "root_path_middleware p app sc =
     (if sc_type sc \<in> {''http'', ''websocket''} then app (sc \<lparr> sc_root_path := normal_root_path p \<rparr>) else app sc)"

definition load_application :: "(string \<Rightarrow> string \<Rightarrow> 'w asgi_app import_outcome) \<Rightarrow> string \<Rightarrow> string \<Rightarrow> exc + 'w asgi_app" where
  "load_application import_attribute entrypoint p =
     bindE (load_asgi import_attribute entrypoint) (\<lambda>raw. Inr (root_path_middleware p (request_context_middleware raw)))"

definition load_application_with_descriptor ::
  "(string \<Rightarrow> string \<Rightarrow> 'w asgi_app import_outcome) \<Rightarrow> ('w asgi_app \<Rightarrow> AppRoute list \<times> string \<times> bool) \<Rightarrow> string \<Rightarrow> string \<Rightarrow>
   exc + ('w asgi_app \<times> AsgiApplicationDescriptor)" where
  "load_application_with_descriptor import_attribute attributes entrypoint p =
     bindE (load_asgi import_attribute entrypoint) (\<lambda>raw. case attributes raw of (routes, cm, has_router) \<Rightarrow>
       Inr (root_path_middleware p (request_context_middleware raw),
         describe_application routes cm has_router entrypoint ''import''))"

subsection \<open>Application migrations (migration\_runner.py)\<close>

text \<open>\<open>upgrade_head\<close> is what the migration library does with the configuration file, on a connection of its
  own: only the lock belongs to the transaction of \<open>advisory_migration_lock\<close>.\<close>

definition application_upgrade ::
  "(string \<Rightarrow> (Database, exc, unit) prog) \<Rightarrow> string \<Rightarrow> string \<Rightarrow> string \<Rightarrow> (Database, exc, unit) prog" where
  "application_upgrade upgrade_head config_path app_id environment =
     catchM (session_lock (migration_lock_key app_id environment ''application'') (upgrade_head config_path)) (\<lambda>e.
       if is_exception e then raise (runtime_failure APPLICATION_MIGRATION_FAILED ''application migration failed'') else raise e)"

subsection \<open>What is discovered\<close>

text \<open>The reference: of the files that are not ignored and lie below the root, the first
  \<open>max_files\<close>, and of these the ones that are not too large.\<close>

definition considered :: "string list \<Rightarrow> SourceFile \<Rightarrow> bool" where
  "considered root_parts f \<longleftrightarrow> set (root_parts @ sf_parts f) \<inter> set ignored_parts = {} \<and> sf_inside f"

definition file_entrypoints :: "string list \<Rightarrow> SourceFile \<Rightarrow> exc + string list" where
  "file_entrypoints root_parts f = (case sf_text f of
       Parsed nodes \<Rightarrow> Inr (concat (map (node_entrypoints (dotted_module_name (sf_parts f))) nodes))
     | SyntaxErrorAt line \<Rightarrow> Inl (RuntimeFailureError ASGI_SYNTAX_ERROR ''application source contains invalid Python syntax'' False
         [(''path'', JStr (path_str (root_parts @ sf_parts f))), (''line'', case line of Some l \<Rightarrow> JInt l | None \<Rightarrow> JNull)])
     | Unreadable e \<Rightarrow> Inl e)"

definition scanned :: "string list \<Rightarrow> nat \<Rightarrow> int \<Rightarrow> SourceFile list \<Rightarrow> SourceFile list" where
  "scanned root_parts limit max_bytes files =
     filter (\<lambda>f. sf_size f \<le> max_bytes) (take limit (filter (considered root_parts) files))"

lemma collect_Cons: "collect (r # rs) = bindE r (\<lambda>x. bindE (collect rs) (\<lambda>xs. Inr (x # xs)))"
  by (cases r) (auto simp: bindE_def split: sum.splits)

lemma considered_iff: "considered root_parts f \<longleftrightarrow> \<not> list_ex (\<lambda>p. p \<in> set ignored_parts) (root_parts @ sf_parts f) \<and> sf_inside f"
  by (auto simp: considered_def list_ex_iff)

lemma scan_files_skip:
  "\<not> considered root_parts f \<Longrightarrow> scan_files root_parts mf mb n (f # fs) = scan_files root_parts mf mb n fs"
  by (auto simp: considered_iff)

lemma scan_files_take:
  assumes "considered root_parts f"
  shows "scan_files root_parts mf mb n (f # fs) =
    (if n + 1 > mf then Inr [] else if sf_size f > mb then scan_files root_parts mf mb (n + 1) fs
     else bindE (file_entrypoints root_parts f) (\<lambda>cs. bindE (scan_files root_parts mf mb (n + 1) fs) (\<lambda>more. Inr (cs @ more))))"
  using assms by (simp add: considered_iff file_entrypoints_def bindE_def split: source_text.splits)

lemma scan_files_reference:
  "scan_files root_parts mf mb n files =
   bindE (collect (map (file_entrypoints root_parts) (scanned root_parts (nat (mf - n)) mb files))) (\<lambda>cs. Inr (concat cs))"
proof (induction files arbitrary: n)
  case Nil
  then show ?case by (simp add: scanned_def bindE_def)
next
  case (Cons f fs)
  show ?case
  proof (cases "considered root_parts f")
    case False
    then show ?thesis unfolding scan_files_skip [OF False] Cons by (simp add: scanned_def)
  next
    case True
    show ?thesis
    proof (cases "n + 1 > mf")
      case False
      then have "nat (mf - n) = Suc (nat (mf - (n + 1)))" by simp
      with True False show ?thesis
        unfolding scan_files_take [OF True] Cons by (simp add: scanned_def collect_Cons bindE_def split: sum.splits)
    qed (unfold scan_files_take [OF True], simp add: scanned_def bindE_def)
  qed
qed

lemma first_of_each_set [simp]: "set (first_of_each xs) = set xs" "distinct (first_of_each xs)"
  by (simp_all add: first_of_each_def)

lemma first_of_each_single: "first_of_each xs = [c] \<longleftrightarrow> set xs = {c}"
proof
  assume "set xs = {c}"
  then have "set (first_of_each xs) = {c}" "distinct (first_of_each xs)" by simp_all
  then show "first_of_each xs = [c]" by (cases "first_of_each xs") (auto simp: subset_singleton_iff)
qed (metis first_of_each_set(1) list.set(1) list.set(2))

text \<open>An application is reported from the sources exactly when all readable, scanned files name one and
  the same entry point.\<close>

lemma detect_from_sources:
  "detect_asgi_application root_parts files None None = Inr d \<longleftrightarrow>
   (\<exists>cs c. map (file_entrypoints root_parts) (scanned root_parts 1000 1000000 files) = map Inr cs \<and> set (concat cs) = {c}
      \<and> d = asgi_to_json (found_application c ''fastapi'' ''ast''))"
  (is "?l = ?r")
proof -
  let ?found = "collect (map (file_entrypoints root_parts) (scanned root_parts 1000 1000000 files))"
  have "?l \<longleftrightarrow> (\<exists>cs. ?found = Inr cs \<and> (\<exists>c. first_of_each (concat cs) = [c]
      \<and> d = asgi_to_json (found_application c ''fastapi'' ''ast'')))"
  proof (cases ?found)
    case (Inr cs)
    show ?thesis
      unfolding detect_asgi_application_def discover_fastapi_entrypoints_def scan_files_reference
      by (cases "first_of_each (concat cs)"; cases "tl (first_of_each (concat cs))") (auto simp: bindE_def Inr split: list.splits)
  qed (simp add: detect_asgi_application_def discover_fastapi_entrypoints_def scan_files_reference bindE_def)
  then show ?thesis unfolding collect_Inr first_of_each_single by blast
qed

text \<open>The parts of the root itself are compared with the ignored names too.\<close>

lemma ignored_root_hides_everything:
  assumes "set root_parts \<inter> set ignored_parts \<noteq> {}"
  shows "discover_fastapi_entrypoints root_parts files = Inr []"
proof -
  have "filter (considered root_parts) files = []" using assms by (auto simp: filter_empty_conv considered_def)
  then have "scanned root_parts 1000 1000000 files = []" by (simp add: scanned_def)
  then show ?thesis by (simp add: discover_fastapi_entrypoints_def scan_files_reference bindE_def first_of_each_def)
qed

subsection \<open>Entry points name a module and an attribute\<close>

lemma ident_char_no_colon: "ident_char c \<Longrightarrow> c \<noteq> CHR '':''"
  by (auto simp: ident_char_def ident_start_def is_digit_def)

lemma split_first:
  assumes "x \<in> set s"
  shows "s = takeWhile (\<lambda>c. c \<noteq> x) s @ x # tl (dropWhile (\<lambda>c. c \<noteq> x) s)"
  using assms by (induction s) auto

lemma split_entrypoint_Some:
  "split_entrypoint s = Some (m, a) \<longleftrightarrow> s = m @ CHR '':'' # a \<and> CHR '':'' \<notin> set m"
proof -
  have fwd: "s = m @ x # a \<and> x \<notin> set m"
    if "x \<in> set s" "m = takeWhile (\<lambda>c. c \<noteq> x) s" "a = tl (dropWhile (\<lambda>c. c \<noteq> x) s)" for x :: char
    using split_first [OF that(1)] that(2,3) set_takeWhileD [of x "\<lambda>c. c \<noteq> x" s] by blast
  have bwd: "takeWhile (\<lambda>c. c \<noteq> x) (m @ x # a) = m \<and> tl (dropWhile (\<lambda>c. c \<noteq> x) (m @ x # a)) = a" if "x \<notin> set m" for x :: char
    using that by (induction m) auto
  show ?thesis
  proof
    assume "split_entrypoint s = Some (m, a)"
    then show "s = m @ CHR '':'' # a \<and> CHR '':'' \<notin> set m"
      by (intro fwd) (simp_all add: split_entrypoint_def split: if_splits)
  next
    assume "s = m @ CHR '':'' # a \<and> CHR '':'' \<notin> set m"
    then show "split_entrypoint s = Some (m, a)" using bwd [of "CHR '':''"] by (simp add: split_entrypoint_def)
  qed
qed

lemma entrypoint_ok_split:
  assumes "entrypoint_ok s"
  obtains m a where "s = m @ CHR '':'' # a" and "split_entrypoint s = Some (m, a)" and "m \<noteq> []" and "a \<noteq> []"
    and "CHR '':'' \<notin> set a" and "CHR '':'' \<notin> set m" and "CHR ''/'' \<notin> set s"
proof -
  obtain m a where sp: "split_entrypoint s = Some (m, a)"
    and m: "m \<noteq> []" "ident_start (hd m)" "list_all (\<lambda>c. ident_char c \<or> c = CHR ''.'') (tl m)"
    and a: "a \<noteq> []" "ident_start (hd a)" "list_all ident_char (tl a)"
    using assms by (auto simp: entrypoint_ok_def split: option.splits)
  have "c \<in> set m \<Longrightarrow> ident_char c \<or> c = CHR ''.''" for c using m by (cases m) (auto simp: ident_char_def list_all_iff)
  moreover have "c \<in> set a \<Longrightarrow> ident_char c" for c using a by (cases a) (auto simp: ident_char_def list_all_iff)
  moreover have "ident_char c \<Longrightarrow> c \<noteq> CHR ''/''" for c by (auto simp: ident_char_def ident_start_def is_digit_def)
  moreover have "s = m @ CHR '':'' # a" "CHR '':'' \<notin> set m" using sp by (simp_all add: split_entrypoint_Some)
  ultimately show thesis using that [of m a] sp m(1) a(1) ident_char_no_colon by fastforce
qed

lemma load_asgi_Inr:
  "load_asgi import_attribute s = Inr v \<longleftrightarrow>
   entrypoint_ok s \<and> (\<exists>m a. s = m @ CHR '':'' # a \<and> CHR '':'' \<notin> set m \<and> import_attribute m a = Imported v True)"
proof (cases "split_entrypoint s")
  case None
  then have "\<not> (\<exists>m a. s = m @ CHR '':'' # a \<and> CHR '':'' \<notin> set m)" using split_entrypoint_Some [of s] by auto
  with None show ?thesis by (auto simp: load_asgi_def)
next
  case (Some p)
  obtain m a where p: "p = (m, a)" by (cases p)
  have "s = m' @ CHR '':'' # a' \<and> CHR '':'' \<notin> set m' \<longleftrightarrow> m' = m \<and> a' = a" for m' a'
    using split_entrypoint_Some [of s m' a'] Some p by auto
  then have "(\<exists>m a. s = m @ CHR '':'' # a \<and> CHR '':'' \<notin> set m \<and> import_attribute m a = Imported v True)
      \<longleftrightarrow> import_attribute m a = Imported v True" by metis
  then show ?thesis by (simp only:) (auto simp: load_asgi_def Some p split: import_outcome.splits)
qed

subsection \<open>The middlewares\<close>

lemma dropWhile_hd: "dropWhile P s = [] \<or> \<not> P (hd (dropWhile P s))"
  using hd_dropWhile by blast

lemma strip_by_ends:
  assumes "strip_by P s \<noteq> []"
  shows "\<not> P (hd (strip_by P s))" and "\<not> P (last (strip_by P s))"
proof -
  let ?l = "dropWhile P s"
  have l: "?l = strip_by P s @ rev (takeWhile P (rev ?l))"
    unfolding strip_by_def rev_append [symmetric] takeWhile_dropWhile_id by simp
  have "hd ?l = hd (strip_by P s)" by (subst l) (simp add: assms)
  moreover have "?l \<noteq> []" using l assms by (metis append_is_Nil_conv)
  ultimately show "\<not> P (hd (strip_by P s))" using dropWhile_hd [of P s] by metis
  show "\<not> P (last (strip_by P s))"
    using assms dropWhile_hd [of P "rev ?l"] by (simp add: strip_by_def last_rev del: dropWhile_eq_Nil_conv)
qed

lemma strip_by_id:
  assumes "s \<noteq> []" "\<not> P (hd s)" "\<not> P (last s)"
  shows "strip_by P s = s"
proof -
  have "dropWhile P s = s" using assms(2) by (simp add: dropWhile_eq_self_iff)
  moreover have "dropWhile P (rev s) = rev s" using assms(1,3) by (simp add: dropWhile_eq_self_iff hd_rev)
  ultimately show ?thesis by (simp add: strip_by_def)
qed

lemma strip_by_Cons: "P c \<Longrightarrow> strip_by P (c # s) = strip_by P s"
  by (simp add: strip_by_def)

lemma strip_slash_ends: "strip_slash p \<noteq> [] \<Longrightarrow> hd (strip_slash p) \<noteq> slash \<and> last (strip_slash p) \<noteq> slash"
  unfolding strip_slash_def using strip_by_ends [of "\<lambda>c. c = slash" p] by blast

lemma strip_slash_rooted:
  assumes "strip_slash p \<noteq> []"
  shows "strip_slash (slash # strip_slash p) = strip_slash p"
proof -
  have "strip_by (\<lambda>c. c = slash) (strip_slash p) = strip_slash p"
    by (rule strip_by_id) (use assms strip_slash_ends [OF assms] in blast)+
  then show ?thesis unfolding strip_slash_def [of "slash # strip_slash p"] by (subst strip_by_Cons) (rule refl)
qed

lemma normal_root_path_normal:
  "normal_root_path p = [] \<or> (\<exists>s. normal_root_path p = slash # s \<and> s \<noteq> [] \<and> hd s \<noteq> slash \<and> last s \<noteq> slash)"
  using strip_slash_ends [of p] by (simp add: normal_root_path_def)

lemma normal_root_path_idem: "normal_root_path (normal_root_path p) = normal_root_path p"
proof (cases "strip_slash p = []")
  case True
  moreover have "strip_slash [] = []" by (simp add: strip_slash_def strip_by_def)
  ultimately show ?thesis by (simp add: normal_root_path_def)
next
  case False
  then show ?thesis by (simp add: normal_root_path_def strip_slash_rooted)
qed

lemma request_context_restored:
  assumes "sc_type sc = ''http''"
  shows "av_context (snd (request_context_middleware app sc s)) = av_context s"
    and "fst (request_context_middleware app sc s) = fst (app sc (s \<lparr> av_context := Some (request_values (sc_headers sc)) \<rparr>))"
  using assms by (auto simp: request_context_middleware_def prog_defs split: prod.splits)

lemma request_values_keys: "set (map fst (request_values hs)) \<subseteq> set context_names"
  by (auto simp: request_values_def List.map_filter_def Let_def)

lemma application_upgrade_unlocks:
  assumes "\<And>c db. db_own_locks (snd (upgrade_head c db)) = db_own_locks db"
  shows "db_own_locks (snd (application_upgrade upgrade_head c app_id environment db)) = db_own_locks db"
  using assms [of c "db \<lparr> db_own_locks := migration_lock_key app_id environment ''application'' # db_own_locks db \<rparr>"]
  by (auto simp: application_upgrade_def session_lock_def prog_defs split: prod.splits sum.splits)

end
