(* ===== verification/Launcher.thy ===== *)
theory Launcher
  imports Worker_Service LangGraph_Loading Memory_Capacity Postgres_Schema
begin

section \<open>Launcher and start of the processes\<close>

text \<open>
  Models \<^verbatim>\<open>bootstrap/runtime_config.py\<close>, \<^verbatim>\<open>bootstrap/production.py\<close>, the choice of what to run in
  \<^verbatim>\<open>bootstrap/cli.py\<close>, and how the worker process builds its server and loads its graphs.
  \<open>py_float\<close> is the conversion of a text to a double, \<open>None\<close> when it raises \<open>ValueError\<close>.
\<close>

subsection \<open>LauncherConfig (runtime\_config.py)\<close>

type_synonym env = "(string, string) pydict"

datatype pyfloat = Finite rat | PosInf | NegInf | NaN

record LauncherConfig =
  lc_mode :: string
  lc_profile :: string
  lc_host :: string
  lc_port :: int
  lc_grpc_host :: string
  lc_grpc_port :: int
  lc_worker_max_concurrency :: int
  lc_worker_drain_timeout_seconds :: pyfloat
  lc_instance_id :: string
  lc_database_url :: "string option"
  lc_kafka_bootstrap_servers :: "string option"
  lc_topic_prefix :: string
  lc_kafka_environment :: string
  lc_observability_enabled :: bool

definition int_of :: "string \<Rightarrow> exc + int" where
  "int_of s = (case py_int s of Some i \<Rightarrow> Inr i
     | None \<Rightarrow> Inl (ValueError (''invalid literal for int() with base 10: '' @ repr_str s)))"

definition float_of :: "(string \<Rightarrow> pyfloat option) \<Rightarrow> string \<Rightarrow> exc + pyfloat" where
  "float_of py_float s = (case py_float s of Some x \<Rightarrow> Inr x
     | None \<Rightarrow> Inl (ValueError (''could not convert string to float: '' @ repr_str s)))"

text \<open>\<open>environ or os.environ\<close>: an empty mapping counts as none.\<close>

definition from_environment :: "(string \<Rightarrow> pyfloat option) \<Rightarrow> env option \<Rightarrow> env \<Rightarrow> exc + LauncherConfig" where
  "from_environment py_float environ os_environ =
     (let vals = (case environ of Some (p # d) \<Rightarrow> p # d | _ \<Rightarrow> os_environ) in
      bindE (int_of (env_or vals ''UR_GATEWAY_PORT'' (env_or vals ''UR_HTTP_PORT'' ''8080''))) (\<lambda>port.
      bindE (int_of (env_or vals ''UR_GRPC_PORT'' ''9090'')) (\<lambda>grpc_port.
      bindE (int_of (env_or vals ''UR_WORKER_MAX_CONCURRENCY'' ''8'')) (\<lambda>concurrency.
      bindE (float_of py_float (env_or vals ''UR_WORKER_DRAIN_TIMEOUT_SECONDS'' ''30'')) (\<lambda>drain.
      Inr \<lparr> lc_mode = env_or vals ''UR_MODE'' ''worker'', lc_profile = env_or vals ''UR_PROFILE'' ''local'',
            lc_host = env_or vals ''UR_GATEWAY_HOST'' (env_or vals ''UR_HTTP_HOST'' ''0.0.0.0''), lc_port = port,
            lc_grpc_host = env_or vals ''UR_GRPC_HOST'' ''0.0.0.0'', lc_grpc_port = grpc_port,
            lc_worker_max_concurrency = concurrency, lc_worker_drain_timeout_seconds = drain,
            lc_instance_id = env_or vals ''UR_INSTANCE_ID'' ''local'', lc_database_url = map_of vals ''UR_DATABASE_URL'',
            lc_kafka_bootstrap_servers = map_of vals ''UR_KAFKA_BOOTSTRAP_SERVERS'',
            lc_topic_prefix = env_or vals ''UR_TOPIC_PREFIX'' (env_or vals ''UR_KAFKA_TOPIC_PREFIX'' ''rt''),
            lc_kafka_environment = env_or vals ''UR_KAFKA_ENVIRONMENT'' (env_or vals ''UR_ENVIRONMENT'' ''local''),
            lc_observability_enabled = (py_lower (env_or vals ''UR_OBSERVABILITY_ENABLED'' ''false'') = ''true'') \<rparr>)))))"

definition launcher_modes :: "string list" where
  "launcher_modes = [''all'', ''worker'', ''api'', ''gateway'', ''dispatcher'', ''projector'', ''standalone'', ''inspect'', ''migrate'']"

fun float_negative :: "pyfloat \<Rightarrow> bool" where
  "float_negative (Finite r) = (r < 0)"
| "float_negative NegInf = True"
| "float_negative _ = False"

definition launcher_validate :: "LauncherConfig \<Rightarrow> exc + unit" where
  "launcher_validate c =
     (if lc_mode c \<notin> set launcher_modes then Inl (ValueError (''unsupported UR_MODE: '' @ lc_mode c))
      else if \<not> (1 \<le> lc_port c \<and> lc_port c \<le> 65535) \<or> \<not> (1 \<le> lc_grpc_port c \<and> lc_grpc_port c \<le> 65535)
      then Inl (ValueError ''service ports must be between 1 and 65535'')
      else if lc_worker_max_concurrency c < 1 then Inl (ValueError ''UR_WORKER_MAX_CONCURRENCY must be positive'')
      else if float_negative (lc_worker_drain_timeout_seconds c)
      then Inl (ValueError ''UR_WORKER_DRAIN_TIMEOUT_SECONDS must not be negative'')
      else Inr ())"

text \<open>The beginning of every service's \<open>main\<close>.\<close>

definition service_config :: "(string \<Rightarrow> pyfloat option) \<Rightarrow> env \<Rightarrow> exc + LauncherConfig" where
  "service_config py_float os_environ =
     bindE (from_environment py_float None os_environ) (\<lambda>c. bindE (launcher_validate c) (\<lambda>_. Inr c))"

text \<open>\<open>int(config.worker_drain_timeout_seconds)\<close>, the shutdown time given to the HTTP server.\<close>

fun int_of_float :: "pyfloat \<Rightarrow> exc + int" where
  "int_of_float (Finite r) = Inr (if r < 0 then \<lceil>r\<rceil> else \<lfloor>r\<rfloor>)"
| "int_of_float NaN = Inl (ValueError ''cannot convert float NaN to integer'')"
| "int_of_float _ = Inl (FrameworkError ''OverflowError: cannot convert float infinity to integer'')"

record HttpServer =
  hs_host :: string
  hs_port :: int
  hs_keep_alive :: int
  hs_graceful_shutdown :: int

text \<open>\<open>gateway/main.py\<close>: the settings the HTTP server is run with; \<open>created\<close> is the outcome of \<open>create_app\<close>.\<close>

definition gateway_main ::
  "(string \<Rightarrow> pyfloat option) \<Rightarrow> exc + unit \<Rightarrow> bool \<Rightarrow> env \<Rightarrow> exc + HttpServer option" where
  "gateway_main py_float created run_forever os_environ =
     bindE (service_config py_float os_environ) (\<lambda>c.
     if \<not> run_forever then Inr None
     else bindE created (\<lambda>_. bindE (int_of_float (lc_worker_drain_timeout_seconds c)) (\<lambda>t.
       Inr (Some \<lparr> hs_host = lc_host c, hs_port = lc_port c, hs_keep_alive = 75, hs_graceful_shutdown = t \<rparr>))))"

subsection \<open>The worker's server (worker/main.py, grpc/server.py)\<close>

definition worker_server_create :: "int \<Rightarrow> int \<Rightarrow> env \<Rightarrow> exc + BoundedWorker" where
  "worker_server_create configured_concurrency policy_ceiling os_environ =
     new_worker (worker_config configured_concurrency policy_ceiling) os_environ"

definition create_server :: "(string \<Rightarrow> pyfloat option) \<Rightarrow> env \<Rightarrow> exc + BoundedWorker" where
  "create_server py_float os_environ =
     bindE (from_environment py_float None os_environ) (\<lambda>c.
     bindE (int_of (env_or os_environ ''UR_WORKER_CONFIGURED_CONCURRENCY'' (int_str (lc_worker_max_concurrency c)))) (\<lambda>configured.
     bindE (int_of (env_or os_environ ''UR_WORKER_POLICY_CEILING'' ''64'')) (\<lambda>policy.
     worker_server_create configured policy os_environ)))"

text \<open>The adapters of the worker process, by the identifier of their graph; a later one replaces an
  earlier one with the same.\<close>

fun load_adapters ::
  "(string \<Rightarrow> string \<Rightarrow> exc + 'g target) \<Rightarrow> saver \<times> 'g Store \<Rightarrow> 'g PersistenceProviders \<Rightarrow> string list \<Rightarrow>
   (string, 'g LangGraphAdapter) pydict \<Rightarrow> exc + (string, 'g LangGraphAdapter) pydict" where
  "load_adapters import_attribute memory providers [] d = Inr d"
| "load_adapters import_attribute memory providers (entrypoint # rest) d = (case split_entrypoint entrypoint of
       None \<Rightarrow> Inl (ValueError ''not enough values to unpack (expected 2, got 1)'')
     | Some (m, a) \<Rightarrow>
         bindE (import_attribute m a) (\<lambda>t.
         bindE (new_langgraph_adapter memory t ''platform-managed'' (Some providers)) (\<lambda>adapter.
         load_adapters import_attribute memory providers rest (AList.update (de_graph_id (la_descriptor adapter)) adapter d))))"

text \<open>\<^verbatim>\<open>adapters/langgraph/postgres_composition.py\<close>: a managed adapter over the prepared schema; \<open>connect\<close> opens the
  checkpointer and the store at the address of the schema.\<close>

definition detect_and_create_postgres_adapter ::
  "(string \<Rightarrow> string \<Rightarrow> exc + string) \<Rightarrow> (Database, exc, unit) prog \<Rightarrow> (Database, exc, unit) prog \<Rightarrow>
   (string \<Rightarrow> exc + saver \<times> 'g Store option) \<Rightarrow> saver \<times> 'g Store \<Rightarrow> 'g target \<Rightarrow>
   string \<Rightarrow> string \<Rightarrow> string \<Rightarrow> string \<Rightarrow> string \<Rightarrow> SchemaNames \<Rightarrow> (Database, exc, 'g LangGraphAdapter) prog" where
  "detect_and_create_postgres_adapter render saver_setup store_setup connect memory t url app_id workspace_key environment
     application_key schemas =
     bindM (managed_langgraph_persistence render saver_setup store_setup url app_id environment workspace_key application_key schemas)
       (\<lambda>state_url. bindM (liftE (connect state_url)) (\<lambda>(checkpointer, store).
         liftE (new_langgraph_adapter memory t ''platform-managed'' (Some (postgres_persistence checkpointer store)))))"

subsection \<open>The production runtime (production.py)\<close>

text \<open>The values that are built before the runtime is; the objects that cannot fail are not named.\<close>

definition missing_events :: exc where
  "missing_events = TypeError (''LocalRuntime.__init__() missing 1 required positional argument: '' @ [CHR 0x27] @ ''events'' @ [CHR 0x27])"

definition create_production_runtime :: "env \<Rightarrow> exc + Service" where
  "create_production_runtime os_environ = (case env_or os_environ ''UR_DATABASE_URL'' [] of
       [] \<Rightarrow> Inl (RuntimeError ''UR_DATABASE_URL is required in production profile'')
     | url \<Rightarrow>
         bindE (int_of (env_or os_environ ''UR_DB_POOL_SIZE'' ''10'')) (\<lambda>pool.
         bindE (int_of (env_or os_environ ''UR_DB_MAX_OVERFLOW'' ''20'')) (\<lambda>overflow.
         bindE (create_engine url None pool overflow) (\<lambda>_.
         bindE (int_of (env_or os_environ ''UR_WORKER_MAX_CONCURRENCY'' ''8'')) (\<lambda>maximum.
         bindE (new_capacity maximum) (\<lambda>_.
         Inl missing_events))))))"

subsection \<open>What the command line runs (cli.py)\<close>

definition cli_commands :: "string list" where
  "cli_commands = [''info'', ''validate'', ''standalone'', ''inspect'', ''inspect-graph'', ''migrate'', ''api'', ''worker'',
     ''gateway'', ''dispatcher'', ''projector'', ''validate-config'']"

text \<open>The arguments of the commands that have some; \<open>ArgumentError\<close> and \<open>HelpOrVersion\<close> end the process
  with exit code 2 and 0.\<close>

datatype cli_args =
    NoCommand
  | PlainCommand string
  | ValidateConfigCommand string
  | InspectCommand string "string option" bool
  | InspectGraphCommand string
  | MigrateCommand string string string
  | ApiCommand string string string int
  | ArgumentError
  | HelpOrVersion

text \<open>\<open>not effective_argv\<close> holds for no list and for an empty one.\<close>

definition cli_argv :: "env \<Rightarrow> string list option \<Rightarrow> string list \<Rightarrow> string list" where
  "cli_argv os_environ argv sys_args =
     (let mode = env_or os_environ ''UR_MODE'' [] in
      if argv \<in> {None, Some []} \<and> mode \<noteq> []
      then (if take 1 sys_args = [mode] then sys_args else mode # sys_args)
      else (case argv of Some a \<Rightarrow> a | None \<Rightarrow> sys_args))"

text \<open>The parser accepts its subcommands only; what follows one is read by \<open>sub\<close>, options in front by \<open>opts\<close>.\<close>

definition parse_args :: "(string list \<Rightarrow> cli_args) \<Rightarrow> (string \<Rightarrow> string list \<Rightarrow> cli_args) \<Rightarrow> string list \<Rightarrow> cli_args" where
  "parse_args opts sub argv = (case argv of
       [] \<Rightarrow> NoCommand
     | a # rest \<Rightarrow> if a \<noteq> [] \<and> hd a = CHR ''-'' then opts argv
         else if a \<in> set cli_commands then sub a rest else ArgumentError)"

datatype service = AllService | GatewayService | ProjectorService | WorkerService

datatype cli_action =
    Prints string int
  | PrintsLines "string list" int
  | PrintsJson json int
  | ValidatesFile string
  | StartsAndStops string
  | Inspects string "string option" bool
  | InspectsGraph string
  | ServesApi string string string int
  | RunsService service
  | Migrates string string string string
  | PrintsHelp
  | ExitsWith int

definition service_of :: "string \<Rightarrow> service" where
  "service_of command = (if command = ''all'' then AllService else if command = ''gateway'' then GatewayService
     else if command = ''projector'' then ProjectorService else WorkerService)"

definition version_line :: "string \<Rightarrow> string" where
  "version_line profile = ''{'' @ quoted ''version'' @ '': '' @ quoted ''0.1.0'' @ '', '' @ quoted ''profile'' @ '': '' @ quoted profile @ ''}''"

text \<open>\<open>exists\<close> says whether a path exists.\<close>

definition cli_main :: "(string \<Rightarrow> bool) \<Rightarrow> env \<Rightarrow> cli_args \<Rightarrow> cli_action" where
  "cli_main exists os_environ args = (case args of
       ArgumentError \<Rightarrow> ExitsWith 2
     | HelpOrVersion \<Rightarrow> ExitsWith 0
     | ValidateConfigCommand path \<Rightarrow> ValidatesFile path
     | InspectCommand path entrypoint isolated \<Rightarrow> Inspects path entrypoint isolated
     | InspectGraphCommand entrypoint \<Rightarrow> InspectsGraph entrypoint
     | ApiCommand entrypoint root_path host port \<Rightarrow> ServesApi entrypoint root_path host port
     | MigrateCommand config app environment \<Rightarrow> (case env_or os_environ ''UR_DATABASE_URL'' [] of
           [] \<Rightarrow> Prints ''UR_DATABASE_URL is required for migrations'' 2
         | url \<Rightarrow> Migrates url config app environment)
     | NoCommand \<Rightarrow> PrintsHelp
     | PlainCommand command \<Rightarrow>
         if command = ''info'' then Prints (version_line ''bootstrap'') 0
         else if command = ''validate''
         then (let path = env_or os_environ ''UR_CONFIG_PATH'' ''runtime.yaml'' in
           if exists path then ValidatesFile path else Prints (''config: missing ('' @ path @ '')'') 1)
         else if command = ''standalone'' then StartsAndStops (version_line ''standalone'')
         else if command \<in> {''all'', ''gateway'', ''dispatcher'', ''projector'', ''worker''} then RunsService (service_of command)
         else PrintsHelp)"

text \<open>\<open>_validate_config\<close>: the validator's errors, sorted, as path and message.\<close>

definition validate_config_file :: "string \<Rightarrow> (string \<times> string) list \<Rightarrow> cli_action" where
  "validate_config_file path errors =
     (if errors \<noteq> [] then PrintsLines (map (\<lambda>(p, m). p @ '': '' @ m) errors) 1
      else Prints (''config: valid ('' @ path @ '')'') 0)"

text \<open>What the actions do: an inspection prints the descriptor or the error, the standalone command creates
  a local runtime and shuts it down, and a migration prepares the platform's tables; the configuration file
  it is given is only printed.\<close>

definition cli_inspect :: "exc + obj \<Rightarrow> exc + cli_action" where
  "cli_inspect detected = (case detected of
       Inr d \<Rightarrow> Inr (PrintsJson (JObj d) 0)
     | Inl e \<Rightarrow> if is_exception e then Inr (Prints (exc_str e) 1) else Inl e)"

definition cli_standalone :: "(nat \<Rightarrow> datetime) \<Rightarrow> (nat \<Rightarrow> string) \<Rightarrow> exc + bool \<times> Service \<times> cli_action" where
  "cli_standalone clock ids = bindE (create_local_runtime 8 clock ids) (\<lambda>s. case runtime_shutdown s of
     (r, s') \<Rightarrow> bindE r (\<lambda>drained. Inr (drained, s', Prints (version_line ''standalone'') 0)))"

definition migration_report :: "string \<Rightarrow> string \<Rightarrow> string \<Rightarrow> json" where
  "migration_report config app environment = JObj [(''profile'', JStr ''migrate''), (''config'', JStr config),
     (''application_id'', JStr app), (''environment'', JStr environment)]"

definition cli_migrate :: "string \<Rightarrow> string \<Rightarrow> string \<Rightarrow> string \<Rightarrow> (Database, exc, cli_action) prog" where
  "cli_migrate url config app environment =
     bindM (liftE (create_engine url None 5 10)) (\<lambda>_.
     thenM (migrate_platform app environment default_schemas) (ret (PrintsJson (migration_report config app environment) 0)))"

subsection \<open>Checked settings\<close>

lemma launcher_validate_iff:
  "launcher_validate c = Inr () \<longleftrightarrow> lc_mode c \<in> set launcher_modes \<and> 1 \<le> lc_port c \<and> lc_port c \<le> 65535
     \<and> 1 \<le> lc_grpc_port c \<and> lc_grpc_port c \<le> 65535 \<and> 1 \<le> lc_worker_max_concurrency c
     \<and> \<not> float_negative (lc_worker_drain_timeout_seconds c)"
  by (auto simp: launcher_validate_def)

lemma service_config_Inr:
  "service_config py_float env = Inr c \<longleftrightarrow> from_environment py_float None env = Inr c \<and> launcher_validate c = Inr ()"
  by (auto simp: service_config_def bindE_Inr)

lemma gateway_main_server:
  assumes "gateway_main py_float created True env = Inr r"
  shows "\<exists>h. r = Some h \<and> 1 \<le> hs_port h \<and> hs_port h \<le> 65535 \<and> 0 \<le> hs_graceful_shutdown h"
proof -
  obtain c t where c: "service_config py_float env = Inr c" and t: "int_of_float (lc_worker_drain_timeout_seconds c) = Inr t"
    and r: "r = Some \<lparr> hs_host = lc_host c, hs_port = lc_port c, hs_keep_alive = 75, hs_graceful_shutdown = t \<rparr>"
    using assms by (auto simp: gateway_main_def bindE_Inr)
  have "launcher_validate c = Inr ()" using c by (simp add: service_config_Inr)
  then have "\<not> float_negative (lc_worker_drain_timeout_seconds c)" "1 \<le> lc_port c" "lc_port c \<le> 65535"
    by (simp_all add: launcher_validate_iff)
  with r t show ?thesis by (cases "lc_worker_drain_timeout_seconds c") auto
qed

lemma new_worker_slots:
  "new_worker c env = Inr w \<Longrightarrow> 0 \<le> bw_max_concurrency w \<and> bw_max_concurrency w \<le> wc_configured_concurrency c
     \<and> bw_max_concurrency w \<le> wc_policy_ceiling c \<and> bw_slots w = bw_max_concurrency w \<and> bw_active w = 0"
  using resolve_config_bounds by (auto simp: new_worker_def split: sum.splits if_splits)

text \<open>The runtime of the production profile is never created.\<close>

lemma no_production_runtime: "\<exists>e. create_production_runtime env = Inl e"
  by (auto simp: create_production_runtime_def bindE_def split: list.splits sum.splits)

text \<open>\<open>all\<close> is a mode the settings accept and the dispatch knows, but not a command of the parser.\<close>

lemma all_mode_exits:
  assumes "map_of env ''UR_MODE'' = Some ''all''"
  shows "cli_main ex env (parse_args opts sub (cli_argv env None sys_args)) = ExitsWith 2"
proof -
  have "\<exists>rest. cli_argv env None sys_args = ''all'' # rest"
    using assms by (cases sys_args) (auto simp: cli_argv_def env_or_def Let_def)
  then show ?thesis by (auto simp: parse_args_def cli_commands_def cli_main_def)
qed

lemma update_subset: "set (AList.update k v d) \<subseteq> insert (k, v) (set d)"
  by (induction d) auto

lemma load_adapters_keys:
  assumes "load_adapters import_attribute memory providers es d = Inr d'"
    and "\<forall>(k, a) \<in> set d. k = de_graph_id (la_descriptor a)"
  shows "\<forall>(k, a) \<in> set d'. k = de_graph_id (la_descriptor a)"
  using assms
proof (induction es arbitrary: d)
  case (Cons e es)
  then obtain a where "load_adapters import_attribute memory providers es (AList.update (de_graph_id (la_descriptor a)) a d) = Inr d'"
    by (auto simp: bindE_Inr split: option.splits)
  moreover have "\<forall>(k, x) \<in> set (AList.update (de_graph_id (la_descriptor a)) a d). k = de_graph_id (la_descriptor x)"
    using Cons.prems(2) update_subset [of _ a d] by fastforce
  ultimately show ?case by (rule Cons.IH)
qed simp

text \<open>A migration that another session is running is reported like one that was done.\<close>

lemma cli_migrate_locked:
  assumes "migration_lock_key app environment ''platform'' \<in> set (db_foreign_locks db)"
  shows "cli_migrate url config app environment db = (Inr (PrintsJson (migration_report config app environment) 0), db)"
  using assms by (simp add: cli_migrate_def create_engine_def migrate_platform_def transaction_def prog_defs Let_def)

subsection \<open>The start of the worker processes (worker/main.py, all/main.py)\<close>

text \<open>What a process holds once it runs: its adapters, the server's worker, the queue it consumes when there is
  one, and the slots of its execution loop.\<close>

record ('g, 'q) WorkerProcess =
  wp_adapters :: "(string, 'g LangGraphAdapter) pydict"
  wp_worker :: BoundedWorker
  wp_queue :: "'q option"
  wp_slots :: int

definition environ_item :: "env \<Rightarrow> string \<Rightarrow> exc + string" where
  "environ_item os_environ k = (case map_of os_environ k of Some v \<Rightarrow> Inr v | None \<Rightarrow> Inl (KeyError k))"

text \<open>The queue of a process; \<open>connect\<close> is the constructor of the client queue, for servers, prefix,
  application and group.\<close>

definition process_queue :: "(string \<Rightarrow> string \<Rightarrow> string \<Rightarrow> string \<Rightarrow> 'q) \<Rightarrow> env \<Rightarrow> 'q option" where
  "process_queue connect os_environ = (case env_or os_environ ''UR_KAFKA_BOOTSTRAP_SERVERS'' [] of
       [] \<Rightarrow> None
     | servers \<Rightarrow> (let app = env_or os_environ ''UR_APPLICATION_ID'' ''default'' in
         Some (connect servers (env_or os_environ ''UR_TOPIC_PREFIX'' ''rt'') app (app @ ''.worker''))))"

definition execution_slots :: "env \<Rightarrow> exc + int" where
  "execution_slots os_environ = bindE (int_of (env_or os_environ ''UR_WORKER_MAX_CONCURRENCY'' ''8'')) (\<lambda>n.
     if n < 0 then Inl (ValueError ''Semaphore initial value must be >= 0'') else Inr n)"

text \<open>\<open>listen\<close> is the outcome of listening on an address, \<open>register g\<close> that of the registration of a graph with
  the gateway (\<^const>\<open>register_with_gateway\<close>), \<open>open_persistence\<close> opens the managed persistence.\<close>

definition worker_serve ::
  "(string \<Rightarrow> pyfloat option) \<Rightarrow> (string \<Rightarrow> string \<Rightarrow> exc + 'g target) \<Rightarrow> saver \<times> 'g Store \<Rightarrow>
   (string \<Rightarrow> exc + 'g PersistenceProviders) \<Rightarrow> (string \<Rightarrow> string \<Rightarrow> string \<Rightarrow> string \<Rightarrow> 'q) \<Rightarrow> (string \<Rightarrow> int \<Rightarrow> exc + unit) \<Rightarrow>
   (string \<Rightarrow> exc + nat) \<Rightarrow> LauncherConfig \<Rightarrow> env \<Rightarrow> exc + ('g, 'q) WorkerProcess" where
  "worker_serve py_float import_attribute memory open_persistence connect listen register config os_environ =
     bindE (entrypoints os_environ) (\<lambda>es.
     bindE (environ_item os_environ ''UR_DATABASE_URL'') (\<lambda>url.
     bindE (int_of (env_or os_environ ''UR_WORKER_DB_POOL_SIZE'' ''30'')) (\<lambda>pool.
     bindE (int_of (env_or os_environ ''UR_WORKER_DB_MAX_OVERFLOW'' ''10'')) (\<lambda>overflow.
     bindE (create_engine url None pool overflow) (\<lambda>_.
     bindE (open_persistence url) (\<lambda>providers.
     bindE (load_adapters import_attribute memory providers es []) (\<lambda>adapters.
     bindE (create_server py_float os_environ) (\<lambda>worker.
     bindE (listen (lc_grpc_host config) (lc_grpc_port config)) (\<lambda>_.
     bindE (collect (map (\<lambda>a. register (de_graph_id (la_descriptor a))) (dict_values adapters))) (\<lambda>_.
     bindE (execution_slots os_environ) (\<lambda>slots.
     Inr \<lparr> wp_adapters = adapters, wp_worker = worker, wp_queue = process_queue connect os_environ, wp_slots = slots \<rparr>)))))))))))"

text \<open>The single process fills in the addresses of its own gateway and worker, and runs one graph.\<close>

definition env_default :: "string \<Rightarrow> string \<Rightarrow> env \<Rightarrow> env" where
  "env_default k v os_environ = (if env_or os_environ k [] = [] then AList.update k v os_environ else os_environ)"

definition all_environ :: "LauncherConfig \<Rightarrow> env \<Rightarrow> env" where
  "all_environ config os_environ =
     env_default ''UR_WORKER_ADVERTISE_TARGET'' (''127.0.0.1:'' @ int_str (lc_grpc_port config))
       (env_default ''UR_GATEWAY_REGISTER_URL'' (''http://127.0.0.1:'' @ int_str (lc_port config) @ ''/internal/workers/register'')
         os_environ)"

definition all_serve ::
  "(string \<Rightarrow> string \<Rightarrow> exc + 'g target) \<Rightarrow> saver \<times> 'g Store \<Rightarrow> (string \<Rightarrow> exc + 'g PersistenceProviders) \<Rightarrow>
   (string \<Rightarrow> string \<Rightarrow> string \<Rightarrow> string \<Rightarrow> 'q) \<Rightarrow> (string \<Rightarrow> int \<Rightarrow> exc + unit) \<Rightarrow> exc + unit \<Rightarrow> LauncherConfig \<Rightarrow> env \<Rightarrow>
   exc + ('g, 'q) WorkerProcess" where
  "all_serve import_attribute memory open_persistence connect listen created config env0 =
     (let os_environ = all_environ config env0 in
      bindE created (\<lambda>_.
      bindE (int_of_float (lc_worker_drain_timeout_seconds config)) (\<lambda>_.
      bindE (environ_item os_environ ''UR_APPLICATION_ENTRYPOINT'') (\<lambda>entrypoint.
      case split_entrypoint entrypoint of
        None \<Rightarrow> Inl (ValueError ''not enough values to unpack (expected 2, got 1)'')
      | Some (m, a) \<Rightarrow>
          bindE (import_attribute m a) (\<lambda>t.
          bindE (environ_item os_environ ''UR_DATABASE_URL'') (\<lambda>url.
          bindE (create_engine url None 30 10) (\<lambda>_.
          bindE (open_persistence url) (\<lambda>providers.
          bindE (new_langgraph_adapter memory t ''platform-managed'' (Some providers)) (\<lambda>adapter.
          bindE (int_of (env_or os_environ ''UR_WORKER_POLICY_CEILING'' ''64'')) (\<lambda>policy.
          bindE (worker_server_create (lc_worker_max_concurrency config) policy os_environ) (\<lambda>worker.
          bindE (execution_slots os_environ) (\<lambda>slots.
          bindE (listen ''127.0.0.1'' (lc_grpc_port config)) (\<lambda>_.
          Inr \<lparr> wp_adapters = [(de_graph_id (la_descriptor adapter), adapter)], wp_worker = worker,
                wp_queue = process_queue connect os_environ, wp_slots = slots \<rparr>)))))))))))))"

text \<open>A worker process that runs under checked settings has the slots of the settings, at least one, serves
  every graph under its own identifier, and its server admits no more executions than both limits.\<close>

lemma from_environment_slots:
  assumes "from_environment py_float None env = Inr c" and "execution_slots env = Inr n"
  shows "n = lc_worker_max_concurrency c"
  using assms by (auto simp: from_environment_def execution_slots_def Let_def bindE_Inr split: if_splits)

lemma worker_process_settings:
  assumes "service_config py_float env = Inr c"
    and "worker_serve py_float imp memory open_persistence connect listen register c env = Inr p"
  shows "wp_slots p = lc_worker_max_concurrency c" and "1 \<le> wp_slots p"
    and "\<forall>(k, a) \<in> set (wp_adapters p). k = de_graph_id (la_descriptor a)"
    and "0 \<le> bw_max_concurrency (wp_worker p)" and "bw_active (wp_worker p) = 0"
proof -
  obtain es providers where ad: "load_adapters imp memory providers es [] = Inr (wp_adapters p)"
    and worker: "create_server py_float env = Inr (wp_worker p)" and slots: "execution_slots env = Inr (wp_slots p)"
    using assms(2) by (auto simp: worker_serve_def bindE_Inr)
  show "wp_slots p = lc_worker_max_concurrency c"
    using assms(1) slots by (auto simp: service_config_Inr intro: from_environment_slots)
  then show "1 \<le> wp_slots p" using assms(1) by (simp add: service_config_Inr launcher_validate_iff)
  show "\<forall>(k, a) \<in> set (wp_adapters p). k = de_graph_id (la_descriptor a)" by (rule load_adapters_keys [OF ad]) simp
  show "0 \<le> bw_max_concurrency (wp_worker p)" "bw_active (wp_worker p) = 0"
    using worker new_worker_slots by (auto simp: create_server_def worker_server_create_def bindE_Inr)
qed

end
