(* ===== verification/Gateway_Startup.thy ===== *)
theory Gateway_Startup
  imports Gateway_Routes Launcher Runtime_Requests
begin

section \<open>Gateway: start, shutdown and state of service\<close>

text \<open>
  Models the hooks of \<^verbatim>\<open>services/gateway/app.py\<close>: the runtime an application is created with, the start
  that registers the configured graphs and begins local execution, the shutdown, and the routes that
  report on the service.  Importing a module, opening the database and binding the port of the gRPC
  server are parameters.
\<close>

subsection \<open>Creating the application\<close>

abbreviation on_registry :: "((string, Adapter) pydict, exc, 'a) prog \<Rightarrow> 'a gw" where
  "on_registry m \<equiv> on_svc (zoomM sv_adapters (\<lambda>c. sv_adapters_update (\<lambda>_. c)) m)"

definition app_runtime :: "env \<Rightarrow> (nat \<Rightarrow> datetime) \<Rightarrow> (nat \<Rightarrow> string) \<Rightarrow> Service option \<Rightarrow> exc + Service" where
  "app_runtime os_environ clock ids supplied = (case supplied of
       Some s \<Rightarrow> Inr s
     | None \<Rightarrow> if env_or os_environ ''UR_PROFILE'' ''local'' = ''production'' then create_production_runtime os_environ
         else create_local_runtime 8 clock ids)"

text \<open>What the gateway sees of an adapter: what the runtime calls, and its methods.\<close>

type_synonym 'g view = "'g LangGraphAdapter \<Rightarrow> Adapter \<times> GwAdapter"

definition register_adapter :: "string option \<Rightarrow> string \<Rightarrow> Adapter \<times> GwAdapter \<Rightarrow> unit gw" where
  "register_adapter graph_id adapter_id v =
     thenM (on_registry (registry_register graph_id adapter_id (fst v)))
       (modifyM (\<lambda>g. g \<lparr> gw_methods := (gw_methods g)(registry_id graph_id adapter_id := snd v) \<rparr>))"

subsection \<open>The configured graphs\<close>

definition configured_entrypoints :: "env \<Rightarrow> string list" where
  "configured_entrypoints os_environ = filter (\<lambda>x. x \<noteq> []) (map py_strip (split_on CHR '',''
     (case env_or os_environ ''UR_APPLICATION_ENTRYPOINTS'' [] of
        [] \<Rightarrow> env_or os_environ ''UR_APPLICATION_ENTRYPOINT'' [] | raw \<Rightarrow> raw)))"

definition graph_assistant :: "env \<Rightarrow> bool \<Rightarrow> string \<Rightarrow> string \<Rightarrow> exc + Assistant" where
  "graph_assistant os_environ single graph entrypoint =
     bindE (parse_id AssistantId graph) (\<lambda>i.
     Inr \<lparr> as_assistant_id = i, as_graph_id = graph, as_version = 1,
           as_name = (if single then opt_str (map_of os_environ ''UR_APPLICATION_NAME'') else JStr graph),
           as_description = JNull, as_config = [], as_context = [],
           as_metadata = [(''runtime.auto_registered'', JBool True), (''runtime.entrypoint'', JStr entrypoint),
             (''created_by'', JStr ''system''), (''workspace_id'', JStr (env_or os_environ ''UR_WORKSPACE_ID'' ''default''))],
           as_created_at = None, as_updated_at = None \<rparr>)"

definition create_unless_exists :: "Assistant \<Rightarrow> unit gw" where
  "create_unless_exists a = catchM (thenM (on_assistants (assistants_create a)) (ret ())) (\<lambda>e. case e of
       RuntimeFailureError INVALID_EXECUTION_INPUT _ _ _ \<Rightarrow> ret ()
     | _ \<Rightarrow> raise e)"

definition load_configured ::
  "(string \<Rightarrow> string \<Rightarrow> exc + 'g target) \<Rightarrow> saver \<times> 'g Store \<Rightarrow> string \<Rightarrow> 'g PersistenceProviders option \<Rightarrow> string \<Rightarrow>
   exc + 'g LangGraphAdapter" where
  "load_configured import_attribute memory mode providers entrypoint = (case split_entrypoint entrypoint of
       None \<Rightarrow> Inl (ValueError ''not enough values to unpack (expected 2, got 1)'')
     | Some (m, a) \<Rightarrow> bindE (import_attribute m a) (\<lambda>t. new_langgraph_adapter memory t mode providers))"

definition register_graph ::
  "(string \<Rightarrow> exc + 'g LangGraphAdapter) \<Rightarrow> 'g view \<Rightarrow> env \<Rightarrow> bool \<Rightarrow> string \<Rightarrow> unit gw" where
  "register_graph load view os_environ single entrypoint =
     bindM (liftE (load entrypoint)) (\<lambda>adapter.
     let graph = de_graph_id (la_descriptor adapter) in
     thenM (register_adapter (Some graph) (mf_adapter_id (la_manifest adapter)) (view adapter))
     (bindM (liftE (graph_assistant os_environ single graph entrypoint)) create_unless_exists))"

text \<open>\<open>open_persistence url\<close>: the providers of the database, in the production profile.\<close>

definition startup_providers ::
  "(string \<Rightarrow> exc + 'g PersistenceProviders) \<Rightarrow> env \<Rightarrow> exc + 'g PersistenceProviders option" where
  "startup_providers open_persistence os_environ =
     (if env_or os_environ ''UR_PROFILE'' ''local'' = ''production''
      then (case map_of os_environ ''UR_DATABASE_URL'' of
          None \<Rightarrow> Inl (KeyError ''UR_DATABASE_URL'')
        | Some url \<Rightarrow> map_sum id Some (open_persistence url))
      else Inr None)"

definition auto_register_application ::
  "(string \<Rightarrow> string \<Rightarrow> exc + 'g target) \<Rightarrow> saver \<times> 'g Store \<Rightarrow> (string \<Rightarrow> exc + 'g PersistenceProviders) \<Rightarrow> 'g view \<Rightarrow> unit gw" where
  "auto_register_application import_attribute memory open_persistence view =
     bindM (getsM gw_environ) (\<lambda>os_environ.
     let es = configured_entrypoints os_environ; mode = env_or os_environ ''UR_PERSISTENCE_MODE'' ''platform-managed'' in
     if es = [] then ret ()
     else bindM (liftE (startup_providers open_persistence os_environ)) (\<lambda>providers.
       forM (register_graph (load_configured import_attribute memory mode providers) view os_environ (length es = 1)) es))"

subsection \<open>Start and shutdown\<close>

text \<open>\<open>app.state.migration_done\<close>, which nothing sets before the start, is read when a database is configured.\<close>

definition startup_migration :: "(string \<Rightarrow> exc + bool) \<Rightarrow> bool option \<Rightarrow> env \<Rightarrow> exc + bool" where
  "startup_migration migrate done os_environ = (case env_or os_environ ''UR_DATABASE_URL'' [] of
       [] \<Rightarrow> Inr False
     | url \<Rightarrow> (case done of
           None \<Rightarrow> Inl (AttributeError (repr_str ''State'' @ '' object has no attribute '' @ repr_str ''migration_done''))
         | Some d \<Rightarrow> if d then Inr False else migrate url))"

definition start_local_execution ::
  "(string \<Rightarrow> exc + bool) \<Rightarrow> (int \<Rightarrow> exc + unit) \<Rightarrow> unit gw \<Rightarrow> bool \<Rightarrow> bool option \<Rightarrow> bool gw" where
  "start_local_execution migrate bind_grpc register execute_locally done =
     bindM (getsM gw_environ) (\<lambda>os_environ.
     bindM (liftE (startup_migration migrate done os_environ)) (\<lambda>migrated.
     bindM (liftE (int_of (env_or os_environ ''UR_GATEWAY_GRPC_PORT'' ''9091''))) (\<lambda>port.
     thenM (liftE (bind_grpc port)) (thenM register (thenM (on_svc (runtime_start execute_locally)) (ret migrated))))))"

text \<open>The runtime is shut down first; the servers and connections closed afterwards are not part of the state.\<close>

definition stop_local_execution :: "bool gw" where
  "stop_local_execution = on_svc runtime_shutdown"

subsection \<open>Reports\<close>

definition health_payload :: obj where
  "health_payload = [(''ok'', JBool True)]"

definition readiness_payload :: obj where
  "readiness_payload = [(''ready'', JBool True)]"

text \<open>A manifest is a class with slots, so it has no \<open>__dict__\<close>, and an empty object is given for every adapter.\<close>

definition info_payload :: "obj gw" where
  "info_payload = bindM (on_registry registry_all) (\<lambda>adapters.
     ret [(''version'', JStr ''0.1.0''), (''adapters'', JArr (map (\<lambda>_. JObj []) adapters))])"

subsection \<open>What a start leaves behind\<close>

definition served_graph :: "'g LangGraphAdapter \<Rightarrow> string" where
  "served_graph adapter = de_graph_id (la_descriptor adapter)"

text \<open>A graph is served: its adapter is registered for runs and for the routes, and an assistant exists
  under its identifier.\<close>

definition serves :: "'g view \<Rightarrow> Gateway \<Rightarrow> 'g LangGraphAdapter \<Rightarrow> bool" where
  "serves view g adapter \<longleftrightarrow> map_of (sv_adapters (gw_runtime g)) (served_graph adapter) = Some (fst (view adapter))
     \<and> gw_methods g (served_graph adapter) = snd (view adapter) \<and> map_of (gw_assistants g) (served_graph adapter) \<noteq> None"

definition only_adapters_changed :: "Gateway \<Rightarrow> Gateway \<Rightarrow> bool" where
  "only_adapters_changed g g' \<longleftrightarrow> (\<exists>d. gw_runtime g' = gw_runtime g \<lparr> sv_adapters := d \<rparr>)
     \<and> gw_environ g' = gw_environ g"

lemma only_adapters_changed_refl: "only_adapters_changed g g"
  by (auto simp: only_adapters_changed_def intro!: exI [of _ "sv_adapters (gw_runtime g)"])

lemma only_adapters_changed_trans:
  "only_adapters_changed g g' \<Longrightarrow> only_adapters_changed g' g'' \<Longrightarrow> only_adapters_changed g g''"
  by (auto simp: only_adapters_changed_def)

lemma create_unless_exists_Inr:
  assumes "create_unless_exists a g = (Inr u, g')"
  shows "\<exists>d. g' = g \<lparr> gw_assistants := d \<rparr> \<and> map_of d (id_value (as_assistant_id a)) \<noteq> None
      \<and> (\<forall>k. map_of (gw_assistants g) k \<noteq> None \<longrightarrow> map_of d k \<noteq> None)"
proof (cases "map_of (gw_assistants g) (id_value (as_assistant_id a))")
  case None
  then have "g' = g \<lparr> gw_assistants := AList.update (id_value (as_assistant_id a)) a (gw_assistants g) \<rparr>"
    using assms by (simp add: create_unless_exists_def assistants_create_def prog_defs Let_def)
  then show ?thesis by (intro exI [of _ "AList.update (id_value (as_assistant_id a)) a (gw_assistants g)"]) (simp add: update_conv')
next
  case (Some b)
  then have "g' = g"
    using assms by (simp add: create_unless_exists_def assistants_create_def prog_defs Let_def runtime_failure_def)
  with Some show ?thesis by (intro exI [of _ "gw_assistants g"]) simp
qed

lemma register_adapter_Inr:
  assumes "register_adapter (Some k) i v g = (Inr u, g')"
  shows "map_of (sv_adapters (gw_runtime g)) k = None
    \<and> g' = g \<lparr> gw_runtime := gw_runtime g \<lparr> sv_adapters := AList.update k (fst v) (sv_adapters (gw_runtime g)) \<rparr>,
               gw_methods := (gw_methods g)(k := snd v) \<rparr>"
  using assms by (auto simp: register_adapter_def registry_register_def registry_id_def prog_defs Let_def split: if_splits)

lemma register_graph_Inr:
  assumes "register_graph load view env single e g = (Inr u, g')"
  obtains adapter where "load e = Inr adapter" and "serves view g' adapter"
    and "map_of (sv_adapters (gw_runtime g)) (served_graph adapter) = None" and "only_adapters_changed g g'"
    and "\<And>a. serves view g a \<Longrightarrow> serves view g' a"
    and "\<And>k. map_of (sv_adapters (gw_runtime g)) k \<noteq> None \<Longrightarrow> map_of (sv_adapters (gw_runtime g')) k \<noteq> None"
proof -
  obtain adapter u1 g1 a where load: "load e = Inr adapter"
    and reg: "register_adapter (Some (served_graph adapter)) (mf_adapter_id (la_manifest adapter)) (view adapter) g = (Inr u1, g1)"
    and a: "graph_assistant env single (served_graph adapter) e = Inr a" and mk: "create_unless_exists a g1 = (Inr u, g')"
    using assms by (auto simp: register_graph_def served_graph_def Let_def thenM_def bindM_def liftE_def split: prod.splits sum.splits)
  have i: "id_value (as_assistant_id a) = served_graph adapter"
    using a by (auto simp: graph_assistant_def bindE_Inr parse_id_def split: if_splits)
  obtain d where d: "g' = g1 \<lparr> gw_assistants := d \<rparr>" "map_of d (served_graph adapter) \<noteq> None"
      "\<And>k. map_of (gw_assistants g1) k \<noteq> None \<Longrightarrow> map_of d k \<noteq> None"
    using create_unless_exists_Inr [OF mk] i by auto
  note r = register_adapter_Inr [OF reg]
  show thesis
  proof (rule that [OF load])
    show "serves view g' adapter" using d r by (simp add: serves_def update_conv')
    show "map_of (sv_adapters (gw_runtime g)) (served_graph adapter) = None" using r by blast
    show "only_adapters_changed g g'" using d r by (auto simp: only_adapters_changed_def)
    show "serves view g' b" if "serves view g b" for b
    proof -
      have "served_graph b \<noteq> served_graph adapter" using that r by (auto simp: serves_def)
      with that d(1) d(3) [of "served_graph b"] r show ?thesis by (simp add: serves_def update_conv')
    qed
    show "map_of (sv_adapters (gw_runtime g')) k \<noteq> None" if "map_of (sv_adapters (gw_runtime g)) k \<noteq> None" for k
      using that d(1) r by (simp add: update_conv')
  qed
qed

lemma register_graphs_Inr:
  assumes "forM (register_graph load view env single) es g = (Inr u, g')"
  shows "(\<exists>as. map load es = map Inr as \<and> distinct (map served_graph as) \<and> (\<forall>a \<in> set as. serves view g' a
        \<and> map_of (sv_adapters (gw_runtime g)) (served_graph a) = None)) \<and> only_adapters_changed g g'
      \<and> (\<forall>a. serves view g a \<longrightarrow> serves view g' a)"
  using assms
proof (induction es arbitrary: g)
  case Nil
  then show ?case by (auto simp: prog_defs only_adapters_changed_refl)
next
  case (Cons e es)
  then obtain u1 g1 where head: "register_graph load view env single e g = (Inr u1, g1)"
    and rest: "forM (register_graph load view env single) es g1 = (Inr u, g')"
    by (auto simp: thenM_def bindM_def split: prod.splits sum.splits)
  obtain a where a: "load e = Inr a" "serves view g1 a" "map_of (sv_adapters (gw_runtime g)) (served_graph a) = None"
      "only_adapters_changed g g1" "\<And>b. serves view g b \<Longrightarrow> serves view g1 b"
      "\<And>k. map_of (sv_adapters (gw_runtime g)) k \<noteq> None \<Longrightarrow> map_of (sv_adapters (gw_runtime g1)) k \<noteq> None"
    by (rule register_graph_Inr [OF head]) (rule that)
  obtain as where as: "map load es = map Inr as" "distinct (map served_graph as)"
      "\<forall>b \<in> set as. serves view g' b \<and> map_of (sv_adapters (gw_runtime g1)) (served_graph b) = None"
    and ch: "only_adapters_changed g1 g'" and keep: "\<And>b. serves view g1 b \<Longrightarrow> serves view g' b"
    using Cons.IH [OF rest] by blast
  have "served_graph a \<notin> set (map served_graph as)" using as(3) a(2) by (force simp: serves_def)
  moreover have "\<forall>b \<in> set as. map_of (sv_adapters (gw_runtime g)) (served_graph b) = None" using as(3) a(6) by blast
  ultimately have "map load (e # es) = map Inr (a # as) \<and> distinct (map served_graph (a # as))
      \<and> (\<forall>b \<in> set (a # as). serves view g' b \<and> map_of (sv_adapters (gw_runtime g)) (served_graph b) = None)"
    using a as keep by auto
  then show ?case using only_adapters_changed_trans [OF a(4) ch] a(5) keep by blast
qed

text \<open>The graphs a start loads for the configured entry points.\<close>

definition loaded_graphs ::
  "(string \<Rightarrow> string \<Rightarrow> exc + 'g target) \<Rightarrow> saver \<times> 'g Store \<Rightarrow> (string \<Rightarrow> exc + 'g PersistenceProviders) \<Rightarrow> env \<Rightarrow>
   exc + 'g LangGraphAdapter list" where
  "loaded_graphs import_attribute memory open_persistence os_environ =
     (let es = configured_entrypoints os_environ in
      if es = [] then Inr []
      else bindE (startup_providers open_persistence os_environ) (\<lambda>providers. collect (map (load_configured import_attribute memory
        (env_or os_environ ''UR_PERSISTENCE_MODE'' ''platform-managed'') providers) es)))"

lemma auto_register_Inr:
  assumes "auto_register_application imp memory open_persistence view g = (Inr u, g')"
  shows "\<exists>as. loaded_graphs imp memory open_persistence (gw_environ g) = Inr as \<and> distinct (map served_graph as)
      \<and> (\<forall>a \<in> set as. serves view g' a) \<and> only_adapters_changed g g'"
proof (cases "configured_entrypoints (gw_environ g) = []")
  case True
  then show ?thesis
    using assms by (auto simp: auto_register_application_def loaded_graphs_def prog_defs Let_def only_adapters_changed_refl)
next
  case False
  let ?mode = "env_or (gw_environ g) ''UR_PERSISTENCE_MODE'' ''platform-managed''"
  obtain providers where p: "startup_providers open_persistence (gw_environ g) = Inr providers" and
    "forM (register_graph (load_configured imp memory ?mode providers) view (gw_environ g)
        (length (configured_entrypoints (gw_environ g)) = 1)) (configured_entrypoints (gw_environ g)) g = (Inr u, g')"
    using assms False by (auto simp: auto_register_application_def prog_defs Let_def split: sum.splits)
  from register_graphs_Inr [OF this(2)] obtain as where
    "map (load_configured imp memory ?mode providers) (configured_entrypoints (gw_environ g)) = map Inr as"
    "distinct (map served_graph as)" "\<forall>a \<in> set as. serves view g' a" "only_adapters_changed g g'" by blast
  with p False show ?thesis by (simp add: loaded_graphs_def bindE_def Let_def)
qed

lemma start_worker_result:
  "\<exists>w. snd (start_worker s) = s \<lparr> sv_worker := w \<rparr>
     \<and> (sv_worker s = NoWorker \<longrightarrow> sv_adapters_on s \<longrightarrow> sv_adapters s \<noteq> [] \<longrightarrow> w = WorkerRunning)"
proof (cases "sv_worker s = NoWorker \<and> sv_adapters_on s \<and> sv_adapters s \<noteq> []")
  case True
  then show ?thesis by (intro exI [of _ WorkerRunning]) (simp add: start_worker_def modifyM_def)
next
  case False
  then have "snd (start_worker s) = s" by (auto simp: start_worker_def modifyM_def)
  with False show ?thesis by (intro exI [of _ "sv_worker s"]) auto
qed

text \<open>A first start succeeds only without a database, leaves every configured graph served, and begins
  local execution when there is a graph.\<close>

lemma first_start:
  assumes "start_local_execution migrate bind_grpc (auto_register_application imp memory open_persistence view) True None g =
      (Inr m, g')"
  shows "env_or (gw_environ g) ''UR_DATABASE_URL'' [] = [] \<and> \<not> m
    \<and> (\<exists>as. loaded_graphs imp memory open_persistence (gw_environ g) = Inr as \<and> distinct (map served_graph as)
      \<and> (\<forall>a \<in> set as. serves view g' a))
    \<and> (\<exists>d w. gw_runtime g' = gw_runtime g \<lparr> sv_adapters := d, sv_worker := w \<rparr>
        \<and> (sv_worker (gw_runtime g) = NoWorker \<longrightarrow> sv_adapters_on (gw_runtime g) \<longrightarrow> d \<noteq> [] \<longrightarrow> w = WorkerRunning))"
proof -
  obtain u g1 where mig: "startup_migration migrate None (gw_environ g) = Inr m"
    and reg: "auto_register_application imp memory open_persistence view g = (Inr u, g1)"
    and start: "on_svc (runtime_start True) g1 = (Inr (), g')"
    using assms by (auto simp: start_local_execution_def thenM_def bindM_def liftE_def getsM_def ret_def split: prod.splits sum.splits)
  have db: "env_or (gw_environ g) ''UR_DATABASE_URL'' [] = []" "\<not> m"
    using mig by (auto simp: startup_migration_def split: list.splits)
  obtain as where as: "loaded_graphs imp memory open_persistence (gw_environ g) = Inr as" "distinct (map served_graph as)"
      "\<forall>a \<in> set as. serves view g1 a"
    and ch: "only_adapters_changed g g1"
    using auto_register_Inr [OF reg] by blast
  obtain d where d: "gw_runtime g1 = gw_runtime g \<lparr> sv_adapters := d \<rparr>" using ch by (auto simp: only_adapters_changed_def)
  have st: "g' = g1 \<lparr> gw_runtime := snd (start_worker (gw_runtime g1)) \<rparr>"
    using start by (auto simp: runtime_start_def whenM_def zoomM_def split: prod.splits)
  then have "serves view g' a" if "serves view g1 a" for a
    using that by (simp add: serves_def start_worker_def prog_defs)
  moreover have "\<exists>w. gw_runtime g' = gw_runtime g \<lparr> sv_adapters := d, sv_worker := w \<rparr>
        \<and> (sv_worker (gw_runtime g) = NoWorker \<longrightarrow> sv_adapters_on (gw_runtime g) \<longrightarrow> d \<noteq> [] \<longrightarrow> w = WorkerRunning)"
    using start_worker_result [of "gw_runtime g1"] st d by auto
  ultimately show ?thesis using db as by blast
qed

lemma created_runtime:
  assumes "create_local_runtime n clock ids = Inr s" and "inj ids"
  shows "svc_wf s" and "sv_journal_on s" and "\<not> sv_outbox_on s" and "sv_adapters_on s" and "sv_worker s = NoWorker"
    and "\<not> pq_closed (sv_commands s)" and "pq_queue (sv_commands s) = []" and "capacity_free s" and "sv_runs s = []"
proof -
  show "svc_wf s" using reachable_wf [OF assms rtranclp.rtrancl_refl] by simp
qed (use assms(1) in \<open>auto simp: create_local_runtime_def new_capacity_def new_queue_def capacity_free_def split: sum.splits if_splits\<close>)

text \<open>A graph the gateway serves after its start answers the requests that name it.\<close>

lemma served_graph_answers:
  assumes "create_local_runtime n clock ids = Inr s" and "inj ids" and "serves view g adapter"
    and "gw_runtime g = s \<lparr> sv_adapters := d, sv_worker := w \<rparr>"
    and "id_value (assistant_id (rq_identity rq)) = served_graph adapter" and "rq_thread_key rq = None"
    and "ad_stream (fst (view adapter)) rq = (ds, None)" and "list_all plain ds"
    and "list_all (\<lambda>x. run_key (dr_identity x) = rq_run_key rq) ds"
  shows "\<exists>r s1 s2 r'. start_run False rq (gw_runtime g) = (Inr r, s1) \<and> rn_status r = PENDING
    \<and> consume_once s1 = (Inr (Some True), s2) \<and> map_of (sv_runs s2) (rq_run_key rq) = Some r'
    \<and> rn_status r' = SUCCESS \<and> rn_result r' = last_value JNull ds"
proof -
  note c = created_runtime [OF assms(1,2)]
  have "svc_wf (gw_runtime g)" using c(1) assms(4) by (simp add: svc_wf_def ids_ok_def)
  moreover have "startable (gw_runtime g) rq" using c(9) assms(4,6) by (simp add: startable_def)
  moreover have "capacity_free (gw_runtime g)" using c(8) assms(4) by (simp add: capacity_free_def)
  moreover have "map_of (sv_adapters (gw_runtime g)) (id_value (assistant_id (rq_identity rq))) = Some (fst (view adapter))"
    using assms(3,5) by (simp add: serves_def)
  ultimately show ?thesis
    using run_lifecycle [of "gw_runtime g" rq "fst (view adapter)" ds] c(2,3,6,7) assms(4,7-9) by fastforce
qed

end
