(* ===== verification/Boundary_Properties.thy ===== *)
theory Boundary_Properties
  imports Edge_Properties A2A_Adapter Asgi_Application Gateway_Startup
begin

section \<open>Properties of start, discovery, proxy and agent tasks\<close>

text \<open>
  The properties of what surrounds the runtime: the start of the gateway with its configured graphs, the
  discovery of applications in a source tree, the proxy to their routes, and tasks of other agents.
\<close>

section \<open>Start of the gateway\<close>








section \<open>Proxy and discovery\<close>

text \<open>
  C37.  A proxied request stays below its target: an answer that is returned comes from one call to the
  target's address followed by a path without \<open>..\<close> and by the query, with the caller's method and body
  and no header but the forwarded ones; it is within the limit and lacks the headers of the connection.
  A request whose path climbs, or whose body is too large, is refused whatever the target would answer.
\<close>

theorem proxied_request_stays_below_target:
  "(custom_http client limits target path verb hs body query = Inr r \<longrightarrow>
     (\<exists>c a p. client c = Responded a \<and> hc_url c = rstrip_slash target @ slash # p @ (if query \<noteq> [] then ''?'' @ query else [])
        \<and> ''..'' \<notin> set (split_on slash p) \<and> hc_method c = verb \<and> hc_content c = body
        \<and> int (length body) \<le> pl_max_request_bytes limits
        \<and> (\<forall>k v. (k, v) \<in> set (hc_headers c) \<longrightarrow> (k, v) \<in> set hs \<and> py_lower k \<in> set forwarded_names)
        \<and> hr_status r = hr_status a \<and> hr_content r = hr_content a
        \<and> int (length (hr_content r)) \<le> pl_max_response_bytes limits
        \<and> (\<forall>k v. (k, v) \<in> set (hr_headers r) \<longrightarrow> (k, v) \<in> set (hr_headers a) \<and> py_lower k \<notin> set excluded_headers)))
   \<and> (''..'' \<in> set (split_on slash path) \<or> pl_max_request_bytes limits < int (length body)
      \<longrightarrow> (\<exists>code message. \<forall>any. custom_http any limits target path verb hs body query = Inl (runtime_failure code message)))"
proof (intro conjI impI)
  assume ok: "custom_http client limits target path verb hs body query = Inr r"
  obtain c a where c: "proxy_call limits True target path verb hs body query = Inr c" and a: "client c = Responded a"
    "int (length (hr_content a)) \<le> pl_max_response_bytes limits" "hr_status r = hr_status a" "hr_content r = hr_content a"
    "set (hr_headers r) \<subseteq> set (hr_headers a)" "\<And>k v. (k, v) \<in> set (hr_headers r) \<Longrightarrow> py_lower k \<notin> set excluded_headers"
    by (rule custom_http_Inr [OF ok]) (rule that)
  obtain p where p: "hc_url c = rstrip_slash target @ slash # p @ (if query \<noteq> [] then ''?'' @ query else [])"
    "''..'' \<notin> set (split_on slash p)" using proxy_call_url [OF c] by blast
  have "(k, v) \<in> set (hc_headers c) \<Longrightarrow> (k, v) \<in> set hs \<and> py_lower k \<in> set forwarded_names" for k v
    unfolding proxy_call_parts(1) [OF c] trusted_forwarded_headers_kept by blast
  with a p proxy_call_parts(2-4) [OF c] show "\<exists>c a p. client c = Responded a
        \<and> hc_url c = rstrip_slash target @ slash # p @ (if query \<noteq> [] then ''?'' @ query else [])
        \<and> ''..'' \<notin> set (split_on slash p) \<and> hc_method c = verb \<and> hc_content c = body
        \<and> int (length body) \<le> pl_max_request_bytes limits
        \<and> (\<forall>k v. (k, v) \<in> set (hc_headers c) \<longrightarrow> (k, v) \<in> set hs \<and> py_lower k \<in> set forwarded_names)
        \<and> hr_status r = hr_status a \<and> hr_content r = hr_content a
        \<and> int (length (hr_content r)) \<le> pl_max_response_bytes limits
        \<and> (\<forall>k v. (k, v) \<in> set (hr_headers r) \<longrightarrow> (k, v) \<in> set (hr_headers a) \<and> py_lower k \<notin> set excluded_headers)"
    by (intro exI [of _ c] exI [of _ a] exI [of _ p]) auto
next
  assume "''..'' \<in> set (split_on slash path) \<or> pl_max_request_bytes limits < int (length body)"
  then have "\<exists>code message. proxy_call limits True target path verb hs body query = Inl (runtime_failure code message)"
    by (auto simp: proxy_call_def safe_proxy_path_def bindE_def)
  then show "\<exists>code message. \<forall>any. custom_http any limits target path verb hs body query = Inl (runtime_failure code message)"
    by (auto simp: custom_http_def proxy_request_def bindE_def)
qed

definition demo_target :: "HttpCall \<Rightarrow> client_outcome" where
  "demo_target c = Responded \<lparr> hr_status = 200, hr_headers = [(''Connection'', ''close''), (''etag'', ''1'')], hr_content = hc_url c \<rparr>"

theorem proxied_request_stays_below_target_witness:
  "(\<exists>r (c :: HttpCall). custom_http demo_target proxy_limits ''http://shop/'' ''//a/b'' ''GET'' [(''X-Request-Id'', ''7'')] [] ''q'' = Inr r
     \<and> hc_url c = ''http://shop/a/b?q'' \<and> hr_content r = hc_url c \<and> hr_headers r = [(''etag'', ''1'')])
   \<and> (\<exists>code message. \<forall>any. custom_http any proxy_limits ''http://shop/'' ''a/../b'' ''GET'' [] [] [] = Inl (runtime_failure code message))"
proof -
  have ok: "custom_http demo_target proxy_limits ''http://shop/'' ''//a/b'' ''GET'' [(''X-Request-Id'', ''7'')] [] ''q'' =
      Inr \<lparr> hr_status = 200, hr_headers = [(''etag'', ''1'')], hr_content = ''http://shop/a/b?q'' \<rparr>" by code_simp
  then obtain c a where "demo_target c = Responded a" "hr_content a = ''http://shop/a/b?q''"
    using proxied_request_stays_below_target [of demo_target proxy_limits "''http://shop/''" "''//a/b''" "''GET''"
        "[(''X-Request-Id'', ''7'')]" "[]" "''q''"] by fastforce
  then have url: "hc_url c = ''http://shop/a/b?q''" by (auto simp: demo_target_def)
  have "''..'' \<in> set (split_on slash ''a/../b'')" by code_simp
  then have "\<exists>code message. \<forall>any. custom_http any proxy_limits ''http://shop/'' ''a/../b'' ''GET'' [] [] [] = Inl (runtime_failure code message)"
    using proxied_request_stays_below_target [of demo_target proxy_limits "''http://shop/''" "''a/../b''" "''GET''" "[]" "[]" "[]"] by blast
  moreover have "\<exists>r (c :: HttpCall). custom_http demo_target proxy_limits ''http://shop/'' ''//a/b'' ''GET'' [(''X-Request-Id'', ''7'')] [] ''q'' = Inr r
     \<and> hc_url c = ''http://shop/a/b?q'' \<and> hr_content r = hc_url c \<and> hr_headers r = [(''etag'', ''1'')]"
    by (intro exI [of _ c] exI [of _ "\<lparr> hr_status = 200, hr_headers = [(''etag'', ''1'')], hr_content = ''http://shop/a/b?q'' \<rparr>"])
      (simp only: ok url HttpResponse.simps simp_thms)
  ultimately show ?thesis by (rule conjI [rotated])
qed

text \<open>
  C38.  The scan of a source tree agrees with its specification: it looks at the first thousand Python
  files below the root whose path has no ignored part, leaves out those over a million bytes, and reports
  an application exactly when all of these can be read and together name one and the same entry point;
  the first file that cannot be read is the error.
\<close>

theorem discovery_matches_specification:
  "discover_fastapi_entrypoints root_parts files =
     map_sum id (\<lambda>found. first_of_each (concat found)) (collect (map (file_entrypoints root_parts) (scanned root_parts 1000 1000000 files)))
   \<and> (detect_asgi_application root_parts files None None = Inr d \<longleftrightarrow>
       (\<exists>found c. map (file_entrypoints root_parts) (scanned root_parts 1000 1000000 files) = map Inr found
          \<and> set (concat found) = {c} \<and> d = asgi_to_json (found_application c ''fastapi'' ''ast'')))"
proof -
  have "discover_fastapi_entrypoints root_parts files =
      map_sum id (\<lambda>found. first_of_each (concat found)) (collect (map (file_entrypoints root_parts) (scanned root_parts 1000 1000000 files)))"
    by (simp add: discover_fastapi_entrypoints_def scan_files_reference bindE_def split: sum.splits)
  then show ?thesis using detect_from_sources by blast
qed

section \<open>Tasks of other agents\<close>

text \<open>
  C39.  A task follows its run: when the runtime executes a run of a graph of the LangGraph adapter, the
  events it journals become exactly two changes of the task's state, first working and last the state
  that belongs to the final status of the stored run, whatever the graph streams in between and however it
  ends.
\<close>

theorem agent_task_follows_run:
  assumes "ready s rp run" and "rq = rc_request (rp_command rp)"
    and "ad_stream ad = (\<lambda>rq. fst (lg_stream a task rq l))"
    and "map_config rq = Inr config" and "stream_mode_arg (rq_stream_modes rq) = Inr modes"
    and "graph_events a rq config modes (ls_graph l) = ((ds, e), g)"
  shows "\<exists>s' r es. execute_receipt rp ad s = (ended_result e, s') \<and> map_of (sv_runs s') (rn_key run) = Some r
    \<and> log_of s' (rn_key run) = log_of s (rn_key run) @ es
    \<and> statuses (a2a_updates es) = [WORKING, settled_task (rn_status r)]"
proof -
  obtain s' r where x: "execute_receipt rp ad s = (ended_result e, s')" and st: "rn_status r = ended_status ds e"
    and out: "outcome s rp run r (lg_prefix rq ds @ [closing rq ds e]) s'"
    using langgraph_execution [OF assms] by blast
  obtain es where es: "list_all2 records (lg_prefix rq ds @ [closing rq ds e]) es"
      "log_of s' (rn_key run) = log_of s (rn_key run) @ es"
    using out by (auto simp: outcome_def grown_def)
  have "map ev_type es = map dr_type (lg_prefix rq ds @ [closing rq ds e])"
    using es(1) by (induction rule: list_all2_induct) (simp_all add: records_def)
  then have "statuses (a2a_updates es) = [WORKING, settled_task (rn_status r)]"
    using graph_task_states [OF assms(6)] st by simp
  moreover have "map_of (sv_runs s') (rn_key run) = Some r" using out by (simp add: outcome_def)
  ultimately show ?thesis using x es(2) by blast
qed

theorem agent_task_follows_run_witness:
  "\<exists>s' r es. execute_receipt (demo_receipt demo_lg_adapter) demo_lg_adapter (demo_received demo_lg_adapter) = (Inr (), s')
    \<and> map_of (sv_runs s') ''r1'' = Some r \<and> log_of s' ''r1'' = log_of (demo_received demo_lg_adapter) ''r1'' @ es
    \<and> statuses (a2a_updates es) = [WORKING, settled_task (rn_status r)]"
proof -
  obtain config ds g where run: "map_config (demo_request ''r1'') = Inr config"
    "stream_mode_arg (rq_stream_modes (demo_request ''r1'')) = Inr (OneMode ''values'')"
    "graph_events (demo_lg [demo_chunk]) (demo_request ''r1'') config (OneMode ''values'') (ls_graph demo_lg_state) = ((ds, None), g)"
    using demo_graph_runs by (elim exE conjE)
  have "rn_key (demo_run demo_lg_adapter) = ''r1''" by code_simp
  moreover have "ended_result None = Inr ()" by (simp add: ended_result_def)
  ultimately show ?thesis
    using agent_task_follows_run [OF demo_ready [of demo_lg_adapter] demo_lg_request [symmetric] demo_lg_stream run] by simp
qed

text \<open>
  C40.  A task of another agent is accepted and never executed: with an outbox, as the local runtime has
  one, the run of the task is stored as pending and its command is not queued, so a worker that finds the
  queue empty keeps waiting and leaves the run as it is.
\<close>

theorem agent_task_is_never_executed:
  assumes "a2a_execute True aid (Some m) (Some t) c s = (Inr x, s')"
    and "\<not> pq_closed (sv_commands s)" and "pq_queue (sv_commands s) = []"
  shows "(\<exists>r. map_of (sv_runs s') t = Some r \<and> rn_status r = PENDING)
    \<and> fst (consume_once s') = Inr None \<and> sv_runs (snd (consume_once s')) = sv_runs s'"
proof -
  have "sv_commands s' = sv_commands s" "\<exists>r. map_of (sv_runs s') t = Some r \<and> rn_status r = PENDING"
    using a2a_not_queued [OF assms(1)] by blast+
  with assms(2,3) show ?thesis using consume_waits [of s'] by simp
qed

definition demo_message :: A2AMessage where
  "demo_message = \<lparr> am_message_id = ''m1'', am_context_id = [], am_parts = [TextPart ''hello''] \<rparr>"

theorem agent_task_is_never_executed_witness:
  "\<exists>x s' r. a2a_execute True (AssistantId ''graph'') (Some demo_message) (Some ''task-1'') None demo_start = (Inr (Some x), s')
    \<and> map_of (sv_runs s') ''task-1'' = Some r \<and> rn_status r = PENDING \<and> fst (consume_once s') = Inr None"
proof -
  let ?run = "a2a_execute True (AssistantId ''graph'') (Some demo_message) (Some ''task-1'') None demo_start"
  have "case fst ?run of Inr (Some _) \<Rightarrow> True | _ \<Rightarrow> False" by code_simp
  then obtain x s' where x: "?run = (Inr (Some x), s')" by (cases ?run) (auto split: sum.splits option.splits)
  have "\<not> pq_closed (sv_commands demo_start)" "pq_queue (sv_commands demo_start) = []" by code_simp+
  from agent_task_is_never_executed [OF x this] x show ?thesis by blast
qed

end
