(* ===== verification/Event_Projector.thy ===== *)
theory Event_Projector
  imports Datetime Memory_Repositories Memory_Events
begin

section \<open>The lifecycle projector\<close>

text \<open>
  \<^verbatim>\<open>services/event_projector/projector.py\<close>: events of the journal are folded into one projection per
  run, deduplicated by event identifier and refused out of order.  The sink is the interface
  \<open>projection_sink\<close>; the in-memory sink implements it.
\<close>

record Projector =
  pr_consumer :: string
  pr_last_sequence :: "(string, int) pydict"
  pr_inbox :: "(string \<times> string) set"
  pr_projections :: projections

definition new_projector :: "string \<Rightarrow> Projector" where
  "new_projector consumer =
     \<lparr> pr_consumer = consumer, pr_last_sequence = [], pr_inbox = {}, pr_projections = [] \<rparr>"

definition fresh_projection :: "string \<Rightarrow> RunProjection" where
  "fresh_projection k =
     \<lparr> pj_run_id = k, pj_status = ''pending'', pj_sequence = -1, pj_started_at = None,
       pj_completed_at = None, pj_result = JNull, pj_error = None, pj_metadata = [] \<rparr>"

definition project_event :: "RuntimeEvent \<Rightarrow> RunProjection \<Rightarrow> RunProjection" where
  "project_event e p =
     (let stamp = Some (isoformat (ev_timestamp e));
          q = p \<lparr> pj_run_id := run_key (ev_identity e), pj_sequence := ev_sequence e, pj_metadata := [] \<rparr>
      in if ev_is (ev_type e) RUN_STARTED then q \<lparr> pj_status := ''running'', pj_started_at := stamp \<rparr>
         else if ev_is (ev_type e) RUN_COMPLETED
         then q \<lparr> pj_status := ''success'', pj_completed_at := stamp, pj_result := ev_data e \<rparr>
         else if ev_is (ev_type e) RUN_CANCELLED then q \<lparr> pj_status := ''cancelled'', pj_completed_at := stamp \<rparr>
         else if ev_is (ev_type e) RUN_FAILED
         then q \<lparr> pj_status := ''error'', pj_completed_at := stamp,
                  pj_error := Some (case ev_data e of JObj d \<Rightarrow> d | v \<Rightarrow> [(''message'', JStr (py_str v))]) \<rparr>
         else if ev_is (ev_type e) RUN_TIMEOUT then q \<lparr> pj_status := ''timeout'', pj_completed_at := stamp \<rparr>
         else q)"

definition projector_handle ::
  "(RunProjection \<Rightarrow> ('w, exc, unit) prog) \<Rightarrow> RuntimeEvent \<Rightarrow> (Projector \<times> 'w, exc, bool) prog" where
  "projector_handle wr e = (\<lambda>(p, w).
     let k = run_key (ev_identity e);
         inbox_key = (pr_consumer p, id_value (ev_event_id e));
         expected = (case map_of (pr_last_sequence p) k of None \<Rightarrow> -1 | Some n \<Rightarrow> n) + 1;
         current = (case map_of (pr_projections p) k of None \<Rightarrow> fresh_projection k | Some q \<Rightarrow> q);
         projection = project_event e current
     in if inbox_key \<in> pr_inbox p then (Inr False, (p, w))
        else if ev_sequence e \<noteq> expected
        then (Inl (ValueError (''out-of-order event for '' @ k @ '': expected '' @ int_str expected
                     @ '', got '' @ int_str (ev_sequence e))), (p, w))
        else let p' = p \<lparr> pr_inbox := insert inbox_key (pr_inbox p),
                          pr_last_sequence := AList.update k (ev_sequence e) (pr_last_sequence p),
                          pr_projections := AList.update k projection (pr_projections p) \<rparr>
             in case wr projection w of
                  (Inl x, w') \<Rightarrow> (Inl x, (p', w'))
                | (Inr _, w') \<Rightarrow> (Inr True, (p', w')))"

subsection \<open>The contract of a sink\<close>

text \<open>The abstract projection of a run is the fold of its events.\<close>

definition projection_of :: "string \<Rightarrow> RuntimeEvent list \<Rightarrow> RunProjection" where
  "projection_of k es = fold project_event es (fresh_projection k)"

definition projector_state :: "Projector \<Rightarrow> string \<Rightarrow> RuntimeEvent list \<Rightarrow> bool" where
  "projector_state p k es \<longleftrightarrow>
     map_of (pr_last_sequence p) k = (if es = [] then None else Some (int (length es) - 1))
     \<and> map_of (pr_projections p) k = (if es = [] then None else Some (projection_of k es))
     \<and> (\<lambda>e. (pr_consumer p, id_value (ev_event_id e))) ` set es \<subseteq> pr_inbox p"

lemma projection_of_snoc: "projection_of k (es @ [e]) = project_event e (projection_of k es)"
  by (simp add: projection_of_def)

lemma new_projector_state: "projector_state (new_projector c) k []"
  by (simp add: projector_state_def new_projector_def)

locale projection_sink =
  fixes wr :: "RunProjection \<Rightarrow> ('w, exc, unit) prog"
    and view :: "'w \<Rightarrow> string \<Rightarrow> RunProjection option"
  assumes write_ok: "fst (wr p w) = Inr ()"
    and write_view: "view (snd (wr p w)) = (view w)(pj_run_id p \<mapsto> p)"
begin

lemma handle_next:
  assumes "projector_state p k es" and "numbered (es @ [e])" and "run_key (ev_identity e) = k"
    and "(pr_consumer p, id_value (ev_event_id e)) \<notin> pr_inbox p"
  obtains p' w' where "projector_handle wr e (p, w) = (Inr True, (p', w'))"
    and "projector_state p' k (es @ [e])" and "view w' = (view w)(k \<mapsto> projection_of k (es @ [e]))"
    and "pr_consumer p' = pr_consumer p"
    and "pr_inbox p' = insert (pr_consumer p, id_value (ev_event_id e)) (pr_inbox p)"
proof -
  have seq: "ev_sequence e = int (length es)" using assms(2) by (simp add: numbered_snoc)
  have cur: "(case map_of (pr_projections p) k of None \<Rightarrow> fresh_projection k | Some q \<Rightarrow> q) = projection_of k es"
    using assms(1) by (auto simp: projector_state_def projection_of_def)
  have ex: "(case map_of (pr_last_sequence p) k of None \<Rightarrow> -1 | Some n \<Rightarrow> n) + 1 = int (length es)"
    using assms(1) by (auto simp: projector_state_def)
  let ?q = "project_event e (projection_of k es)"
  have id: "pj_run_id ?q = k" using assms(3) by (simp add: project_event_def Let_def)
  obtain w' where w': "wr ?q w = (Inr (), w')" "view w' = (view w)(k \<mapsto> ?q)"
    using write_ok [of ?q w] write_view [of ?q w] id by (metis prod.collapse)
  let ?p = "p \<lparr> pr_inbox := insert (pr_consumer p, id_value (ev_event_id e)) (pr_inbox p),
      pr_last_sequence := AList.update k (ev_sequence e) (pr_last_sequence p),
      pr_projections := AList.update k ?q (pr_projections p) \<rparr>"
  have run: "projector_handle wr e (p, w) = (Inr True, (?p, w'))"
    unfolding projector_handle_def prod.case assms(3) cur ex Let_def using assms(4) seq w' by simp
  have st: "projector_state ?p k (es @ [e])"
    using assms(1) seq by (auto simp: projector_state_def projection_of_snoc)
  show ?thesis by (rule that [OF run st]) (simp_all add: w'(2) projection_of_snoc)
qed

lemma handle_log:
  assumes "projector_state p k es" and "numbered (es @ new)"
    and "list_all (\<lambda>e. run_key (ev_identity e) = k) new"
    and "distinct (map (\<lambda>e. id_value (ev_event_id e)) new)"
    and "\<forall>e \<in> set new. (pr_consumer p, id_value (ev_event_id e)) \<notin> pr_inbox p"
    and "view w k = (if es = [] then None else Some (projection_of k es))"
  shows "\<exists>p' w'. mapM (projector_handle wr) new (p, w) = (Inr (map (\<lambda>_. True) new), (p', w'))
    \<and> projector_state p' k (es @ new)
    \<and> view w' k = (if es @ new = [] then None else Some (projection_of k (es @ new)))"
  using assms
proof (induction new arbitrary: p w es)
  case Nil
  then show ?case by (auto simp: ret_def)
next
  case (Cons e new)
  have num: "numbered (es @ [e])"
  proof -
    have "map ev_sequence (take (Suc (length es)) (es @ e # new)) = map int (take (Suc (length es)) [0..<length (es @ e # new)])"
      using Cons.prems(2) unfolding numbered_def by (metis take_map)
    then show ?thesis by (simp add: numbered_def take_upt del: upt_Suc)
  qed
  obtain p1 w1 where s1: "projector_handle wr e (p, w) = (Inr True, (p1, w1))"
    "projector_state p1 k (es @ [e])" "view w1 = (view w)(k \<mapsto> projection_of k (es @ [e]))"
    "pr_consumer p1 = pr_consumer p"
    "pr_inbox p1 = insert (pr_consumer p, id_value (ev_event_id e)) (pr_inbox p)"
    using handle_next [OF Cons.prems(1) num, of w] Cons.prems(3,5) by auto
  have "\<exists>p' w'. mapM (projector_handle wr) new (p1, w1) = (Inr (map (\<lambda>_. True) new), (p', w'))
      \<and> projector_state p' k ((es @ [e]) @ new)
      \<and> view w' k = (if (es @ [e]) @ new = [] then None else Some (projection_of k ((es @ [e]) @ new)))"
  proof (rule Cons.IH [OF s1(2)])
    show "\<forall>x \<in> set new. (pr_consumer p1, id_value (ev_event_id x)) \<notin> pr_inbox p1"
      using Cons.prems(4,5) s1(4,5) by (auto simp: image_iff)
  qed (use s1 Cons.prems in simp_all)
  with s1 show ?case by (auto simp: bindM_def ret_def)
qed

end

interpretation memory_sink: projection_sink memory_sink_write map_of
  by unfold_locales (simp_all add: memory_sink_write_def modifyM_def map_of_update_fun)

subsection \<open>Duplicates, gaps and failing sinks\<close>

lemma handle_duplicate:
  assumes "(pr_consumer p, id_value (ev_event_id e)) \<in> pr_inbox p"
  shows "projector_handle wr e (p, w) = (Inr False, (p, w))"
  using assms by (simp add: projector_handle_def Let_def)

lemma handle_out_of_order:
  assumes "projector_state p (run_key (ev_identity e)) es"
    and "(pr_consumer p, id_value (ev_event_id e)) \<notin> pr_inbox p" and "ev_sequence e \<noteq> int (length es)"
  shows "\<exists>m. projector_handle wr e (p, w) = (Inl (ValueError m), (p, w))"
  using assms by (auto simp: projector_handle_def Let_def projector_state_def split: option.splits)

text \<open>The event is recorded as handled before the sink is called: when the sink fails, the projection
  is not written and a second delivery of the event is taken for a duplicate.\<close>

lemma handle_sink_failure:
  assumes "projector_handle wr e (p, w) = (Inl x, (p', w'))" and "p' \<noteq> p"
  shows "projector_handle wr e (p', w') = (Inr False, (p', w'))"
proof (rule handle_duplicate)
  show "(pr_consumer p', id_value (ev_event_id e)) \<in> pr_inbox p'"
    using assms by (auto simp: projector_handle_def Let_def split: if_splits prod.splits sum.splits)
qed

end
