(* ===== verification/Configuration.thy ===== *)
theory Configuration
  imports Domain
begin

section \<open>Configuration: interpolation, redaction, precedence\<close>

text \<open>
  \<^verbatim>\<open>configuration/interpolation.py\<close> and \<^verbatim>\<open>configuration/precedence.py\<close>.  The regular expression
  \<open>\$\{([A-Za-z_][A-Za-z0-9_]*)(?::([-?])(.*))?\}\<close> is matched by hand: the name is maximal, the group
  \<open>(.*)\<close> is greedy and stops before a newline, and backtracking leaves the last closing brace of the
  line.  The environment is a map.
\<close>

subsection \<open>The expression\<close>

definition name_start :: "char \<Rightarrow> bool" where
  "name_start c \<longleftrightarrow> (let n = (of_char c :: nat) in (65 \<le> n \<and> n \<le> 90) \<or> (97 \<le> n \<and> n \<le> 122) \<or> n = 95)"

definition name_char :: "char \<Rightarrow> bool" where
  "name_char c \<longleftrightarrow> name_start c \<or> is_digit c"

abbreviation (input) close_brace :: char where
  "close_brace \<equiv> CHR 0x7D"

text \<open>\<open>(.*)\}\<close>: the text up to the last closing brace of the line, and what follows that brace.\<close>

definition greedy_brace :: "string \<Rightarrow> (string \<times> string) option" where
  "greedy_brace s =
     (let ln = takeWhile (\<lambda>c. c \<noteq> CHR 0x0A) s;
          rest = dropWhile (\<lambda>c. c \<noteq> CHR 0x0A) s;
          after = takeWhile (\<lambda>c. c \<noteq> close_brace) (rev ln)
      in if close_brace \<in> set ln
         then Some (take (length ln - length after - 1) ln, rev after @ rest) else None)"

datatype operator = NoOp | Dash | Question

record Expression =
  ex_name :: string
  ex_operator :: operator
  ex_argument :: string

text \<open>A match at the head of the text: the groups and the rest of the text.\<close>

definition match_tail :: "string \<Rightarrow> (operator \<times> string \<times> string) option" where
  "match_tail s = (case s of
       c # d # t \<Rightarrow>
         (if c = CHR '':'' \<and> (d = CHR ''-'' \<or> d = CHR ''?'')
          then map_option (\<lambda>(arg, rest). (if d = CHR ''-'' then Dash else Question, arg, rest)) (greedy_brace t)
          else if c = close_brace then Some (NoOp, [], d # t) else None)
     | [c] \<Rightarrow> if c = close_brace then Some (NoOp, [], []) else None
     | [] \<Rightarrow> None)"

definition match_expression :: "string \<Rightarrow> (Expression \<times> string) option" where
  "match_expression s = (case s of
       c # d # t \<Rightarrow>
         (if c = CHR ''$'' \<and> d = CHR 0x7B \<and> t \<noteq> [] \<and> name_start (hd t)
          then map_option (\<lambda>(oper, arg, rest).
                 (\<lparr> ex_name = takeWhile name_char t, ex_operator = oper, ex_argument = arg \<rparr>, rest))
               (match_tail (dropWhile name_char t))
          else None)
     | _ \<Rightarrow> None)"

lemma takeWhile_shorter: "x \<in> set xs \<Longrightarrow> \<not> P x \<Longrightarrow> length (takeWhile P xs) < length xs"
  by (induction xs) auto

lemma greedy_brace_shorter: "greedy_brace s = Some (a, r) \<Longrightarrow> length r < length s"
proof -
  assume g: "greedy_brace s = Some (a, r)"
  let ?ln = "takeWhile (\<lambda>c. c \<noteq> CHR 0x0A) s" and ?rest = "dropWhile (\<lambda>c. c \<noteq> CHR 0x0A) s"
  from g have "close_brace \<in> set ?ln" and r: "r = rev (takeWhile (\<lambda>c. c \<noteq> close_brace) (rev ?ln)) @ ?rest"
    by (auto simp: greedy_brace_def Let_def split: if_splits)
  then have "length (takeWhile (\<lambda>c. c \<noteq> close_brace) (rev ?ln)) < length (rev ?ln)"
    by (intro takeWhile_shorter [of close_brace]) auto
  moreover have "length ?ln + length ?rest = length s"
    by (metis length_append takeWhile_dropWhile_id)
  ultimately show ?thesis using r by simp
qed

lemma match_tail_shorter: "match_tail s = Some (p, a, r) \<Longrightarrow> length r < length s"
  by (auto simp: match_tail_def split: list.splits if_splits dest!: greedy_brace_shorter)

lemma match_shorter: "match_expression s = Some (e, r) \<Longrightarrow> length r < length s"
proof -
  assume "match_expression s = Some (e, r)"
  then obtain c d t p a where s: "s = c # d # t" "match_tail (dropWhile name_char t) = Some (p, a, r)"
    by (auto simp: match_expression_def split: list.splits if_splits)
  from match_tail_shorter [OF s(2)] length_dropWhile_le [of name_char t] s(1) show ?thesis by simp
qed

subsection \<open>Interpolation\<close>

type_synonym environ = "string \<Rightarrow> string option"

text \<open>The replacement of one match.\<close>

definition replace_match :: "environ \<Rightarrow> Expression \<Rightarrow> exc + string" where
  "replace_match env e =
     (case env (ex_name e) of
        Some v \<Rightarrow>
          if v \<noteq> [] then Inr v
          else (case ex_operator e of
              Dash \<Rightarrow> Inr (ex_argument e)
            | Question \<Rightarrow> Inl (ValueError (if ex_argument e \<noteq> [] then ex_argument e
                else ''environment variable '' @ ex_name e @ '' is required''))
            | NoOp \<Rightarrow> Inr v)
      | None \<Rightarrow>
          (case ex_operator e of
              Dash \<Rightarrow> Inr (ex_argument e)
            | Question \<Rightarrow> Inl (ValueError (if ex_argument e \<noteq> [] then ex_argument e
                else ''environment variable '' @ ex_name e @ '' is required''))
            | NoOp \<Rightarrow> Inl (ValueError (''environment variable '' @ ex_name e @ '' is required''))))"

text \<open>\<open>re.sub\<close>: matches are replaced from left to right and the scan goes on behind each match.\<close>

function substitute :: "environ \<Rightarrow> string \<Rightarrow> exc + string" where
  "substitute env s =
     (case match_expression s of
        Some (e, rest) \<Rightarrow>
          (case replace_match env e of
             Inl x \<Rightarrow> Inl x
           | Inr v \<Rightarrow> (case substitute env rest of Inl x \<Rightarrow> Inl x | Inr w \<Rightarrow> Inr (v @ w)))
      | None \<Rightarrow>
          (case s of
             [] \<Rightarrow> Inr []
           | c # cs \<Rightarrow> (case substitute env cs of Inl x \<Rightarrow> Inl x | Inr w \<Rightarrow> Inr (c # w))))"
  by pat_completeness auto
termination
  by (relation "measure (\<lambda>(_, s). length s)") (auto dest: match_shorter)

declare substitute.simps [simp del]

definition interpolate_text :: "environ \<Rightarrow> string \<Rightarrow> exc + string" where
  "interpolate_text env s = (case substitute env s of
       Inl x \<Rightarrow> Inl x
     | Inr r \<Rightarrow> if contains [CHR ''$'', CHR 0x7B] r
         then Inl (ValueError ''unsupported environment interpolation expression'') else Inr r)"

primrec interpolate_environment :: "environ \<Rightarrow> json \<Rightarrow> exc + json" where
  "interpolate_environment env JNull = Inr JNull"
| "interpolate_environment env (JBool b) = Inr (JBool b)"
| "interpolate_environment env (JInt i) = Inr (JInt i)"
| "interpolate_environment env (JFloat r t) = Inr (JFloat r t)"
| "interpolate_environment env (JStr s) = map_sum id JStr (interpolate_text env s)"
| "interpolate_environment env (JArr xs) = map_sum id JArr (collect (map (interpolate_environment env) xs))"
| "interpolate_environment env (JObj d) =
     map_sum id (\<lambda>vs. JObj (zip (map fst d) vs)) (collect (map snd (map (map_prod id (interpolate_environment env)) d)))"

subsection \<open>Redaction\<close>

definition secret_words :: "string list" where
  "secret_words = [''key'', ''token'', ''secret'', ''password'', ''credential'']"

definition secret_name :: "string \<Rightarrow> bool" where
  "secret_name k \<longleftrightarrow> list_ex (\<lambda>w. contains w (py_lower k)) secret_words"

primrec redact_secrets :: "string \<Rightarrow> json \<Rightarrow> json" where
  "redact_secrets rep JNull = JNull"
| "redact_secrets rep (JBool b) = JBool b"
| "redact_secrets rep (JInt i) = JInt i"
| "redact_secrets rep (JFloat r t) = JFloat r t"
| "redact_secrets rep (JStr s) = JStr s"
| "redact_secrets rep (JArr xs) = JArr (map (redact_secrets rep) xs)"
| "redact_secrets rep (JObj d) = JObj (map (\<lambda>(k, v). (k, if secret_name k then JStr rep else v))
     (map (map_prod id (redact_secrets rep)) d))"

subsection \<open>Precedence\<close>

text \<open>\<open>_merge_object\<close>: objects merge member by member, anything else replaces.\<close>

function merge_object :: "obj \<Rightarrow> obj \<Rightarrow> obj" where
  "merge_object target [] = target"
| "merge_object target ((k, v) # source) =
     merge_object
       (AList.update k
          (case (v, map_of target k) of
             (JObj e, Some (JObj t)) \<Rightarrow> JObj (merge_object t e)
           | _ \<Rightarrow> v) target)
       source"
  by pat_completeness auto
termination
  by (relation "measure (\<lambda>(_, s). size (JObj s))") auto

definition merge_config_precedence :: "obj list \<Rightarrow> obj" where
  "merge_config_precedence layers = foldl merge_object [] layers"

subsection \<open>Interpolation: texts without an expression, single expressions\<close>

abbreviation (input) dollar_brace :: string where
  "dollar_brace \<equiv> [CHR ''$'', CHR 0x7B]"

lemma match_needs_dollar: "match_expression s = Some x \<Longrightarrow> contains dollar_brace s"
proof -
  assume "match_expression s = Some x"
  then obtain t where "s = dollar_brace @ t"
    by (auto simp: match_expression_def split: list.splits if_splits)
  then show ?thesis unfolding contains_iff by (intro exI [of _ "[]"] exI [of _ t]) simp
qed

lemma contains_Cons: "contains n cs \<Longrightarrow> contains n (c # cs)"
  by simp

lemma substitute_plain: "\<not> contains dollar_brace s \<Longrightarrow> substitute env s = Inr s"
proof (induction s)
  case Nil
  then show ?case by (simp add: substitute.simps match_expression_def)
next
  case (Cons c cs)
  then have "match_expression (c # cs) = None" by (metis match_needs_dollar not_None_eq)
  with Cons contains_Cons show ?case by (subst substitute.simps) auto
qed

text \<open>A text without \<open>${\<close> is returned as it is, and a result never contains \<open>${\<close>.\<close>

lemma interpolate_text_plain: "\<not> contains dollar_brace s \<Longrightarrow> interpolate_text env s = Inr s"
  by (simp add: interpolate_text_def substitute_plain)

lemma interpolate_text_resolved: "interpolate_text env s = Inr r \<Longrightarrow> \<not> contains dollar_brace r"
  by (auto simp: interpolate_text_def split: sum.splits if_splits)

lemma interpolate_text_idem:
  "interpolate_text env s = Inr r \<Longrightarrow> interpolate_text env' r = Inr r"
  by (rule interpolate_text_plain) (rule interpolate_text_resolved)

text \<open>How the three forms of an expression match, and what they resolve to.\<close>

definition valid_name :: "string \<Rightarrow> bool" where
  "valid_name n \<longleftrightarrow> n \<noteq> [] \<and> name_start (hd n) \<and> list_all name_char n"

lemma takeWhile_name:
  assumes "list_all name_char n" and "\<not> name_char c"
  shows "takeWhile name_char (n @ c # t) = n" and "dropWhile name_char (n @ c # t) = c # t"
  using assms by (induction n) auto

lemma match_plain:
  assumes "valid_name n"
  shows "match_expression (dollar_brace @ n @ close_brace # t) =
    Some (\<lparr> ex_name = n, ex_operator = NoOp, ex_argument = [] \<rparr>, t)"
proof -
  have nb: "\<not> name_char close_brace" by (simp add: name_char_def name_start_def is_digit_def)
  have "hd (n @ close_brace # t) = hd n" using assms by (simp add: valid_name_def)
  then show ?thesis
    using assms takeWhile_name [OF _ nb, of n t]
    by (cases t) (simp_all add: match_expression_def valid_name_def match_tail_def)
qed

lemma greedy_brace_last:
  assumes "CHR 0x0A \<notin> set arg" and "close_brace \<notin> set (takeWhile (\<lambda>c. c \<noteq> CHR 0x0A) t)"
  shows "greedy_brace (arg @ close_brace # t) = Some (arg, t)"
proof -
  let ?u = "takeWhile (\<lambda>c. c \<noteq> CHR 0x0A) t"
  have arg: "\<forall>c \<in> set arg. c \<noteq> CHR 0x0A" using assms(1) by auto
  have ln: "takeWhile (\<lambda>c. c \<noteq> CHR 0x0A) (arg @ close_brace # t) = arg @ close_brace # ?u"
    "dropWhile (\<lambda>c. c \<noteq> CHR 0x0A) (arg @ close_brace # t) = dropWhile (\<lambda>c. c \<noteq> CHR 0x0A) t"
    using arg by (simp_all add: takeWhile_append dropWhile_append)
  have "\<forall>c \<in> set (rev ?u). c \<noteq> close_brace" using assms(2) by auto
  then have "takeWhile (\<lambda>c. c \<noteq> close_brace) (rev (arg @ close_brace # ?u)) = rev ?u"
    by (simp add: takeWhile_append)
  with ln show ?thesis by (simp add: greedy_brace_def Let_def takeWhile_dropWhile_id)
qed

lemma match_operator:
  assumes "valid_name n" and "CHR 0x0A \<notin> set arg" and "close_brace \<notin> set (takeWhile (\<lambda>c. c \<noteq> CHR 0x0A) t)"
    and "d = CHR ''-'' \<or> d = CHR ''?''"
  shows "match_expression (dollar_brace @ n @ CHR '':'' # d # arg @ close_brace # t) =
    Some (\<lparr> ex_name = n, ex_operator = (if d = CHR ''-'' then Dash else Question), ex_argument = arg \<rparr>, t)"
proof -
  have nb: "\<not> name_char (CHR '':'')" by (simp add: name_char_def name_start_def is_digit_def)
  have "hd (n @ CHR '':'' # d # arg @ close_brace # t) = hd n" using assms(1) by (simp add: valid_name_def)
  then show ?thesis
    using assms takeWhile_name [OF _ nb, of n "d # arg @ close_brace # t"] greedy_brace_last [OF assms(2,3)]
    by (auto simp: match_expression_def valid_name_def match_tail_def)
qed

lemma substitute_match:
  assumes "match_expression s = Some (e, t)" and "\<not> contains dollar_brace t"
  shows "substitute env s = map_sum id (\<lambda>v. v @ t) (replace_match env e)"
  using assms by (subst substitute.simps) (simp add: substitute_plain split: sum.splits)

lemma interpolate_idem:
  "interpolate_environment env v = Inr w \<Longrightarrow> interpolate_environment env' w = Inr w"
proof (induction v arbitrary: w)
  case (JStr s)
  then obtain r where "interpolate_text env s = Inr r" "w = JStr r"
    by (cases "interpolate_text env s") auto
  then show ?case by (simp add: interpolate_text_idem)
next
  case (JArr xs)
  then obtain ys where w: "w = JArr ys" and ys: "map (interpolate_environment env) xs = map Inr ys"
    by (cases "collect (map (interpolate_environment env) xs)") (auto dest: collect_InrD)
  have "map (interpolate_environment env') ys = map Inr ys"
  proof (rule nth_equalityI)
    fix i assume "i < length (map (interpolate_environment env') ys)"
    then have i: "i < length xs" "i < length ys" using ys by (auto dest: map_eq_imp_length_eq)
    then have "interpolate_environment env (xs ! i) = Inr (ys ! i)" using ys by (metis nth_map)
    with JArr.IH [of "xs ! i"] i show "map (interpolate_environment env') ys ! i = map Inr ys ! i" by simp
  qed simp
  then have "collect (map (interpolate_environment env') ys) = Inr ys" by (simp only: collect_all)
  then show ?case using w by simp
next
  case (JObj d)
  let ?f = "interpolate_environment env" and ?g = "interpolate_environment env'"
  have comp: "map snd (map (map_prod id f) xs) = map (f \<circ> snd) xs" for f :: "json \<Rightarrow> exc + json" and xs
    by auto
  from JObj.prems obtain vs where w: "w = JObj (zip (map fst d) vs)" and vs: "map (?f \<circ> snd) d = map Inr vs"
    unfolding interpolate_environment.simps comp
    by (cases "collect (map (?f \<circ> snd) d)") (auto dest: collect_InrD)
  then have len: "length vs = length d" by (metis length_map)
  have "map ?g vs = map Inr vs"
  proof (rule nth_equalityI)
    fix i assume "i < length (map ?g vs)"
    then have i: "i < length d" "i < length vs" using len by auto
    then have "?f (snd (d ! i)) = Inr (vs ! i)" using vs by (metis comp_apply nth_map)
    moreover have "snd (d ! i) \<in> Basic_BNFs.snds (d ! i)" by (simp add: snds.simps)
    ultimately have "?g (vs ! i) = Inr (vs ! i)" using JObj.IH [of "d ! i" "snd (d ! i)"] i by simp
    with i show "map ?g vs ! i = map Inr vs ! i" by simp
  qed simp
  moreover have "map (?g \<circ> snd) (zip (map fst d) vs) = map ?g vs"
    using len by (metis length_map map_map map_snd_zip)
  ultimately have "collect (map (?g \<circ> snd) (zip (map fst d) vs)) = Inr vs" by (simp only: collect_all)
  then show ?case
    unfolding w interpolate_environment.simps comp using len by simp
qed auto

subsection \<open>Redaction\<close>

text \<open>Redacting twice changes nothing more, and the text of a secret member is gone wherever it
  occurs.\<close>

primrec unredacted :: "string \<Rightarrow> json \<Rightarrow> bool" where
  "unredacted rep JNull = False"
| "unredacted rep (JBool b) = False"
| "unredacted rep (JInt i) = False"
| "unredacted rep (JFloat r t) = False"
| "unredacted rep (JStr s) = False"
| "unredacted rep (JArr xs) = list_ex id (map (unredacted rep) xs)"
| "unredacted rep (JObj d) = (list_ex (\<lambda>(k, v). secret_name k \<and> v \<noteq> JStr rep) d
     \<or> list_ex snd (map (map_prod id (unredacted rep)) d))"

lemma redact_no_leak: "\<not> unredacted rep (redact_secrets rep v)"
proof (induction v)
  case (JArr xs)
  then show ?case by (auto simp: list_ex_iff)
next
  case (JObj d)
  have "\<not> unredacted rep (redact_secrets rep v)" if "(k, v) \<in> set d" for k v
    using JObj [OF that] by (simp add: snds.simps)
  then show ?case by (auto simp: list_ex_iff split: if_splits)
qed simp_all

lemma redact_idem: "redact_secrets rep (redact_secrets rep v) = redact_secrets rep v"
proof (induction v)
  case (JObj d)
  have "redact_secrets rep (redact_secrets rep v) = redact_secrets rep v" if "(k, v) \<in> set d" for k v
    using JObj [OF that] by (simp add: snds.simps)
  then show ?case by auto
qed simp_all

lemma redact_keys:
  "redact_secrets rep (JObj d) = JObj e \<Longrightarrow> map fst e = map fst d"
  by auto

subsection \<open>Precedence\<close>

text \<open>Reading a member of the merge: a later layer wins, and two objects are merged.\<close>

lemma merge_object_lookup:
  assumes "dict_ok source"
  shows "map_of (merge_object target source) k =
    (case map_of source k of
       None \<Rightarrow> map_of target k
     | Some (JObj e) \<Rightarrow> (case map_of target k of Some (JObj t) \<Rightarrow> Some (JObj (merge_object t e)) | _ \<Rightarrow> Some (JObj e))
     | Some v \<Rightarrow> Some v)"
  using assms
proof (induction source arbitrary: target)
  case (Cons p source)
  obtain j v where p: "p = (j, v)" by fastforce
  from Cons.prems p have src: "dict_ok source" "map_of source j = None" by (auto simp: map_of_eq_None_iff)
  show ?case
    using Cons.IH [OF src(1)] src(2) p
    by (cases "j = k") (auto split: option.splits json.splits)
qed simp

lemma merge_object_ok: "dict_ok target \<Longrightarrow> dict_ok (merge_object target source)"
proof (induction source arbitrary: target)
  case (Cons p source)
  then show ?case by (cases p) simp
qed simp

end
