(* ===== verification/Spec2Isabelle.thy ===== *)
theory Spec2Isabelle
  imports Distributed_Properties Edge_Properties Boundary_Properties Event_Projector Configuration Datetime Json_Text
begin

text \<open>
  A verification of the Universal Runtime (\<^verbatim>\<open>src/src/universal_runtime\<close>): a service that accepts requests
  to run agent graphs on threads, queues them as commands, executes them on workers through adapters, and
  journals, projects and streams the events of every run.  File names below are relative to that directory.

  \<^bold>\<open>The program and how it is modelled.\<close>  The domain objects (\<^verbatim>\<open>domain/\<close>) are records and datatypes.  An
  operation that awaits, raises and changes state is a program \<open>'s \<Rightarrow> (exc + 'a) \<times> 's\<close> of \<open>Prelude\<close>: it
  returns a value or an exception together with the new state, so nothing is partial and every raise of
  the source is a branch.  A dictionary is an association list in insertion order, a database table is the
  list of its rows, and what a program reads from outside (clock, fresh identifiers, the outcome of a client
  library's call, the stream of an adapter) is a field of its state or a parameter.  Where tasks
  interleave, the operations are split at the points where the code suspends, and an inductive step
  relation runs them in any order.

  \<^item> \<open>Prelude\<close>, \<open>Python_Values\<close>, \<open>Json_Text\<close>, \<open>Datetime\<close>, \<open>Sha256\<close>: the program monad with its Hoare rules,
    dictionaries, JSON values, and the parts of Python's standard library the code uses (equality, \<open>str\<close>,
    \<open>json\<close>, ISO time stamps, SHA-256).
  \<^item> \<open>Domain\<close>: identifiers, identities, statuses, threads, runs, requests, commands, events, manifests.
  \<^item> \<open>Memory_Repositories\<close>, \<open>Memory_Queue\<close>, \<open>Memory_Events\<close>, \<open>Memory_Capacity\<close>: \<^verbatim>\<open>adapters/memory/\<close>.
    The locales \<open>command_queue\<close> and \<open>event_log\<close> state what the ports of queues and journals promise.
  \<^item> \<open>Runtime_Service\<close>, \<open>Runtime_Execution\<close>, \<open>Runtime_Steps\<close>, \<open>Runtime_Requests\<close>, \<open>Runtime_Scenario\<close>:
    \<^verbatim>\<open>application/runtime_service.py\<close> and \<^verbatim>\<open>bootstrap/local.py\<close>, first as whole operations, then with the
    execution of a run as small steps between which requests are served.
  \<^item> \<open>Event_Projector\<close>, \<open>Configuration\<close>, \<open>Configuration_Store\<close>: \<^verbatim>\<open>services/event_projector/projector.py\<close>,
    \<^verbatim>\<open>configuration/\<close>, and the two stores of configuration revisions, both interpreting \<open>config_store\<close>.
  \<^item> \<open>Kafka_Dispatch\<close>, \<open>Kafka_Codec\<close>: \<^verbatim>\<open>adapters/kafka/\<close>.  The facade queue interprets \<open>command_queue\<close>.
  \<^item> \<open>Postgres_Repositories\<close>, \<open>Postgres_Refinement\<close>, \<open>Postgres_Events\<close>, \<open>Postgres_Schema\<close>:
    \<^verbatim>\<open>adapters/postgres/\<close>.  The refinement abstracts the table of runs to the in-memory repository; the
    journal interprets \<open>event_log\<close>.
  \<^item> \<open>Grpc_Worker\<close>, \<open>Worker_Service\<close>: \<^verbatim>\<open>adapters/grpc/\<close>, \<^verbatim>\<open>services/worker/main.py\<close>, \<^verbatim>\<open>services/all/main.py\<close>.
    The locale \<open>worker_invariant\<close> carries a property of the worker's state through everything a command does.
  \<^item> \<open>LangGraph_Stream\<close>, \<open>LangGraph_Loading\<close>, \<open>LangGraph_Adapter\<close>: \<^verbatim>\<open>adapters/langgraph/\<close>.  A graph is a record
    of the methods the code calls, each a function of the graph's own state, which is a type parameter; what
    it streams are Python objects (\<open>pyobj\<close>), from chunks to drafts.
  \<^item> \<open>Gateway_State\<close>, \<open>Gateway_Resources\<close>, \<open>Gateway_Runs\<close>, \<open>Gateway_Streams\<close>: \<^verbatim>\<open>services/gateway/app.py\<close>, one
    definition per route, over the state of the application and the runtime it holds.  \<open>Gateway_Routes\<close>
    collects the routes in one function and adds the local worker and the event ingress as a step relation;
    the locale \<open>gateway_invariant\<close> carries a property of the gateway's state through every route and is
    interpreted for the tables, the active runs and the queues of the streams.
  \<^item> \<open>Gateway_Delivery\<close>, \<open>Worker_Gateway\<close>: a client of event streams as a specification, and the composition of
    worker, gateway and client.
  \<^item> \<open>Launcher\<close>, \<open>Gateway_Startup\<close>: \<^verbatim>\<open>bootstrap/\<close>, the start of the worker and gateway processes and the hooks
    of \<^verbatim>\<open>services/gateway/app.py\<close>: settings, commands, the production runtime, and the registration of the
    configured graphs.
  \<^item> \<open>Http_Proxy\<close>, \<open>Asgi_Application\<close>: \<^verbatim>\<open>transport/http/\<close>, \<^verbatim>\<open>services/gateway/custom_http_routes.py\<close> and
    \<^verbatim>\<open>adapters/fastapi/\<close>: the proxy to application routes; discovery, loading and middlewares of an application.
  \<^item> \<open>A2A_Adapter\<close>: \<^verbatim>\<open>adapters/a2a/\<close>: agent cards, messages to requests, events to updates of tasks.
  \<^item> \<open>Distributed_Properties\<close> holds the properties of the distributed parts, \<open>Edge_Properties\<close> those of the gateway
    and the LangGraph adapter, \<open>Boundary_Properties\<close> those of start, proxy, discovery and agent tasks, this theory
    those of the local runtime.

  \<^bold>\<open>What the properties show.\<close>  For the local runtime: a request that may start is executed to the result
  its adapter streams, every failure settles the run, terminal statuses are final except through the
  interrupt path, one run is active per thread, and the small steps refine the whole execution.  The queue
  loses no command, a journal reader misses no event, slots bound executions, projections and configuration
  follow their inputs.  For the distributed parts: the Postgres table of runs refines the in-memory repository
  and its unique index keeps one active run per thread under every write; commands, values and identities
  survive their encodings; old commands are not starved; a worker settles what its adapter completes,
  leaves running what ends without a terminal event, and never breaks the tables or loses a slot.  For the
  edge: the events of a worker reach the client that asked for them, in order and unchanged, and no other
  client; the routes keep the invariants of the runtime in every interleaving; a waiting request returns
  in the round in which its run is settled; a graph cannot escape the identity of its request or lose its
  managed persistence, and each of its behaviours settles the run once.  At the boundary: every graph the
  settings name is served after the start and answers; a proxied request stays below its target; discovery
  agrees with its specification; the state of an agent's task follows the status of its run.  Several
  properties state what the code does where it is not what it means to do; the findings of the manifest
  name them.

  \<^bold>\<open>Bounds.\<close>  The loops over queues and streams are recursions over the list of what arrives, so their models
  are total; \<open>consume_commands\<close> takes the number of turns as fuel and one turn is enough for one command.
  The JSON reader takes the length of its text as fuel, which \<open>json_loads_dumps\<close> shows to be enough.
  \<open>wait_for_run\<close> takes the number of polls as fuel; \<open>wait_for_run_returns\<close> says how many are enough.

  \<^bold>\<open>Not modelled.\<close>  Logging and tracing (no effect on the state), the generated protobuf code (the messages are
  records), tables of \<^verbatim>\<open>adapters/postgres/models.py\<close> that no repository reads, connection pools, signal handlers,
  listening on ports, the option syntax of the argument parser, the routing and validation of the web
  framework, and the routes and task store of the A2A software kit.  Importing modules, parsing Python sources,
  subprocesses, the HTTP client and the conversion of text to doubles are parameters of the definitions that
  use them.
\<close>

section \<open>Runs from request to result\<close>


definition demo_ok :: Adapter where
  "demo_ok = demo_adapter [values_draft ''r1'' (JInt 1), values_draft ''r1'' (JInt 7)] None"


text \<open>
  C2.  When the adapter's stream ends with a terminal event, the run takes the status of that event
  (an interrupt leaves it interrupted, a timeout or failure ends it as error), every event of the stream
  is in the journal in order, the thread is released and the command is acknowledged.
\<close>

theorem execution_follows_terminal_event:
  assumes "ready s rp run" and "stream_of rp a = (ds @ [d], None)" and "list_all plain ds"
    and "own_drafts run (ds @ [d])" and "dr_type d = Ev ty" and "ty \<in> set terminal_events"
  shows "\<exists>s' r. execute_receipt rp a s = (Inr (), s') \<and> outcome s rp run r (ds @ [d]) s'
    \<and> rn_status r = settled_status ty \<and> (ty = RUN_COMPLETED \<longrightarrow> rn_result r = last_value JNull ds)"
  using assms by (rule execute_terminal)

definition demo_done :: Adapter where
  "demo_done = demo_adapter [values_draft ''r1'' (JInt 7), make_draft (demo_identity ''r1'') RUN_COMPLETED JNull] None"

theorem execution_follows_terminal_event_witness:
  "\<exists>s' r. execute_receipt (demo_receipt demo_done) demo_done (demo_received demo_done) = (Inr (), s')
    \<and> rn_status r = SUCCESS \<and> rn_result r = JInt 7 \<and> map_of (sv_runs s') ''r1'' = Some r"
proof -
  have "own_drafts (demo_run demo_done)
      ([values_draft ''r1'' (JInt 7)] @ [make_draft (demo_identity ''r1'') RUN_COMPLETED JNull])"
    and "rn_key (demo_run demo_done) = ''r1''"
    and "list_all plain [values_draft ''r1'' (JInt 7)]"
    and "last_value JNull [values_draft ''r1'' (JInt 7)] = JInt 7"
    by code_simp+
  moreover have "stream_of rp demo_done =
      ([values_draft ''r1'' (JInt 7)] @ [make_draft (demo_identity ''r1'') RUN_COMPLETED JNull], None)" for rp
    by (simp add: demo_done_def demo_adapter_def)
  ultimately show ?thesis
    using execution_follows_terminal_event [OF demo_ready [of demo_done], where a = demo_done
        and ds = "[values_draft ''r1'' (JInt 7)]" and ty = RUN_COMPLETED]
    by (fastforce simp: outcome_def settled_status_def terminal_events_def make_draft_def)
qed




section \<open>All interleavings of the local runtime\<close>

text \<open>
  C4.  In every state the local runtime can reach, with requests, cancellations and the worker's
  execution interleaved at every point where the code awaits, the stores, the queue and the journal are
  well formed, runs are filed under their own identifiers, and no thread has two active runs, as long as
  no adapter emits an interrupt event.
\<close>

theorem one_active_run_per_thread:
  assumes "create_local_runtime m clock ids = Inr s0" and "inj ids"
    and "(svc_step (\<lambda>d. \<not> ev_is (dr_type d) RUN_INTERRUPTED))\<^sup>*\<^sup>* (s0, None) (s, f)"
  shows "svc_wf s \<and> one_active (sv_runs s)"
  using reachable_wf [OF assms] reachable_runs_ok [OF assms] by (simp add: runs_only_def)

theorem one_active_run_per_thread_witness:
  "svc_wf (fst (demo_flight demo_ok)) \<and> one_active (sv_runs (fst (demo_flight demo_ok)))"
  using one_active_run_per_thread [OF demo_start demo_ids_inj, of "fst (demo_flight demo_ok)" "snd (demo_flight demo_ok)"]
    demo_flight_reachable by simp






section \<open>Requests\<close>

text \<open>
  A startable request on an open queue is accepted: one pending run with the request's identity and
  metadata is stored, its thread is busy, the queued event is journalled, and one command carrying the
  request is queued with the request's priority.  With the queue closed the request fails with
  \<open>QUEUE_CLOSED\<close>, and what was prepared is settled: the run ends as error and its thread is in error.
\<close>

lemma start_run_outcome:
  assumes "keyed_by th_key (sv_threads s)" and "startable s rq" and "sv_journal_on s" and "\<not> sv_outbox_on s"
  shows "if pq_closed (sv_commands s)
    then \<exists>s' r. start_run False rq s = (Inl (runtime_failure QUEUE_CLOSED ''run command queue is closed''), s')
      \<and> map_of (sv_runs s') = (map_of (sv_runs s))(rq_run_key rq \<mapsto> r)
      \<and> rn_status r = ERROR \<and> rn_error r = Some queue_failed \<and> threads_taken s rq T_ERROR s'
      \<and> sv_commands s' = sv_commands s
    else \<exists>r s'. start_run False rq s = (Inr r, s') \<and> started s rq r s'"
  using start_run_queue_closed [OF assms] start_run_queues [OF assms] by simp

text \<open>
  C8.  A request on a thread that is not busy but has an active run (an interrupted one) is refused, and
  the thread is left busy: it was marked before the run was created, outside the error handling.  Every
  later request on the thread is then refused.
\<close>

theorem start_run_leaves_thread_busy:
  assumes "keyed_by th_key (sv_threads s)" and "rq_thread_key rq = Some t"
    and "map_of (sv_threads s) t = Some th" and "th_status th \<noteq> T_BUSY"
    and "map_of (sv_runs s) (rq_run_key rq) = None" and "runs_active (sv_runs s) t \<noteq> None"
  shows "\<exists>s'. start_run b rq s =
      (Inl (runtime_failure THREAD_BUSY (''thread already has an active run: '' @ t)), s')
    \<and> (\<forall>rq' b'. rq_thread_key rq' = Some t \<longrightarrow>
         start_run b' rq' s' = (Inl (runtime_failure THREAD_BUSY (''thread is busy: '' @ t)),
           s' \<lparr> sv_clock_ix := Suc (sv_clock_ix s') \<rparr>))"
  using start_run_conflict [OF assms] start_run_busy_thread by blast

definition demo_interrupted :: Service where
  "demo_interrupted = snd (execute_receipt (demo_receipt demo_ok) (demo_adapter [demo_interrupt] None)
     (demo_received demo_ok))"

theorem start_run_leaves_thread_busy_witness:
  "\<exists>s'. start_run False (demo_request ''r2'') demo_interrupted =
     (Inl (runtime_failure THREAD_BUSY ''thread already has an active run: t''), s')"
proof -
  have "rq_thread_key (demo_request ''r2'') = Some ''t''"
    and "map_option th_status (map_of (sv_threads demo_interrupted) ''t'') = Some T_INTERRUPTED"
    and "map_of (sv_runs demo_interrupted) (rq_run_key (demo_request ''r2'')) = None"
    and "runs_active (sv_runs demo_interrupted) ''t'' \<noteq> None"
    by code_simp+
  moreover have "keyed_by th_key (sv_threads demo_interrupted)"
    using preserves_state [OF svc_wf_execute_receipt demo_received_wf]
    by (simp add: demo_interrupted_def svc_wf_def)
  ultimately show ?thesis
    using start_run_leaves_thread_busy [of demo_interrupted "demo_request ''r2''" "''t''" _ False] by auto
qed

text \<open>
  C9.  Cancelling an active run ends it as cancelled, journals the cancellation and frees its thread;
  cancelling a finished run returns it unchanged; an unknown run is an error.
\<close>

theorem cancel_run_outcome:
  "(map_of (sv_runs s) k = None \<longrightarrow> cancel_run k s = (Inl (run_missing k), s))
   \<and> (\<forall>r. map_of (sv_runs s) k = Some r \<longrightarrow> is_terminal (rn_status r) \<longrightarrow> cancel_run k s = (Inr r, s))
   \<and> (\<forall>r. rn_key r = k \<longrightarrow> cancellable s r \<longrightarrow>
        (\<exists>s' r'. cancel_run k s = (Inr r', s') \<and> rn_status r' = CANCELLED \<and> rn_identity r' = rn_identity r
          \<and> map_of (sv_runs s') = (map_of (sv_runs s))(k \<mapsto> r')
          \<and> grown s k [cancelled_draft r] s' \<and> sv_commands s' = sv_commands s
          \<and> (case rn_thread_key r of None \<Rightarrow> sv_threads s' = sv_threads s
             | Some t \<Rightarrow> \<exists>th. map_of (sv_threads s') = (map_of (sv_threads s))(t \<mapsto> th) \<and> th_status th = T_IDLE)))"
  using cancel_run_missing cancel_run_terminal cancel_run_active by blast

theorem cancel_run_outcome_witness:
  "\<exists>s' r'. cancel_run ''r1'' (demo_received demo_ok) = (Inr r', s') \<and> rn_status r' = CANCELLED"
proof -
  have "rn_key (demo_run demo_ok) = ''r1''" and "rn_thread_key (demo_run demo_ok) = Some ''t''"
    and "map_of (sv_runs (demo_received demo_ok)) ''r1'' = Some (demo_run demo_ok)"
    and "is_active (rn_status (demo_run demo_ok))" and "sv_journal_on (demo_received demo_ok)"
    and "map fst (sv_active_adapters (demo_received demo_ok)) = []"
    and "map_of (sv_threads (demo_received demo_ok)) ''t'' \<noteq> None"
    by code_simp+
  then have "cancellable (demo_received demo_ok) (demo_run demo_ok)" and "rn_key (demo_run demo_ok) = ''r1''"
    using demo_received_wf by (simp_all add: cancellable_def)
  then show ?thesis using cancel_run_outcome [of "demo_received demo_ok" "''r1''"] by blast
qed

text \<open>
  C10.  Resuming an interrupted run has no effect on it: the run keeps its interrupted status and the
  command that \<open>resume_run\<close> publishes is acknowledged without execution, because the worker executes
  pending runs only.
\<close>

theorem resume_run_has_no_effect:
  assumes "svc_wf s" and "map_of (sv_runs s) (rq_run_key rq) = Some run" and "resume_run rq s = (Inr r, s')"
    and "rc_request (rp_command rp) = rq"
  shows "rn_status r = INTERRUPTED \<and> sv_runs s' = sv_runs s
    \<and> execute_receipt rp a s' = on_commands (queue_acknowledge rp) s'
    \<and> sv_runs (snd (execute_receipt rp a s')) = sv_runs s"
  using resume_run_ignored [OF assms] by blast

theorem resume_run_has_no_effect_witness:
  "\<exists>r s'. resume_run (demo_request ''r1'') demo_interrupted = (Inr r, s') \<and> rn_status r = INTERRUPTED
    \<and> sv_runs (snd (execute_receipt (demo_receipt demo_ok) demo_ok s')) = sv_runs demo_interrupted"
proof -
  have "svc_wf demo_interrupted"
    using preserves_state [OF svc_wf_execute_receipt demo_received_wf] by (simp add: demo_interrupted_def)
  moreover have "map_of (sv_runs demo_interrupted) (rq_run_key (demo_request ''r1'')) \<noteq> None"
    and "case fst (resume_run (demo_request ''r1'') demo_interrupted) of Inr _ \<Rightarrow> True | Inl _ \<Rightarrow> False"
    and "rc_request (rp_command (demo_receipt demo_ok)) = demo_request ''r1''"
    by code_simp+
  moreover then obtain r s' where resumed: "resume_run (demo_request ''r1'') demo_interrupted = (Inr r, s')"
    by (cases "resume_run (demo_request ''r1'') demo_interrupted") (auto split: sum.splits)
  ultimately show ?thesis
    using resume_run_has_no_effect [OF _ _ resumed] by blast
qed

section \<open>Commands\<close>

text \<open>
  C11.  The command queue loses and invents nothing: after any sequence of publishes, receives,
  acknowledgements and rejections on a new queue, the commands it holds (waiting or leased), the dead
  letters and the acknowledged commands are together exactly the commands published.
\<close>

theorem commands_conserved:
  assumes "memory_queue.ops_ok xs (new_queue l m)"
  shows "queue_held (memory_queue.run_ops xs (new_queue l m))
      + mset (pq_dead_letters (memory_queue.run_ops xs (new_queue l m)))
      + memory_queue.all_finished xs (new_queue l m)
    = memory_queue.all_entered xs (new_queue l m)"
  using memory_queue.ops_conserve [OF new_queue_inv assms] by (simp add: queue_held_def new_queue_def)

theorem commands_conserved_witness:
  "queue_held (memory_queue.run_ops [Publish (demo_command ''r1'' NORMAL), Receive 0 ''l''] (new_queue 60 3))
      + mset (pq_dead_letters (memory_queue.run_ops
          [Publish (demo_command ''r1'' NORMAL), Receive 0 ''l''] (new_queue 60 3)))
      + memory_queue.all_finished [Publish (demo_command ''r1'' NORMAL), Receive 0 ''l''] (new_queue 60 3)
    = {#demo_command ''r1'' NORMAL#}"
  using commands_conserved [of "[Publish (demo_command ''r1'' NORMAL), Receive 0 ''l'']" 60 3]
  by (simp add: queue_publish_def new_queue_def pq_enqueue_def pq_put_def Let_def)

section \<open>Events\<close>

text \<open>
  C12.  A reader that has replayed a run's events and asks again with the last sequence number it saw gets
  exactly the events appended since, each once and in order.
\<close>

theorem replay_catches_up:
  assumes "journal_inv j" and "journal_replay k n j = (Inr es, j)" and "es \<noteq> []" and "-1 \<le> n"
    and "mapM (\<lambda>(now, i, d). journal_append now i d) xs j = (Inr new, j')"
    and "list_all (\<lambda>(now, i, d). run_key (dr_identity d) = k) xs"
  shows "journal_replay k (ev_sequence (last es)) j' = (Inr new, j') \<and> length new = length xs"
proof -
  have "length new = length xs" using assms(5) by (rule mapM_length)
  moreover have "list_all (\<lambda>(now, i, d). True \<and> run_key (dr_identity d) = k) xs" using assms(6) by simp
  from memory_log.append_all [OF assms(1,5) this] have "journal_inv j'" "events_of j' k = events_of j k @ new" by simp_all
  ultimately show ?thesis using memory_log.replay_resume [OF assms(1) _ _ assms(2-4)] by blast
qed

definition demo_journal :: EventJournal where
  "demo_journal = (case new_journal 128 of Inr j \<Rightarrow> snd (journal_append 0 ''e0'' (values_draft ''r1'' (JInt 0)) j)
     | Inl _ \<Rightarrow> undefined)"

theorem replay_catches_up_witness:
  "\<exists>new j'. mapM (\<lambda>(now, i, d). journal_append now i d) [(1, ''e1'', values_draft ''r1'' (JInt 1))] demo_journal
      = (Inr new, j') \<and> journal_replay ''r1'' 0 j' = (Inr new, j') \<and> length new = 1"
proof -
  let ?xs = "[(1, ''e1'', values_draft ''r1'' (JInt 1))]"
  have inv: "journal_inv demo_journal" by code_simp
  have es: "case fst (journal_replay ''r1'' (-1) demo_journal) of Inr es \<Rightarrow> es \<noteq> [] \<and> ev_sequence (last es) = 0
      | Inl _ \<Rightarrow> False" by code_simp
  have new: "case fst (mapM (\<lambda>(now, i, d). journal_append now i d) ?xs demo_journal) of Inr _ \<Rightarrow> True | Inl _ \<Rightarrow> False"
    by code_simp
  have own: "list_all (\<lambda>(now, i, d). run_key (dr_identity d) = ''r1'') ?xs" by code_simp
  obtain es1 where es1: "journal_replay ''r1'' (-1) demo_journal = (Inr es1, demo_journal)"
    using memory_log.replay_all [OF inv] by blast
  obtain new1 j' where new1: "mapM (\<lambda>(now, i, d). journal_append now i d) ?xs demo_journal = (Inr new1, j')"
    using new by (cases "mapM (\<lambda>(now, i, d). journal_append now i d) ?xs demo_journal") (auto split: sum.splits)
  show ?thesis
    using replay_catches_up [OF inv es1 _ _ new1 own] es es1 new1 by auto
qed




section \<open>Capacity and batching\<close>

text \<open>
  C14.  However tasks enter and leave the execution slots, no more executions than the configured maximum
  run at a time, the count is never negative, and once every task is outside all slots are free again: no
  slot leaks, on no path.
\<close>

theorem capacity_bounded:
  assumes "new_capacity m = Inr c0" and "capacity_step\<^sup>*\<^sup>* (c0, []) (c, ps)"
  shows "0 \<le> ec_active c \<and> ec_active c \<le> m \<and> ec_active c = count_phase Inside ps
    \<and> (list_all (\<lambda>p. p \<notin> {Acquired, Inside, Leaving}) ps \<longrightarrow> ec_semaphore c = m)"
proof -
  have inv: "capacity_inv m (c, ps)" by (rule capacity_reachable_inv [OF assms])
  have "0 \<le> count_phase Inside ps" "0 \<le> count_phase Acquired ps" "0 \<le> count_phase Leaving ps"
    by (simp_all add: count_phase_def)
  then have "0 \<le> ec_active c \<and> ec_active c \<le> m"
    using inv unfolding capacity_inv_def prod.case by linarith
  moreover have "count_phase p ps = 0" if "list_all (\<lambda>q. q \<noteq> p) ps" for p
    using that by (auto simp: count_phase_def list_all_iff)
  ultimately show ?thesis using inv by (auto simp: capacity_inv_def list_all_iff)
qed

theorem capacity_bounded_witness:
  "\<exists>c0 c ps. new_capacity 1 = Inr c0 \<and> capacity_step\<^sup>*\<^sup>* (c0, []) (c, ps) \<and> ps \<noteq> [] \<and> ec_active c \<le> 1"
proof -
  obtain c0 where c0: "new_capacity 1 = Inr c0" by (simp add: new_capacity_def)
  have run: "capacity_step\<^sup>*\<^sup>* (c0, []) (c0, [Outside])"
    using capacity_step.spawn [of c0 "[]"] by simp
  show ?thesis using capacity_bounded [OF c0 run] c0 run by blast
qed

section \<open>Stores and projections\<close>



section \<open>Configuration and text\<close>

text \<open>
  C16.  Redaction leaves no value readable under a name that looks like a secret, at any depth, and
  redacting twice is redacting once.
\<close>

theorem redaction_hides_secrets:
  "\<not> unredacted rep (redact_secrets rep v) \<and> redact_secrets rep (redact_secrets rep v) = redact_secrets rep v"
  using redact_no_leak redact_idem by blast

end
